(* ===== verification/Fw_Prelude.thy ===== *)
theory Fw_Prelude
  imports Main "HOL-Library.Word"
begin

text \<open>
  Shared vocabulary of the development: machine integers and bytes, the status codes of the
  firmware, sequencing of fallible C functions, byte buffers with offset reads and writes, and
  the little-endian and big-endian integer encodings of \<^verbatim>\<open>byteswap.h\<close> that every wire format uses.
  The locale \<open>byte_codec\<close> is the contract of a fixed-width encoding, \<open>invariant_machine\<close> the
  contract of a component driven by events, and \<open>byte_stream\<close> the contract of a component that
  consumes a byte stream in chunks of any size.
\<close>

unbundle bit_operations_syntax

named_theorems buf_simps "lengths and offset reads of byte buffers"
named_theorems codec_simps "fixed-width encodings"

type_synonym byte = "8 word"
type_synonym u16 = "16 word"
type_synonym u32 = "32 word"
type_synonym u64 = "64 word"
type_synonym bytes = "byte list"

section \<open>Status codes\<close>

text \<open>
  The code returns a negative \<^verbatim>\<open>errno\<close> value or zero. The model keeps the symbolic name.
  \<open>EINVAL_NO_ROOT_PATH\<close>, \<open>EINVAL_NO_TARGET\<close> and \<open>EINVAL_NO_SUBSYSTEM_NQN\<close> are the disambiguated
  codes of \<^verbatim>\<open>net/tcp/nvmetcp.c\<close>, those after them the ones of \<^verbatim>\<open>net/tls.c\<close>; \<open>EOTHER n\<close> is a code that an external function chose.
\<close>

datatype errno =
    EAGAIN | ENOMEM | EPROTO | EINVAL | EPERM | EIO | EACCES | ECONNRESET | ECANCELED
  | ENOENT | ENODEV | EEXIST | ENOSPC | ETIMEDOUT | ENOTSUP | ENOTTY
  | EINVAL_NO_ROOT_PATH | EINVAL_NO_TARGET | EINVAL_NO_SUBSYSTEM_NQN
  | EINVAL_ALERT | EINVAL_CHANGE_CIPHER | EINVAL_IV | EINVAL_MAC | EINVAL_RX_STATE | EIO_ALERT | ENOTCONN
  | ENOMEM_TX_PLAINTEXT | ENOMEM_RX_DATA | ENOMEM_RX_CONCAT | ENOTSUP_NULL | EPERM_ALERT | EPERM_RENEG_INSECURE
  | ENOMEM_CONTEXT | ENOTSUP_CIPHER | ENOTSUP_VERSION | EPROTO_VERSION | EINVAL_KEY_EXCHANGE | EINVAL_HELLO | EINVAL_TICKET | EINVAL_FINISHED
  | EPERM_VERIFY | EPERM_BOUND | EPERM_EMS | EPERM_RENEG_VERIFY
  | EOTHER nat

text \<open>
  A function with a return status returns \<open>OK\<close> or \<open>Err e\<close>. \<open>Fault\<close> stands for a memory access
  outside the object that the C code names (undefined behaviour in C): the model stops there, so
  that \<open>Fault\<close> being unreachable is memory safety and a reachable \<open>Fault\<close> is an overflow.
\<close>

datatype rc = OK | Err errno | Fault

text \<open>\<^verbatim>\<open>if ( ( rc = f() ) != 0 ) return rc;\<close> followed by the rest of the function.\<close>

definition then_ok :: "rc \<times> 's \<Rightarrow> ('s \<Rightarrow> rc \<times> 's) \<Rightarrow> rc \<times> 's" where
  "then_ok r k = (case r of (OK, s) \<Rightarrow> k s | (e, s) \<Rightarrow> (e, s))"

lemma then_ok_OK [simp]: "then_ok (OK, s) k = k s"
  by (simp add: then_ok_def)

lemma then_ok_Err [simp]: "then_ok (Err e, s) k = (Err e, s)"
  by (simp add: then_ok_def)

lemma then_ok_Fault [simp]: "then_ok (Fault, s) k = (Fault, s)"
  by (simp add: then_ok_def)

lemma then_ok_eq_OK:
  "then_ok r k = (OK, s') \<longleftrightarrow> (\<exists>s. r = (OK, s) \<and> k s = (OK, s'))"
  by (cases r; cases "fst r") auto

lemma then_ok_cases:
  assumes "then_ok r k = (c, s')"
  obtains (ok) s where "r = (OK, s)" and "k s = (c, s')"
    | (fail) "c \<noteq> OK" and "r = (c, s')"
  using assms by (cases r; cases "fst r") auto

lemma then_ok_state:
  assumes "P (snd r)" and "\<And>s. r = (OK, s) \<Longrightarrow> P (snd (k s))"
  shows "P (snd (then_ok r k))"
  using assms by (cases r; cases "fst r") auto

section \<open>Byte buffers\<close>

text \<open>\<open>put_at off bs buf\<close> is \<^verbatim>\<open>memcpy ( buf + off, bs, len )\<close> and \<open>get_at off n buf\<close> the \<open>n\<close> bytes at
  offset \<open>off\<close>; a caller that may leave the buffer tests for it and returns \<open>Fault\<close>.\<close>

definition put_at :: "nat \<Rightarrow> 'a list \<Rightarrow> 'a list \<Rightarrow> 'a list" where
  "put_at off bs buf = take off buf @ bs @ drop (off + length bs) buf"

definition get_at :: "nat \<Rightarrow> nat \<Rightarrow> 'a list \<Rightarrow> 'a list" where
  "get_at off n buf = take n (drop off buf)"

lemma length_put_at [simp, buf_simps]:
  "off + length bs \<le> length buf \<Longrightarrow> length (put_at off bs buf) = length buf"
  by (simp add: put_at_def)

lemma length_get_at [simp, buf_simps]: "length (get_at off n buf) = min n (length buf - off)"
  by (simp add: get_at_def min.commute)

lemma get_put_same [buf_simps]:
  "off \<le> length buf \<Longrightarrow> n = length bs \<Longrightarrow> get_at off n (put_at off bs buf) = bs"
  by (simp add: get_at_def put_at_def)

lemma get_at_take: "get_at off n buf = drop off (take (off + n) buf)"
  by (simp add: get_at_def take_drop add.commute)

lemma take_put_at: "m \<le> off \<Longrightarrow> off \<le> length buf \<Longrightarrow> take m (put_at off bs buf) = take m buf"
  by (simp add: put_at_def min_absorb1)

lemma get_put_before [buf_simps]:
  "off' + n \<le> off \<Longrightarrow> off \<le> length buf \<Longrightarrow> get_at off' n (put_at off bs buf) = get_at off' n buf"
  by (simp add: get_at_take take_put_at)

lemma get_put_after [buf_simps]:
  assumes "off + length bs \<le> off'" "off \<le> length buf"
  shows "get_at off' n (put_at off bs buf) = get_at off' n buf"
proof -
  have "drop off' (put_at off bs buf) = drop off' buf"
    using assms by (simp add: put_at_def)
  then show ?thesis by (simp add: get_at_def)
qed

lemma put_at_0 [simp]: "put_at 0 bs buf = bs @ drop (length bs) buf"
  by (simp add: put_at_def)

lemma put_at_Nil [simp]: "put_at off [] buf = buf"
  by (simp add: put_at_def)

text \<open>Two adjacent writes are one: what makes reassembly independent of how data was split.\<close>

lemma put_at_append:
  assumes "off + length xs + length ys \<le> length buf"
  shows "put_at (off + length xs) ys (put_at off xs buf) = put_at off (xs @ ys) buf"
  using assms by (simp add: put_at_def ac_simps)

lemma nth_put_at_outside:
  "off + length bs \<le> length buf \<Longrightarrow> i < off \<or> off + length bs \<le> i \<Longrightarrow> i < length buf \<Longrightarrow>
   put_at off bs buf ! i = buf ! i"
  by (auto simp: put_at_def nth_append)

lemma nth_put_at_inside:
  "off + length bs \<le> length buf \<Longrightarrow> off \<le> i \<Longrightarrow> i < off + length bs \<Longrightarrow>
   put_at off bs buf ! i = bs ! (i - off)"
  by (auto simp: put_at_def nth_append)

lemma get_at_append_left [buf_simps]:
  "off + n \<le> length xs \<Longrightarrow> get_at off n (xs @ ys) = get_at off n xs"
  by (simp add: get_at_def)

lemma get_at_append_right [buf_simps]:
  "length xs \<le> off \<Longrightarrow> get_at off n (xs @ ys) = get_at (off - length xs) n ys"
  by (simp add: get_at_def)

lemma get_at_all [simp]: "length xs \<le> n \<Longrightarrow> get_at 0 n xs = xs"
  by (simp add: get_at_def)

text \<open>The first \<open>n\<close> bytes, padded with zeros.\<close>

definition resize :: "nat \<Rightarrow> bytes \<Rightarrow> bytes" where
  "resize n b = take n b @ replicate (n - length b) 0"

lemma length_resize [simp]: "length (resize n b) = n"
  by (simp add: resize_def)

section \<open>Integer encodings\<close>

primrec to_le :: "nat \<Rightarrow> nat \<Rightarrow> bytes" where
  "to_le 0 v = []"
| "to_le (Suc n) v = of_nat v # to_le n (v div 256)"

primrec of_le :: "bytes \<Rightarrow> nat" where
  "of_le [] = 0"
| "of_le (b # bs) = unat b + 256 * of_le bs"

definition to_be :: "nat \<Rightarrow> nat \<Rightarrow> bytes" where
  "to_be n v = rev (to_le n v)"

definition of_be :: "bytes \<Rightarrow> nat" where
  "of_be bs = of_le (rev bs)"

lemma length_to_le [simp, codec_simps]: "length (to_le n v) = n"
  by (induction n arbitrary: v) auto

lemma length_to_be [simp, codec_simps]: "length (to_be n v) = n"
  by (simp add: to_be_def)

lemma of_le_to_le [codec_simps]: "of_le (to_le n v) = v mod 256 ^ n"
proof (induction n arbitrary: v)
  case (Suc n)
  have "unat (of_nat v :: byte) = v mod 256"
    by (simp add: unat_of_nat)
  moreover have "v mod 256 + 256 * (v div 256 mod 256 ^ n) = v mod (256 * 256 ^ n)"
    by (simp add: mod_mult2_eq)
  ultimately show ?case using Suc.IH by simp
qed simp

lemma of_be_to_be [codec_simps]: "of_be (to_be n v) = v mod 256 ^ n"
  by (simp add: of_be_def to_be_def of_le_to_le)

lemma unat_byte: "unat (b :: byte) < 256"
  using unsigned_less [of b] by simp

lemma of_le_bound: "of_le bs < 256 ^ length bs"
proof (induction bs)
  case (Cons b bs)
  have "unat b < 256" by (rule unat_byte)
  with Cons show ?case by simp
qed simp

lemma of_be_bound: "of_be bs < 256 ^ length bs"
  using of_le_bound [of "rev bs"] by (simp add: of_be_def)

lemma to_le_of_le: "to_le (length bs) (of_le bs) = bs"
proof (induction bs)
  case (Cons b bs)
  have b: "unat b < 256" by (rule unat_byte)
  have "(of_nat (unat b + 256 * of_le bs) :: byte) = b"
    by (rule word_unat_eq_iff [THEN iffD2]) (simp add: unat_of_nat b del: of_nat_add)
  moreover have "(unat b + 256 * of_le bs) div 256 = of_le bs"
    using b by simp
  ultimately show ?case using Cons by (simp del: of_nat_add)
qed simp

definition cpu_to_le16 :: "u16 \<Rightarrow> bytes" where "cpu_to_le16 w = to_le 2 (unat w)"
definition cpu_to_le32 :: "u32 \<Rightarrow> bytes" where "cpu_to_le32 w = to_le 4 (unat w)"
definition cpu_to_le64 :: "u64 \<Rightarrow> bytes" where "cpu_to_le64 w = to_le 8 (unat w)"
definition le16_to_cpu :: "bytes \<Rightarrow> u16" where "le16_to_cpu bs = of_nat (of_le bs)"
definition le32_to_cpu :: "bytes \<Rightarrow> u32" where "le32_to_cpu bs = of_nat (of_le bs)"
definition le64_to_cpu :: "bytes \<Rightarrow> u64" where "le64_to_cpu bs = of_nat (of_le bs)"

text \<open>The contract of a fixed-width encoding, and what follows for a field of a packed structure.\<close>

locale byte_codec =
  fixes width :: nat
    and enc :: "'a \<Rightarrow> bytes"
    and dec :: "bytes \<Rightarrow> 'a"
  assumes width_enc: "length (enc x) = width"
    and dec_enc: "dec (enc x) = x"
begin

lemma enc_inj: "enc x = enc y \<longleftrightarrow> x = y"
  by (metis dec_enc)

lemma dec_field: "off \<le> length buf \<Longrightarrow> dec (get_at off width (put_at off (enc x) buf)) = x"
  by (simp add: get_put_same width_enc dec_enc)

lemma dec_prefix: "dec (take width (enc x @ rest)) = x"
  by (simp add: width_enc dec_enc)

end

lemma unat_mod_len: "unat (w :: 'a::len word) mod 2 ^ LENGTH('a) = unat w"
  by (rule mod_less) (rule unsigned_less)

interpretation le16: byte_codec 2 cpu_to_le16 le16_to_cpu
proof unfold_locales
  fix w :: u16
  show "length (cpu_to_le16 w) = 2" by (simp add: cpu_to_le16_def)
  have "unat w mod 256 ^ 2 = unat w" using unat_mod_len [of w] by simp
  then show "le16_to_cpu (cpu_to_le16 w) = w"
    by (simp add: cpu_to_le16_def le16_to_cpu_def of_le_to_le)
qed

interpretation le32: byte_codec 4 cpu_to_le32 le32_to_cpu
proof unfold_locales
  fix w :: u32
  show "length (cpu_to_le32 w) = 4" by (simp add: cpu_to_le32_def)
  have "unat w mod 256 ^ 4 = unat w" using unat_mod_len [of w] by simp
  then show "le32_to_cpu (cpu_to_le32 w) = w"
    by (simp add: cpu_to_le32_def le32_to_cpu_def of_le_to_le)
qed

interpretation le64: byte_codec 8 cpu_to_le64 le64_to_cpu
proof unfold_locales
  fix w :: u64
  show "length (cpu_to_le64 w) = 8" by (simp add: cpu_to_le64_def)
  have "unat w mod 256 ^ 8 = unat w" using unat_mod_len [of w] by simp
  then show "le64_to_cpu (cpu_to_le64 w) = w"
    by (simp add: cpu_to_le64_def le64_to_cpu_def of_le_to_le)
qed

declare le16.width_enc [simp, codec_simps] le32.width_enc [simp, codec_simps]
  le64.width_enc [simp, codec_simps]
declare le16.dec_enc [simp, codec_simps] le32.dec_enc [simp, codec_simps]
  le64.dec_enc [simp, codec_simps]

section \<open>Contracts of event-driven components\<close>

text \<open>A component that consumes a byte stream: delivering a stream in any chunks is delivering it
  whole. \<open>feed\<close> delivers one chunk after the other and stops at the first error.\<close>

primrec feed :: "(bytes \<Rightarrow> 's \<Rightarrow> rc \<times> 's) \<Rightarrow> bytes list \<Rightarrow> 's \<Rightarrow> rc \<times> 's" where
  "feed d [] s = (OK, s)"
| "feed d (c # cs) s = then_ok (d c s) (feed d cs)"

locale byte_stream =
  fixes deliver :: "bytes \<Rightarrow> 's \<Rightarrow> rc \<times> 's"
    and inv :: "'s \<Rightarrow> bool"
  assumes deliver_Nil: "deliver [] s = (OK, s)"
    and deliver_append: "inv s \<Longrightarrow> deliver (xs @ ys) s = then_ok (deliver xs s) (deliver ys)"
    and deliver_inv: "inv s \<Longrightarrow> deliver xs s = (OK, s') \<Longrightarrow> inv s'"
begin

lemma feed_concat: "inv s \<Longrightarrow> feed deliver cs s = deliver (concat cs) s"
proof (induction cs arbitrary: s)
  case (Cons c cs)
  show ?case
  proof (cases "deliver c s")
    case (Pair r s')
    show ?thesis
    proof (cases "r = OK")
      case True
      with Pair Cons.prems have "inv s'" by (auto intro: deliver_inv)
      with Cons.IH Cons.prems Pair True show ?thesis by (simp add: deliver_append)
    next
      case False
      with Cons.prems Pair show ?thesis by (cases r) (simp_all add: deliver_append)
    qed
  qed
qed (simp add: deliver_Nil)

lemma rechunk: "inv s \<Longrightarrow> concat cs = concat ds \<Longrightarrow> feed deliver cs s = feed deliver ds s"
  by (simp add: feed_concat)

end

text \<open>A component driven by events: what every event keeps holds in every reachable state.\<close>

locale invariant_machine =
  fixes step :: "'s \<Rightarrow> 's \<Rightarrow> bool"
    and inv :: "'s \<Rightarrow> bool"
  assumes step_inv: "inv s \<Longrightarrow> step s s' \<Longrightarrow> inv s'"
begin

lemma reach_inv: "step\<^sup>*\<^sup>* s s' \<Longrightarrow> inv s \<Longrightarrow> inv s'"
  by (induction rule: rtranclp_induct) (auto intro: step_inv)

end

section \<open>Strings\<close>

text \<open>A C string as a list of characters without the terminating NUL, and its bytes.\<close>

definition str_bytes :: "string \<Rightarrow> bytes" where
  "str_bytes s = map of_char s"

lemma length_str_bytes [simp]: "length (str_bytes s) = length s"
  by (simp add: str_bytes_def)

lemma of_char_byte_inj: "(of_char c :: byte) = of_char d \<longleftrightarrow> c = d"
proof
  assume "(of_char c :: byte) = of_char d"
  then have "(of_nat (of_char c) :: byte) = of_nat (of_char d)"
    by (simp add: of_nat_of_char)
  moreover have "(of_char c :: nat) < 256" "(of_char d :: nat) < 256"
    by simp_all
  ultimately have "(of_char c :: nat) = of_char d"
    by (simp add: word_unat_eq_iff unat_of_nat)
  then show "c = d" by simp
qed simp

lemma str_bytes_inj: "str_bytes s = str_bytes t \<longleftrightarrow> s = t"
  unfolding str_bytes_def
  by (rule inj_map_eq_map) (simp add: inj_def of_char_byte_inj)

text \<open>Decimal and hexadecimal digits of an ASCII character.\<close>

definition char_code :: "char \<Rightarrow> nat" where
  "char_code c = of_char c"

definition is_digit :: "char \<Rightarrow> bool" where
  "is_digit c \<longleftrightarrow> 48 \<le> char_code c \<and> char_code c \<le> 57"

definition digit_val :: "char \<Rightarrow> nat" where
  "digit_val c = char_code c - 48"

lemma digit_val_less: "is_digit c \<Longrightarrow> digit_val c < 10"
  by (auto simp: is_digit_def digit_val_def)

text \<open>The decimal number that a digit string continues from \<open>a\<close>.\<close>

fun dec_val :: "nat \<Rightarrow> string \<Rightarrow> nat" where
  "dec_val a [] = a"
| "dec_val a (c # cs) = dec_val (a * 10 + digit_val c) cs"

lemma dec_val_ge: "a \<le> dec_val a cs"
proof (induction cs arbitrary: a)
  case (Cons c cs)
  have "a \<le> a * 10 + digit_val c" by simp
  with Cons [of "a * 10 + digit_val c"] show ?case by simp
qed simp

end
