(* ===== verification/Nvme_Wire.thy ===== *)
theory Nvme_Wire
  imports Fw_Prelude
begin

text \<open>
  The wire formats of \<^verbatim>\<open>include/ipxe/nvmetcp.h\<close>: the packed structures as records, each with the
  bytes it occupies, the decoders the receive path applies to its header buffer, and the parser
  \<^verbatim>\<open>nvmetcp_identify_ns\<close>. \<^verbatim>\<open>union nvme_command\<close> is its 64 bytes, since the transmit path writes
  through one member (\<open>common\<close>) what was built through another.
\<close>

section \<open>Protocol constants\<close>

abbreviation "NVMETCP_DEFAULT_PORT \<equiv> (4420 :: u16)"
abbreviation "NVMF_OPCODE \<equiv> (0x7f :: byte)"
abbreviation "NVMF_FCTYPE_PROPERTY_SET \<equiv> (0x00 :: byte)"
abbreviation "NVMF_FCTYPE_CONNECT \<equiv> (0x01 :: byte)"
abbreviation "NVMF_FCTYPE_AUTH_SEND \<equiv> (0x05 :: byte)"
abbreviation "NVMF_FCTYPE_AUTH_RECEIVE \<equiv> (0x06 :: byte)"
abbreviation "NVME_OPCODE_WRITE \<equiv> (0x01 :: byte)"
abbreviation "NVME_OPCODE_READ \<equiv> (0x02 :: byte)"
abbreviation "NVME_OPCODE_IDENTIFY \<equiv> (0x06 :: byte)"
abbreviation "NVME_IDENTIFY_NS \<equiv> (0x00 :: byte)"
abbreviation "NVME_IDENTIFY_CTRL \<equiv> (0x01 :: byte)"
abbreviation "NVME_IDENTIFY_DATA_SIZE \<equiv> (4096 :: nat)"
abbreviation "NVMF_NQN_FIELD_LEN \<equiv> (256 :: nat)"
abbreviation "NVMF_CONNECT_AUTHREQ_ATR \<equiv> (0x20000 :: u32)"
abbreviation "NVME_SC_AUTH_REQUIRED \<equiv> (0x0c :: u16)"

abbreviation "NVMETCP_PDU_ICREQ \<equiv> (0x00 :: byte)"
abbreviation "NVMETCP_PDU_ICRESP \<equiv> (0x01 :: byte)"
abbreviation "NVMETCP_PDU_H2CTERM \<equiv> (0x02 :: byte)"
abbreviation "NVMETCP_PDU_C2HTERM \<equiv> (0x03 :: byte)"
abbreviation "NVMETCP_PDU_COMMAND \<equiv> (0x04 :: byte)"
abbreviation "NVMETCP_PDU_RESPONSE \<equiv> (0x05 :: byte)"
abbreviation "NVMETCP_PDU_H2CDATA \<equiv> (0x06 :: byte)"
abbreviation "NVMETCP_PDU_C2HDATA \<equiv> (0x07 :: byte)"
abbreviation "NVMETCP_PDU_R2T \<equiv> (0x09 :: byte)"

abbreviation "NVMETCP_PFV \<equiv> (0 :: u16)"
abbreviation "NVMETCP_DIGEST_HDR \<equiv> (0x01 :: byte)"
abbreviation "NVMETCP_DIGEST_DATA \<equiv> (0x02 :: byte)"
abbreviation "NVME_SGL_FMT_DATA_DESC \<equiv> (0x00 :: byte)"
abbreviation "NVME_TRANSPORT_SGL_DATA_DESC \<equiv> (0x05 :: byte)"
abbreviation "NVME_SGL_FMT_OFFSET \<equiv> (0x01 :: byte)"
abbreviation "NVME_SGL_FMT_TRANSPORT_A \<equiv> (0x02 :: byte)"
abbreviation "NVME_CMD_SGL_METABUF \<equiv> (0x40 :: byte)"
abbreviation "NVME_REG_CC \<equiv> (0x14 :: u32)"
abbreviation "NVME_CC_ENABLE \<equiv> (1 :: u64)"
abbreviation "NVME_CC_IOSQES_SHIFT \<equiv> (16 :: nat)"
abbreviation "NVME_CC_IOCQES_SHIFT \<equiv> (20 :: nat)"
abbreviation "NVME_NVM_IOSQES \<equiv> (6 :: u64)"
abbreviation "NVME_NVM_IOCQES \<equiv> (4 :: u64)"
abbreviation "NVMETCP_MAX_CMD_DATA \<equiv> (4096 :: nat)"
abbreviation "NVMETCP_HDR_SIZE \<equiv> (128 :: nat)"

abbreviation "NVME_AUTH_COMMON_MESSAGES \<equiv> (0x00 :: byte)"
abbreviation "NVME_AUTH_DHCHAP_MESSAGES \<equiv> (0x01 :: byte)"
abbreviation "NVME_AUTH_DHCHAP_MESSAGE_NEGOTIATE \<equiv> (0x00 :: byte)"
abbreviation "NVME_AUTH_DHCHAP_MESSAGE_CHALLENGE \<equiv> (0x01 :: byte)"
abbreviation "NVME_AUTH_DHCHAP_MESSAGE_REPLY \<equiv> (0x02 :: byte)"
abbreviation "NVME_AUTH_DHCHAP_MESSAGE_SUCCESS1 \<equiv> (0x03 :: byte)"
abbreviation "NVME_AUTH_DHCHAP_MESSAGE_FAILURE1 \<equiv> (0xf1 :: byte)"
abbreviation "NVME_AUTH_DHCHAP_AUTH_ID \<equiv> (0x01 :: byte)"
abbreviation "NVME_AUTH_HASH_SHA256 \<equiv> (0x01 :: byte)"
abbreviation "NVME_AUTH_HASH_SHA384 \<equiv> (0x02 :: byte)"
abbreviation "NVME_AUTH_HASH_SHA512 \<equiv> (0x03 :: byte)"
abbreviation "NVME_AUTH_DHGROUP_NULL \<equiv> (0x00 :: byte)"
abbreviation "NVME_AUTH_DHGROUP_2048 \<equiv> (0x01 :: byte)"
abbreviation "NVME_AUTH_DHGROUP_3072 \<equiv> (0x02 :: byte)"
abbreviation "NVME_AUTH_DHGROUP_4096 \<equiv> (0x03 :: byte)"
abbreviation "NVME_AUTH_SECP_NOSC \<equiv> (0x00 :: byte)"
abbreviation "NVME_AUTH_DHCHAP_PROTOCOL_IDENTIFIER \<equiv> (0xe9 :: byte)"
abbreviation "NVME_AUTH_DHCHAP_MAX_DH_IDS \<equiv> (30 :: nat)"
abbreviation "NVME_AUTH_MAX_DIGEST_SIZE \<equiv> (64 :: nat)"
abbreviation "NVME_AUTH_MAX_DH_SIZE \<equiv> (512 :: nat)"

abbreviation zeros :: "nat \<Rightarrow> bytes" where
  "zeros n \<equiv> replicate n 0"

section \<open>PDU headers\<close>

record nvmetcp_pdu_header =
  ph_type :: byte
  ph_flags :: byte
  ph_hlen :: byte
  ph_pdo :: byte
  ph_plen :: u32

definition enc_pdu_header :: "nvmetcp_pdu_header \<Rightarrow> bytes" where
  "enc_pdu_header h = [ph_type h, ph_flags h, ph_hlen h, ph_pdo h] @ cpu_to_le32 (ph_plen h)"

definition dec_pdu_header :: "bytes \<Rightarrow> nvmetcp_pdu_header" where
  "dec_pdu_header b = \<lparr>ph_type = b ! 0, ph_flags = b ! 1, ph_hlen = b ! 2, ph_pdo = b ! 3,
     ph_plen = le32_to_cpu (get_at 4 4 b)\<rparr>"

record nvmetcp_icreq =
  iq_hdr :: nvmetcp_pdu_header
  iq_pfv :: u16
  iq_hpda :: byte
  iq_digest :: byte
  iq_maxr2t :: u32

definition enc_icreq :: "nvmetcp_icreq \<Rightarrow> bytes" where
  "enc_icreq q = enc_pdu_header (iq_hdr q) @ cpu_to_le16 (iq_pfv q) @ [iq_hpda q, iq_digest q]
     @ cpu_to_le32 (iq_maxr2t q) @ zeros 112"

record nvmetcp_icresp =
  ir_hdr :: nvmetcp_pdu_header
  ir_pfv :: u16
  ir_cpda :: byte
  ir_digest :: byte
  ir_maxdata :: u32

definition dec_icresp :: "bytes \<Rightarrow> nvmetcp_icresp" where
  "dec_icresp b = \<lparr>ir_hdr = dec_pdu_header b, ir_pfv = le16_to_cpu (get_at 8 2 b), ir_cpda = b ! 10,
     ir_digest = b ! 11, ir_maxdata = le32_to_cpu (get_at 12 4 b)\<rparr>"

definition enc_icresp :: "nvmetcp_icresp \<Rightarrow> bytes" where
  "enc_icresp q = enc_pdu_header (ir_hdr q) @ cpu_to_le16 (ir_pfv q) @ [ir_cpda q, ir_digest q]
     @ cpu_to_le32 (ir_maxdata q) @ zeros 112"

section \<open>NVMe commands\<close>

text \<open>\<^verbatim>\<open>struct nvme_sgl_desc\<close>: address, length, three reserved bytes and the type.\<close>

record nvme_sgl_desc =
  sgl_addr :: u64
  sgl_length :: u32
  sgl_type :: byte

definition enc_sgl :: "nvme_sgl_desc \<Rightarrow> bytes" where
  "enc_sgl g = cpu_to_le64 (sgl_addr g) @ cpu_to_le32 (sgl_length g) @ zeros 3 @ [sgl_type g]"

text \<open>Offsets of \<^verbatim>\<open>struct nvme_common_command\<close>, through which the transmit path accesses any command:
  \<open>flags\<close> at 1 and the SGL of the data pointer at 24.\<close>

definition set_common_flags :: "byte \<Rightarrow> bytes \<Rightarrow> bytes" where
  "set_common_flags f cmd = put_at 1 [(cmd ! 1) OR f] cmd"

definition set_common_sgl :: "nvme_sgl_desc \<Rightarrow> bytes \<Rightarrow> bytes" where
  "set_common_sgl g cmd = put_at 24 (enc_sgl g) cmd"

record nvme_identify =
  id_opcode :: byte
  id_command_id :: u16
  id_nsid :: u32
  id_cns :: byte

definition enc_identify :: "nvme_identify \<Rightarrow> bytes" where
  "enc_identify c = [id_opcode c, 0] @ cpu_to_le16 (id_command_id c) @ cpu_to_le32 (id_nsid c)
     @ zeros 16 @ zeros 16 @ [id_cns c, 0] @ zeros 2 @ zeros 2 @ [0, 0] @ zeros 16"

record nvme_rw_command =
  rw_opcode :: byte
  rw_command_id :: u16
  rw_nsid :: u32
  rw_slba :: u64
  rw_length :: u16

definition enc_rw :: "nvme_rw_command \<Rightarrow> bytes" where
  "enc_rw c = [rw_opcode c, 0] @ cpu_to_le16 (rw_command_id c) @ cpu_to_le32 (rw_nsid c)
     @ zeros 4 @ zeros 4 @ zeros 8 @ zeros 16 @ cpu_to_le64 (rw_slba c) @ cpu_to_le16 (rw_length c)
     @ zeros 2 @ zeros 4 @ zeros 4 @ zeros 2 @ zeros 2"

record nvmf_connect_command =
  cn_opcode :: byte
  cn_command_id :: u16
  cn_fctype :: byte
  cn_qid :: u16
  cn_sqsize :: u16
  cn_kato :: u32

definition enc_connect :: "nvmf_connect_command \<Rightarrow> bytes" where
  "enc_connect c = [cn_opcode c, 0] @ cpu_to_le16 (cn_command_id c) @ [cn_fctype c] @ zeros 19
     @ zeros 16 @ zeros 2 @ cpu_to_le16 (cn_qid c) @ cpu_to_le16 (cn_sqsize c) @ [0, 0]
     @ cpu_to_le32 (cn_kato c) @ zeros 12"

record nvmf_property_set_command =
  ps_opcode :: byte
  ps_command_id :: u16
  ps_fctype :: byte
  ps_offset :: u32
  ps_value :: u64

definition enc_prop_set :: "nvmf_property_set_command \<Rightarrow> bytes" where
  "enc_prop_set c = [ps_opcode c, 0] @ cpu_to_le16 (ps_command_id c) @ [ps_fctype c] @ zeros 35
     @ [0] @ zeros 3 @ cpu_to_le32 (ps_offset c) @ cpu_to_le64 (ps_value c) @ zeros 8"

record nvmf_auth_common_command =
  ac_opcode :: byte
  ac_command_id :: u16
  ac_fctype :: byte
  ac_spsp0 :: byte
  ac_spsp1 :: byte
  ac_secp :: byte
  ac_al_tl :: u32

definition enc_auth :: "nvmf_auth_common_command \<Rightarrow> bytes" where
  "enc_auth c = [ac_opcode c, 0] @ cpu_to_le16 (ac_command_id c) @ [ac_fctype c] @ zeros 19
     @ zeros 16 @ [0, ac_spsp0 c, ac_spsp1 c, ac_secp c] @ cpu_to_le32 (ac_al_tl c) @ zeros 16"

section \<open>Completions, data and R2T PDUs\<close>

record nvme_completion =
  cq_result :: u64
  cq_sq_head :: u16
  cq_sq_id :: u16
  cq_command_id :: u16
  cq_status :: u16

definition enc_completion :: "nvme_completion \<Rightarrow> bytes" where
  "enc_completion q = cpu_to_le64 (cq_result q) @ cpu_to_le16 (cq_sq_head q)
     @ cpu_to_le16 (cq_sq_id q) @ cpu_to_le16 (cq_command_id q) @ cpu_to_le16 (cq_status q)"

definition dec_completion :: "bytes \<Rightarrow> nvme_completion" where
  "dec_completion b = \<lparr>cq_result = le64_to_cpu (get_at 0 8 b), cq_sq_head = le16_to_cpu (get_at 8 2 b),
     cq_sq_id = le16_to_cpu (get_at 10 2 b), cq_command_id = le16_to_cpu (get_at 12 2 b),
     cq_status = le16_to_cpu (get_at 14 2 b)\<rparr>"

text \<open>\<^verbatim>\<open>result.u32\<close>: the low half of the result union on a little-endian host.\<close>

definition cq_result_u32 :: "nvme_completion \<Rightarrow> u32" where
  "cq_result_u32 q = ucast (cq_result q)"

text \<open>\<^verbatim>\<open>struct nvmetcp_rsp_pdu\<close>: the completion follows the header.\<close>

definition dec_rsp_cqe :: "bytes \<Rightarrow> nvme_completion" where
  "dec_rsp_cqe b = dec_completion (get_at 8 16 b)"

record nvmetcp_data_pdu =
  dp_hdr :: nvmetcp_pdu_header
  dp_command_id :: u16
  dp_ttag :: u16
  dp_data_offset :: u32
  dp_data_length :: u32

definition enc_data_pdu :: "nvmetcp_data_pdu \<Rightarrow> bytes" where
  "enc_data_pdu p = enc_pdu_header (dp_hdr p) @ cpu_to_le16 (dp_command_id p) @ cpu_to_le16 (dp_ttag p)
     @ cpu_to_le32 (dp_data_offset p) @ cpu_to_le32 (dp_data_length p) @ zeros 4"

definition dec_data_pdu :: "bytes \<Rightarrow> nvmetcp_data_pdu" where
  "dec_data_pdu b = \<lparr>dp_hdr = dec_pdu_header b, dp_command_id = le16_to_cpu (get_at 8 2 b),
     dp_ttag = le16_to_cpu (get_at 10 2 b), dp_data_offset = le32_to_cpu (get_at 12 4 b),
     dp_data_length = le32_to_cpu (get_at 16 4 b)\<rparr>"

record nvmetcp_r2t_pdu =
  r2_hdr :: nvmetcp_pdu_header
  r2_command_id :: u16
  r2_ttag :: u16
  r2_offset :: u32
  r2_length :: u32

definition dec_r2t_pdu :: "bytes \<Rightarrow> nvmetcp_r2t_pdu" where
  "dec_r2t_pdu b = \<lparr>r2_hdr = dec_pdu_header b, r2_command_id = le16_to_cpu (get_at 8 2 b),
     r2_ttag = le16_to_cpu (get_at 10 2 b), r2_offset = le32_to_cpu (get_at 12 4 b),
     r2_length = le32_to_cpu (get_at 16 4 b)\<rparr>"

definition enc_r2t_pdu :: "nvmetcp_r2t_pdu \<Rightarrow> bytes" where
  "enc_r2t_pdu p = enc_pdu_header (r2_hdr p) @ cpu_to_le16 (r2_command_id p) @ cpu_to_le16 (r2_ttag p)
     @ cpu_to_le32 (r2_offset p) @ cpu_to_le32 (r2_length p) @ zeros 4"

section \<open>Connect data\<close>

text \<open>\<^verbatim>\<open>strncpy\<close> into a zeroed field of \<open>n\<close> bytes with the last byte left alone: at most \<open>n - 1\<close>
  bytes of the string, then zeros.\<close>

definition strncpy_field :: "nat \<Rightarrow> string \<Rightarrow> bytes" where
  "strncpy_field n s = (let b = take (n - 1) (str_bytes s) in b @ zeros (n - length b))"

record nvmf_connect_data =
  cd_hostid :: bytes
  cd_cntlid :: u16
  cd_subsysnqn :: bytes
  cd_hostnqn :: bytes

definition enc_connect_data :: "nvmf_connect_data \<Rightarrow> bytes" where
  "enc_connect_data d = cd_hostid d @ cpu_to_le16 (cd_cntlid d) @ zeros 238 @ cd_subsysnqn d
     @ cd_hostnqn d @ zeros 256"

section \<open>Authentication messages\<close>

text \<open>\<^verbatim>\<open>struct nvmf_auth_dhchap_negotiate_data\<close> with one \<^verbatim>\<open>nvmf_auth_dhchap_protocol_descriptor\<close>.\<close>

record nvmf_auth_dhchap_negotiate =
  ng_auth_type :: byte
  ng_auth_id :: byte
  ng_t_id :: u16
  ng_sc_c :: byte
  ng_napd :: byte
  ng_authid :: byte
  ng_halen :: byte
  ng_dhlen :: byte
  ng_idlist :: bytes

definition enc_negotiate :: "nvmf_auth_dhchap_negotiate \<Rightarrow> bytes" where
  "enc_negotiate g = [ng_auth_type g, ng_auth_id g, 0, 0] @ cpu_to_le16 (ng_t_id g)
     @ [ng_sc_c g, ng_napd g, ng_authid g, 0, ng_halen g, ng_dhlen g] @ ng_idlist g"

record nvmf_auth_dhchap_challenge_data =
  ch_auth_type :: byte
  ch_auth_id :: byte
  ch_t_id :: u16
  ch_hl :: byte
  ch_hashid :: byte
  ch_dhgid :: byte
  ch_dhvlen :: u16
  ch_seqnum :: u32

definition dec_challenge :: "bytes \<Rightarrow> nvmf_auth_dhchap_challenge_data" where
  "dec_challenge b = \<lparr>ch_auth_type = b ! 0, ch_auth_id = b ! 1, ch_t_id = le16_to_cpu (get_at 4 2 b),
     ch_hl = b ! 6, ch_hashid = b ! 8, ch_dhgid = b ! 9, ch_dhvlen = le16_to_cpu (get_at 10 2 b),
     ch_seqnum = le32_to_cpu (get_at 12 4 b)\<rparr>"

record nvmf_auth_dhchap_reply_data =
  rp_auth_type :: byte
  rp_auth_id :: byte
  rp_t_id :: u16
  rp_hl :: byte
  rp_dhvlen :: u16
  rp_seqnum :: u32

definition enc_reply :: "nvmf_auth_dhchap_reply_data \<Rightarrow> bytes" where
  "enc_reply r = [rp_auth_type r, rp_auth_id r, 0, 0] @ cpu_to_le16 (rp_t_id r)
     @ [rp_hl r, 0, 0, 0] @ cpu_to_le16 (rp_dhvlen r) @ cpu_to_le32 (rp_seqnum r)"

record nvmf_auth_dhchap_success1_data =
  s1_hl :: byte
  s1_rvalid :: byte

definition dec_success1 :: "bytes \<Rightarrow> nvmf_auth_dhchap_success1_data" where
  "dec_success1 b = \<lparr>s1_hl = b ! 6, s1_rvalid = b ! 8\<rparr>"

record nvmf_auth_dhchap_failure_data =
  fl_auth_type :: byte
  fl_auth_id :: byte
  fl_t_id :: u16
  fl_rescode :: byte
  fl_rescode_exp :: byte

definition dec_failure :: "bytes \<Rightarrow> nvmf_auth_dhchap_failure_data" where
  "dec_failure b = \<lparr>fl_auth_type = b ! 0, fl_auth_id = b ! 1, fl_t_id = le16_to_cpu (get_at 4 2 b),
     fl_rescode = b ! 6, fl_rescode_exp = b ! 7\<rparr>"

section \<open>Identify Namespace\<close>

record block_device_capacity =
  cap_blocks :: u64
  cap_blksize :: nat
  cap_max_count :: nat

text \<open>\<^verbatim>\<open>1U << lbads\<close> is computed in 32 bits; \<^verbatim>\<open>lbads\<close> is at most 31 there. The capacity is written only
  on success.\<close>

definition nvmetcp_identify_ns :: "bytes \<Rightarrow> block_device_capacity \<Rightarrow> rc \<times> block_device_capacity" where
  "nvmetcp_identify_ns data capacity =
     (let nsze = le64_to_cpu (get_at 0 8 data);
          flbas = data ! 26;
          fmt = unat (flbas AND 0x0f);
          lbads = data ! (128 + fmt * 4 + 2)
      in if fmt \<ge> 16 \<or> lbads = 0 \<or> lbads > 31 then (Err EPROTO, capacity)
         else let blksize = unat (push_bit (unat lbads) 1 :: u32)
              in (OK, \<lparr>cap_blocks = nsze, cap_blksize = blksize,
                       cap_max_count = NVMETCP_MAX_CMD_DATA div blksize\<rparr>))"

section \<open>Layout facts\<close>

lemma length_enc_pdu_header [simp]: "length (enc_pdu_header h) = 8"
  by (simp add: enc_pdu_header_def)

lemma dec_enc_pdu_header_append [simp]: "dec_pdu_header (enc_pdu_header h @ rest) = h"
  by (simp add: dec_pdu_header_def enc_pdu_header_def get_at_def)

interpretation pduhdr: byte_codec 8 enc_pdu_header dec_pdu_header
  by unfold_locales (simp, metis append_Nil2 dec_enc_pdu_header_append)

interpretation cqe: byte_codec 16 enc_completion dec_completion
  by unfold_locales (simp_all add: enc_completion_def dec_completion_def get_at_def)

interpretation datapdu: byte_codec 24 enc_data_pdu dec_data_pdu
  by unfold_locales (simp_all add: enc_data_pdu_def dec_data_pdu_def get_at_def)

interpretation r2tpdu: byte_codec 24 enc_r2t_pdu dec_r2t_pdu
  by unfold_locales (simp_all add: enc_r2t_pdu_def dec_r2t_pdu_def get_at_def)

interpretation icresppdu: byte_codec 128 enc_icresp dec_icresp
  by unfold_locales (simp_all add: enc_icresp_def dec_icresp_def get_at_def nth_append)

lemma length_enc_icreq [simp]: "length (enc_icreq q) = 128"
  by (simp add: enc_icreq_def)

lemma length_enc_sgl [simp]: "length (enc_sgl g) = 16"
  by (simp add: enc_sgl_def)

lemma length_enc_commands [simp]:
  "length (enc_identify i) = 64" "length (enc_rw w) = 64" "length (enc_connect c) = 64"
  "length (enc_prop_set p) = 64" "length (enc_auth a) = 64"
  by (simp_all add: enc_identify_def enc_rw_def enc_connect_def enc_prop_set_def enc_auth_def)

lemma length_set_common [simp]:
  "length cmd = 64 \<Longrightarrow> length (set_common_flags f cmd) = 64"
  "length cmd = 64 \<Longrightarrow> length (set_common_sgl g cmd) = 64"
  by (simp_all add: set_common_flags_def set_common_sgl_def)

lemma length_strncpy_field [simp]: "0 < n \<Longrightarrow> length (strncpy_field n s) = n"
  by (simp add: strncpy_field_def Let_def)

lemma length_enc_connect_data [simp]:
  "length (cd_hostid d) = 16 \<Longrightarrow> length (cd_subsysnqn d) = 256 \<Longrightarrow> length (cd_hostnqn d) = 256 \<Longrightarrow>
   length (enc_connect_data d) = 1024"
  by (simp add: enc_connect_data_def)

lemma length_enc_reply [simp]: "length (enc_reply r) = 16"
  by (simp add: enc_reply_def)

lemma length_enc_negotiate [simp]: "length (ng_idlist g) = 60 \<Longrightarrow> length (enc_negotiate g) = 72"
  by (simp add: enc_negotiate_def)

text \<open>Reading back an NQN field up to its terminator gives the string, when it fits and has no NUL.\<close>

definition field_string :: "bytes \<Rightarrow> bytes" where
  "field_string b = takeWhile (\<lambda>c. c \<noteq> 0) b"

lemma of_char_eq_0: "(of_char c :: byte) = 0 \<longleftrightarrow> c = CHR 0x00"
  using of_char_byte_inj [of c "CHR 0x00"] by simp

lemma field_string_strncpy:
  assumes "length s < n" and "CHR 0x00 \<notin> set s"
  shows "field_string (strncpy_field n s) = str_bytes s"
proof -
  have "\<forall>b \<in> set (str_bytes s). b \<noteq> 0"
    using assms(2) by (auto simp: str_bytes_def of_char_eq_0)
  then have "takeWhile (\<lambda>c. c \<noteq> 0) (str_bytes s @ zeros (n - length s)) = str_bytes s"
    using assms(1) by (subst takeWhile_append2) (auto simp: takeWhile_replicate)
  with assms(1) show ?thesis
    by (simp add: field_string_def strncpy_field_def Let_def)
qed

end
