(* ===== verification/Nvme_Session.thy ===== *)
theory Nvme_Session
  imports Nvme_Wire
begin

text \<open>
  The state of an NVMe/TCP session (\<^verbatim>\<open>struct nvmetcp_session\<close>, \<^verbatim>\<open>struct nvmetcp_auth\<close>,
  \<^verbatim>\<open>struct nvmetcp_rx\<close> of \<^verbatim>\<open>include/ipxe/nvmetcp.h\<close>) and the transmit half of
  \<^verbatim>\<open>net/tcp/nvmetcp.c\<close>: from \<^verbatim>\<open>nvmetcp_close\<close> to \<^verbatim>\<open>nvmetcp_tx_h2cdata\<close>.

  What lies outside the repository is the record \<open>nv_env\<close>: the TCP window, memory allocation, the
  random number generator, the digest, HMAC and Diffie-Hellman implementations, the settings and
  base64 and CRC32 of iPXE. Queries that may be answered differently each time carry the number of
  the query; the session counts them in \<open>clk\<close>. A theorem about every \<open>nv_env\<close> is a theorem about
  every behaviour of that environment. What the session does to its environment is recorded in
  \<open>tx_log\<close> (buffers handed to a socket, oldest first) and \<open>events\<close> (what the block consumer sees).
\<close>

section \<open>State\<close>

datatype nvmetcp_phase =
    PHASE_ICREQ | PHASE_CONNECT_ADMIN | PHASE_AUTH | PHASE_PROP_SET | PHASE_IDENTIFY_CTRL
  | PHASE_IDENTIFY_NS | PHASE_ICREQ_IO | PHASE_CONNECT_IO | PHASE_READY | PHASE_FAILED

datatype nvmetcp_auth_steps =
    STEP_START | STEP_COMPLETE_NEGOTIATE | STEP_CHALLENGE | STEP_COMPLETE_REPLY | STEP_SUCCESS1

text \<open>The two queue connections, and with them their receive states.\<close>

datatype sock = Admin | IO

datatype hash_alg = SHA256 | SHA384 | SHA512
datatype dh_group = FFDHE2048 | FFDHE3072 | FFDHE4096

record nvmetcp_auth =
  au_step :: nvmetcp_auth_steps
  au_completed :: bool
  au_rx_complete :: bool
  au_rx_cid :: u16
  au_transaction :: u16
  au_seqnum :: u32
  au_hash_id :: byte
  au_dhgid :: byte
  au_hl :: nat
  au_dhvlen :: u16
  au_cval :: bytes
  au_session_key :: bytes
  au_priv_key :: bytes
  au_pub_key :: bytes

record nvmetcp_rx =
  rx_hdr :: bytes
  rx_hdr_len :: nat
  rx_hdr_expect :: nat
  rx_data_expect :: nat
  rx_data_len :: nat

text \<open>What the rest of the firmware sees: the command interface restarted with a status, a capacity
  reported, the completion interface attached, the whole session shut down, a connection opened
  (in the clear, or through TLS with a pre-shared key and its identity).\<close>

datatype nv_event =
    Restart rc
  | Capacity block_device_capacity
  | Plug nat
  | Shutdown rc
  | Connected sock "(bytes \<times> string) option"

record nvmetcp_session =
  process :: bool
  phase :: nvmetcp_phase
  cid :: u16
  cntlid :: u16
  target_host :: "string option"
  target_port :: u16
  tls_psk :: "string option"
  tls_trsvcid :: "string option"
  subsystem_nqn :: "string option"
  host_nqn :: "string option"
  secret :: "string option"
  pfv :: u16
  hdr_digest :: byte
  data_digest :: byte
  maxdata :: u32
  cmd :: bytes
  cmd_buf :: bytes
  cmd_data_len :: nat
  cmd_data_offset :: nat
  cqe :: nvme_completion
  tx_in_flight :: bool
  block_data :: "nat option"
  block_buffer :: bytes
  block_len :: nat
  block_writing :: bool
  capacity_data :: "nat option"
  rx_admin :: nvmetcp_rx
  rx_io :: nvmetcp_rx
  nsid :: u32
  capacity :: block_device_capacity
  auth :: nvmetcp_auth
  tx_log :: "(sock \<times> bytes) list"
  events :: "nv_event list"
  clk :: nat

text \<open>
  The environment. \<open>e_window n s\<close> is what \<^verbatim>\<open>xfer_window\<close> returns for socket \<open>s\<close> at query \<open>n\<close>,
  \<open>e_alloc n l\<close> whether an allocation of \<open>l\<close> bytes succeeds, \<open>e_random\<close> is \<^verbatim>\<open>get_random_nz\<close>,
  \<open>e_stack n l\<close> the \<open>l\<close> bytes an automatic array holds before it is written, \<open>e_base64\<close> is
  \<^verbatim>\<open>base64_decode\<close> (a decoded value or an error), \<open>e_open\<close> the outcome of opening a connection.
\<close>

record nv_env =
  e_window :: "nat \<Rightarrow> sock \<Rightarrow> nat"
  e_alloc :: "nat \<Rightarrow> nat \<Rightarrow> bool"
  e_random :: "nat \<Rightarrow> nat \<Rightarrow> errno + bytes"
  e_stack :: "nat \<Rightarrow> nat \<Rightarrow> bytes"
  e_open :: "nat \<Rightarrow> sock \<Rightarrow> rc"
  e_digestsize :: "hash_alg \<Rightarrow> nat"
  e_ctxsize :: "hash_alg \<Rightarrow> nat"
  e_hmac_ctxsize :: "hash_alg \<Rightarrow> nat"
  e_hash :: "hash_alg \<Rightarrow> bytes \<Rightarrow> bytes"
  e_hmac :: "hash_alg \<Rightarrow> bytes \<Rightarrow> bytes \<Rightarrow> bytes"
  e_privsize :: "dh_group \<Rightarrow> nat"
  e_pubsize :: "dh_group \<Rightarrow> nat"
  e_share :: "dh_group \<Rightarrow> bytes \<Rightarrow> errno + bytes"
  e_agree :: "dh_group \<Rightarrow> bytes \<Rightarrow> bytes \<Rightarrow> errno + bytes"
  e_base64 :: "string \<Rightarrow> errno + bytes"
  e_crc32_le :: "u32 \<Rightarrow> bytes \<Rightarrow> u32"
  e_uuid :: "bytes option"
  e_uuid_ntoa :: "bytes \<Rightarrow> string"
  e_hostnqn :: "string option"

text \<open>A string field that \<^verbatim>\<open>nvmetcp_open\<close> has set before the session is reachable
  (\<open>session_ok\<close> below keeps both NQNs set).\<close>

definition cstr :: "string option \<Rightarrow> string" where
  "cstr p = (case p of Some t \<Rightarrow> t | None \<Rightarrow> [])"

text \<open>\<^verbatim>\<open>malloc\<close>: one query of the environment.\<close>

definition alloc :: "nv_env \<Rightarrow> nat \<Rightarrow> nvmetcp_session \<Rightarrow> bool \<times> nvmetcp_session" where
  "alloc E n s = (e_alloc E (clk s) n, s\<lparr>clk := Suc (clk s)\<rparr>)"

section \<open>Receive state\<close>

definition nvmetcp_rx_reset :: "nvmetcp_rx \<Rightarrow> nvmetcp_rx" where
  "nvmetcp_rx_reset rx = rx\<lparr>rx_hdr_len := 0, rx_hdr_expect := 8, rx_data_expect := 0,
     rx_data_len := 0\<rparr>"

definition get_rx :: "sock \<Rightarrow> nvmetcp_session \<Rightarrow> nvmetcp_rx" where
  "get_rx k s = (case k of Admin \<Rightarrow> rx_admin s | IO \<Rightarrow> rx_io s)"

definition set_rx :: "sock \<Rightarrow> nvmetcp_rx \<Rightarrow> nvmetcp_session \<Rightarrow> nvmetcp_session" where
  "set_rx k r s = (case k of Admin \<Rightarrow> s\<lparr>rx_admin := r\<rparr> | IO \<Rightarrow> s\<lparr>rx_io := r\<rparr>)"

section \<open>Closing\<close>

definition nvmetcp_close :: "nvmetcp_session \<Rightarrow> rc \<Rightarrow> nvmetcp_session" where
  "nvmetcp_close s rc0 =
     (let rc = (if rc0 = OK then Err ECONNRESET else rc0);
          s = (if capacity_data s \<noteq> None
               then s\<lparr>capacity_data := None, events := events s @ [Restart rc]\<rparr> else s)
      in s\<lparr>process := False, events := events s @ [Shutdown rc]\<rparr>)"

section \<open>Transmission\<close>

text \<open>\<^verbatim>\<open>xfer_deliver_iob\<close> hands one buffer to the socket. An upcall that the transport may make while
  it accepts the buffer reaches only \<^verbatim>\<open>nvmetcp_tx_resume\<close>, whose one effect (the process flag) the
  \<^verbatim>\<open>process_del\<close> that follows removes.\<close>

definition xfer_send :: "sock \<Rightarrow> bytes \<Rightarrow> nvmetcp_session \<Rightarrow> nvmetcp_session" where
  "xfer_send k b s = s\<lparr>tx_log := tx_log s @ [(k, b)], tx_in_flight := True, process := False\<rparr>"

definition nvmetcp_tx_data :: "nv_env \<Rightarrow> sock \<Rightarrow> bytes \<Rightarrow> nvmetcp_session \<Rightarrow> rc \<times> nvmetcp_session" where
  "nvmetcp_tx_data E k data s =
     (let s1 = s\<lparr>clk := Suc (clk s)\<rparr> in
      if e_window E (clk s) k < length data then (Err EAGAIN, s1)
      else let s2 = s1\<lparr>clk := Suc (clk s1)\<rparr> in
           if \<not> e_alloc E (clk s1) (length data) then (Err ENOMEM, s2)
           else (OK, xfer_send k data s2))"

definition nvmetcp_tx_pdu ::
  "nv_env \<Rightarrow> sock \<Rightarrow> bytes \<Rightarrow> bytes \<Rightarrow> nvmetcp_session \<Rightarrow> rc \<times> nvmetcp_session" where
  "nvmetcp_tx_pdu E k hdr data s =
     (let s1 = s\<lparr>clk := Suc (clk s)\<rparr> in
      if e_window E (clk s) k = 0 then (Err EAGAIN, s1)
      else let s2 = s1\<lparr>clk := Suc (clk s1)\<rparr> in
           if \<not> e_alloc E (clk s1) (length hdr + length data) then (Err ENOMEM, s2)
           else (OK, xfer_send k (hdr @ data) s2))"

text \<open>The command PDU: header, then the command with the SGL flag and descriptor filled in.
  \<open>data\<close> is empty for a command without in-capsule data.\<close>

definition cmd_sgl :: "nat \<Rightarrow> nat \<Rightarrow> nvme_sgl_desc" where
  "cmd_sgl data_len recv_len =
     (if data_len \<noteq> 0
      then \<lparr>sgl_addr = 0, sgl_length = of_nat data_len,
            sgl_type = push_bit 4 NVME_SGL_FMT_DATA_DESC OR NVME_SGL_FMT_OFFSET\<rparr>
      else \<lparr>sgl_addr = 0, sgl_length = of_nat recv_len,
            sgl_type = push_bit 4 NVME_TRANSPORT_SGL_DATA_DESC OR NVME_SGL_FMT_TRANSPORT_A\<rparr>)"

definition cmd_pdu :: "bytes \<Rightarrow> nat \<Rightarrow> nat \<Rightarrow> bytes" where
  "cmd_pdu c data_len recv_len =
     enc_pdu_header \<lparr>ph_type = NVMETCP_PDU_COMMAND, ph_flags = 0, ph_hlen = 72,
        ph_pdo = (if data_len \<noteq> 0 then 72 else 0), ph_plen = of_nat (72 + data_len)\<rparr>
     @ set_common_sgl (cmd_sgl data_len recv_len) (set_common_flags NVME_CMD_SGL_METABUF c)"

definition nvmetcp_tx_command ::
  "nv_env \<Rightarrow> sock \<Rightarrow> bytes \<Rightarrow> bytes \<Rightarrow> nat \<Rightarrow> nvmetcp_session \<Rightarrow> rc \<times> nvmetcp_session" where
  "nvmetcp_tx_command E k c data recv_len s =
     then_ok (nvmetcp_tx_pdu E k (cmd_pdu c (length data) recv_len) data s)
       (\<lambda>s. (OK, set_rx k (nvmetcp_rx_reset (get_rx k s))
                   (s\<lparr>cmd_data_len := recv_len, cmd_data_offset := 0\<rparr>)))"

definition icreq_pdu :: bytes where
  "icreq_pdu = enc_icreq \<lparr>iq_hdr = \<lparr>ph_type = NVMETCP_PDU_ICREQ, ph_flags = 0, ph_hlen = 128,
      ph_pdo = 0, ph_plen = 128\<rparr>, iq_pfv = NVMETCP_PFV, iq_hpda = 0, iq_digest = 0, iq_maxr2t = 0\<rparr>"

definition nvmetcp_tx_icreq :: "nv_env \<Rightarrow> sock \<Rightarrow> nvmetcp_session \<Rightarrow> rc \<times> nvmetcp_session" where
  "nvmetcp_tx_icreq E k s = nvmetcp_tx_data E k icreq_pdu s"

text \<open>\<^verbatim>\<open>++nvmetcp->cid\<close> and the command buffer are written before anything is sent.\<close>

definition set_cmd :: "(u16 \<Rightarrow> bytes) \<Rightarrow> nvmetcp_session \<Rightarrow> nvmetcp_session" where
  "set_cmd f s = s\<lparr>cid := cid s + 1, cmd := f (cid s + 1)\<rparr>"

definition connect_data :: "nv_env \<Rightarrow> nvmetcp_session \<Rightarrow> u16 \<Rightarrow> bytes" where
  "connect_data E s qid = enc_connect_data
     \<lparr>cd_hostid = (case e_uuid E of Some u \<Rightarrow> u | None \<Rightarrow> zeros 16),
      cd_cntlid = (if qid \<noteq> 0 then cntlid s else 0xffff),
      cd_subsysnqn = strncpy_field NVMF_NQN_FIELD_LEN (cstr (subsystem_nqn s)),
      cd_hostnqn = strncpy_field NVMF_NQN_FIELD_LEN (cstr (host_nqn s))\<rparr>"

definition connect_cmd :: "u16 \<Rightarrow> u16 \<Rightarrow> bytes" where
  "connect_cmd qid i = enc_connect \<lparr>cn_opcode = NVMF_OPCODE, cn_command_id = i,
     cn_fctype = NVMF_FCTYPE_CONNECT, cn_qid = qid, cn_sqsize = 1, cn_kato = 0\<rparr>"

definition nvmetcp_tx_connect ::
  "nv_env \<Rightarrow> sock \<Rightarrow> u16 \<Rightarrow> nvmetcp_session \<Rightarrow> rc \<times> nvmetcp_session" where
  "nvmetcp_tx_connect E k qid s =
     (let s1 = set_cmd (connect_cmd qid) s
      in nvmetcp_tx_command E k (cmd s1) (connect_data E s1 qid) 0 s1)"

definition prop_set_cmd :: "u16 \<Rightarrow> bytes" where
  "prop_set_cmd i = enc_prop_set \<lparr>ps_opcode = NVMF_OPCODE, ps_command_id = i,
     ps_fctype = NVMF_FCTYPE_PROPERTY_SET, ps_offset = NVME_REG_CC,
     ps_value = NVME_CC_ENABLE OR push_bit NVME_CC_IOSQES_SHIFT NVME_NVM_IOSQES
                OR push_bit NVME_CC_IOCQES_SHIFT NVME_NVM_IOCQES\<rparr>"

definition nvmetcp_tx_prop_set :: "nv_env \<Rightarrow> nvmetcp_session \<Rightarrow> rc \<times> nvmetcp_session" where
  "nvmetcp_tx_prop_set E s =
     (let s1 = set_cmd prop_set_cmd s
      in nvmetcp_tx_command E Admin (cmd s1) [] 0 s1)"

definition identify_cmd :: "byte \<Rightarrow> u32 \<Rightarrow> u16 \<Rightarrow> bytes" where
  "identify_cmd cns ns i = enc_identify \<lparr>id_opcode = NVME_OPCODE_IDENTIFY, id_command_id = i,
     id_nsid = ns, id_cns = cns\<rparr>"

definition nvmetcp_tx_identify ::
  "nv_env \<Rightarrow> byte \<Rightarrow> u32 \<Rightarrow> nvmetcp_session \<Rightarrow> rc \<times> nvmetcp_session" where
  "nvmetcp_tx_identify E cns ns s =
     (let s1 = set_cmd (identify_cmd cns ns) s
      in nvmetcp_tx_command E Admin (cmd s1) [] NVME_IDENTIFY_DATA_SIZE s1)"

text \<open>
  The R2T check adds two 32-bit values: the sum wraps. When it passes and the range still leaves
  the buffer, the copy in \<^verbatim>\<open>nvmetcp_tx_pdu\<close> reads outside the block buffer (reached only after the
  window test and the allocation, which come first).
\<close>

definition nvmetcp_tx_h2cdata ::
  "nv_env \<Rightarrow> nvmetcp_r2t_pdu \<Rightarrow> nvmetcp_session \<Rightarrow> rc \<times> nvmetcp_session" where
  "nvmetcp_tx_h2cdata E r2t s =
     (let offset = r2_offset r2t; len = r2_length r2t in
      if unat (offset + len) > block_len s then (Err EPROTO, s)
      else let pdu = enc_data_pdu \<lparr>dp_hdr = \<lparr>ph_type = NVMETCP_PDU_H2CDATA, ph_flags = 0,
                       ph_hlen = 24, ph_pdo = 24, ph_plen = 24 + len\<rparr>,
                     dp_command_id = r2_command_id r2t, dp_ttag = r2_ttag r2t,
                     dp_data_offset = offset, dp_data_length = len\<rparr>;
               data = get_at (unat offset) (unat len) (block_buffer s)
           in case nvmetcp_tx_pdu E IO pdu
                     (data @ zeros (unat len - length data)) s of
                (OK, s') \<Rightarrow> if unat offset + unat len > length (block_buffer s) then (Fault, s)
                            else (OK, s')
              | (e, s') \<Rightarrow> (e, s'))"

section \<open>Resuming\<close>

definition nvmetcp_tx_resume :: "nvmetcp_session \<Rightarrow> nvmetcp_session" where
  "nvmetcp_tx_resume s = (if tx_in_flight s then s else s\<lparr>process := True\<rparr>)"

section \<open>Lengths\<close>

lemma length_cmds [simp]:
  "length (connect_cmd q i) = 64" "length (prop_set_cmd i) = 64" "length (identify_cmd c n i) = 64"
  by (simp_all add: connect_cmd_def prop_set_cmd_def identify_cmd_def)

end
