(* ===== verification/Nvme_Auth.thy ===== *)
theory Nvme_Auth
  imports Nvme_Session
begin

text \<open>
  DH-HMAC-CHAP authentication: \<^verbatim>\<open>net/tcp/nvmetcp_auth.c\<close>. A function that computes a value returns
  \<open>Inl\<close> of the status it fails with or \<open>Inr\<close> of the value. The digests, HMAC, Diffie-Hellman,
  base64 and CRC32 are those of the environment; what is modelled is which bytes the code feeds to
  them, in which order, from which buffers, and the state machine around them.
\<close>

section \<open>Algorithms\<close>

definition nvmetcp_auth_hash :: "nat \<Rightarrow> hash_alg option" where
  "nvmetcp_auth_hash hash_id =
     (if hash_id = unat NVME_AUTH_HASH_SHA256 then Some SHA256
      else if hash_id = unat NVME_AUTH_HASH_SHA384 then Some SHA384
      else if hash_id = unat NVME_AUTH_HASH_SHA512 then Some SHA512
      else None)"

definition nvmetcp_auth_exchange :: "byte \<Rightarrow> dh_group option" where
  "nvmetcp_auth_exchange dhgid =
     (if dhgid = NVME_AUTH_DHGROUP_2048 then Some FFDHE2048
      else if dhgid = NVME_AUTH_DHGROUP_3072 then Some FFDHE3072
      else if dhgid = NVME_AUTH_DHGROUP_4096 then Some FFDHE4096
      else None)"

definition nvmetcp_auth_hmac_alloc ::
  "nv_env \<Rightarrow> hash_alg \<Rightarrow> nvmetcp_session \<Rightarrow> bool \<times> nvmetcp_session" where
  "nvmetcp_auth_hmac_alloc E d s = alloc E (e_hmac_ctxsize E d) s"

definition nvmetcp_auth_hmac ::
  "nv_env \<Rightarrow> hash_alg \<Rightarrow> bytes \<Rightarrow> bytes \<Rightarrow> nvmetcp_session \<Rightarrow> (rc + bytes) \<times> nvmetcp_session" where
  "nvmetcp_auth_hmac E d key data s =
     (case nvmetcp_auth_hmac_alloc E d s of
        (False, s) \<Rightarrow> (Inl (Err ENOMEM), s)
      | (True, s) \<Rightarrow> (Inr (e_hmac E d key data), s))"

section \<open>The secret\<close>

text \<open>The decimal hash identifier: an \<^verbatim>\<open>unsigned int\<close>, so the accumulation wraps at 32 bits.\<close>

fun parse_digits :: "u32 \<Rightarrow> string \<Rightarrow> u32 \<times> string" where
  "parse_digits n [] = (n, [])"
| "parse_digits n (c # cs) =
     (if is_digit c then parse_digits (n * 10 + of_nat (digit_val c)) cs
      else (n, c # cs))"

definition nvmetcp_auth_parse_secret :: "nv_env \<Rightarrow> nvmetcp_session \<Rightarrow> rc + (nat \<times> bytes)" where
  "nvmetcp_auth_parse_secret E s =
     (case secret s of
        None \<Rightarrow> Inl Fault
      | Some p \<Rightarrow>
          if take 7 p \<noteq> ''DHHC-1:'' then Inl (Err EINVAL)
          else (case parse_digits 0 (drop 7 p) of (n, q) \<Rightarrow>
            if take 1 q \<noteq> '':'' \<or> n = 0 \<or> n > 3 then Inl (Err EINVAL)
            else (case e_base64 E (drop 1 q) of
                Inl e \<Rightarrow> Inl (Err e)
              | Inr key \<Rightarrow>
                  if length key \<noteq> 36 \<and> length key \<noteq> 52 \<and> length key \<noteq> 68 then Inl (Err EINVAL)
                  else (let key_len = length key - 4;
                            crc_expected = le32_to_cpu (get_at key_len 4 key);
                            crc = NOT (e_crc32_le E 0xffffffff (take key_len key))
                        in if crc_expected \<noteq> crc then Inl (Err EACCES)
                           else Inr (unat n, take key_len key)))))"

text \<open>The transformed key: HMAC of the secret over the host NQN and \<^verbatim>\<open>NVMe-over-Fabrics\<close>.\<close>

definition nvmetcp_auth_transform_key ::
  "nv_env \<Rightarrow> hash_alg \<Rightarrow> bytes \<Rightarrow> nvmetcp_session \<Rightarrow> (rc + bytes) \<times> nvmetcp_session" where
  "nvmetcp_auth_transform_key E d key s =
     nvmetcp_auth_hmac E d key
       (str_bytes (cstr (host_nqn s)) @ str_bytes ''NVMe-over-Fabrics'') s"

definition response_input :: "nvmetcp_session \<Rightarrow> bytes \<Rightarrow> bytes" where
  "response_input s challenge =
     take (au_hl (auth s)) challenge @ cpu_to_le32 (au_seqnum (auth s))
     @ cpu_to_le16 (au_transaction (auth s)) @ [NVME_AUTH_SECP_NOSC] @ str_bytes ''HostHost''
     @ str_bytes (cstr (host_nqn s)) @ [0] @ str_bytes (cstr (subsystem_nqn s))"

definition nvmetcp_auth_response ::
  "nv_env \<Rightarrow> hash_alg \<Rightarrow> bytes \<Rightarrow> bytes \<Rightarrow> nvmetcp_session \<Rightarrow> (rc + bytes) \<times> nvmetcp_session" where
  "nvmetcp_auth_response E d key challenge s =
     nvmetcp_auth_hmac E d key (response_input s challenge) s"

section \<open>Diffie-Hellman\<close>

definition upd_auth :: "(nvmetcp_auth \<Rightarrow> nvmetcp_auth) \<Rightarrow> nvmetcp_session \<Rightarrow> nvmetcp_session" where
  "upd_auth f s = s\<lparr>auth := f (auth s)\<rparr>"

definition get_random_nz ::
  "nv_env \<Rightarrow> nat \<Rightarrow> nvmetcp_session \<Rightarrow> (errno + bytes) \<times> nvmetcp_session" where
  "get_random_nz E n s = (e_random E (clk s) n, s\<lparr>clk := Suc (clk s)\<rparr>)"

definition nvmetcp_auth_dh_key ::
  "nv_env \<Rightarrow> dh_group \<Rightarrow> hash_alg \<Rightarrow> bytes \<Rightarrow> nvmetcp_session \<Rightarrow> rc \<times> nvmetcp_session" where
  "nvmetcp_auth_dh_key E g d ctrl_key s =
     (case get_random_nz E (e_privsize E g) s of
        (Inl e, s) \<Rightarrow> (Err e, s)
      | (Inr priv, s) \<Rightarrow>
          let s = upd_auth (\<lambda>a. a\<lparr>au_priv_key := put_at 0 priv (au_priv_key a)\<rparr>) s in
          (case e_share E g priv of
             Inl e \<Rightarrow> (Err e, s)
           | Inr pub \<Rightarrow>
               let s = upd_auth (\<lambda>a. a\<lparr>au_pub_key := put_at 0 pub (au_pub_key a)\<rparr>) s in
               (case e_agree E g priv ctrl_key of
                  Inl e \<Rightarrow> (Err e, s)
                | Inr shared \<Rightarrow>
                    (case alloc E (e_ctxsize E d) s of
                       (False, s) \<Rightarrow> (Err ENOMEM, s)
                     | (True, s) \<Rightarrow>
                         (OK, upd_auth (\<lambda>a. a\<lparr>
                            au_session_key := put_at 0 (e_hash E d shared) (au_session_key a),
                            au_dhvlen := of_nat (e_pubsize E g)\<rparr>) s)))))"

section \<open>Transmission\<close>

definition auth_cmd :: "byte \<Rightarrow> nat \<Rightarrow> u16 \<Rightarrow> bytes" where
  "auth_cmd fctype n i = enc_auth \<lparr>ac_opcode = NVMF_OPCODE, ac_command_id = i,
     ac_fctype = fctype, ac_spsp0 = 0x01, ac_spsp1 = 0x01,
     ac_secp = NVME_AUTH_DHCHAP_PROTOCOL_IDENTIFIER, ac_al_tl = of_nat n\<rparr>"

lemma length_auth_cmd [simp]: "length (auth_cmd f n i) = 64"
  by (simp add: auth_cmd_def)

definition nvmetcp_auth_tx_command ::
  "nv_env \<Rightarrow> byte \<Rightarrow> bytes \<Rightarrow> nat \<Rightarrow> nvmetcp_session \<Rightarrow> rc \<times> nvmetcp_session" where
  "nvmetcp_auth_tx_command E fctype data recv_len s =
     (let s1 = set_cmd (auth_cmd fctype (if length data \<noteq> 0 then length data else recv_len)) s
      in nvmetcp_tx_command E Admin (cmd s1) data recv_len s1)"

definition nvmetcp_auth_tx_send :: "nv_env \<Rightarrow> bytes \<Rightarrow> nvmetcp_session \<Rightarrow> rc \<times> nvmetcp_session" where
  "nvmetcp_auth_tx_send E data s = nvmetcp_auth_tx_command E NVMF_FCTYPE_AUTH_SEND data 0 s"

abbreviation "NVMETCP_AUTH_RECV_LEN \<equiv> (4096 :: nat)"

definition nvmetcp_auth_tx_receive :: "nv_env \<Rightarrow> nvmetcp_session \<Rightarrow> rc \<times> nvmetcp_session" where
  "nvmetcp_auth_tx_receive E s =
     nvmetcp_auth_tx_command E NVMF_FCTYPE_AUTH_RECEIVE [] NVMETCP_AUTH_RECV_LEN s"

definition nvmetcp_auth_tx_receive_step ::
  "nv_env \<Rightarrow> nvmetcp_auth_steps \<Rightarrow> nvmetcp_session \<Rightarrow> rc \<times> nvmetcp_session" where
  "nvmetcp_auth_tx_receive_step E next_step s =
     (case nvmetcp_auth_tx_receive E (upd_auth (\<lambda>a. a\<lparr>au_step := next_step\<rparr>) s) of
        (OK, s) \<Rightarrow> (OK, upd_auth (\<lambda>a. a\<lparr>au_rx_cid := cid s\<rparr>) s)
      | (r, s) \<Rightarrow> (r, upd_auth (\<lambda>a. a\<lparr>au_step :=
            (if next_step = STEP_CHALLENGE then STEP_COMPLETE_NEGOTIATE
             else STEP_COMPLETE_REPLY)\<rparr>) s))"

definition negotiate_data :: "u16 \<Rightarrow> bytes" where
  "negotiate_data t = enc_negotiate
     \<lparr>ng_auth_type = NVME_AUTH_COMMON_MESSAGES, ng_auth_id = NVME_AUTH_DHCHAP_MESSAGE_NEGOTIATE,
      ng_t_id = t, ng_sc_c = NVME_AUTH_SECP_NOSC, ng_napd = 1,
      ng_authid = NVME_AUTH_DHCHAP_AUTH_ID, ng_halen = 3, ng_dhlen = 4,
      ng_idlist = put_at NVME_AUTH_DHCHAP_MAX_DH_IDS
        [NVME_AUTH_DHGROUP_NULL, NVME_AUTH_DHGROUP_2048, NVME_AUTH_DHGROUP_3072,
         NVME_AUTH_DHGROUP_4096]
        (put_at 0 [NVME_AUTH_HASH_SHA256, NVME_AUTH_HASH_SHA384, NVME_AUTH_HASH_SHA512]
          (zeros 60))\<rparr>"

definition nvmetcp_auth_tx_negotiate :: "nv_env \<Rightarrow> nvmetcp_session \<Rightarrow> rc \<times> nvmetcp_session" where
  "nvmetcp_auth_tx_negotiate E s =
     nvmetcp_auth_tx_send E (negotiate_data (au_transaction (auth s))) s"

text \<open>
  The reply. \<^verbatim>\<open>uint8_t key[64]\<close> is an automatic array: the transformed key fills its first bytes (the
  digest size of the hash the secret names), the rest keeps what the stack held. The response is
  keyed with the digest size of the hash the challenge names.
\<close>

definition reply_data :: "nvmetcp_session \<Rightarrow> bytes \<Rightarrow> dh_group option \<Rightarrow> bytes" where
  "reply_data s response exchange =
     (let a = auth s; hl = au_hl a; dhvlen = unat (au_dhvlen a) in
      enc_reply \<lparr>rp_auth_type = NVME_AUTH_DHCHAP_MESSAGES, rp_auth_id = NVME_AUTH_DHCHAP_MESSAGE_REPLY,
        rp_t_id = au_transaction a, rp_hl = of_nat hl,
        rp_dhvlen = (if exchange \<noteq> None then au_dhvlen a else 0), rp_seqnum = 0\<rparr>
      @ take hl response
      @ (if exchange \<noteq> None then take hl (au_cval a) @ take dhvlen (au_pub_key a) else []))"

definition nvmetcp_auth_tx_reply ::
  "nv_env \<Rightarrow> hash_alg \<Rightarrow> dh_group option \<Rightarrow> nvmetcp_session \<Rightarrow> rc \<times> nvmetcp_session" where
  "nvmetcp_auth_tx_reply E d exchange s =
     (case nvmetcp_auth_parse_secret E s of
        Inl r \<Rightarrow> (r, s)
      | Inr (hash_id, sec) \<Rightarrow>
          (case nvmetcp_auth_hash hash_id of
             None \<Rightarrow> (Fault, s)
           | Some sd \<Rightarrow>
               let stack = e_stack E (clk s) NVME_AUTH_MAX_DIGEST_SIZE;
                   s = s\<lparr>clk := Suc (clk s)\<rparr> in
               (case nvmetcp_auth_transform_key E sd sec s of
                  (Inl r, s) \<Rightarrow> (r, s)
                | (Inr transformed, s) \<Rightarrow>
                    let key = put_at 0 transformed stack;
                        hl = au_hl (auth s);
                        cval = take hl (au_cval (auth s)) in
                    (case (if exchange = None then (Inr cval, s)
                           else nvmetcp_auth_hmac E d (take hl (au_session_key (auth s))) cval s) of
                       (Inl r, s) \<Rightarrow> (r, s)
                     | (Inr challenge, s) \<Rightarrow>
                         (case nvmetcp_auth_response E d (take (e_digestsize E d) key) challenge s of
                            (Inl r, s) \<Rightarrow> (r, s)
                          | (Inr response, s) \<Rightarrow>
                              let reply = reply_data s response exchange;
                                  s = s\<lparr>cmd_buf := put_at 0 reply (cmd_buf s)\<rparr>
                              in nvmetcp_auth_tx_send E reply s)))))"

section \<open>Reception\<close>

definition nvmetcp_auth_rx_validate :: "byte \<Rightarrow> nvmetcp_session \<Rightarrow> rc" where
  "nvmetcp_auth_rx_validate expected s =
     (let failure = dec_failure (cmd_buf s) in
      if fl_auth_type failure = NVME_AUTH_COMMON_MESSAGES \<and>
         fl_auth_id failure = NVME_AUTH_DHCHAP_MESSAGE_FAILURE1 then Err EACCES
      else if fl_auth_type failure \<noteq> NVME_AUTH_DHCHAP_MESSAGES \<or>
              fl_auth_id failure \<noteq> expected then Err EPROTO
      else if fl_t_id failure \<noteq> au_transaction (auth s) then Err EPROTO
      else OK)"

text \<open>The DH group of a challenge: \<open>Inl\<close> when the code rejects it.\<close>

definition challenge_exchange :: "nv_env \<Rightarrow> byte \<Rightarrow> u16 \<Rightarrow> errno + dh_group option" where
  "challenge_exchange E dhgid dhvlen =
     (if dhgid \<noteq> NVME_AUTH_DHGROUP_NULL
      then (case nvmetcp_auth_exchange dhgid of
              None \<Rightarrow> Inl EPROTO
            | Some g \<Rightarrow> if unat dhvlen \<noteq> e_pubsize E g then Inl EPROTO else Inr (Some g))
      else if dhvlen \<noteq> 0 then Inl EPROTO else Inr None)"

definition nvmetcp_auth_rx_challenge :: "nv_env \<Rightarrow> nvmetcp_session \<Rightarrow> rc \<times> nvmetcp_session" where
  "nvmetcp_auth_rx_challenge E s =
     then_ok (nvmetcp_auth_rx_validate NVME_AUTH_DHCHAP_MESSAGE_CHALLENGE s, s) (\<lambda>s.
       let buf = cmd_buf s; challenge = dec_challenge buf in
       case nvmetcp_auth_hash (unat (ch_hashid challenge)) of
         None \<Rightarrow> (Err EPROTO, s)
       | Some d \<Rightarrow>
           let s = upd_auth (\<lambda>a. a\<lparr>au_hash_id := ch_hashid challenge, au_hl := e_digestsize E d\<rparr>) s in
           if unat (ch_hl challenge) \<noteq> au_hl (auth s) then (Err EPROTO, s)
           else (case challenge_exchange E (ch_dhgid challenge) (ch_dhvlen challenge) of
               Inl e \<Rightarrow> (Err e, s)
             | Inr exchange \<Rightarrow>
                 let hl = au_hl (auth s);
                     s = upd_auth (\<lambda>a. a\<lparr>au_dhgid := ch_dhgid challenge,
                           au_seqnum := ch_seqnum challenge,
                           au_cval := put_at 0 (get_at 16 hl buf) (au_cval a)\<rparr>) s in
                 then_ok (case exchange of
                     None \<Rightarrow> (OK, s)
                   | Some g \<Rightarrow> nvmetcp_auth_dh_key E g d (get_at (16 + hl) (e_pubsize E g) buf) s)
                   (nvmetcp_auth_tx_reply E d exchange)))"

definition nvmetcp_auth_rx_success1 :: "nvmetcp_session \<Rightarrow> rc \<times> nvmetcp_session" where
  "nvmetcp_auth_rx_success1 s =
     then_ok (nvmetcp_auth_rx_validate NVME_AUTH_DHCHAP_MESSAGE_SUCCESS1 s, s) (\<lambda>s.
       let success1 = dec_success1 (cmd_buf s) in
       if unat (s1_hl success1) \<noteq> au_hl (auth s) then (Err EPROTO, s)
       else if s1_rvalid success1 \<noteq> 0 then (Err EPROTO, s)
       else (OK, upd_auth (\<lambda>a. a\<lparr>au_completed := True\<rparr>) s))"

section \<open>State machine\<close>

definition nvmetcp_auth_try_complete :: "nvmetcp_session \<Rightarrow> nvmetcp_session" where
  "nvmetcp_auth_try_complete s =
     (if au_completed (auth s) \<and> au_rx_complete (auth s) then s\<lparr>phase := PHASE_PROP_SET\<rparr> else s)"

definition nvmetcp_auth_step :: "nv_env \<Rightarrow> nvmetcp_session \<Rightarrow> rc \<times> nvmetcp_session" where
  "nvmetcp_auth_step E s =
     (case au_step (auth s) of
        STEP_START \<Rightarrow>
          if au_completed (auth s) then (OK, s)
          else (case get_random_nz E 2 s of
              (Inl e, s) \<Rightarrow> (Err e, s)
            | (Inr r, s) \<Rightarrow>
                nvmetcp_auth_tx_negotiate E
                  (upd_auth (\<lambda>a. a\<lparr>au_transaction := le16_to_cpu r,
                                   au_step := STEP_COMPLETE_NEGOTIATE\<rparr>) s))
      | STEP_COMPLETE_NEGOTIATE \<Rightarrow>
          if \<not> tx_in_flight s then nvmetcp_auth_tx_receive_step E STEP_CHALLENGE s else (OK, s)
      | STEP_COMPLETE_REPLY \<Rightarrow>
          if \<not> tx_in_flight s then nvmetcp_auth_tx_receive_step E STEP_SUCCESS1 s else (OK, s)
      | _ \<Rightarrow> (OK, s))"

definition nvmetcp_auth_rx_complete :: "nv_env \<Rightarrow> nvmetcp_session \<Rightarrow> rc \<times> nvmetcp_session" where
  "nvmetcp_auth_rx_complete E s =
     (let final = (if cq_command_id (cqe s) \<noteq> au_rx_cid (auth s) then (OK, s)
                   else (OK, upd_auth (\<lambda>a. a\<lparr>au_rx_complete := True\<rparr>) s))
      in case au_step (auth s) of
           STEP_COMPLETE_NEGOTIATE \<Rightarrow> nvmetcp_auth_tx_receive_step E STEP_CHALLENGE s
         | STEP_CHALLENGE \<Rightarrow> (OK, s)
         | STEP_SUCCESS1 \<Rightarrow> final
         | STEP_START \<Rightarrow> final
         | STEP_COMPLETE_REPLY \<Rightarrow> nvmetcp_auth_tx_receive_step E STEP_SUCCESS1 s)"

definition nvmetcp_auth_rx_data :: "nv_env \<Rightarrow> nvmetcp_session \<Rightarrow> rc \<times> nvmetcp_session" where
  "nvmetcp_auth_rx_data E s =
     (case au_step (auth s) of
        STEP_CHALLENGE \<Rightarrow>
          then_ok (nvmetcp_auth_rx_challenge E s)
            (\<lambda>s. (OK, upd_auth (\<lambda>a. a\<lparr>au_step := STEP_COMPLETE_REPLY\<rparr>) s))
      | STEP_SUCCESS1 \<Rightarrow>
          then_ok (nvmetcp_auth_rx_success1 s)
            (\<lambda>s. (OK, upd_auth (\<lambda>a. a\<lparr>au_step := STEP_START\<rparr>) s))
      | _ \<Rightarrow> (Err EPROTO, s))"

end
