(* ===== verification/Nvme_Uri.thy ===== *)
theory Nvme_Uri
  imports Nvme_Session
begin

text \<open>
  Opening a session: the URI of \<^verbatim>\<open>net/tcp/nvmetcp.c\<close> (query parameters, root path, host NQN), the TLS
  decision and parameters, and the connection itself.
\<close>

section \<open>Query parameters\<close>

text \<open>\<^verbatim>\<open>strstr\<close>: the offset of the first occurrence of \<open>n\<close> in \<open>t\<close>, at or after \<open>i\<close>.\<close>

fun strstr :: "string \<Rightarrow> string \<Rightarrow> nat option" where
  "strstr [] n = (if n = [] then Some 0 else None)"
| "strstr (c # cs) n =
     (if take (length n) (c # cs) = n then Some 0 else map_option Suc (strstr cs n))"

lemma strstr_bound: "strstr t n = Some i \<Longrightarrow> i + length n \<le> length t"
proof (induction t arbitrary: i)
  case (Cons c cs)
  then show ?case
    by (auto split: if_splits) (metis length_Cons length_take min.absorb_iff2 nat_le_linear take_all)
qed (auto split: if_splits)

text \<open>
  The search loop. \<open>q\<close> is the offset of \<^verbatim>\<open>query\<close> in \<^verbatim>\<open>uri->equery\<close>; a match counts when it starts the
  query string or follows \<^verbatim>\<open>&\<close>; otherwise the search goes on after the match. The result is the
  offset of the accepted match. (With an empty name the loop of the code would not advance; every
  caller passes a name.)
\<close>

function find_param :: "string \<Rightarrow> string \<Rightarrow> nat \<Rightarrow> nat option" where
  "find_param e name q =
     (if q > length e then None
      else case strstr (drop q e) name of
        None \<Rightarrow> None
      | Some i \<Rightarrow>
          let m = q + i in
          if m = 0 \<or> e ! (m - 1) = CHR ''&'' then Some m
          else if name = [] then None else find_param e name (m + length name))"
  by pat_completeness auto
termination
  by (relation "measure (\<lambda>(e, name, q). Suc (length e) - q)") (auto intro!: diff_less_mono2)

declare find_param.simps [simp del]

text \<open>\<^verbatim>\<open>nvmetcp_parse_qparam\<close>: \<open>Inr None\<close> is a NULL destination; \<open>mem\<close> tells whether \<^verbatim>\<open>zalloc\<close> succeeds.\<close>

definition nvmetcp_parse_qparam :: "bool \<Rightarrow> string option \<Rightarrow> string \<Rightarrow> errno + string option" where
  "nvmetcp_parse_qparam mem equery name =
     (case equery of
        None \<Rightarrow> Inr None
      | Some e \<Rightarrow>
          (case find_param e name 0 of
             None \<Rightarrow> Inr None
           | Some m \<Rightarrow>
               let v = takeWhile (\<lambda>c. c \<noteq> CHR ''&'') (drop (m + length name) e) in
               if v = [] then Inr None
               else if \<not> mem then Inl ENOMEM
               else Inr (Some v)))"

section \<open>Root path\<close>

text \<open>The parts of \<^verbatim>\<open>struct uri\<close> the driver reads; \<open>u_port\<close> is what \<^verbatim>\<open>uri_port\<close> finds, if any.\<close>

record uri =
  u_host :: "string option"
  u_port :: "u16 option"
  u_path :: "string option"
  u_equery :: "string option"

text \<open>Allocations are queried in the order of the code, from query \<open>clk\<close> on.\<close>

definition nvmetcp_parse_secret :: "nv_env \<Rightarrow> uri \<Rightarrow> nvmetcp_session \<Rightarrow> rc \<times> nvmetcp_session" where
  "nvmetcp_parse_secret E u s =
     (case alloc E 0 s of (mem, s) \<Rightarrow>
        (case nvmetcp_parse_qparam mem (u_equery u) ''secret='' of
           Inl e \<Rightarrow> (Err e, s\<lparr>secret := None\<rparr>)
         | Inr v \<Rightarrow> (OK, s\<lparr>secret := v\<rparr>)))"

definition nvmetcp_parse_tls :: "nv_env \<Rightarrow> uri \<Rightarrow> nvmetcp_session \<Rightarrow> rc \<times> nvmetcp_session" where
  "nvmetcp_parse_tls E u s =
     (case alloc E 0 s of (mem, s) \<Rightarrow>
        (case nvmetcp_parse_qparam mem (u_equery u) ''tls_psk='' of
           Inl e \<Rightarrow> (Err e, s\<lparr>tls_psk := None\<rparr>)
         | Inr v \<Rightarrow>
             let s = s\<lparr>tls_psk := v\<rparr> in
             (case alloc E 0 s of (mem, s) \<Rightarrow>
                (case nvmetcp_parse_qparam mem (u_equery u) ''tls_trsvcid='' of
                   Inl e \<Rightarrow> (Err e, s\<lparr>tls_trsvcid := None\<rparr>)
                 | Inr v \<Rightarrow> (OK, s\<lparr>tls_trsvcid := v\<rparr>)))))"

definition nvmetcp_parse_root_path :: "nv_env \<Rightarrow> uri \<Rightarrow> nvmetcp_session \<Rightarrow> rc \<times> nvmetcp_session" where
  "nvmetcp_parse_root_path E u s =
     (case u_host u of
        None \<Rightarrow> (Err EINVAL_NO_TARGET, s)
      | Some h \<Rightarrow>
          (case alloc E (Suc (length h)) s of
             (False, s) \<Rightarrow> (Err ENOMEM, s)
           | (True, s) \<Rightarrow>
               let s = s\<lparr>target_host := Some h,
                         target_port := (case u_port u of Some p \<Rightarrow> p
                                         | None \<Rightarrow> NVMETCP_DEFAULT_PORT)\<rparr> in
               (case u_path u of
                  None \<Rightarrow> (Err EINVAL_NO_SUBSYSTEM_NQN, s)
                | Some p \<Rightarrow>
                    if take 1 p \<noteq> ''/'' then (Err EINVAL_NO_SUBSYSTEM_NQN, s)
                    else let nqn = drop 1 p in
                      if length nqn = 0 \<or> length nqn \<ge> NVMF_NQN_FIELD_LEN
                      then (Err EINVAL_NO_SUBSYSTEM_NQN, s)
                      else (case alloc E (Suc (length nqn)) s of
                          (False, s) \<Rightarrow> (Err ENOMEM, s)
                        | (True, s) \<Rightarrow>
                            then_ok (nvmetcp_parse_secret E u (s\<lparr>subsystem_nqn := Some nqn\<rparr>))
                              (nvmetcp_parse_tls E u)))))"

section \<open>Host NQN\<close>

abbreviation "NVMETCP_DEFAULT_HOST_NQN \<equiv> ''nqn.2014-08.org.ipxe:''"

text \<open>\<^verbatim>\<open>snprintf ( buf, len, "%s%s", ... )\<close> keeps \<open>len - 1\<close> characters. The buffer is sized for 32
  characters after the prefix, terminator included.\<close>

definition nvmetcp_set_host_nqn :: "nv_env \<Rightarrow> nvmetcp_session \<Rightarrow> rc \<times> nvmetcp_session" where
  "nvmetcp_set_host_nqn E s =
     (case e_hostnqn E of
        Some n \<Rightarrow> (OK, s\<lparr>host_nqn := Some n\<rparr>)
      | None \<Rightarrow>
          let len = length NVMETCP_DEFAULT_HOST_NQN + 16 * 2 in
          (case alloc E len s of
             (False, s) \<Rightarrow> (Err ENOMEM, s)
           | (True, s) \<Rightarrow>
               (OK, s\<lparr>host_nqn := Some (take (len - 1)
                  (case e_uuid E of
                     None \<Rightarrow> NVMETCP_DEFAULT_HOST_NQN @ ''ipxe''
                   | Some u \<Rightarrow> NVMETCP_DEFAULT_HOST_NQN @ e_uuid_ntoa E u))\<rparr>)))"

section \<open>TLS parameters\<close>

abbreviation "NVMETCP_MAX_IDENTITY \<equiv> (512 :: nat)"
abbreviation "NVMETCP_MAX_PSK \<equiv> (64 :: nat)"

text \<open>\<open>None\<close> is the negative return value.\<close>

definition nvmetcp_hex_nibble :: "char \<Rightarrow> nat option" where
  "nvmetcp_hex_nibble c =
     (let n = char_code c in
      if 48 \<le> n \<and> n \<le> 57 then Some (n - 48)
      else if 97 \<le> n \<and> n \<le> 102 then Some (n - 97 + 10)
      else if 65 \<le> n \<and> n \<le> 70 then Some (n - 65 + 10)
      else None)"

fun hex_decode :: "string \<Rightarrow> bytes option" where
  "hex_decode (h # l # cs) =
     (case (nvmetcp_hex_nibble h, nvmetcp_hex_nibble l) of
        (Some hi, Some lo) \<Rightarrow> map_option (\<lambda>bs. (push_bit 4 (of_nat hi) OR of_nat lo) # bs) (hex_decode cs)
      | _ \<Rightarrow> None)"
| "hex_decode _ = Some []"

definition psk_identity :: "nvmetcp_session \<Rightarrow> string" where
  "psk_identity s = ''NVMe0R01 '' @ cstr (host_nqn s) @ '' '' @ cstr (subsystem_nqn s)"

definition nvmetcp_tls_params :: "nvmetcp_session \<Rightarrow> rc + (bytes \<times> string)" where
  "nvmetcp_tls_params s =
     (case tls_psk s of
        None \<Rightarrow> Inl Fault
      | Some hex \<Rightarrow>
          let hex_len = length hex in
          if hex_len = 0 \<or> hex_len mod 2 \<noteq> 0 \<or> hex_len div 2 > NVMETCP_MAX_PSK then Inl (Err EINVAL)
          else (case hex_decode hex of
              None \<Rightarrow> Inl (Err EINVAL)
            | Some psk \<Rightarrow>
                if length (psk_identity s) \<ge> NVMETCP_MAX_IDENTITY then Inl (Err EINVAL)
                else Inr (psk, psk_identity s)))"

text \<open>The port accumulates in an \<^verbatim>\<open>unsigned int\<close>; the test inside the loop keeps it below \<^verbatim>\<open>0x10000\<close>.\<close>

fun parse_port :: "u32 \<Rightarrow> string \<Rightarrow> u32 option" where
  "parse_port port [] = Some port"
| "parse_port port (c # cs) =
     (if \<not> is_digit c then None
      else let port = port * 10 + of_nat (digit_val c) in
        if port > 0xffff then None else parse_port port cs)"

definition nvmetcp_use_tls :: "nvmetcp_session \<Rightarrow> bool" where
  "nvmetcp_use_tls s =
     (case (tls_psk s, tls_trsvcid s) of
        (Some _, Some t) \<Rightarrow>
          t \<noteq> [] \<and> (case parse_port 0 t of None \<Rightarrow> False | Some p \<Rightarrow> p = ucast (target_port s))
      | _ \<Rightarrow> False)"

section \<open>Connections\<close>

definition nvmetcp_open_socket ::
  "nv_env \<Rightarrow> sock \<Rightarrow> nvmetcp_phase \<Rightarrow> nvmetcp_session \<Rightarrow> rc \<times> nvmetcp_session" where
  "nvmetcp_open_socket E k ph s =
     (case (if nvmetcp_use_tls s then map_sum id Some (nvmetcp_tls_params s) else Inr None) of
        Inl r \<Rightarrow> (r, s)
      | Inr params \<Rightarrow>
          let r = e_open E (clk s) k; s = s\<lparr>clk := Suc (clk s)\<rparr> in
          if r \<noteq> OK then (r, s)
          else let s = s\<lparr>events := events s @ [Connected k params]\<rparr>;
                   s = s\<lparr>phase := ph\<rparr>;
                   s = set_rx k (nvmetcp_rx_reset (get_rx k s)) s
               in (OK, nvmetcp_tx_resume s))"

text \<open>The zeroed session that \<^verbatim>\<open>nvmetcp_open\<close> allocates.\<close>

definition zero_rx :: nvmetcp_rx where
  "zero_rx = \<lparr>rx_hdr = zeros 128, rx_hdr_len = 0, rx_hdr_expect = 0, rx_data_expect = 0,
     rx_data_len = 0\<rparr>"

definition zero_auth :: nvmetcp_auth where
  "zero_auth = \<lparr>au_step = STEP_START, au_completed = False, au_rx_complete = False, au_rx_cid = 0,
     au_transaction = 0, au_seqnum = 0, au_hash_id = 0, au_dhgid = 0, au_hl = 0, au_dhvlen = 0,
     au_cval = zeros 64, au_session_key = zeros 512, au_priv_key = zeros 512,
     au_pub_key = zeros 512\<rparr>"

definition zero_session :: nvmetcp_session where
  "zero_session = \<lparr>process = False, phase = PHASE_ICREQ, cid = 0, cntlid = 0, target_host = None,
     target_port = 0, tls_psk = None, tls_trsvcid = None, subsystem_nqn = None, host_nqn = None,
     secret = None, pfv = 0, hdr_digest = 0, data_digest = 0, maxdata = 0, cmd = zeros 64,
     cmd_buf = zeros 4096, cmd_data_len = 0, cmd_data_offset = 0,
     cqe = \<lparr>cq_result = 0, cq_sq_head = 0, cq_sq_id = 0, cq_command_id = 0, cq_status = 0\<rparr>,
     tx_in_flight = False, block_data = None, block_buffer = [], block_len = 0,
     block_writing = False, capacity_data = None, rx_admin = zero_rx, rx_io = zero_rx, nsid = 0,
     capacity = \<lparr>cap_blocks = 0, cap_blksize = 0, cap_max_count = 0\<rparr>, auth = zero_auth,
     tx_log = [], events = [], clk = 0\<rparr>"

text \<open>\<^verbatim>\<open>nvmetcp_open\<close>: on an error after the allocation the session is closed with it.\<close>

definition nvmetcp_open :: "nv_env \<Rightarrow> uri \<Rightarrow> rc \<times> nvmetcp_session" where
  "nvmetcp_open E u =
     (if u_path u = None then (Err EINVAL_NO_ROOT_PATH, zero_session)
      else (case alloc E 0 zero_session of
          (False, s) \<Rightarrow> (Err ENOMEM, s)
        | (True, s) \<Rightarrow>
            (case then_ok (nvmetcp_parse_root_path E u (s\<lparr>nsid := 1\<rparr>))
                    (\<lambda>s. then_ok (nvmetcp_set_host_nqn E s)
                           (nvmetcp_open_socket E Admin PHASE_ICREQ)) of
               (OK, s) \<Rightarrow> (OK, s)
             | (r, s) \<Rightarrow> (r, nvmetcp_close s r))))"

end
