(* ===== verification/Nvme_Rx.thy ===== *)
theory Nvme_Rx
  imports Nvme_Auth Nvme_Uri
begin

text \<open>
  The receive half of \<^verbatim>\<open>net/tcp/nvmetcp.c\<close> (PDU reassembly, completions, returned data), the block
  device operations and the session process.
\<close>

section \<open>PDU headers\<close>

text \<open>\<^verbatim>\<open>nvmetcp_rx_header\<close>: run once eight bytes of header are there; sets how many are expected.\<close>

definition nvmetcp_rx_header :: "nvmetcp_rx \<Rightarrow> rc \<times> nvmetcp_rx" where
  "nvmetcp_rx_header rx =
     (let hdr = dec_pdu_header (rx_hdr rx); t = ph_type hdr in
      if t = NVMETCP_PDU_ICREQ \<or> t = NVMETCP_PDU_ICRESP then (OK, rx\<lparr>rx_hdr_expect := 128\<rparr>)
      else if t = NVMETCP_PDU_COMMAND then (OK, rx\<lparr>rx_hdr_expect := unat (ph_hlen hdr)\<rparr>)
      else if t = NVMETCP_PDU_RESPONSE then (OK, rx\<lparr>rx_hdr_expect := 24\<rparr>)
      else if t = NVMETCP_PDU_C2HDATA then (OK, rx\<lparr>rx_hdr_expect := 24\<rparr>)
      else if t = NVMETCP_PDU_R2T then (OK, rx\<lparr>rx_hdr_expect := 24\<rparr>)
      else (Err EPROTO, rx))"

text \<open>\<^verbatim>\<open>nvmetcp_rx_pdu\<close>: the header is complete. The length of returned data is \<^verbatim>\<open>plen - 24\<close> in
  \<^verbatim>\<open>size_t\<close>: below 24 it wraps to a value above every limit.\<close>

definition nvmetcp_rx_pdu :: "nv_env \<Rightarrow> sock \<Rightarrow> nvmetcp_session \<Rightarrow> rc \<times> nvmetcp_session" where
  "nvmetcp_rx_pdu E k s =
     (let rx = get_rx k s; b = rx_hdr rx; hdr = dec_pdu_header b; t = ph_type hdr;
          plen = unat (ph_plen hdr) in
      if t = NVMETCP_PDU_ICRESP then
        let icresp = dec_icresp b in
        if ir_pfv icresp \<noteq> NVMETCP_PFV then (Err EPROTO, s)
        else (OK, s\<lparr>pfv := ir_pfv icresp, maxdata := ir_maxdata icresp,
               hdr_digest := ir_digest icresp AND NVMETCP_DIGEST_HDR,
               data_digest := ir_digest icresp AND NVMETCP_DIGEST_DATA,
               phase := (if k = IO then PHASE_CONNECT_IO else PHASE_CONNECT_ADMIN),
               tx_in_flight := False, process := True\<rparr>)
      else if t = NVMETCP_PDU_RESPONSE then (OK, s\<lparr>cqe := dec_rsp_cqe b\<rparr>)
      else if t = NVMETCP_PDU_C2HDATA then
        if plen < 24 \<or> plen - 24 > NVMETCP_MAX_CMD_DATA then (Err EPROTO, s)
        else if unat (dp_data_offset (dec_data_pdu b)) \<noteq> cmd_data_offset s then (Err EPROTO, s)
        else (OK, set_rx k (rx\<lparr>rx_data_expect := plen - 24\<rparr>)
                    (s\<lparr>cmd_data_len := cmd_data_offset s + (plen - 24)\<rparr>))
      else if t = NVMETCP_PDU_R2T then nvmetcp_tx_h2cdata E (dec_r2t_pdu b) s
      else (OK, s))"

section \<open>Completions and returned data\<close>

definition nvmetcp_auth_required :: "nvmetcp_session \<Rightarrow> rc \<times> nvmetcp_session" where
  "nvmetcp_auth_required s =
     (if secret s = None then (Err EPERM, s)
      else (OK, s\<lparr>phase := PHASE_AUTH, process := True\<rparr>))"

definition nvmetcp_rx_command :: "nv_env \<Rightarrow> nvmetcp_session \<Rightarrow> rc \<times> nvmetcp_session" where
  "nvmetcp_rx_command E s0 =
     (let status = cq_status (cqe s0); result = cq_result_u32 (cqe s0);
          s = s0\<lparr>tx_in_flight := False\<rparr> in
      if status \<noteq> 0 then
        if status = NVME_SC_AUTH_REQUIRED \<and> phase s = PHASE_CONNECT_ADMIN
        then nvmetcp_auth_required s
        else if phase s = PHASE_AUTH then (Err EIO, s)
        else if block_data s \<noteq> None
        then (OK, s\<lparr>block_data := None, events := events s @ [Restart (Err EIO)]\<rparr>)
        else (Err EIO, s)
      else case phase s of
        PHASE_CONNECT_ADMIN \<Rightarrow>
          let s = s\<lparr>cntlid := ucast (result AND 0xffff)\<rparr> in
          if result AND NVMF_CONNECT_AUTHREQ_ATR \<noteq> 0
          then then_ok (nvmetcp_auth_required s) (\<lambda>s. (OK, s\<lparr>process := True\<rparr>))
          else (OK, s\<lparr>phase := PHASE_PROP_SET, process := True\<rparr>)
      | PHASE_PROP_SET \<Rightarrow> (OK, s\<lparr>phase := PHASE_IDENTIFY_CTRL, process := True\<rparr>)
      | PHASE_IDENTIFY_CTRL \<Rightarrow> (OK, s\<lparr>phase := PHASE_IDENTIFY_NS, process := True\<rparr>)
      | PHASE_IDENTIFY_NS \<Rightarrow> nvmetcp_open_socket E IO PHASE_ICREQ_IO s
      | PHASE_AUTH \<Rightarrow>
          then_ok (nvmetcp_auth_rx_complete E s) (\<lambda>s.
            let s = nvmetcp_auth_try_complete s in
            (OK, if phase s \<noteq> PHASE_AUTH then s\<lparr>process := True\<rparr> else s))
      | PHASE_CONNECT_IO \<Rightarrow>
          let s = s\<lparr>phase := PHASE_READY\<rparr> in
          (OK, if capacity_data s \<noteq> None
               then s\<lparr>capacity_data := None,
                      events := events s @ [Capacity (capacity s), Restart OK]\<rparr> else s)
      | PHASE_READY \<Rightarrow>
          (OK, if block_data s \<noteq> None
               then s\<lparr>block_data := None, events := events s @ [Restart OK]\<rparr> else s)
      | _ \<Rightarrow> (Err EPROTO, s))"

definition nvmetcp_rx_data :: "nv_env \<Rightarrow> nvmetcp_session \<Rightarrow> rc \<times> nvmetcp_session" where
  "nvmetcp_rx_data E s0 =
     (let s = s0\<lparr>tx_in_flight := False\<rparr> in
      case phase s of
        PHASE_AUTH \<Rightarrow>
          then_ok (nvmetcp_auth_rx_data E s) (\<lambda>s.
            let s = nvmetcp_auth_try_complete s in
            (OK, if phase s \<noteq> PHASE_AUTH then s\<lparr>process := True\<rparr> else s))
      | PHASE_IDENTIFY_CTRL \<Rightarrow> (OK, s)
      | PHASE_IDENTIFY_NS \<Rightarrow>
          (case nvmetcp_identify_ns (cmd_buf s) (capacity s) of
             (OK, c) \<Rightarrow> (OK, s\<lparr>capacity := c\<rparr>)
           | (r, c) \<Rightarrow> (r, s\<lparr>capacity := c\<rparr>))
      | PHASE_READY \<Rightarrow>
          if block_data s \<noteq> None \<and> \<not> block_writing s then
            if block_len s > length (cmd_buf s) \<or> block_len s > length (block_buffer s) then (Fault, s)
            else (OK, s\<lparr>block_buffer := put_at 0 (take (block_len s) (cmd_buf s)) (block_buffer s),
                        block_data := None, events := events s @ [Restart OK]\<rparr>)
          else (OK, s)
      | _ \<Rightarrow> (Err EPROTO, s))"

definition nvmetcp_rx_pdu_complete ::
  "nv_env \<Rightarrow> sock \<Rightarrow> nvmetcp_session \<Rightarrow> rc \<times> nvmetcp_session" where
  "nvmetcp_rx_pdu_complete E k s =
     (let t = ph_type (dec_pdu_header (rx_hdr (get_rx k s))) in
      then_ok
        (if t = NVMETCP_PDU_ICRESP then (OK, s)
         else if t = NVMETCP_PDU_RESPONSE then nvmetcp_rx_command E s
         else if t = NVMETCP_PDU_C2HDATA then
           if cmd_data_offset s < cmd_data_len s then (OK, s) else nvmetcp_rx_data E s
         else if t = NVMETCP_PDU_R2T then (OK, s)
         else (Err EPROTO, s))
        (\<lambda>s. (OK, set_rx k (nvmetcp_rx_reset (get_rx k s)) s)))"

section \<open>Reassembly\<close>

text \<open>One iteration of the loop of \<^verbatim>\<open>nvmetcp_socket_deliver\<close> on a non-empty buffer: the bytes left
  and the new state. Both copies are checked against the arrays they write; a header copy that
  leaves \<^verbatim>\<open>hdr\<close> stops with the array filled to its end.\<close>

definition fill :: "bytes \<Rightarrow> nvmetcp_rx \<Rightarrow> nvmetcp_rx" where
  "fill xs rx = rx\<lparr>rx_hdr := put_at (rx_hdr_len rx) xs (rx_hdr rx),
                   rx_hdr_len := rx_hdr_len rx + length xs\<rparr>"

definition header_step :: "bytes \<Rightarrow> nvmetcp_rx \<Rightarrow> rc \<times> nvmetcp_rx" where
  "header_step xs rx =
     (if rx_hdr_len (fill xs rx) = 8 then nvmetcp_rx_header (fill xs rx) else (OK, fill xs rx))"

definition header_done :: "nv_env \<Rightarrow> sock \<Rightarrow> nvmetcp_session \<Rightarrow> rc \<times> nvmetcp_session" where
  "header_done E k s =
     then_ok (nvmetcp_rx_pdu E k s)
       (\<lambda>s. if rx_data_expect (get_rx k s) = 0 then nvmetcp_rx_pdu_complete E k s else (OK, s))"

definition deliver_header ::
  "nv_env \<Rightarrow> sock \<Rightarrow> bytes \<Rightarrow> nvmetcp_session \<Rightarrow> rc \<times> bytes \<times> nvmetcp_session" where
  "deliver_header E k iob s =
     (let rx = get_rx k s;
          len = min (rx_hdr_expect rx - rx_hdr_len rx) (length iob) in
      case (if rx_hdr_len rx + len > length (rx_hdr rx)
            then (Fault, set_rx k (fill (take (length (rx_hdr rx) - rx_hdr_len rx) iob) rx) s)
            else (case header_step (take len iob) rx of (r, rx') \<Rightarrow>
                let s' = set_rx k rx' s in
                if r \<noteq> OK then (r, s')
                else if rx_hdr_len rx' < rx_hdr_expect rx' then (OK, s')
                else header_done E k s')) of
        (r, s') \<Rightarrow> (r, drop len iob, s'))"

definition deliver_data ::
  "nv_env \<Rightarrow> sock \<Rightarrow> bytes \<Rightarrow> nvmetcp_session \<Rightarrow> rc \<times> bytes \<times> nvmetcp_session" where
  "deliver_data E k iob s =
     (let rx = get_rx k s;
          len = (if rx_data_len rx \<le> rx_data_expect rx
                 then min (rx_data_expect rx - rx_data_len rx) (length iob) else length iob);
          rest = drop len iob in
      if rx_data_len rx + len > length (cmd_buf s) then (Fault, rest, s)
      else let s = s\<lparr>cmd_buf := put_at (rx_data_len rx) (take len iob) (cmd_buf s),
                     cmd_data_offset := cmd_data_offset s + len\<rparr>;
               rx = rx\<lparr>rx_data_len := rx_data_len rx + len\<rparr>;
               s = set_rx k rx s
           in if rx_data_len rx < rx_data_expect rx then (OK, rest, s)
              else (case nvmetcp_rx_pdu_complete E k s of (r, s) \<Rightarrow> (r, rest, s)))"

definition deliver_iter ::
  "nv_env \<Rightarrow> sock \<Rightarrow> bytes \<Rightarrow> nvmetcp_session \<Rightarrow> rc \<times> bytes \<times> nvmetcp_session" where
  "deliver_iter E k iob s =
     (if rx_hdr_len (get_rx k s) < rx_hdr_expect (get_rx k s) then deliver_header E k iob s
      else deliver_data E k iob s)"

lemma get_set_rx [simp]: "get_rx k (set_rx k r s) = r"
  by (cases k) (simp_all add: get_rx_def set_rx_def)

lemma rx_reset_simps [simp]:
  "rx_hdr (nvmetcp_rx_reset rx) = rx_hdr rx" "rx_hdr_len (nvmetcp_rx_reset rx) = 0"
  "rx_hdr_expect (nvmetcp_rx_reset rx) = 8" "rx_data_expect (nvmetcp_rx_reset rx) = 0"
  "rx_data_len (nvmetcp_rx_reset rx) = 0"
  by (simp_all add: nvmetcp_rx_reset_def)

lemma complete_resets:
  "nvmetcp_rx_pdu_complete E k s = (OK, s') \<Longrightarrow>
   rx_hdr_len (get_rx k s') = 0 \<and> rx_hdr_expect (get_rx k s') = 8"
  by (auto simp: nvmetcp_rx_pdu_complete_def Let_def then_ok_eq_OK split: if_splits)

definition deliver_measure :: "sock \<Rightarrow> bytes \<Rightarrow> nvmetcp_session \<Rightarrow> nat" where
  "deliver_measure k iob s =
     2 * length iob + (if rx_hdr_len (get_rx k s) < rx_hdr_expect (get_rx k s) then 0 else 1)"

text \<open>Every iteration consumes a byte, or completes a PDU that had none left to receive.\<close>

lemma deliver_header_rest:
  "fst (snd (deliver_header E k iob s)) =
   drop (min (rx_hdr_expect (get_rx k s) - rx_hdr_len (get_rx k s)) (length iob)) iob"
  by (simp add: deliver_header_def Let_def split: prod.split)

lemma deliver_data_cases:
  assumes "deliver_data E k iob s = (OK, iob', s')" and "iob \<noteq> []"
  shows "length iob' < length iob \<or>
    length iob' = length iob \<and> rx_hdr_len (get_rx k s') = 0 \<and> rx_hdr_expect (get_rx k s') = 8"
proof -
  let ?rx = "get_rx k s"
  define len where "len = (if rx_data_len ?rx \<le> rx_data_expect ?rx
                 then min (rx_data_expect ?rx - rx_data_len ?rx) (length iob) else length iob)"
  have rest: "iob' = drop len iob"
    using assms(1) by (auto simp: deliver_data_def Let_def len_def split: if_splits prod.splits)
  show ?thesis
  proof (cases "len = 0")
    case True
    with assms(2) have "\<not> rx_data_len ?rx + len < rx_data_expect ?rx"
      by (auto simp: len_def min_def split: if_splits)
    with assms(1) have "\<exists>s0. nvmetcp_rx_pdu_complete E k s0 = (OK, s')"
      unfolding deliver_data_def Let_def len_def [symmetric]
      by (auto split: if_splits prod.splits)
    then show ?thesis using complete_resets rest True by auto
  next
    case False
    with rest assms(2) show ?thesis by simp
  qed
qed

lemma deliver_iter_decreases:
  assumes "iob \<noteq> []" and "deliver_iter E k iob s = (OK, iob', s')"
  shows "deliver_measure k iob' s' < deliver_measure k iob s"
proof (cases "rx_hdr_len (get_rx k s) < rx_hdr_expect (get_rx k s)")
  case True
  with assms have "deliver_header E k iob s = (OK, iob', s')" by (simp add: deliver_iter_def)
  with deliver_header_rest [of E k iob s]
  have "iob' = drop (min (rx_hdr_expect (get_rx k s) - rx_hdr_len (get_rx k s)) (length iob)) iob"
    by simp
  with True assms(1) have "length iob' < length iob" by (cases iob) auto
  with True show ?thesis by (simp add: deliver_measure_def)
next
  case False
  with assms have "deliver_data E k iob s = (OK, iob', s')" by (simp add: deliver_iter_def)
  from deliver_data_cases [OF this assms(1)] False show ?thesis
    by (auto simp: deliver_measure_def)
qed

function nvmetcp_socket_deliver ::
  "nv_env \<Rightarrow> sock \<Rightarrow> bytes \<Rightarrow> nvmetcp_session \<Rightarrow> rc \<times> nvmetcp_session" where
  "nvmetcp_socket_deliver E k iob s =
     (if iob = [] then (OK, s)
      else case deliver_iter E k iob s of
        (OK, rest, s') \<Rightarrow> nvmetcp_socket_deliver E k rest s'
      | (r, rest, s') \<Rightarrow> (r, s'))"
  by pat_completeness auto
termination
  by (relation "measure (\<lambda>(E, k, iob, s). deliver_measure k iob s)")
    (simp, metis deliver_iter_decreases in_measure case_prod_conv)

declare nvmetcp_socket_deliver.simps [simp del]

definition nvmetcp_admin_socket_deliver ::
  "nv_env \<Rightarrow> bytes \<Rightarrow> nvmetcp_session \<Rightarrow> rc \<times> nvmetcp_session" where
  "nvmetcp_admin_socket_deliver E iob s = nvmetcp_socket_deliver E Admin iob s"

definition nvmetcp_io_socket_deliver ::
  "nv_env \<Rightarrow> bytes \<Rightarrow> nvmetcp_session \<Rightarrow> rc \<times> nvmetcp_session" where
  "nvmetcp_io_socket_deliver E iob s = nvmetcp_socket_deliver E IO iob s"

section \<open>Block device\<close>

definition nvmetcp_block_read_capacity :: "nat \<Rightarrow> nvmetcp_session \<Rightarrow> rc \<times> nvmetcp_session" where
  "nvmetcp_block_read_capacity data s0 =
     (let s = s0\<lparr>events := events s0 @ [Plug data]\<rparr> in
      if phase s \<noteq> PHASE_READY then (OK, s\<lparr>capacity_data := Some data\<rparr>)
      else (OK, s\<lparr>events := events s @ [Capacity (capacity s), Restart OK]\<rparr>))"

text \<open>\<^verbatim>\<open>nvmetcp_block_rw\<close>. \<open>buffer\<close> holds the caller's \<open>len\<close> bytes; \<^verbatim>\<open>count - 1\<close> is an \<^verbatim>\<open>unsigned int\<close>
  cut to 16 bits.\<close>

definition rw_cmd :: "byte \<Rightarrow> u32 \<Rightarrow> u64 \<Rightarrow> u32 \<Rightarrow> u16 \<Rightarrow> bytes" where
  "rw_cmd opcode ns lba count i = enc_rw \<lparr>rw_opcode = opcode, rw_command_id = i, rw_nsid = ns,
     rw_slba = lba, rw_length = ucast (count - 1)\<rparr>"

definition nvmetcp_block_rw ::
  "nv_env \<Rightarrow> nat \<Rightarrow> u64 \<Rightarrow> u32 \<Rightarrow> bytes \<Rightarrow> byte \<Rightarrow> nvmetcp_session \<Rightarrow> rc \<times> nvmetcp_session" where
  "nvmetcp_block_rw E data lba count buffer opcode s =
     (if phase s \<noteq> PHASE_READY then (Err EAGAIN, s)
      else if length buffer > NVMETCP_MAX_CMD_DATA then (Err EINVAL, s)
      else if block_data s \<noteq> None then (Err EAGAIN, s)
      else let s = s\<lparr>events := events s @ [Plug data], block_data := Some data,
                     block_buffer := buffer, block_len := length buffer,
                     block_writing := (opcode = NVME_OPCODE_WRITE)\<rparr>;
               s = set_cmd (rw_cmd opcode (nsid s) lba count) s
           in case nvmetcp_tx_command E IO (cmd s)
                     (if block_writing s then buffer else [])
                     (if block_writing s then 0 else length buffer) s of
                (OK, s) \<Rightarrow> (OK, s)
              | (r, s) \<Rightarrow> (r, s\<lparr>block_data := None, events := events s @ [Restart r]\<rparr>))"

definition nvmetcp_block_read ::
  "nv_env \<Rightarrow> nat \<Rightarrow> u64 \<Rightarrow> u32 \<Rightarrow> bytes \<Rightarrow> nvmetcp_session \<Rightarrow> rc \<times> nvmetcp_session" where
  "nvmetcp_block_read E data lba count buffer s =
     nvmetcp_block_rw E data lba count buffer NVME_OPCODE_READ s"

definition nvmetcp_block_write ::
  "nv_env \<Rightarrow> nat \<Rightarrow> u64 \<Rightarrow> u32 \<Rightarrow> bytes \<Rightarrow> nvmetcp_session \<Rightarrow> rc \<times> nvmetcp_session" where
  "nvmetcp_block_write E data lba count buffer s =
     nvmetcp_block_rw E data lba count buffer NVME_OPCODE_WRITE s"

definition nvmetcp_command_close :: "rc \<Rightarrow> nvmetcp_session \<Rightarrow> nvmetcp_session" where
  "nvmetcp_command_close r s0 =
     (let s = s0\<lparr>events := events s0 @ [Restart r]\<rparr> in
      if block_data s \<noteq> None \<or> capacity_data s \<noteq> None
      then nvmetcp_close (s\<lparr>block_data := None, capacity_data := None\<rparr>)
             (if r = OK then Err ECANCELED else r)
      else s)"

section \<open>The session process\<close>

definition step_action :: "nv_env \<Rightarrow> nvmetcp_session \<Rightarrow> rc \<times> nvmetcp_session" where
  "step_action E s =
     (case phase s of
        PHASE_ICREQ \<Rightarrow> nvmetcp_tx_icreq E Admin s
      | PHASE_ICREQ_IO \<Rightarrow> nvmetcp_tx_icreq E IO s
      | PHASE_CONNECT_ADMIN \<Rightarrow> nvmetcp_tx_connect E Admin 0 s
      | PHASE_PROP_SET \<Rightarrow> nvmetcp_tx_prop_set E s
      | PHASE_AUTH \<Rightarrow> nvmetcp_auth_step E s
      | PHASE_IDENTIFY_CTRL \<Rightarrow> nvmetcp_tx_identify E NVME_IDENTIFY_CTRL 0 s
      | PHASE_IDENTIFY_NS \<Rightarrow> nvmetcp_tx_identify E NVME_IDENTIFY_NS (nsid s) s
      | PHASE_CONNECT_IO \<Rightarrow> nvmetcp_tx_connect E IO 1 s
      | _ \<Rightarrow> (OK, s))"

definition nvmetcp_step :: "nv_env \<Rightarrow> nvmetcp_session \<Rightarrow> rc \<times> nvmetcp_session" where
  "nvmetcp_step E s =
     (case step_action E s of
        (OK, s) \<Rightarrow> (OK, s)
      | (Fault, s) \<Rightarrow> (Fault, s)
      | (Err e, s) \<Rightarrow>
          (OK, if e = EAGAIN then s\<lparr>process := False\<rparr>
               else if e = ENOMEM then s
               else nvmetcp_close s (Err e)))"

end
