(* ===== verification/Nvme_Inv.thy ===== *)
theory Nvme_Inv
  imports Nvme_Rx
begin

text \<open>
  The well-formedness invariant of a session and its preservation by every operation of
  \<^verbatim>\<open>net/tcp/nvmetcp.c\<close> and \<^verbatim>\<open>net/tcp/nvmetcp_auth.c\<close>. \<open>session_ok\<close> says that every buffer has the size
  its C declaration gives it (so that no copy left it), that the receive counters agree with the
  buffers, that every buffer handed to a socket was one whole PDU, and that every connection was
  made the way the TLS decision demands.
\<close>

named_theorems inv_simps "definitions of the session invariant"

section \<open>The environment\<close>

text \<open>What the code relies on of the crypto and settings code of iPXE: output sizes.\<close>

definition env_ok :: "nv_env \<Rightarrow> bool" where
  "env_ok E \<longleftrightarrow>
     (\<forall>d. e_digestsize E d \<le> NVME_AUTH_MAX_DIGEST_SIZE) \<and>
     (\<forall>d x. length (e_hash E d x) = e_digestsize E d) \<and>
     (\<forall>d k x. length (e_hmac E d k x) = e_digestsize E d) \<and>
     (\<forall>g. e_privsize E g \<le> NVME_AUTH_MAX_DH_SIZE \<and> e_pubsize E g \<le> NVME_AUTH_MAX_DH_SIZE) \<and>
     (\<forall>n m b. e_random E n m = Inr b \<longrightarrow> length b = m) \<and>
     (\<forall>g p b. e_share E g p = Inr b \<longrightarrow> length b = e_pubsize E g) \<and>
     (\<forall>u. e_uuid E = Some u \<longrightarrow> length u = 16) \<and> (\<forall>n k. e_open E n k \<noteq> Fault) \<and>
     (\<forall>n m. length (e_stack E n m) = m)"

lemma env_okD:
  assumes "env_ok E"
  shows "e_digestsize E d \<le> 64" "length (e_hash E d x) = e_digestsize E d"
    "length (e_hmac E d k x) = e_digestsize E d" "e_privsize E g \<le> 512" "e_pubsize E g \<le> 512"
    "e_random E n m = Inr b \<Longrightarrow> length b = m" "e_share E g p = Inr b \<Longrightarrow> length b = e_pubsize E g"
    "e_uuid E = Some u \<Longrightarrow> length u = 16" "e_open E i so \<noteq> Fault"
    "length (e_stack E n m) = m"
  using assms by (auto simp: env_ok_def)

section \<open>The invariant\<close>

definition rx_ok :: "nvmetcp_rx \<Rightarrow> bool" where
  [inv_simps]: "rx_ok rx \<longleftrightarrow>
     length (rx_hdr rx) = NVMETCP_HDR_SIZE \<and> rx_hdr_len rx \<le> NVMETCP_HDR_SIZE \<and>
     rx_data_len rx \<le> rx_data_expect rx \<and> rx_data_expect rx \<le> NVMETCP_MAX_CMD_DATA \<and>
     (rx_hdr_len rx < 8 \<longrightarrow> rx_hdr_expect rx \<le> 8) \<and>
     (rx_hdr_len rx < rx_hdr_expect rx \<longrightarrow> rx_data_expect rx = 0) \<and>
     (rx_hdr_expect rx > NVMETCP_HDR_SIZE \<longrightarrow>
        8 \<le> rx_hdr_len rx \<and> ph_type (dec_pdu_header (rx_hdr rx)) = NVMETCP_PDU_COMMAND \<and>
        rx_hdr_expect rx = unat (ph_hlen (dec_pdu_header (rx_hdr rx))))"

definition auth_ok :: "nvmetcp_auth \<Rightarrow> bool" where
  [inv_simps]: "auth_ok a \<longleftrightarrow>
     length (au_cval a) = 64 \<and> length (au_session_key a) = 512 \<and>
     length (au_priv_key a) = 512 \<and> length (au_pub_key a) = 512 \<and> au_hl a \<le> 64 \<and>
     unat (au_dhvlen a) \<le> 512"

text \<open>One whole PDU: the length field of its header is the length of the buffer.\<close>

definition pdu_framed :: "bytes \<Rightarrow> bool" where
  "pdu_framed b \<longleftrightarrow> 8 \<le> length b \<and> unat (ph_plen (dec_pdu_header b)) = length b"

text \<open>How a connection is made: through TLS with these parameters, or in the clear.\<close>

definition conn_params :: "nvmetcp_session \<Rightarrow> rc + (bytes \<times> string) option" where
  "conn_params s = (if nvmetcp_use_tls s then map_sum id Some (nvmetcp_tls_params s) else Inr None)"

definition session_ok :: "nvmetcp_session \<Rightarrow> bool" where
  [inv_simps]: "session_ok s \<longleftrightarrow>
     rx_ok (rx_admin s) \<and> rx_ok (rx_io s) \<and> auth_ok (auth s) \<and>
     length (cmd_buf s) = NVMETCP_MAX_CMD_DATA \<and>
     block_len s = length (block_buffer s) \<and> block_len s \<le> NVMETCP_MAX_CMD_DATA \<and>
     host_nqn s \<noteq> None \<and> subsystem_nqn s \<noteq> None \<and>
     (phase s = PHASE_AUTH \<longrightarrow> secret s \<noteq> None) \<and>
     (\<forall>k b. (k, b) \<in> set (tx_log s) \<longrightarrow> pdu_framed b) \<and>
     (\<forall>k p. Connected k p \<in> set (events s) \<longrightarrow> conn_params s = Inr p)"

lemma conn_params_cong:
  assumes "tls_psk s' = tls_psk s" "tls_trsvcid s' = tls_trsvcid s" "target_port s' = target_port s"
    "host_nqn s' = host_nqn s" "subsystem_nqn s' = subsystem_nqn s"
  shows "conn_params s' = conn_params s"
  unfolding conn_params_def nvmetcp_use_tls_def nvmetcp_tls_params_def psk_identity_def assms
  by (rule refl)

text \<open>Fields that play no part in how a connection is made.\<close>

lemma conn_params_upd [simp]:
  "conn_params (s\<lparr>clk := n\<rparr>) = conn_params s"
  "conn_params (s\<lparr>tx_log := l\<rparr>) = conn_params s"
  "conn_params (s\<lparr>tx_in_flight := b\<rparr>) = conn_params s"
  "conn_params (s\<lparr>process := b\<rparr>) = conn_params s"
  "conn_params (s\<lparr>cid := w\<rparr>) = conn_params s"
  "conn_params (s\<lparr>cmd := c\<rparr>) = conn_params s"
  "conn_params (s\<lparr>cmd_buf := c\<rparr>) = conn_params s"
  "conn_params (s\<lparr>cmd_data_len := m\<rparr>) = conn_params s"
  "conn_params (s\<lparr>cmd_data_offset := m\<rparr>) = conn_params s"
  "conn_params (s\<lparr>cqe := q\<rparr>) = conn_params s"
  "conn_params (s\<lparr>phase := ph\<rparr>) = conn_params s"
  "conn_params (s\<lparr>rx_admin := r\<rparr>) = conn_params s"
  "conn_params (s\<lparr>rx_io := r\<rparr>) = conn_params s"
  "conn_params (s\<lparr>auth := a\<rparr>) = conn_params s"
  "conn_params (s\<lparr>events := e\<rparr>) = conn_params s"
  "conn_params (s\<lparr>cntlid := w\<rparr>) = conn_params s"
  by (rule conn_params_cong; simp)+

lemma conn_params_upd2 [simp]:
  "conn_params (s\<lparr>capacity := cp\<rparr>) = conn_params s"
  "conn_params (s\<lparr>capacity_data := d\<rparr>) = conn_params s"
  "conn_params (s\<lparr>block_data := d\<rparr>) = conn_params s"
  "conn_params (s\<lparr>block_buffer := c\<rparr>) = conn_params s"
  "conn_params (s\<lparr>block_len := m\<rparr>) = conn_params s"
  "conn_params (s\<lparr>block_writing := b\<rparr>) = conn_params s"
  "conn_params (s\<lparr>pfv := w\<rparr>) = conn_params s"
  "conn_params (s\<lparr>maxdata := x\<rparr>) = conn_params s"
  "conn_params (s\<lparr>hdr_digest := y\<rparr>) = conn_params s"
  "conn_params (s\<lparr>data_digest := y\<rparr>) = conn_params s"
  by (rule conn_params_cong; simp)+

section \<open>Transmission keeps the invariant\<close>

lemma session_ok_get_rx: "session_ok s \<Longrightarrow> rx_ok (get_rx k s)"
  by (cases k) (simp_all add: session_ok_def get_rx_def)

lemma session_ok_set_rx: "session_ok s \<Longrightarrow> rx_ok r \<Longrightarrow> session_ok (set_rx k r s)"
  by (cases k) (auto simp: session_ok_def set_rx_def)

lemma rx_ok_reset: "rx_ok rx \<Longrightarrow> rx_ok (nvmetcp_rx_reset rx)"
  by (simp add: rx_ok_def)

lemma session_ok_frame [simp]:
  "session_ok (s\<lparr>clk := n\<rparr>) = session_ok s"
  "session_ok (s\<lparr>cmd_data_len := m\<rparr>) = session_ok s"
  "session_ok (s\<lparr>cmd_data_offset := m\<rparr>) = session_ok s"
  "session_ok (s\<lparr>tx_in_flight := b\<rparr>) = session_ok s"
  "session_ok (s\<lparr>process := b\<rparr>) = session_ok s"
  "session_ok (s\<lparr>cqe := q\<rparr>) = session_ok s"
  "session_ok (s\<lparr>cntlid := w\<rparr>) = session_ok s"
  "session_ok (s\<lparr>capacity := cp\<rparr>) = session_ok s"
  "session_ok (s\<lparr>block_data := d\<rparr>) = session_ok s"
  "session_ok (s\<lparr>capacity_data := d\<rparr>) = session_ok s"
  by (simp_all add: session_ok_def)

lemma session_ok_set_cmd [simp]: "session_ok (set_cmd f s) = session_ok s"
  by (simp add: session_ok_def set_cmd_def)

lemma cmd_set_cmd [simp]: "cmd (set_cmd f s) = f (cid s + 1)"
  by (simp add: set_cmd_def)

lemma session_ok_send:
  "session_ok s \<Longrightarrow> pdu_framed b \<Longrightarrow> session_ok (xfer_send k b s)"
  by (auto simp: session_ok_def xfer_send_def)

lemma session_ok_tx_data:
  "session_ok s \<Longrightarrow> pdu_framed b \<Longrightarrow> session_ok (snd (nvmetcp_tx_data E k b s))"
  by (simp add: nvmetcp_tx_data_def Let_def session_ok_send)

lemma session_ok_tx_pdu:
  "session_ok s \<Longrightarrow> pdu_framed (h @ d) \<Longrightarrow> session_ok (snd (nvmetcp_tx_pdu E k h d s))"
  by (simp add: nvmetcp_tx_pdu_def Let_def session_ok_send)

lemma length_cmd_pdu [simp]: "length c = 64 \<Longrightarrow> length (cmd_pdu c n m) = 72"
  by (simp add: cmd_pdu_def)

lemma cmd_pdu_framed:
  assumes "length c = 64" and "length d \<le> 4096"
  shows "pdu_framed (cmd_pdu c (length d) m @ d)"
proof -
  have "unat (of_nat (72 + length d) :: u32) = 72 + length d"
    using assms(2) by (simp add: unat_of_nat del: of_nat_add)
  then show ?thesis using assms
    by (simp add: pdu_framed_def cmd_pdu_def del: of_nat_add)
qed

lemma session_ok_tx_command:
  assumes "session_ok s" "length c = 64" "length d \<le> 4096"
  shows "session_ok (snd (nvmetcp_tx_command E k c d m s))"
  unfolding nvmetcp_tx_command_def
  by (rule then_ok_state)
    (use assms session_ok_tx_pdu [OF assms(1) cmd_pdu_framed [OF assms(2,3)]] in
      \<open>auto intro!: session_ok_set_rx rx_ok_reset session_ok_get_rx dest!: arg_cong [where f = snd]\<close>)


lemma icreq_framed: "pdu_framed icreq_pdu"
  by (simp add: pdu_framed_def icreq_pdu_def enc_icreq_def)

lemma length_connect_data: "env_ok E \<Longrightarrow> length (connect_data E s qid) = 1024"
  by (simp add: connect_data_def env_okD(8) split: option.split)

lemma session_ok_tx_setup:
  assumes "session_ok s"
  shows "session_ok (snd (nvmetcp_tx_icreq E k s))"
    and "env_ok E \<Longrightarrow> session_ok (snd (nvmetcp_tx_connect E k qid s))"
    and "session_ok (snd (nvmetcp_tx_prop_set E s))"
    and "session_ok (snd (nvmetcp_tx_identify E cns ns s))"
  using assms
  by (simp_all add: nvmetcp_tx_icreq_def nvmetcp_tx_connect_def nvmetcp_tx_prop_set_def
      nvmetcp_tx_identify_def Let_def session_ok_tx_data icreq_framed session_ok_tx_command
      length_connect_data)

lemma session_ok_tx_h2cdata:
  assumes ok: "session_ok s"
  shows "session_ok (snd (nvmetcp_tx_h2cdata E r2t s))"
proof (cases "unat (r2_offset r2t) + unat (r2_length r2t) > length (block_buffer s)")
  case True
  then show ?thesis using ok
    by (auto simp: nvmetcp_tx_h2cdata_def nvmetcp_tx_pdu_def Let_def split: prod.split rc.split)
next
  case False
  let ?o = "r2_offset r2t" and ?l = "r2_length r2t"
  from False ok have small: "unat ?o + unat ?l \<le> 4096" by (simp add: session_ok_def)
  have "unat (24 + ?l) = 24 + unat ?l"
    using small by (simp add: unat_word_ariths)
  then have "pdu_framed (enc_data_pdu \<lparr>dp_hdr = \<lparr>ph_type = NVMETCP_PDU_H2CDATA, ph_flags = 0,
       ph_hlen = 24, ph_pdo = 24, ph_plen = 24 + ?l\<rparr>, dp_command_id = c, dp_ttag = t,
       dp_data_offset = ?o, dp_data_length = ?l\<rparr>
     @ get_at (unat ?o) (unat ?l) (block_buffer s)
     @ zeros (unat ?l - length (get_at (unat ?o) (unat ?l) (block_buffer s))))" for c t
    using False by (simp add: pdu_framed_def enc_data_pdu_def)
  from session_ok_tx_pdu [OF ok this [of "r2_command_id r2t" "r2_ttag r2t"], of E IO] ok False
  show ?thesis
    by (auto simp: nvmetcp_tx_h2cdata_def Let_def split: prod.split rc.split)
qed

lemma session_ok_tx_resume [simp]: "session_ok (nvmetcp_tx_resume s) = session_ok s"
  by (simp add: nvmetcp_tx_resume_def)

lemma session_ok_events:
  "session_ok s \<Longrightarrow> (\<And>k p. e \<noteq> Connected k p) \<Longrightarrow> session_ok (s\<lparr>events := events s @ [e]\<rparr>)"
  by (auto simp: session_ok_def)

lemma session_ok_close: "session_ok s \<Longrightarrow> session_ok (nvmetcp_close s r)"
  by (auto simp: nvmetcp_close_def Let_def session_ok_def)

lemma session_ok_phase:
  "session_ok s \<Longrightarrow> ph \<noteq> PHASE_AUTH \<or> secret s \<noteq> None \<Longrightarrow> session_ok (s\<lparr>phase := ph\<rparr>)"
  by (auto simp: session_ok_def)

section \<open>Authentication keeps the invariant\<close>

lemma session_ok_upd_auth:
  "session_ok s \<Longrightarrow> auth_ok (f (auth s)) \<Longrightarrow> session_ok (upd_auth f s)"
  by (auto simp: session_ok_def upd_auth_def)

lemma auth_upd_auth [simp]: "auth (upd_auth f s) = f (auth s)"
  by (simp add: upd_auth_def)

lemma session_ok_auth_ok: "session_ok s \<Longrightarrow> auth_ok (auth s)"
  by (simp add: session_ok_def)

lemma auth_ok_flags [simp]:
  "auth_ok (a\<lparr>au_step := st\<rparr>) = auth_ok a"
  "auth_ok (a\<lparr>au_completed := b\<rparr>) = auth_ok a"
  "auth_ok (a\<lparr>au_rx_complete := b\<rparr>) = auth_ok a"
  "auth_ok (a\<lparr>au_rx_cid := w\<rparr>) = auth_ok a"
  "auth_ok (a\<lparr>au_transaction := w\<rparr>) = auth_ok a"
  "auth_ok (a\<lparr>au_seqnum := x\<rparr>) = auth_ok a"
  "auth_ok (a\<lparr>au_hash_id := y\<rparr>) = auth_ok a"
  "auth_ok (a\<lparr>au_dhgid := y\<rparr>) = auth_ok a"
  by (simp_all add: auth_ok_def)

lemma session_ok_auth_flags [simp]:
  "session_ok s \<Longrightarrow> session_ok (upd_auth (\<lambda>a. a\<lparr>au_step := st\<rparr>) s)"
  "session_ok s \<Longrightarrow> session_ok (upd_auth (\<lambda>a. a\<lparr>au_completed := b\<rparr>) s)"
  "session_ok s \<Longrightarrow> session_ok (upd_auth (\<lambda>a. a\<lparr>au_rx_complete := b\<rparr>) s)"
  "session_ok s \<Longrightarrow> session_ok (upd_auth (\<lambda>a. a\<lparr>au_rx_cid := w\<rparr>) s)"
  "session_ok s \<Longrightarrow> session_ok (upd_auth (\<lambda>a. a\<lparr>au_transaction := w, au_step := st\<rparr>) s)"
  by (auto intro!: session_ok_upd_auth dest: session_ok_auth_ok)

lemma session_ok_auth_tx_command:
  "session_ok s \<Longrightarrow> length d \<le> 4096 \<Longrightarrow> session_ok (snd (nvmetcp_auth_tx_command E ft d m s))"
  by (simp add: nvmetcp_auth_tx_command_def Let_def session_ok_tx_command)

lemma session_ok_auth_tx_receive_step:
  assumes "session_ok s"
  shows "session_ok (snd (nvmetcp_auth_tx_receive_step E st s))"
proof -
  have "session_ok (snd (nvmetcp_auth_tx_receive E (upd_auth (\<lambda>a. a\<lparr>au_step := st\<rparr>) s)))"
    using assms by (simp add: nvmetcp_auth_tx_receive_def session_ok_auth_tx_command)
  then show ?thesis
    by (auto simp: nvmetcp_auth_tx_receive_step_def split: prod.split rc.split)
qed

lemma length_negotiate_data [simp]: "length (negotiate_data t) = 72"
  by (simp add: negotiate_data_def)

lemma session_ok_auth_tx_negotiate:
  "session_ok s \<Longrightarrow> session_ok (snd (nvmetcp_auth_tx_negotiate E s))"
  by (simp add: nvmetcp_auth_tx_negotiate_def nvmetcp_auth_tx_send_def session_ok_auth_tx_command)

lemma session_ok_get_random_nz: "session_ok s \<Longrightarrow> session_ok (snd (get_random_nz E n s))"
  by (simp add: get_random_nz_def)

lemma session_ok_auth_step: "session_ok s \<Longrightarrow> session_ok (snd (nvmetcp_auth_step E s))"
  by (auto simp: nvmetcp_auth_step_def get_random_nz_def session_ok_auth_tx_receive_step
      session_ok_auth_tx_negotiate split: nvmetcp_auth_steps.split sum.split)

text \<open>The DH arrays are written with a value as long as the group demands.\<close>

lemma auth_ok_put:
  "auth_ok a \<Longrightarrow> length x \<le> 512 \<Longrightarrow> auth_ok (a\<lparr>au_priv_key := put_at 0 x (au_priv_key a)\<rparr>)"
  "auth_ok a \<Longrightarrow> length x \<le> 512 \<Longrightarrow> auth_ok (a\<lparr>au_pub_key := put_at 0 x (au_pub_key a)\<rparr>)"
  "auth_ok a \<Longrightarrow> length x \<le> 512 \<Longrightarrow> unat n \<le> 512 \<Longrightarrow>
     auth_ok (a\<lparr>au_session_key := put_at 0 x (au_session_key a), au_dhvlen := n\<rparr>)"
  "auth_ok a \<Longrightarrow> length x \<le> 512 \<Longrightarrow> length y \<le> 512 \<Longrightarrow>
     auth_ok (a\<lparr>au_priv_key := put_at 0 x (au_priv_key a), au_pub_key := put_at 0 y (au_pub_key a)\<rparr>)"
  "auth_ok a \<Longrightarrow> length x \<le> 64 \<Longrightarrow> auth_ok (a\<lparr>au_cval := put_at 0 x (au_cval a)\<rparr>)"
  "auth_ok a \<Longrightarrow> m \<le> 64 \<Longrightarrow> auth_ok (a\<lparr>au_hl := m\<rparr>)"
  by (simp_all add: auth_ok_def del: put_at_0)

lemma session_ok_dh_key:
  assumes ok: "session_ok s" and E: "env_ok E"
  shows "session_ok (snd (nvmetcp_auth_dh_key E g d k s))"
proof -
  have pub: "unat (of_nat (e_pubsize E g) :: u16) \<le> 512"
    using env_okD(5) [OF E, of g] by (simp add: unat_of_nat)
  have h: "length (e_hash E d x) \<le> 512" for x
    using env_okD(1,2) [OF E, of d] by (metis le_trans numeral_le_iff semiring_norm(68,69,71))
  show ?thesis
    using ok pub h env_okD(4,5) [OF E, of g]
    by (auto simp: nvmetcp_auth_dh_key_def get_random_nz_def alloc_def Let_def
        env_okD(6,7) [OF E] session_ok_auth_ok simp del: put_at_0 split: sum.split bool.split
        intro!: session_ok_upd_auth auth_ok_put)
qed

text \<open>The response is built in \<^verbatim>\<open>cmd_buf\<close>: 16 bytes, two digests and a DH value.\<close>

lemma length_reply_data:
  "auth_ok (auth s) \<Longrightarrow> length (reply_data s r ex) \<le> 656"
  by (auto simp: reply_data_def auth_ok_def Let_def)

lemma auth_hmac_eq:
  "nvmetcp_auth_hmac E d k x s =
     (if e_alloc E (clk s) (e_hmac_ctxsize E d) then Inr (e_hmac E d k x) else Inl (Err ENOMEM),
      s\<lparr>clk := Suc (clk s)\<rparr>)"
  by (simp add: nvmetcp_auth_hmac_def nvmetcp_auth_hmac_alloc_def alloc_def)

lemma reply_data_clk [simp]: "reply_data (s\<lparr>clk := n\<rparr>) r ex = reply_data s r ex"
  by (simp add: reply_data_def)

lemma session_ok_reply_send:
  assumes "session_ok s"
  shows "session_ok (snd (nvmetcp_auth_tx_send E (reply_data s r ex)
           (s\<lparr>clk := n, cmd_buf := put_at 0 (reply_data s r ex) (cmd_buf s)\<rparr>)))"
proof -
  have "length (reply_data s r ex) \<le> 656"
    using assms by (simp add: length_reply_data session_ok_auth_ok)
  then show ?thesis using assms unfolding nvmetcp_auth_tx_send_def
    by (intro session_ok_auth_tx_command) (auto simp: session_ok_def simp del: put_at_0)
qed

lemma session_ok_tx_reply:
  "session_ok s \<Longrightarrow> session_ok (snd (nvmetcp_auth_tx_reply E d ex s))"
  by (auto simp: nvmetcp_auth_tx_reply_def nvmetcp_auth_transform_key_def nvmetcp_auth_response_def
      auth_hmac_eq Let_def session_ok_reply_send simp del: put_at_0
      split: sum.split option.split prod.split if_split)

lemma parse_secret_hash:
  assumes "nvmetcp_auth_parse_secret E s = Inr (n, k)"
  shows "nvmetcp_auth_hash n \<noteq> None"
proof -
  from assms obtain w :: u32 where w: "n = unat w" "w \<noteq> 0" "w \<le> 3"
    by (auto simp: nvmetcp_auth_parse_secret_def Let_def split: option.splits if_splits sum.splits
        prod.splits)
  then have "unat w \<le> 3" "unat w \<noteq> 0"
    by (simp_all add: word_le_nat_alt unat_eq_0)
  then show ?thesis using w(1) by (auto simp: nvmetcp_auth_hash_def)
qed

text \<open>No step of the authentication reads or writes outside its buffers.\<close>

lemma tx_pdu_no_fault [simp]: "fst (nvmetcp_tx_pdu E k h d s) \<noteq> Fault"
  by (simp add: nvmetcp_tx_pdu_def Let_def)

lemma tx_command_no_fault [simp]: "fst (nvmetcp_tx_command E k c d m s) \<noteq> Fault"
  using tx_pdu_no_fault [of E k "cmd_pdu c (length d) m" d s]
  by (auto simp: nvmetcp_tx_command_def then_ok_def simp del: tx_pdu_no_fault
      split: prod.split rc.split)

lemma auth_tx_no_fault [simp]:
  "fst (nvmetcp_auth_tx_command E ft d m s) \<noteq> Fault"
  "fst (nvmetcp_auth_tx_send E d s) \<noteq> Fault"
  "fst (nvmetcp_auth_tx_receive E s) \<noteq> Fault"
  by (simp_all add: nvmetcp_auth_tx_send_def nvmetcp_auth_tx_receive_def
      nvmetcp_auth_tx_command_def Let_def)

lemma auth_tx_receive_step_no_fault [simp]: "fst (nvmetcp_auth_tx_receive_step E st s) \<noteq> Fault"
  using auth_tx_no_fault(3) [of E "upd_auth (\<lambda>a. a\<lparr>au_step := st\<rparr>) s"]
  by (auto simp: nvmetcp_auth_tx_receive_step_def simp del: auth_tx_no_fault
      split: prod.split rc.split)

lemma parse_secret_no_fault:
  "secret s \<noteq> None \<Longrightarrow> nvmetcp_auth_parse_secret E s \<noteq> Inl Fault"
  by (auto simp: nvmetcp_auth_parse_secret_def Let_def split: prod.splits sum.splits if_splits)

lemma tx_reply_no_fault:
  assumes "secret s \<noteq> None"
  shows "fst (nvmetcp_auth_tx_reply E d ex s) \<noteq> Fault"
  using parse_secret_no_fault [OF assms, of E] parse_secret_hash [of E s]
  by (auto simp: nvmetcp_auth_tx_reply_def nvmetcp_auth_transform_key_def nvmetcp_auth_response_def
      auth_hmac_eq Let_def simp del: put_at_0 split: sum.split option.split prod.split if_split)

section \<open>Reception keeps the invariant\<close>

lemma upd_auth_simps [simp]:
  "secret (upd_auth f s) = secret s" "phase (upd_auth f s) = phase s"
  "cmd_buf (upd_auth f s) = cmd_buf s" "clk (upd_auth f s) = clk s"
  by (simp_all add: upd_auth_def)

lemma dh_key_secret: "secret (snd (nvmetcp_auth_dh_key E g d k s)) = secret s"
  by (simp add: nvmetcp_auth_dh_key_def get_random_nz_def alloc_def Let_def
      split: sum.split bool.split)

lemma dh_key_no_fault: "fst (nvmetcp_auth_dh_key E g d k s) \<noteq> Fault"
  by (simp add: nvmetcp_auth_dh_key_def get_random_nz_def alloc_def Let_def
      split: sum.split bool.split)

text \<open>\<open>safe s r\<close>: the operation kept the invariant and stayed inside its buffers.\<close>

definition safe :: "rc \<times> nvmetcp_session \<Rightarrow> bool" where
  "safe r \<longleftrightarrow> fst r \<noteq> Fault \<and> session_ok (snd r)"

lemma safe_OK [simp]: "safe (OK, s) = session_ok s" "safe (Err e, s) = session_ok s"
  "\<not> safe (Fault, s)"
  by (simp_all add: safe_def)

lemma safe_then_ok:
  assumes "safe r" and "\<And>s. r = (OK, s) \<Longrightarrow> session_ok s \<Longrightarrow> safe (k s)"
  shows "safe (then_ok r k)"
  using assms by (cases r; cases "fst r") auto

lemma safe_auth_tx_receive_step: "session_ok s \<Longrightarrow> safe (nvmetcp_auth_tx_receive_step E st s)"
  by (simp add: safe_def session_ok_auth_tx_receive_step)

lemma rx_validate_no_fault [simp]: "nvmetcp_auth_rx_validate m s \<noteq> Fault"
  by (simp add: nvmetcp_auth_rx_validate_def Let_def)

lemma safe_rx_validate: "session_ok s \<Longrightarrow> safe (nvmetcp_auth_rx_validate m s, s)"
  by (simp add: safe_def)

lemma safe_tx_reply: "session_ok s \<Longrightarrow> secret s \<noteq> None \<Longrightarrow> safe (nvmetcp_auth_tx_reply E d ex s)"
  by (simp add: safe_def session_ok_tx_reply tx_reply_no_fault)

lemma safe_dh_key: "session_ok s \<Longrightarrow> env_ok E \<Longrightarrow> safe (nvmetcp_auth_dh_key E g d k s)"
  by (simp add: safe_def session_ok_dh_key dh_key_no_fault)

lemma safe_dh_key_reply:
  assumes "session_ok s" "env_ok E" "secret s \<noteq> None"
  shows "safe (then_ok (nvmetcp_auth_dh_key E g d k s) (nvmetcp_auth_tx_reply E d ex))"
  using assms dh_key_secret [of E g d k s]
  by (auto intro!: safe_then_ok safe_dh_key safe_tx_reply)

lemma safe_auth_rx_challenge:
  assumes ok: "session_ok s" and E: "env_ok E" and sec: "secret s \<noteq> None"
  shows "safe (nvmetcp_auth_rx_challenge E s)"
proof -
  let ?c = "dec_challenge (cmd_buf s)"
  let ?a1 = "\<lambda>d a. a\<lparr>au_hash_id := ch_hashid ?c, au_hl := e_digestsize E d\<rparr>"
  let ?a2 = "\<lambda>hl a. a\<lparr>au_dhgid := ch_dhgid ?c, au_seqnum := ch_seqnum ?c,
               au_cval := put_at 0 (get_at 16 hl (cmd_buf s)) (au_cval a)\<rparr>"
  have a1: "session_ok (upd_auth (?a1 d) s)" for d
    using ok env_okD(1) [OF E, of d] by (simp add: session_ok_def upd_auth_def auth_ok_def)
  have "auth_ok (?a2 (e_digestsize E d) (auth (upd_auth (?a1 d) s)))" for d
    using session_ok_auth_ok [OF a1 [of d]] env_okD(1) [OF E, of d]
    by (simp add: auth_ok_def del: put_at_0)
  then have a2: "session_ok (upd_auth (?a2 (e_digestsize E d)) (upd_auth (?a1 d) s))" for d
    by (rule session_ok_upd_auth [OF a1])
  show ?thesis
    unfolding nvmetcp_auth_rx_challenge_def
    by (rule safe_then_ok [OF safe_rx_validate [OF ok]])
      (use a1 a2 ok E sec in \<open>auto simp: Let_def simp del: put_at_0 split: option.split sum.split
         intro!: safe_dh_key_reply safe_tx_reply\<close>)
qed

lemma safe_auth_rx_success1: "session_ok s \<Longrightarrow> safe (nvmetcp_auth_rx_success1 s)"
  unfolding nvmetcp_auth_rx_success1_def
  by (rule safe_then_ok [OF safe_rx_validate]) (auto simp: Let_def)

lemma safe_auth_rx_data:
  "session_ok s \<Longrightarrow> env_ok E \<Longrightarrow> phase s = PHASE_AUTH \<Longrightarrow> safe (nvmetcp_auth_rx_data E s)"
  by (auto simp: nvmetcp_auth_rx_data_def session_ok_def [of s] split: nvmetcp_auth_steps.split
      intro!: safe_then_ok safe_auth_rx_challenge safe_auth_rx_success1)

lemma safe_auth_rx_complete: "session_ok s \<Longrightarrow> safe (nvmetcp_auth_rx_complete E s)"
  by (simp add: nvmetcp_auth_rx_complete_def Let_def safe_auth_tx_receive_step
      split: nvmetcp_auth_steps.split)

lemma session_ok_try_complete: "session_ok s \<Longrightarrow> session_ok (nvmetcp_auth_try_complete s)"
  by (simp add: nvmetcp_auth_try_complete_def session_ok_phase)

lemma safe_auth_finish:
  assumes "safe r"
  shows "safe (then_ok r (\<lambda>s. let s = nvmetcp_auth_try_complete s in
            (OK, if phase s \<noteq> PHASE_AUTH then s\<lparr>process := True\<rparr> else s)))"
  by (rule safe_then_ok [OF assms]) (simp add: Let_def session_ok_try_complete)

lemma conn_params_no_fault: "conn_params s \<noteq> Inl Fault"
  by (auto simp: conn_params_def nvmetcp_use_tls_def nvmetcp_tls_params_def Let_def
      split: option.split)

lemma open_socket_eq:
  "nvmetcp_open_socket E k ph s =
     (case conn_params s of
        Inl r \<Rightarrow> (r, s)
      | Inr p \<Rightarrow>
          let s1 = s\<lparr>clk := Suc (clk s)\<rparr> in
          if e_open E (clk s) k \<noteq> OK then (e_open E (clk s) k, s1)
          else let s2 = s1\<lparr>events := events s @ [Connected k p], phase := ph\<rparr>
               in (OK, nvmetcp_tx_resume (set_rx k (nvmetcp_rx_reset (get_rx k s2)) s2)))"
  by (simp add: nvmetcp_open_socket_def conn_params_def Let_def split: sum.split)

lemma safe_open_socket:
  assumes ok: "session_ok s" and E: "env_ok E" and ph: "ph \<noteq> PHASE_AUTH"
  shows "safe (nvmetcp_open_socket E k ph s)"
proof (cases "conn_params s")
  case (Inl r)
  with ok conn_params_no_fault [of s] show ?thesis by (simp add: open_socket_eq safe_def)
next
  case (Inr p)
  let ?s = "s\<lparr>clk := Suc (clk s), events := events s @ [Connected k p], phase := ph\<rparr>"
  have "session_ok ?s"
    using ok ph Inr by (auto simp: session_ok_def)
  then have "session_ok (set_rx k (nvmetcp_rx_reset (get_rx k ?s)) ?s)"
    by (intro session_ok_set_rx rx_ok_reset session_ok_get_rx)
  with ok Inr env_okD(9) [OF E, of "clk s" k] show ?thesis
    by (simp add: open_socket_eq safe_def Let_def)
qed

lemma safe_auth_required: "session_ok s \<Longrightarrow> safe (nvmetcp_auth_required s)"
  by (simp add: nvmetcp_auth_required_def session_ok_phase)

lemma safe_rx_command:
  assumes "session_ok s" and E: "env_ok E"
  shows "safe (nvmetcp_rx_command E s)"
proof -
  let ?s = "s\<lparr>tx_in_flight := False\<rparr>"
  have ok: "session_ok ?s" using assms(1) by simp
  have ev: "session_ok (?s\<lparr>block_data := b, events := events s @ [Restart r]\<rparr>)"
    "session_ok (?s\<lparr>phase := PHASE_READY, capacity_data := b,
       events := events s @ [Capacity c, Restart r]\<rparr>)" for b r c
    using assms(1) by (auto simp: session_ok_def)
  show ?thesis
    using ok ev E assms(1) unfolding nvmetcp_rx_command_def Let_def
    by (auto split: nvmetcp_phase.split simp: session_ok_phase
        intro!: safe_auth_required safe_then_ok [OF safe_auth_required] safe_open_socket
          safe_auth_finish [unfolded Let_def] safe_auth_rx_complete)
qed

lemma safe_rx_data:
  assumes "session_ok s" and E: "env_ok E"
  shows "safe (nvmetcp_rx_data E s)"
proof -
  have "block_len s \<le> length (cmd_buf s)" "block_len s = length (block_buffer s)"
    using assms(1) by (simp_all add: session_ok_def)
  moreover have "session_ok (s\<lparr>tx_in_flight := False,
      block_buffer := put_at 0 (take (block_len s) (cmd_buf s)) (block_buffer s),
      block_data := None, events := events s @ [Restart OK]\<rparr>)"
    using assms(1) by (auto simp: session_ok_def simp del: put_at_0)
  ultimately show ?thesis
    using assms unfolding nvmetcp_rx_data_def Let_def
    by (auto simp del: put_at_0 split: nvmetcp_phase.split prod.split rc.split
        intro!: safe_auth_finish [unfolded Let_def] safe_auth_rx_data
        simp: nvmetcp_identify_ns_def Let_def)
qed

section \<open>Reassembly keeps the invariant\<close>

text \<open>The two kinds of header that lead the receive path outside a buffer: a command PDU longer than
  the header array, and an R2T whose offset and length wrap at 32 bits.\<close>

definition bad_header :: "bytes \<Rightarrow> bool" where
  "bad_header b \<longleftrightarrow>
     ph_type (dec_pdu_header b) = NVMETCP_PDU_COMMAND \<and> ph_hlen (dec_pdu_header b) > 128 \<or>
     ph_type (dec_pdu_header b) = NVMETCP_PDU_R2T \<and>
     2 ^ 32 \<le> unat (r2_offset (dec_r2t_pdu b)) + unat (r2_length (dec_r2t_pdu b))"

definition guarded :: "sock \<Rightarrow> rc \<times> nvmetcp_session \<Rightarrow> bool" where
  "guarded k r \<longleftrightarrow> session_ok (snd r) \<and> (fst r = Fault \<longrightarrow> bad_header (rx_hdr (get_rx k (snd r))))"

lemma safe_guarded: "safe r \<Longrightarrow> guarded k r"
  by (simp add: safe_def guarded_def)

lemma guarded_simps [simp]:
  "guarded k (OK, s) = session_ok s" "guarded k (Err e, s) = session_ok s"
  by (simp_all add: guarded_def)

lemma guarded_then_ok:
  assumes "guarded k r" and "\<And>s. r = (OK, s) \<Longrightarrow> session_ok s \<Longrightarrow> guarded k (f s)"
  shows "guarded k (then_ok r f)"
  using assms by (cases r; cases "fst r") auto

lemma h2cdata_fault:
  assumes "session_ok s" and "nvmetcp_tx_h2cdata E r s = (Fault, s')"
  shows "s' = s \<and> 2 ^ 32 \<le> unat (r2_offset r) + unat (r2_length r)"
proof -
  have "s' = s" and out: "unat (r2_offset r) + unat (r2_length r) > length (block_buffer s)"
    and "unat (r2_offset r + r2_length r) \<le> block_len s"
    using assms(2) by (auto simp: nvmetcp_tx_h2cdata_def nvmetcp_tx_pdu_def Let_def
        split: if_splits prod.splits rc.splits)
  moreover from this(3) assms(1) out
  have "unat (r2_offset r + r2_length r) \<noteq> unat (r2_offset r) + unat (r2_length r)"
    by (simp add: session_ok_def)
  ultimately show ?thesis
    by (auto simp: unat_word_ariths intro: ccontr mod_less simp: not_le)
qed

lemma get_set_rx_other [simp]:
  "get_rx k (s\<lparr>cmd_data_len := n\<rparr>) = get_rx k s" "get_rx k (s\<lparr>cqe := q\<rparr>) = get_rx k s"
  by (simp_all add: get_rx_def split: sock.split)

lemma guarded_rx_pdu:
  assumes ok: "session_ok s" and "rx_data_len (get_rx k s) = 0"
    and full: "rx_hdr_expect (get_rx k s) \<le> rx_hdr_len (get_rx k s)"
  shows "guarded k (nvmetcp_rx_pdu E k s)"
proof -
  let ?b = "rx_hdr (get_rx k s)"
  have rx: "rx_ok (get_rx k s)" using ok by (rule session_ok_get_rx)
  have icresp: "session_ok (s\<lparr>pfv := a, maxdata := b, hdr_digest := c, data_digest := d,
      phase := (if k = IO then PHASE_CONNECT_IO else PHASE_CONNECT_ADMIN),
      tx_in_flight := e, process := f\<rparr>)" for a b c d e f
    using ok by (auto simp: session_ok_def)
  show ?thesis
  proof (cases "ph_type (dec_pdu_header ?b) = NVMETCP_PDU_R2T")
    case True
    have "guarded k (nvmetcp_tx_h2cdata E (dec_r2t_pdu ?b) s)"
      using session_ok_tx_h2cdata [OF ok, of E "dec_r2t_pdu ?b"]
        h2cdata_fault [OF ok, of E "dec_r2t_pdu ?b"] True
      by (auto simp: guarded_def bad_header_def prod_eq_iff)
    with True show ?thesis by (simp add: nvmetcp_rx_pdu_def Let_def)
  next
    case False
    have "session_ok (set_rx k ((get_rx k s)\<lparr>rx_data_expect := n\<rparr>) (s\<lparr>cmd_data_len := m\<rparr>))"
      if "n \<le> 4096" for n m
      using ok rx that full assms(2) by (intro session_ok_set_rx) (simp_all add: rx_ok_def)
    with False ok icresp show ?thesis
      unfolding nvmetcp_rx_pdu_def Let_def by (auto simp: not_less)
  qed
qed

lemma guarded_rx_pdu_complete:
  assumes ok: "session_ok s" and E: "env_ok E"
  shows "guarded k (nvmetcp_rx_pdu_complete E k s)"
  unfolding nvmetcp_rx_pdu_complete_def Let_def
  by (rule guarded_then_ok)
    (use ok E in \<open>auto intro!: safe_guarded safe_rx_command safe_rx_data session_ok_set_rx rx_ok_reset
      session_ok_get_rx\<close>)

text \<open>The first eight header bytes stay once they are there.\<close>

lemma fill_header:
  assumes "8 \<le> rx_hdr_len rx" "rx_hdr_len rx + length xs \<le> length (rx_hdr rx)"
  shows "dec_pdu_header (rx_hdr (fill xs rx)) = dec_pdu_header (rx_hdr rx)"
proof -
  have "put_at (rx_hdr_len rx) xs (rx_hdr rx) ! i = rx_hdr rx ! i" if "i < 8" for i
    using assms that by (intro nth_put_at_outside) auto
  with assms show ?thesis by (simp add: fill_def dec_pdu_header_def get_put_before)
qed

lemma rx_ok_fill:
  assumes ok: "rx_ok rx" and less: "rx_hdr_len rx < rx_hdr_expect rx"
    and "rx_hdr_len rx + length xs \<le> length (rx_hdr rx)"
  shows "rx_ok (fill xs rx)"
proof (cases "8 \<le> rx_hdr_len rx")
  case True
  then have "dec_pdu_header (rx_hdr (fill xs rx)) = dec_pdu_header (rx_hdr rx)"
    using assms(3) by (rule fill_header)
  with True assms show ?thesis by (auto simp: rx_ok_def fill_def)
next
  case False
  with assms show ?thesis by (auto simp: rx_ok_def fill_def)
qed

lemma fill_append:
  assumes "rx_hdr_len rx + length xs + length ys \<le> length (rx_hdr rx)"
  shows "fill ys (fill xs rx) = fill (xs @ ys) rx"
  using assms by (simp add: fill_def put_at_append add.assoc)

lemma rx_ok_rx_header:
  assumes "rx_ok rx" "rx_data_expect rx = 0" "rx_hdr_len rx = 8"
  shows "rx_ok (snd (nvmetcp_rx_header rx))" "fst (nvmetcp_rx_header rx) \<noteq> Fault"
    "rx_data_len (snd (nvmetcp_rx_header rx)) = 0"
  using assms unatSuc unat_byte [of "ph_hlen (dec_pdu_header (rx_hdr rx))"]
  by (auto simp: nvmetcp_rx_header_def Let_def rx_ok_def)

lemma header_step_ok:
  assumes "rx_ok rx" "rx_hdr_len rx < rx_hdr_expect rx"
    "rx_hdr_len rx + length xs \<le> length (rx_hdr rx)"
  shows "rx_ok (snd (header_step xs rx))" "fst (header_step xs rx) \<noteq> Fault"
    "rx_data_len (snd (header_step xs rx)) = 0"
proof -
  have "rx_data_expect (fill xs rx) = 0" "rx_data_len (fill xs rx) = 0"
    using assms by (simp_all add: rx_ok_def fill_def)
  with rx_ok_fill [OF assms] rx_ok_rx_header [of "fill xs rx"]
  show "rx_ok (snd (header_step xs rx))" "fst (header_step xs rx) \<noteq> Fault"
    "rx_data_len (snd (header_step xs rx)) = 0"
    by (simp_all add: header_step_def)
qed

lemma guarded_header_done:
  assumes "session_ok s" "env_ok E" "rx_data_len (get_rx k s) = 0"
    "rx_hdr_expect (get_rx k s) \<le> rx_hdr_len (get_rx k s)"
  shows "guarded k (header_done E k s)"
  unfolding header_done_def
  using assms by (intro guarded_then_ok) (auto intro: guarded_rx_pdu guarded_rx_pdu_complete)

lemma guarded_deliver_header:
  assumes ok: "session_ok s" and E: "env_ok E"
    and less: "rx_hdr_len (get_rx k s) < rx_hdr_expect (get_rx k s)"
    and d: "deliver_header E k iob s = (r, rest, s')"
  shows "guarded k (r, s')"
proof -
  let ?rx = "get_rx k s"
  let ?len = "min (rx_hdr_expect ?rx - rx_hdr_len ?rx) (length iob)"
  have rx: "rx_ok ?rx" using ok by (rule session_ok_get_rx)
  show ?thesis
  proof (cases "rx_hdr_len ?rx + ?len > length (rx_hdr ?rx)")
    case True
    let ?f = "fill (take (length (rx_hdr ?rx) - rx_hdr_len ?rx) iob) ?rx"
    from True rx have big: "rx_hdr_expect ?rx > 128"
      by (auto simp: rx_ok_def min_def split: if_splits)
    with rx have "dec_pdu_header (rx_hdr ?f) = dec_pdu_header (rx_hdr ?rx)"
      by (intro fill_header) (auto simp: rx_ok_def)
    with rx big have "bad_header (rx_hdr ?f)"
      by (simp add: bad_header_def rx_ok_def word_less_nat_alt)
    moreover have "rx_ok ?f" using rx less by (intro rx_ok_fill) (auto simp: rx_ok_def)
    moreover have "r = Fault" "s' = set_rx k ?f s"
      using d True by (simp_all add: deliver_header_def Let_def)
    ultimately show ?thesis using ok by (simp add: guarded_def session_ok_set_rx)
  next
    case False
    obtain c rx' where h: "header_step (take ?len iob) ?rx = (c, rx')" by fastforce
    from False have "rx_hdr_len ?rx + length (take ?len iob) \<le> length (rx_hdr ?rx)" by simp
    from header_step_ok [OF rx less this] h
    have rx': "rx_ok rx'" "c \<noteq> Fault" "rx_data_len rx' = 0" by simp_all
    then have ok': "session_ok (set_rx k rx' s)" using ok by (simp add: session_ok_set_rx)
    from d False h show ?thesis
      using guarded_header_done [OF ok' E, of k] rx' ok'
      by (auto simp: deliver_header_def Let_def guarded_def split: prod.splits if_splits)
  qed
qed

text \<open>Received data: the same for the data buffer.\<close>

definition fill_data :: "sock \<Rightarrow> bytes \<Rightarrow> nvmetcp_session \<Rightarrow> nvmetcp_session" where
  "fill_data k xs s =
     (let rx = get_rx k s in
      set_rx k (rx\<lparr>rx_data_len := rx_data_len rx + length xs\<rparr>)
        (s\<lparr>cmd_buf := put_at (rx_data_len rx) xs (cmd_buf s),
           cmd_data_offset := cmd_data_offset s + length xs\<rparr>))"

lemma deliver_data_eq:
  assumes "session_ok s"
  shows "deliver_data E k iob s =
     (let rx = get_rx k s; len = min (rx_data_expect rx - rx_data_len rx) (length iob);
          s' = fill_data k (take len iob) s in
      case (if rx_data_len rx + len < rx_data_expect rx then (OK, s')
            else nvmetcp_rx_pdu_complete E k s') of
        (r, s'') \<Rightarrow> (r, drop len iob, s''))"
proof -
  let ?rx = "get_rx k s"
  have "rx_data_len ?rx \<le> rx_data_expect ?rx" "rx_data_expect ?rx \<le> length (cmd_buf s)"
    using assms session_ok_get_rx [OF assms, of k] by (simp_all add: session_ok_def rx_ok_def)
  then have "rx_data_len ?rx + min (rx_data_expect ?rx - rx_data_len ?rx) (length iob)
      \<le> length (cmd_buf s)"
    by (auto simp: min_def)
  with \<open>rx_data_len ?rx \<le> rx_data_expect ?rx\<close> show ?thesis
    by (simp add: deliver_data_def fill_data_def Let_def)
qed

lemma session_ok_fill_data:
  assumes ok: "session_ok s"
    and "rx_data_len (get_rx k s) + length xs \<le> rx_data_expect (get_rx k s)"
  shows "session_ok (fill_data k xs s)"
proof -
  have rx: "rx_ok (get_rx k s)" using ok by (rule session_ok_get_rx)
  with assms have "session_ok (s\<lparr>cmd_buf := put_at (rx_data_len (get_rx k s)) xs (cmd_buf s)\<rparr>)"
    by (auto simp: session_ok_def rx_ok_def)
  with rx assms(2) show ?thesis
    unfolding fill_data_def Let_def
    by (intro session_ok_set_rx) (auto simp: rx_ok_def)
qed

lemma guarded_deliver_data:
  assumes ok: "session_ok s" and E: "env_ok E" and d: "deliver_data E k iob s = (r, rest, s')"
  shows "guarded k (r, s')"
proof -
  let ?rx = "get_rx k s"
  let ?xs = "take (min (rx_data_expect ?rx - rx_data_len ?rx) (length iob)) iob"
  have "session_ok (fill_data k ?xs s)"
    using session_ok_get_rx [OF ok, of k] by (intro session_ok_fill_data ok) (auto simp: rx_ok_def)
  with guarded_rx_pdu_complete [OF this E, of k] d show ?thesis
    by (auto simp: deliver_data_eq [OF ok] Let_def split: if_splits prod.splits)
qed

lemma guarded_deliver_iter:
  "session_ok s \<Longrightarrow> env_ok E \<Longrightarrow> deliver_iter E k iob s = (r, rest, s') \<Longrightarrow> guarded k (r, s')"
  by (auto simp: deliver_iter_def intro: guarded_deliver_header guarded_deliver_data split: if_splits)

lemma guarded_deliver:
  "session_ok s \<Longrightarrow> env_ok E \<Longrightarrow> guarded k (nvmetcp_socket_deliver E k iob s)"
proof (induction E k iob s rule: nvmetcp_socket_deliver.induct)
  case (1 E k iob s)
  show ?case
  proof (cases "iob = []")
    case False
    obtain r rest s' where it: "deliver_iter E k iob s = (r, rest, s')" by (cases "deliver_iter E k iob s")
    with 1(2,3) have "guarded k (r, s')" by (rule guarded_deliver_iter)
    with False it 1 show ?thesis
      by (cases r) (simp_all add: nvmetcp_socket_deliver.simps [of E k iob s])
  qed (use 1 in \<open>simp add: nvmetcp_socket_deliver.simps\<close>)
qed

end
