(* ===== verification/Nvme_Stream.thy ===== *)
theory Nvme_Stream
  imports Nvme_Inv
begin

text \<open>
  Reassembly does not depend on how TCP cut the stream: the receive path of
  \<^verbatim>\<open>net/tcp/nvmetcp.c\<close> is an instance of the contract \<open>byte_stream\<close>. From it follow the effect of
  whole PDUs delivered in any segmentation.
\<close>

section \<open>One iteration on a longer buffer\<close>

definition need :: "sock \<Rightarrow> nvmetcp_session \<Rightarrow> nat" where
  "need k s =
     (let rx = get_rx k s in
      if rx_hdr_len rx < rx_hdr_expect rx then rx_hdr_expect rx - rx_hdr_len rx
      else rx_data_expect rx - rx_data_len rx)"

lemma set_set_rx [simp]: "set_rx k r (set_rx k r' s) = set_rx k r s"
  by (simp add: set_rx_def split: sock.split)

lemma iter_full:
  assumes "session_ok s" and "need k s \<le> length xs" and "deliver_iter E k xs s = (r, rest, s')"
  shows "deliver_iter E k (xs @ ys) s = (r, rest @ ys, s')"
proof -
  have rx: "rx_ok (get_rx k s)" using assms(1) by (rule session_ok_get_rx)
  have short: "length (rx_hdr (get_rx k s)) - rx_hdr_len (get_rx k s) \<le> length xs"
    if "rx_hdr_len (get_rx k s) < rx_hdr_expect (get_rx k s)"
      "length (rx_hdr (get_rx k s)) < rx_hdr_expect (get_rx k s)"
    using that assms(2) by (simp add: need_def Let_def)
  from assms rx show ?thesis
    by (cases "rx_hdr_len (get_rx k s) < rx_hdr_expect (get_rx k s)")
      (auto simp: deliver_iter_def deliver_header_def deliver_data_eq need_def Let_def short
        split: prod.splits if_splits)
qed

lemma fill_data_append:
  assumes "session_ok s"
    and "rx_data_len (get_rx k s) + length xs + length ys \<le> rx_data_expect (get_rx k s)"
  shows "fill_data k ys (fill_data k xs s) = fill_data k (xs @ ys) s"
proof -
  have "rx_data_len (get_rx k s) + length xs + length ys \<le> length (cmd_buf s)"
    using assms session_ok_get_rx [OF assms(1), of k] by (simp add: session_ok_def rx_ok_def)
  then show ?thesis
    by (cases k) (simp_all add: fill_data_def Let_def get_rx_def set_rx_def put_at_append add.assoc)
qed

lemma iter_partial_data:
  assumes ok: "session_ok s" and "\<not> rx_hdr_len (get_rx k s) < rx_hdr_expect (get_rx k s)"
    and n: "length xs < need k s"
  shows "deliver_iter E k xs s = (OK, [], fill_data k xs s)"
    and "deliver_iter E k (xs @ ys) s = deliver_iter E k ys (fill_data k xs s)"
proof -
  let ?rx = "get_rx k s"
  from assms(2) n have lt: "rx_data_len ?rx + length xs < rx_data_expect ?rx"
    by (simp add: need_def Let_def)
  then have ok': "session_ok (fill_data k xs s)" by (intro session_ok_fill_data ok) simp
  have rx': "get_rx k (fill_data k xs s) = ?rx\<lparr>rx_data_len := rx_data_len ?rx + length xs\<rparr>"
    by (simp add: fill_data_def Let_def)
  show "deliver_iter E k xs s = (OK, [], fill_data k xs s)"
    using assms(2) lt by (simp add: deliver_iter_def deliver_data_eq [OF ok] Let_def)
  define m where "m = min (rx_data_expect ?rx - (rx_data_len ?rx + length xs)) (length ys)"
  have "min (rx_data_expect ?rx - rx_data_len ?rx) (length xs + length ys) = length xs + m"
    using lt m_def by arith
  moreover have "fill_data k (take m ys) (fill_data k xs s) = fill_data k (xs @ take m ys) s"
    using lt m_def by (intro fill_data_append [OF ok], unfold length_take) arith
  moreover have "fill_data k ys (fill_data k xs s) = fill_data k (xs @ ys) s"
    if "rx_data_len ?rx + (length xs + m) < rx_data_expect ?rx"
    using that lt m_def by (intro fill_data_append [OF ok]) arith
  ultimately show "deliver_iter E k (xs @ ys) s = deliver_iter E k ys (fill_data k xs s)"
    using assms(2) by (simp add: deliver_iter_def deliver_data_eq [OF ok] deliver_data_eq [OF ok']
        rx' Let_def add.assoc m_def [symmetric])
qed

lemma iter_partial_header:
  assumes ok: "session_ok s" and less: "rx_hdr_len (get_rx k s) < rx_hdr_expect (get_rx k s)"
    and n: "length xs < need k s" and "xs \<noteq> []"
    and fits: "rx_hdr_len (get_rx k s) + length xs \<le> length (rx_hdr (get_rx k s))"
  shows "deliver_iter E k xs s = (OK, [], set_rx k (fill xs (get_rx k s)) s)"
    and "deliver_iter E k (xs @ ys) s = deliver_iter E k ys (set_rx k (fill xs (get_rx k s)) s)"
proof -
  let ?rx = "get_rx k s"
  from less n have lt: "rx_hdr_len ?rx + length xs < rx_hdr_expect ?rx"
    by (simp add: need_def Let_def)
  have "rx_ok ?rx" using ok by (rule session_ok_get_rx)
  with lt have "rx_hdr_len ?rx + length xs \<noteq> 8" using \<open>xs \<noteq> []\<close>
    by (cases xs) (auto simp: rx_ok_def)
  then have step: "header_step xs ?rx = (OK, fill xs ?rx)"
    by (simp add: header_step_def fill_def)
  show "deliver_iter E k xs s = (OK, [], set_rx k (fill xs ?rx) s)"
    using less lt fits step by (simp add: deliver_iter_def deliver_header_def Let_def fill_def)
  define m where "m = min (rx_hdr_expect ?rx - (rx_hdr_len ?rx + length xs)) (length ys)"
  have m: "min (rx_hdr_expect ?rx - rx_hdr_len ?rx) (length xs + length ys) = length xs + m"
    using lt m_def by arith
  have [simp]: "rx_hdr_len (fill xs ?rx) = rx_hdr_len ?rx + length xs"
    "rx_hdr_expect (fill xs ?rx) = rx_hdr_expect ?rx"
    "length (rx_hdr (fill xs ?rx)) = length (rx_hdr ?rx)"
    using fits by (simp_all add: fill_def)
  have app: "fill zs (fill xs ?rx) = fill (xs @ zs) ?rx"
    if "rx_hdr_len ?rx + length xs + length zs \<le> length (rx_hdr ?rx)" for zs
    using that by (rule fill_append)
  show "deliver_iter E k (xs @ ys) s = deliver_iter E k ys (set_rx k (fill xs ?rx) s)"
  proof (cases "rx_hdr_len ?rx + (length xs + m) > length (rx_hdr ?rx)")
    case True
    then show ?thesis
      using less lt fits app [of "take (length (rx_hdr ?rx) - (rx_hdr_len ?rx + length xs)) ys"]
      by (simp add: deliver_iter_def deliver_header_def m m_def [symmetric] Let_def add.assoc)
  next
    case False
    then have "header_step (take m ys) (fill xs ?rx) = header_step (xs @ take m ys) ?rx"
      using app [of "take m ys"] by (simp add: header_step_def)
    with False less lt show ?thesis
      by (simp add: deliver_iter_def deliver_header_def m m_def [symmetric] Let_def add.assoc)
  qed
qed

section \<open>The stream contract\<close>

lemma deliver_unfold:
  "iob \<noteq> [] \<Longrightarrow> nvmetcp_socket_deliver E k iob s =
     (case deliver_iter E k iob s of (r, rest, s') \<Rightarrow>
        then_ok (r, s') (\<lambda>s'. nvmetcp_socket_deliver E k rest s'))"
  by (subst nvmetcp_socket_deliver.simps) (auto split: prod.split rc.split)

lemma deliver_Nil [simp]: "nvmetcp_socket_deliver E k [] s = (OK, s)"
  by (simp add: nvmetcp_socket_deliver.simps)

lemma fault_partial:
  assumes ok: "session_ok s" and less: "rx_hdr_len (get_rx k s) < rx_hdr_expect (get_rx k s)"
    and n: "length xs < need k s"
    and "\<not> rx_hdr_len (get_rx k s) + length xs \<le> length (rx_hdr (get_rx k s))"
  shows "\<exists>s1 r1 r2. deliver_iter E k xs s = (Fault, r1, s1) \<and>
           deliver_iter E k (xs @ ys) s = (Fault, r2, s1)"
proof -
  let ?rx = "get_rx k s"
  from less n have "length xs < rx_hdr_expect ?rx - rx_hdr_len ?rx" by (simp add: need_def Let_def)
  with assms(4) have "min (rx_hdr_expect ?rx - rx_hdr_len ?rx) (length xs) = length xs"
    "\<not> rx_hdr_len ?rx + min (rx_hdr_expect ?rx - rx_hdr_len ?rx) (length (xs @ ys))
       \<le> length (rx_hdr ?rx)"
    "length (rx_hdr ?rx) - rx_hdr_len ?rx \<le> length xs"
    by (auto simp: min_def)
  with less assms(4) show ?thesis
    by (simp add: deliver_iter_def deliver_header_def Let_def)
qed

lemma deliver_append:
  "session_ok s \<Longrightarrow> env_ok E \<Longrightarrow>
   nvmetcp_socket_deliver E k (xs @ ys) s =
   then_ok (nvmetcp_socket_deliver E k xs s) (nvmetcp_socket_deliver E k ys)"
proof (induction E k xs s rule: nvmetcp_socket_deliver.induct)
  case (1 E k xs s)
  note ok = 1(2) and E = 1(3)
  let ?rx = "get_rx k s"
  show ?case
  proof (cases "xs = [] \<or> ys = []")
    case True
    then show ?thesis
      by (cases "nvmetcp_socket_deliver E k xs s"; cases "fst (nvmetcp_socket_deliver E k xs s)") auto
  next
    case ne: False
    show ?thesis
    proof (cases "need k s \<le> length xs")
      case True
      obtain r rest s' where it: "deliver_iter E k xs s = (r, rest, s')"
        by (cases "deliver_iter E k xs s")
      have "session_ok s'" using guarded_deliver_iter [OF ok E it] by (simp add: guarded_def)
      with 1(1) ne it E iter_full [OF ok True it, of ys] show ?thesis
        by (cases r) (simp_all add: deliver_unfold [of xs] deliver_unfold [of "xs @ ys"])
    next
      case part: False
      show ?thesis
      proof (cases "rx_hdr_len ?rx < rx_hdr_expect ?rx")
        case less: True
        show ?thesis
        proof (cases "rx_hdr_len ?rx + length xs \<le> length (rx_hdr ?rx)")
          case True
          with ne part less show ?thesis
            by (simp add: deliver_unfold iter_partial_header [OF ok])
        next
          case False
          with ne part less fault_partial [OF ok less _ False, of E ys] show ?thesis
            by (auto simp: deliver_unfold)
        qed
      next
        case False
        with ne part show ?thesis
          by (simp add: deliver_unfold iter_partial_data [OF ok])
      qed
    qed
  qed
qed

interpretation nvstream: byte_stream "nvmetcp_socket_deliver E k" "\<lambda>s. env_ok E \<and> session_ok s"
  for E k
proof unfold_locales
  fix s xs s'
  assume "env_ok E \<and> session_ok s" "nvmetcp_socket_deliver E k xs s = (OK, s')"
  with guarded_deliver [of s E k xs] show "env_ok E \<and> session_ok s'" by simp
qed (auto simp: deliver_append)

end
