(* ===== verification/Nvme_Machine.thy ===== *)
theory Nvme_Machine
  imports Nvme_Stream
begin

text \<open>
  The NVMe/TCP session as a state machine: the events that the process scheduler, the two sockets
  and the block consumer can raise, the states reachable from \<^verbatim>\<open>nvmetcp_open\<close>, and what holds in
  all of them.
\<close>

section \<open>Opening establishes the invariant\<close>

text \<open>The part of the invariant that holds before the names are parsed.\<close>

definition fresh :: "nvmetcp_session \<Rightarrow> bool" where
  "fresh s \<longleftrightarrow> events s = [] \<and> tx_log s = [] \<and> rx_admin s = zero_rx \<and> rx_io s = zero_rx \<and>
     auth s = zero_auth \<and> cmd_buf s = zeros 4096 \<and> block_buffer s = [] \<and> block_len s = 0 \<and>
     phase s = PHASE_ICREQ \<and> \<not> tx_in_flight s \<and> block_data s = None \<and> capacity_data s = None"

lemma fresh_frame [simp]:
  "fresh (s\<lparr>clk := n\<rparr>) = fresh s" "fresh (s\<lparr>secret := a\<rparr>) = fresh s"
  "fresh (s\<lparr>tls_psk := a\<rparr>) = fresh s" "fresh (s\<lparr>tls_trsvcid := a\<rparr>) = fresh s"
  "fresh (s\<lparr>host_nqn := a\<rparr>) = fresh s" "fresh (s\<lparr>subsystem_nqn := a\<rparr>) = fresh s"
  "fresh (s\<lparr>target_host := a\<rparr>) = fresh s" "fresh (s\<lparr>target_port := p\<rparr>) = fresh s"
  "fresh (s\<lparr>nsid := i\<rparr>) = fresh s"
  by (simp_all add: fresh_def)

lemma fresh_zero: "fresh zero_session"
  by (simp add: fresh_def zero_session_def)

lemma fresh_parse_secret:
  "fresh s \<Longrightarrow> nvmetcp_parse_secret E u s = (OK, s') \<Longrightarrow>
   fresh s' \<and> subsystem_nqn s' = subsystem_nqn s"
  by (auto simp: nvmetcp_parse_secret_def alloc_def split: sum.splits)

lemma fresh_parse_tls:
  "fresh s \<Longrightarrow> nvmetcp_parse_tls E u s = (OK, s') \<Longrightarrow>
   fresh s' \<and> subsystem_nqn s' = subsystem_nqn s"
  by (auto simp: nvmetcp_parse_tls_def alloc_def Let_def split: sum.splits)

lemma fresh_secret_tls:
  "then_ok (nvmetcp_parse_secret E u s) (nvmetcp_parse_tls E u) = (OK, s') \<Longrightarrow> fresh s \<Longrightarrow>
   fresh s' \<and> subsystem_nqn s' = subsystem_nqn s"
  by (auto simp: then_ok_eq_OK) (metis fresh_parse_secret fresh_parse_tls)+

lemma fresh_parse_root_path:
  assumes "fresh s" "nvmetcp_parse_root_path E u s = (OK, s')"
  shows "fresh s' \<and> (\<exists>nqn. subsystem_nqn s' = Some nqn \<and> nqn \<noteq> [] \<and> length nqn < 256)"
  using assms unfolding nvmetcp_parse_root_path_def alloc_def
  by (auto simp: Let_def not_le dest!: fresh_secret_tls
      split: option.splits bool.splits if_splits)

lemma fresh_set_host_nqn:
  "fresh s \<Longrightarrow> nvmetcp_set_host_nqn E s = (OK, s') \<Longrightarrow>
   fresh s' \<and> subsystem_nqn s' = subsystem_nqn s \<and> host_nqn s' \<noteq> None"
  by (auto simp: nvmetcp_set_host_nqn_def alloc_def Let_def split: option.splits bool.splits)

lemma fresh_session_ok:
  "fresh s \<Longrightarrow> subsystem_nqn s \<noteq> None \<Longrightarrow> host_nqn s \<noteq> None \<Longrightarrow> session_ok s"
  by (simp add: fresh_def session_ok_def zero_rx_def zero_auth_def rx_ok_def auth_ok_def)

lemma open_cases:
  assumes "nvmetcp_open E u = (OK, s)"
  obtains s1 nqn where "fresh s1" "subsystem_nqn s1 = Some nqn" "nqn \<noteq> []" "length nqn < 256"
    "host_nqn s1 \<noteq> None" "nvmetcp_open_socket E Admin PHASE_ICREQ s1 = (OK, s)"
proof -
  let ?s0 = "zero_session\<lparr>clk := Suc (clk zero_session), nsid := 1\<rparr>"
  obtain s1 s2 where p: "nvmetcp_parse_root_path E u ?s0 = (OK, s1)"
    and h: "nvmetcp_set_host_nqn E s1 = (OK, s2)"
    and o: "nvmetcp_open_socket E Admin PHASE_ICREQ s2 = (OK, s)"
    using assms unfolding nvmetcp_open_def alloc_def
    by (auto simp: then_ok_eq_OK split: if_splits bool.splits prod.splits rc.splits)
  have "fresh ?s0" using fresh_zero by simp
  from fresh_parse_root_path [OF this p] obtain nqn where "fresh s1"
    "subsystem_nqn s1 = Some nqn" "nqn \<noteq> []" "length nqn < 256" by blast
  with fresh_set_host_nqn [OF _ h] o show ?thesis by (intro that [of s2 nqn]) auto
qed

lemma open_session_ok:
  assumes E: "env_ok E" and "nvmetcp_open E u = (OK, s)"
  shows "session_ok s"
  using assms(2)
proof (cases rule: open_cases)
  case (1 s1 nqn)
  then have "session_ok s1" by (intro fresh_session_ok) auto
  from safe_open_socket [OF this E, of PHASE_ICREQ Admin] 1 show ?thesis by simp
qed

section \<open>Events\<close>

lemma safe_tx_setup:
  assumes "session_ok s" "env_ok E"
  shows "safe (step_action E s)"
proof -
  have nf: "fst (nvmetcp_tx_icreq E k s) \<noteq> Fault" "fst (nvmetcp_tx_connect E k q s) \<noteq> Fault"
    "fst (nvmetcp_tx_prop_set E s) \<noteq> Fault" "fst (nvmetcp_tx_identify E c n s) \<noteq> Fault" for k q c n
    by (simp_all add: nvmetcp_tx_icreq_def nvmetcp_tx_data_def nvmetcp_tx_connect_def
        nvmetcp_tx_prop_set_def nvmetcp_tx_identify_def Let_def)
  have "fst (nvmetcp_auth_step E s) \<noteq> Fault"
    by (auto simp: nvmetcp_auth_step_def nvmetcp_auth_tx_negotiate_def get_random_nz_def
        split: nvmetcp_auth_steps.split sum.split)
  with nf assms session_ok_tx_setup [OF assms(1)] session_ok_auth_step [OF assms(1)] show ?thesis
    by (simp add: step_action_def safe_def split: nvmetcp_phase.split)
qed

lemma safe_step: "session_ok s \<Longrightarrow> env_ok E \<Longrightarrow> safe (nvmetcp_step E s)"
  using safe_tx_setup [of s E]
  by (auto simp: nvmetcp_step_def safe_def session_ok_close split: prod.split rc.split)

lemma session_ok_block:
  "session_ok s \<Longrightarrow> length b \<le> 4096 \<Longrightarrow>
   session_ok (s\<lparr>events := events s @ [Plug d], block_data := bd, block_buffer := b,
     block_len := length b, block_writing := w\<rparr>)"
  by (auto simp: session_ok_def)

text \<open>A block command that passes the checks: what is sent, and from which state.\<close>

definition rw_issued :: "nat \<Rightarrow> u64 \<Rightarrow> u32 \<Rightarrow> bytes \<Rightarrow> byte \<Rightarrow> nvmetcp_session \<Rightarrow> nvmetcp_session" where
  "rw_issued d lba n b opc s =
     set_cmd (rw_cmd opc (nsid s) lba n) (s\<lparr>events := events s @ [Plug d],
       block_data := Some d, block_buffer := b, block_len := length b,
       block_writing := (opc = NVME_OPCODE_WRITE)\<rparr>)"

definition rw_send :: "nv_env \<Rightarrow> nat \<Rightarrow> u64 \<Rightarrow> u32 \<Rightarrow> bytes \<Rightarrow> byte \<Rightarrow> nvmetcp_session \<Rightarrow> rc \<times> nvmetcp_session" where
  "rw_send E d lba n b opc s =
     nvmetcp_tx_command E IO (rw_cmd opc (nsid s) lba n (cid s + 1))
       (if opc = NVME_OPCODE_WRITE then b else []) (if opc = NVME_OPCODE_WRITE then 0 else length b)
       (rw_issued d lba n b opc s)"

lemma block_rw_eq:
  assumes "phase s = PHASE_READY" "length b \<le> NVMETCP_MAX_CMD_DATA" "block_data s = None"
  shows "nvmetcp_block_rw E d lba n b opc s =
     (case rw_send E d lba n b opc s of (r, s') \<Rightarrow>
        (r, if r = OK then s' else s'\<lparr>block_data := None, events := events s' @ [Restart r]\<rparr>))"
  using assms
  by (cases "rw_send E d lba n b opc s"; cases "fst (rw_send E d lba n b opc s)")
    (simp_all add: nvmetcp_block_rw_def rw_send_def rw_issued_def Let_def set_cmd_def)

lemma session_ok_restart:
  "session_ok s \<Longrightarrow> session_ok (s\<lparr>block_data := d, events := events s @ [Restart r]\<rparr>)"
  by (auto simp: session_ok_def)

lemma safe_block_rw:
  assumes "session_ok s"
  shows "safe (nvmetcp_block_rw E d lba n b opc s)"
proof (cases "phase s = PHASE_READY \<and> length b \<le> 4096 \<and> block_data s = None")
  case True
  obtain r s' where t: "rw_send E d lba n b opc s = (r, s')" by fastforce
  have "session_ok (rw_issued d lba n b opc s)"
    using session_ok_block [OF assms, of b] True by (simp add: rw_issued_def)
  then have "session_ok (snd (rw_send E d lba n b opc s))"
    unfolding rw_send_def using True
    by (intro session_ok_tx_command) (simp_all add: rw_cmd_def)
  with t have "session_ok s'" by simp
  moreover have "fst (rw_send E d lba n b opc s) \<noteq> Fault" by (simp add: rw_send_def)
  ultimately show ?thesis
    using True t by (simp add: safe_def block_rw_eq session_ok_restart)
next
  case False
  with assms show ?thesis by (auto simp: nvmetcp_block_rw_def)
qed

lemma session_ok_read_capacity:
  "session_ok s \<Longrightarrow> session_ok (snd (nvmetcp_block_read_capacity d s))"
  by (auto simp: nvmetcp_block_read_capacity_def Let_def session_ok_def)

lemma session_ok_command_close: "session_ok s \<Longrightarrow> session_ok (nvmetcp_command_close r s)"
  using session_ok_events [of s "Restart r"]
  by (auto simp: nvmetcp_command_close_def Let_def session_ok_close)

text \<open>Shutting down the interfaces detaches the session from everything that could call it.\<close>

definition closed :: "nvmetcp_session \<Rightarrow> bool" where
  "closed s \<longleftrightarrow> (\<exists>e \<in> set (events s). case e of Shutdown r \<Rightarrow> True | _ \<Rightarrow> False)"

text \<open>
  One event. A delivery that fails leaves the session as the failing function left it; whether the
  transport then closes the connection is the transport's choice, so closing is an event of its own.
  No event follows a fault.
\<close>

inductive nv_step :: "nv_env \<Rightarrow> nvmetcp_session \<Rightarrow> nvmetcp_session \<Rightarrow> bool" for E where
  run: "\<not> closed s \<Longrightarrow> process s \<Longrightarrow> nvmetcp_step E s = (OK, s') \<Longrightarrow> nv_step E s s'"
| admin: "\<not> closed s \<Longrightarrow> nvmetcp_admin_socket_deliver E iob s = (r, s') \<Longrightarrow> r \<noteq> Fault \<Longrightarrow> nv_step E s s'"
| io: "\<not> closed s \<Longrightarrow> nvmetcp_io_socket_deliver E iob s = (r, s') \<Longrightarrow> r \<noteq> Fault \<Longrightarrow> nv_step E s s'"
| window: "\<not> closed s \<Longrightarrow> nv_step E s (nvmetcp_tx_resume s)"
| close: "\<not> closed s \<Longrightarrow> nv_step E s (nvmetcp_close s r)"
| capacity: "\<not> closed s \<Longrightarrow> nvmetcp_block_read_capacity d s = (r, s') \<Longrightarrow> nv_step E s s'"
| blk_read: "\<not> closed s \<Longrightarrow> nvmetcp_block_read E d lba n b s = (r, s') \<Longrightarrow> nv_step E s s'"
| blk_write: "\<not> closed s \<Longrightarrow> nvmetcp_block_write E d lba n b s = (r, s') \<Longrightarrow> nv_step E s s'"
| command_close: "\<not> closed s \<Longrightarrow> nv_step E s (nvmetcp_command_close r s)"

inductive_cases nv_stepE: "nv_step E s s'"

definition reachable :: "nv_env \<Rightarrow> uri \<Rightarrow> nvmetcp_session \<Rightarrow> bool" where
  "reachable E u s \<longleftrightarrow> (\<exists>s0. nvmetcp_open E u = (OK, s0) \<and> (nv_step E)\<^sup>*\<^sup>* s0 s)"

lemma nv_step_session_ok:
  assumes "env_ok E" "session_ok s" "nv_step E s s'"
  shows "session_ok s'"
  using assms(3)
proof (cases rule: nv_step.cases)
  case run
  with safe_step [OF assms(2,1)] show ?thesis by (simp add: safe_def)
next
  case (admin iob r)
  with guarded_deliver [OF assms(2,1), of Admin iob] show ?thesis
    by (simp add: guarded_def nvmetcp_admin_socket_deliver_def)
next
  case (io iob r)
  with guarded_deliver [OF assms(2,1), of IO iob] show ?thesis
    by (simp add: guarded_def nvmetcp_io_socket_deliver_def)
next
  case (capacity d r)
  with session_ok_read_capacity [OF assms(2), of d] show ?thesis by simp
next
  case (blk_read d lba n b r)
  with safe_block_rw [OF assms(2), of E d lba n b "NVME_OPCODE_READ"] show ?thesis
    by (simp add: safe_def nvmetcp_block_read_def)
next
  case (blk_write d lba n b r)
  with safe_block_rw [OF assms(2), of E d lba n b "NVME_OPCODE_WRITE"] show ?thesis
    by (simp add: safe_def nvmetcp_block_write_def)
qed (use assms(2) in \<open>simp_all add: session_ok_close session_ok_command_close\<close>)

interpretation nvsession: invariant_machine "nv_step E" "\<lambda>s. env_ok E \<and> session_ok s" for E
  by unfold_locales (auto intro: nv_step_session_ok)

lemma reachable_ok: "env_ok E \<Longrightarrow> reachable E u s \<Longrightarrow> session_ok s"
  unfolding reachable_def using nvsession.reach_inv open_session_ok by blast

end
