(* ===== verification/Nvme_Run.thy ===== *)
theory Nvme_Run
  imports Nvme_Machine
begin

text \<open>
  The effect of whole PDUs on an idle receive state, and the set-up of a session round by round:
  with a transport that accepts what is sent and a target that answers, every phase of
  \<^verbatim>\<open>nvmetcp_step\<close> leads to the next until the session is ready.
\<close>

section \<open>Whole PDUs\<close>

definition idle :: "nvmetcp_rx \<Rightarrow> bool" where
  "idle rx \<longleftrightarrow> length (rx_hdr rx) = 128 \<and> rx_hdr_len rx = 0 \<and> rx_hdr_expect rx = 8 \<and>
     rx_data_expect rx = 0 \<and> rx_data_len rx = 0"

lemma idle_reset: "length (rx_hdr rx) = 128 \<Longrightarrow> idle (nvmetcp_rx_reset rx)"
  by (simp add: idle_def)

text \<open>The header length of the PDUs that a target sends.\<close>

definition hdr_size :: "byte \<Rightarrow> nat" where
  "hdr_size t = (if t = NVMETCP_PDU_ICRESP then 128 else 24)"

definition target_pdu :: "byte \<Rightarrow> bool" where
  "target_pdu t \<longleftrightarrow> t = NVMETCP_PDU_ICRESP \<or> t = NVMETCP_PDU_RESPONSE \<or>
     t = NVMETCP_PDU_C2HDATA \<or> t = NVMETCP_PDU_R2T"

lemma rx_header_target:
  "target_pdu (ph_type (dec_pdu_header (rx_hdr rx))) \<Longrightarrow>
   nvmetcp_rx_header rx = (OK, rx\<lparr>rx_hdr_expect := hdr_size (ph_type (dec_pdu_header (rx_hdr rx)))\<rparr>)"
  by (auto simp: nvmetcp_rx_header_def target_pdu_def hdr_size_def Let_def)

definition with_header :: "bytes \<Rightarrow> nvmetcp_rx \<Rightarrow> nvmetcp_rx" where
  "with_header b rx = rx\<lparr>rx_hdr := b @ drop (length b) (rx_hdr rx), rx_hdr_len := length b,
     rx_hdr_expect := length b\<rparr>"

lemma type_prefix: "xs \<noteq> [] \<Longrightarrow> ph_type (dec_pdu_header (xs @ ys)) = hd xs"
  by (cases xs) (simp_all add: dec_pdu_header_def)

lemma deliver_whole_header:
  assumes idle: "idle (get_rx k s)" and t: "target_pdu (hd b)" and n: "length b = hdr_size (hd b)"
  shows "nvmetcp_socket_deliver E k (b @ rest) s =
     then_ok (header_done E k (set_rx k (with_header b (get_rx k s)) s))
       (\<lambda>s. nvmetcp_socket_deliver E k rest s)"
proof -
  let ?rx = "get_rx k s"
  let ?h = "take 8 b"
  from n have len: "24 \<le> length b" "length b \<le> 128" by (simp_all add: hdr_size_def)
  then have ne: "b \<noteq> []" "take 8 b \<noteq> []" by auto
  let ?rx1 = "?rx\<lparr>rx_hdr := ?h @ drop 8 (rx_hdr ?rx), rx_hdr_len := 8, rx_hdr_expect := length b\<rparr>"
  have "fill ?h ?rx = ?rx\<lparr>rx_hdr := ?h @ drop 8 (rx_hdr ?rx), rx_hdr_len := 8\<rparr>"
    using idle len by (simp add: fill_def idle_def min_absorb2)
  moreover have "hd (take 8 b) = hd b" by (simp add: hd_take)
  ultimately have "header_step ?h ?rx = (OK, ?rx1)"
    using t n ne by (simp add: header_step_def rx_header_target type_prefix)
  then have i1: "deliver_iter E k (b @ rest) s = (OK, drop 8 b @ rest, set_rx k ?rx1 s)"
    using idle len
    by (simp add: deliver_iter_def deliver_header_def idle_def Let_def min_absorb1)
  have "fill (drop 8 b) ?rx1 = with_header b ?rx"
    using len idle put_at_append [of 0 "take 8 b" "drop 8 b" "rx_hdr ?rx"]
    by (simp add: fill_def with_header_def idle_def min_absorb2)
  then have "header_step (drop 8 b) ?rx1 = (OK, with_header b ?rx)"
    using len by (simp add: header_step_def with_header_def)
  then have i2: "deliver_iter E k (drop 8 b @ rest) (set_rx k ?rx1 s) =
      (case header_done E k (set_rx k (with_header b ?rx) s) of (r, s') \<Rightarrow> (r, rest, s'))"
    using len idle
    by (simp add: deliver_iter_def deliver_header_def Let_def with_header_def min_absorb1 idle_def)
  have "b @ rest \<noteq> []" "drop 8 b @ rest \<noteq> []" using len ne by auto
  then show ?thesis
    by (simp add: deliver_unfold [of "b @ rest"] deliver_unfold [of "drop 8 b @ rest"] i1 i2
        split: prod.split)
qed

definition rsp_pdu :: "nvme_completion \<Rightarrow> bytes" where
  "rsp_pdu q = enc_pdu_header \<lparr>ph_type = NVMETCP_PDU_RESPONSE, ph_flags = 0, ph_hlen = 24, ph_pdo = 0,
     ph_plen = 24\<rparr> @ enc_completion q"

definition finish :: "sock \<Rightarrow> nvmetcp_session \<Rightarrow> nvmetcp_session" where
  "finish k s = set_rx k (nvmetcp_rx_reset (get_rx k s)) s"

lemma hd_pdu [simp]: "hd (enc_pdu_header h @ b) = ph_type h"
  by (simp add: enc_pdu_header_def)

text \<open>A completion is processed exactly once, with the completion that was sent.\<close>

lemma deliver_rsp:
  assumes "idle (get_rx k s)"
  shows "nvmetcp_socket_deliver E k (rsp_pdu q @ rest) s =
    then_ok (nvmetcp_rx_command E (set_rx k (with_header (rsp_pdu q) (get_rx k s)) (s\<lparr>cqe := q\<rparr>)))
      (\<lambda>s. nvmetcp_socket_deliver E k rest (finish k s))"
proof -
  let ?rx = "with_header (rsp_pdu q) (get_rx k s)"
  have hdr: "target_pdu (hd (rsp_pdu q))" "length (rsp_pdu q) = hdr_size (hd (rsp_pdu q))"
    by (simp_all add: rsp_pdu_def target_pdu_def hdr_size_def cqe.width_enc)
  have ty: "ph_type (dec_pdu_header (rx_hdr ?rx)) = NVMETCP_PDU_RESPONSE"
    by (simp add: with_header_def rsp_pdu_def)
  have q: "dec_rsp_cqe (rx_hdr ?rx) = q"
    by (simp add: dec_rsp_cqe_def with_header_def rsp_pdu_def get_at_def cqe.width_enc cqe.dec_enc)
  have swap: "(set_rx k r s)\<lparr>cqe := q\<rparr> = set_rx k r (s\<lparr>cqe := q\<rparr>)" for r
    by (simp add: set_rx_def split: sock.split)
  have "rx_data_expect ?rx = 0" using assms by (simp add: with_header_def idle_def)
  then have "header_done E k (set_rx k ?rx s) =
      then_ok (nvmetcp_rx_command E (set_rx k ?rx (s\<lparr>cqe := q\<rparr>))) (\<lambda>s. (OK, finish k s))"
    using ty q by (simp add: header_done_def nvmetcp_rx_pdu_def nvmetcp_rx_pdu_complete_def Let_def
        swap finish_def)
  then show ?thesis
    unfolding deliver_whole_header [OF assms hdr]
    by (cases "nvmetcp_rx_command E (set_rx k ?rx (s\<lparr>cqe := q\<rparr>))";
        cases "fst (nvmetcp_rx_command E (set_rx k ?rx (s\<lparr>cqe := q\<rparr>)))") simp_all
qed

lemma set_rx_simps [simp]:
  "phase (set_rx k r s) = phase s" "process (set_rx k r s) = process s"
  "tx_log (set_rx k r s) = tx_log s" "events (set_rx k r s) = events s"
  "capacity (set_rx k r s) = capacity s" "conn_params (set_rx k r s) = conn_params s"
  "cmd_buf (set_rx k r s) = cmd_buf s" "cmd_data_offset (set_rx k r s) = cmd_data_offset s"
  "cmd_data_len (set_rx k r s) = cmd_data_len s" "cqe (set_rx k r s) = cqe s"
  "clk (set_rx k r s) = clk s" "cntlid (set_rx k r s) = cntlid s"
  "capacity_data (set_rx k r s) = capacity_data s" "block_data (set_rx k r s) = block_data s"
  "tx_in_flight (set_rx k r s) = tx_in_flight s"
  by (cases k; simp add: set_rx_def)+

lemma finish_simps [simp]:
  "phase (finish k s) = phase s" "process (finish k s) = process s"
  "tx_log (finish k s) = tx_log s" "events (finish k s) = events s"
  "capacity (finish k s) = capacity s" "conn_params (finish k s) = conn_params s"
  "cntlid (finish k s) = cntlid s" "tx_in_flight (finish k s) = tx_in_flight s"
  by (simp_all add: finish_def)

lemma get_rx_upd [simp]:
  "get_rx k (s\<lparr>phase := a\<rparr>) = get_rx k s" "get_rx k (s\<lparr>process := b\<rparr>) = get_rx k s"
  "get_rx k (s\<lparr>tx_in_flight := b\<rparr>) = get_rx k s" "get_rx k (s\<lparr>clk := n\<rparr>) = get_rx k s"
  "get_rx k (s\<lparr>cntlid := w\<rparr>) = get_rx k s" "get_rx k (s\<lparr>capacity := c\<rparr>) = get_rx k s"
  "get_rx k (s\<lparr>events := ev\<rparr>) = get_rx k s" "get_rx k (s\<lparr>capacity_data := d\<rparr>) = get_rx k s"
  "get_rx k (s\<lparr>cmd_buf := x\<rparr>) = get_rx k s" "get_rx k (s\<lparr>cmd_data_offset := n\<rparr>) = get_rx k s"
  "get_rx k (s\<lparr>tx_log := l\<rparr>) = get_rx k s" "get_rx k (s\<lparr>data_digest := y\<rparr>) = get_rx k s"
  by (simp_all add: get_rx_def split: sock.split)

lemma get_rx_set_rx: "get_rx j (set_rx k r s) = (if j = k then r else get_rx j s)"
  by (cases j; cases k) (simp_all add: get_rx_def set_rx_def)

lemma idle_finish: "length (rx_hdr (get_rx k s)) = 128 \<Longrightarrow> idle (get_rx k (finish k s))"
  by (simp add: finish_def idle_reset)

lemma length_with_header:
  "length b \<le> 128 \<Longrightarrow> idle rx \<Longrightarrow> length (rx_hdr (with_header b rx)) = 128"
  by (simp add: with_header_def idle_def)

text \<open>The initialisation response: the connection moves on to its Connect command.\<close>

definition icresp_ok :: "nvmetcp_icresp \<Rightarrow> bool" where
  "icresp_ok q \<longleftrightarrow> ph_type (ir_hdr q) = NVMETCP_PDU_ICRESP \<and> ir_pfv q = NVMETCP_PFV"

lemma deliver_icresp:
  assumes "idle (get_rx k s)" "icresp_ok q"
  shows "\<exists>s'. nvmetcp_socket_deliver E k (enc_icresp q) s = (OK, s') \<and>
     phase s' = (if k = IO then PHASE_CONNECT_IO else PHASE_CONNECT_ADMIN) \<and> process s' \<and>
     \<not> tx_in_flight s' \<and> idle (get_rx k s') \<and> (\<forall>j. j \<noteq> k \<longrightarrow> get_rx j s' = get_rx j s) \<and>
     tx_log s' = tx_log s \<and> events s' = events s \<and> capacity s' = capacity s \<and>
     conn_params s' = conn_params s \<and> cntlid s' = cntlid s"
proof -
  let ?rx = "with_header (enc_icresp q) (get_rx k s)"
  have hd: "hd (enc_icresp q) = NVMETCP_PDU_ICRESP"
    using assms(2) by (simp add: enc_icresp_def icresp_ok_def)
  have hdr: "target_pdu (hd (enc_icresp q))" "length (enc_icresp q) = hdr_size (hd (enc_icresp q))"
    by (simp_all add: hd target_pdu_def hdr_size_def icresppdu.width_enc)
  have full: "rx_hdr ?rx = enc_icresp q"
    using assms(1) by (simp add: with_header_def icresppdu.width_enc idle_def)
  have ty: "ph_type (dec_pdu_header (enc_icresp q)) = NVMETCP_PDU_ICRESP"
    using assms(2) by (simp add: enc_icresp_def icresp_ok_def)
  have exp: "rx_data_expect ?rx = 0" using assms(1) by (simp add: with_header_def idle_def)
  define s1 where "s1 = (set_rx k ?rx s)\<lparr>pfv := ir_pfv q, maxdata := ir_maxdata q,
      hdr_digest := ir_digest q AND NVMETCP_DIGEST_HDR,
      data_digest := ir_digest q AND NVMETCP_DIGEST_DATA,
      phase := (if k = IO then PHASE_CONNECT_IO else PHASE_CONNECT_ADMIN),
      tx_in_flight := False, process := True\<rparr>"
  have rx: "get_rx j s1 = (if j = k then ?rx else get_rx j s)" for j
    by (cases j; cases k) (simp_all add: s1_def get_rx_def set_rx_def)
  have pdu: "nvmetcp_rx_pdu E k (set_rx k ?rx s) = (OK, s1)"
    using assms(2) ty
    by (simp only: nvmetcp_rx_pdu_def Let_def get_set_rx full icresppdu.dec_enc icresp_ok_def s1_def) simp
  have "nvmetcp_rx_pdu_complete E k s1 = (OK, finish k s1)"
    using ty by (simp add: nvmetcp_rx_pdu_complete_def Let_def rx full finish_def)
  with pdu exp have "header_done E k (set_rx k ?rx s) = (OK, finish k s1)"
    by (simp add: header_done_def rx)
  with deliver_whole_header [OF assms(1) hdr, of E "[]"]
  have "nvmetcp_socket_deliver E k (enc_icresp q) s = (OK, finish k s1)" by simp
  moreover have "length (rx_hdr ?rx) = 128"
    using assms(1) by (intro length_with_header) (simp_all add: icresppdu.width_enc)
  then have "idle (get_rx k (finish k s1))" by (intro idle_finish) (simp add: rx)
  moreover have "get_rx j (finish k s1) = get_rx j s" if "j \<noteq> k" for j
    using that by (simp add: finish_def get_rx_set_rx rx)
  moreover have "phase s1 = (if k = IO then PHASE_CONNECT_IO else PHASE_CONNECT_ADMIN)"
    "process s1" "\<not> tx_in_flight s1" "tx_log s1 = tx_log s" "events s1 = events s"
    "capacity s1 = capacity s" "conn_params s1 = conn_params s" "cntlid s1 = cntlid s"
    by (simp_all add: s1_def)
  ultimately show ?thesis by (intro exI [of _ "finish k s1"]) simp
qed

text \<open>Returned data: one data PDU with its payload.\<close>

definition c2h_hdr :: "u16 \<Rightarrow> u32 \<Rightarrow> nat \<Rightarrow> bytes" where
  "c2h_hdr i off n = enc_data_pdu \<lparr>dp_hdr = \<lparr>ph_type = NVMETCP_PDU_C2HDATA, ph_flags = 0, ph_hlen = 24,
       ph_pdo = 24, ph_plen = of_nat (24 + n)\<rparr>, dp_command_id = i, dp_ttag = 0,
     dp_data_offset = off, dp_data_length = of_nat n\<rparr>"

definition after_c2h :: "sock \<Rightarrow> u16 \<Rightarrow> u32 \<Rightarrow> bytes \<Rightarrow> nvmetcp_session \<Rightarrow> nvmetcp_session" where
  "after_c2h k i off d s =
     set_rx k ((with_header (c2h_hdr i off (length d)) (get_rx k s))
         \<lparr>rx_data_expect := length d, rx_data_len := length d\<rparr>)
       (s\<lparr>cmd_data_len := cmd_data_offset s + length d, cmd_buf := put_at 0 d (cmd_buf s),
          cmd_data_offset := cmd_data_offset s + length d\<rparr>)"

lemma c2h_hdr_facts:
  assumes "n \<le> 4096"
  shows "length (c2h_hdr i off n) = 24" "hd (c2h_hdr i off n) = NVMETCP_PDU_C2HDATA"
    "ph_type (dec_pdu_header (c2h_hdr i off n @ ys)) = NVMETCP_PDU_C2HDATA"
    "unat (ph_plen (dec_pdu_header (c2h_hdr i off n @ ys))) = 24 + n"
    "dp_data_offset (dec_data_pdu (c2h_hdr i off n @ ys)) = off"
proof -
  have "unat (of_nat (24 + n) :: u32) = 24 + n"
    using assms by (simp add: unat_of_nat del: of_nat_add)
  then show "unat (ph_plen (dec_pdu_header (c2h_hdr i off n @ ys))) = 24 + n"
    by (simp add: c2h_hdr_def enc_data_pdu_def del: of_nat_add)
qed (simp_all add: c2h_hdr_def enc_data_pdu_def dec_data_pdu_def get_at_def)

lemma header_done_c2h:
  fixes i :: u16
  assumes idle: "idle (get_rx k s)" and d: "0 < length d" "length d \<le> 4096"
    and off: "unat off = cmd_data_offset s"
  defines "h \<equiv> c2h_hdr i off (length d)"
  shows "header_done E k (set_rx k (with_header h (get_rx k s)) s) =
     (OK, set_rx k ((with_header h (get_rx k s))\<lparr>rx_data_expect := length d\<rparr>)
            (s\<lparr>cmd_data_len := cmd_data_offset s + length d\<rparr>))"
proof -
  have "(set_rx k r s)\<lparr>cmd_data_len := n\<rparr> = set_rx k r (s\<lparr>cmd_data_len := n\<rparr>)" for r n
    by (simp add: set_rx_def split: sock.split)
  with c2h_hdr_facts [OF d(2)] d off show ?thesis
    by (simp add: header_done_def nvmetcp_rx_pdu_def Let_def with_header_def h_def)
qed

lemma deliver_c2h:
  assumes ok: "session_ok s" and idle: "idle (get_rx k s)"
    and d: "0 < length d" "length d \<le> 4096" and off: "unat off = cmd_data_offset s"
  shows "nvmetcp_socket_deliver E k (c2h_hdr i off (length d) @ d @ rest) s =
    then_ok (nvmetcp_rx_data E (after_c2h k i off d s))
      (\<lambda>s. nvmetcp_socket_deliver E k rest (finish k s))"
proof -
  let ?h = "c2h_hdr i off (length d)" and ?rx = "get_rx k s"
  note f = c2h_hdr_facts [OF d(2), of i off]
  have hdr: "target_pdu (hd ?h)" "length ?h = hdr_size (hd ?h)"
    using f by (simp_all add: target_pdu_def hdr_size_def)
  define s1 where "s1 = set_rx k ((with_header ?h ?rx)\<lparr>rx_data_expect := length d\<rparr>)
            (s\<lparr>cmd_data_len := cmd_data_offset s + length d\<rparr>)"
  have rx1: "get_rx k s1 = (with_header ?h ?rx)\<lparr>rx_data_expect := length d\<rparr>"
    by (simp add: s1_def)
  have "session_ok s1"
    unfolding s1_def using ok idle f d
    by (intro session_ok_set_rx) (auto simp: rx_ok_def with_header_def idle_def)
  moreover have "fill_data k d s1 = after_c2h k i off d s"
    using idle by (cases k) (simp_all add: fill_data_def after_c2h_def s1_def with_header_def
        get_rx_def set_rx_def Let_def idle_def)
  moreover have "nvmetcp_rx_pdu_complete E k (after_c2h k i off d s) =
      then_ok (nvmetcp_rx_data E (after_c2h k i off d s)) (\<lambda>s. (OK, finish k s))"
    using f by (simp add: nvmetcp_rx_pdu_complete_def after_c2h_def Let_def finish_def with_header_def)
  ultimately have "deliver_iter E k (d @ rest) s1 =
      (case then_ok (nvmetcp_rx_data E (after_c2h k i off d s)) (\<lambda>s. (OK, finish k s)) of
         (r, s') \<Rightarrow> (r, rest, s'))"
    using idle f d by (simp add: deliver_iter_def deliver_data_eq rx1 with_header_def idle_def Let_def)
  moreover have "d @ rest \<noteq> []" using d by auto
  ultimately show ?thesis
    unfolding deliver_whole_header [OF idle hdr] header_done_c2h [OF idle d off]
    by (cases "nvmetcp_rx_data E (after_c2h k i off d s)";
        cases "fst (nvmetcp_rx_data E (after_c2h k i off d s))")
      (simp_all add: s1_def [symmetric] deliver_unfold [of "d @ rest"])
qed

section \<open>Rounds\<close>

text \<open>A transport that accepts what is sent, and memory for it.\<close>

definition generous :: "nv_env \<Rightarrow> bool" where
  "generous E \<longleftrightarrow> env_ok E \<and> (\<forall>n k. 128 \<le> e_window E n k) \<and> (\<forall>n l. e_alloc E n l) \<and>
     (\<forall>n k. e_open E n k = OK)"

text \<open>What one command leaves of a state: everything but what sending changes.\<close>

definition sent_on :: "sock \<Rightarrow> nvmetcp_session \<Rightarrow> nvmetcp_session \<Rightarrow> bool" where
  "sent_on k s s' \<longleftrightarrow> (\<exists>b. tx_log s' = tx_log s @ [(k, b)]) \<and> session_ok s' \<and> phase s' = phase s \<and>
     tx_in_flight s' \<and> idle (get_rx k s') \<and> (\<forall>j. j \<noteq> k \<longrightarrow> get_rx j s' = get_rx j s) \<and>
     events s' = events s \<and> capacity s' = capacity s \<and> conn_params s' = conn_params s \<and>
     cntlid s' = cntlid s"

lemma set_cmd_simps [simp]:
  "phase (set_cmd f s) = phase s" "tx_log (set_cmd f s) = tx_log s" "events (set_cmd f s) = events s"
  "capacity (set_cmd f s) = capacity s" "conn_params (set_cmd f s) = conn_params s"
  "cntlid (set_cmd f s) = cntlid s" "get_rx k (set_cmd f s) = get_rx k s" "nsid (set_cmd f s) = nsid s"
  by (simp_all add: set_cmd_def get_rx_def split: sock.split)

lemma sent_on_tx_command:
  assumes E: "generous E" and ok: "session_ok s" and c: "length (g (cid s + 1)) = 64"
    and d: "length d \<le> 4096"
  shows "\<exists>s'. nvmetcp_tx_command E k (g (cid s + 1)) d m (set_cmd g s) = (OK, s') \<and> sent_on k s s' \<and>
           cmd_data_offset s' = 0"
proof -
  let ?b = "cmd_pdu (g (cid s + 1)) (length d) m @ d"
  let ?s1 = "xfer_send k ?b ((set_cmd g s)\<lparr>clk := Suc (Suc (clk (set_cmd g s)))\<rparr>)"
  let ?s2 = "set_rx k (nvmetcp_rx_reset (get_rx k ?s1)) (?s1\<lparr>cmd_data_len := m, cmd_data_offset := 0\<rparr>)"
  have w: "e_window E n k \<noteq> 0" for n
    using E le_trans [of 128 "e_window E n k" 0] by (auto simp: generous_def)
  then have eq: "nvmetcp_tx_command E k (g (cid s + 1)) d m (set_cmd g s) = (OK, ?s2)"
    using E by (simp add: nvmetcp_tx_command_def nvmetcp_tx_pdu_def generous_def Let_def)
  have ok2: "session_ok ?s2"
    using session_ok_tx_command [of "set_cmd g s" "g (cid s + 1)" d E k m] ok c d by (simp add: eq)
  have "length (rx_hdr (get_rx k s)) = 128" using session_ok_get_rx [OF ok, of k] by (simp add: rx_ok_def)
  then have "sent_on k s ?s2" using ok2
    by (auto simp: sent_on_def xfer_send_def idle_reset get_rx_set_rx)
  with eq show ?thesis by simp
qed

lemma sent_on_tx_icreq:
  assumes E: "generous E" and ok: "session_ok s" and idle: "idle (get_rx k s)"
  shows "\<exists>s'. nvmetcp_tx_icreq E k s = (OK, s') \<and> sent_on k s s'"
proof -
  have eq: "nvmetcp_tx_icreq E k s = (OK, xfer_send k icreq_pdu (s\<lparr>clk := Suc (Suc (clk s))\<rparr>))"
    using E by (simp add: nvmetcp_tx_icreq_def nvmetcp_tx_data_def generous_def icreq_pdu_def
        Let_def not_less)
  have "session_ok (xfer_send k icreq_pdu (s\<lparr>clk := Suc (Suc (clk s))\<rparr>))"
    using ok by (intro session_ok_send icreq_framed) simp
  with eq idle show ?thesis by (simp add: sent_on_def xfer_send_def)
qed

text \<open>The phase is ready to run: its connection is idle and the process is scheduled.\<close>

definition at :: "nvmetcp_phase \<Rightarrow> nvmetcp_session \<Rightarrow> bool" where
  "at ph s \<longleftrightarrow> session_ok s \<and> phase s = ph \<and> process s \<and> idle (rx_admin s) \<and>
     (ph = PHASE_ICREQ_IO \<or> ph = PHASE_CONNECT_IO \<longrightarrow> idle (rx_io s))"

lemma rx_sock: "get_rx Admin s = rx_admin s" "get_rx IO s = rx_io s"
  by (simp_all add: get_rx_def)

text \<open>The step of each phase sends one buffer on the connection of the phase.\<close>

definition phase_sock :: "nvmetcp_phase \<Rightarrow> sock" where
  "phase_sock ph = (if ph = PHASE_ICREQ_IO \<or> ph = PHASE_CONNECT_IO then IO else Admin)"

lemma step_sends:
  assumes E: "generous E" and "at ph s"
    and "ph \<in> {PHASE_ICREQ, PHASE_CONNECT_ADMIN, PHASE_PROP_SET, PHASE_IDENTIFY_CTRL,
               PHASE_IDENTIFY_NS, PHASE_ICREQ_IO, PHASE_CONNECT_IO}"
  shows "\<exists>s'. nvmetcp_step E s = (OK, s') \<and> sent_on (phase_sock ph) s s' \<and>
     (ph = PHASE_IDENTIFY_CTRL \<or> ph = PHASE_IDENTIFY_NS \<longrightarrow> cmd_data_offset s' = 0)"
proof -
  have ok: "session_ok s" and ph: "phase s = ph" and idle: "idle (get_rx Admin s)"
    and idle_io: "ph = PHASE_ICREQ_IO \<Longrightarrow> idle (get_rx IO s)"
    using assms(2) by (auto simp: at_def rx_sock)
  have env: "env_ok E" using E by (simp add: generous_def)
  have icreq: "\<exists>s'. nvmetcp_tx_icreq E (phase_sock ph) s = (OK, s') \<and> sent_on (phase_sock ph) s s'"
    if "ph = PHASE_ICREQ \<or> ph = PHASE_ICREQ_IO"
    using that idle idle_io by (intro sent_on_tx_icreq [OF E ok]) (auto simp: phase_sock_def)
  have conn: "\<exists>s'. nvmetcp_tx_connect E k q s = (OK, s') \<and> sent_on k s s'" for k q
    using sent_on_tx_command [OF E ok, of "connect_cmd q" "connect_data E (set_cmd (connect_cmd q) s) q"
        k 0] length_connect_data [OF env]
    by (auto simp: nvmetcp_tx_connect_def Let_def)
  have propset: "\<exists>s'. nvmetcp_tx_prop_set E s = (OK, s') \<and> sent_on Admin s s'"
    using sent_on_tx_command [OF E ok, of prop_set_cmd "[]" Admin 0]
    by (auto simp: nvmetcp_tx_prop_set_def Let_def)
  have ident: "\<exists>s'. nvmetcp_tx_identify E c n s = (OK, s') \<and> sent_on Admin s s' \<and> cmd_data_offset s' = 0"
    for c n using sent_on_tx_command [OF E ok, of "identify_cmd c n" "[]" Admin 4096]
    by (auto simp: nvmetcp_tx_identify_def Let_def)
  show ?thesis using assms(3) ph icreq conn [of Admin 0] conn [of IO 1] propset
      ident [of NVME_IDENTIFY_CTRL 0] ident [of NVME_IDENTIFY_NS "nsid s"]
    by (auto simp: nvmetcp_step_def step_action_def phase_sock_def)
qed

section \<open>Responses\<close>

lemma rx_ok_with_header:
  "idle rx \<Longrightarrow> 8 \<le> length b \<Longrightarrow> length b \<le> 128 \<Longrightarrow> rx_ok (with_header b rx)"
  by (simp add: rx_ok_def with_header_def idle_def)

lemma length_rsp_pdu: "length (rsp_pdu q) = 24"
  by (simp add: rsp_pdu_def cqe.width_enc)

definition rsp_state :: "sock \<Rightarrow> nvme_completion \<Rightarrow> nvmetcp_session \<Rightarrow> nvmetcp_session" where
  "rsp_state k q s = set_rx k (with_header (rsp_pdu q) (get_rx k s)) (s\<lparr>cqe := q\<rparr>)"

lemma rsp_state_simps [simp]:
  "phase (rsp_state k q s) = phase s" "process (rsp_state k q s) = process s"
  "tx_log (rsp_state k q s) = tx_log s" "events (rsp_state k q s) = events s"
  "capacity (rsp_state k q s) = capacity s" "conn_params (rsp_state k q s) = conn_params s"
  "cntlid (rsp_state k q s) = cntlid s" "cqe (rsp_state k q s) = q"
  "clk (rsp_state k q s) = clk s" "block_data (rsp_state k q s) = block_data s"
  "capacity_data (rsp_state k q s) = capacity_data s"
  "get_rx j (rsp_state k q s) = (if j = k then with_header (rsp_pdu q) (get_rx k s) else get_rx j s)"
  by (simp_all add: rsp_state_def get_rx_set_rx)

lemma rsp_round:
  assumes "session_ok s" "env_ok E" "idle (get_rx k s)"
    and rx: "nvmetcp_rx_command E (rsp_state k q s) = (OK, s2)"
  shows "nvmetcp_socket_deliver E k (rsp_pdu q) s = (OK, finish k s2)"
    and "session_ok (finish k s2)" and "idle (get_rx k (finish k s2))"
proof -
  have "session_ok (rsp_state k q s)"
    unfolding rsp_state_def using assms(1,3)
    by (intro session_ok_set_rx rx_ok_with_header) (simp_all add: length_rsp_pdu)
  from safe_rx_command [OF this assms(2)] rx have ok2: "session_ok s2" by simp
  then have rx2: "rx_ok (get_rx k s2)" by (rule session_ok_get_rx)
  then show "session_ok (finish k s2)" "idle (get_rx k (finish k s2))"
    using ok2 by (auto simp: finish_def rx_ok_def intro!: session_ok_set_rx rx_ok_reset idle_reset)
  show "nvmetcp_socket_deliver E k (rsp_pdu q) s = (OK, finish k s2)"
    using deliver_rsp [OF assms(3), of E q "[]"] rx by (simp add: rsp_state_def)
qed

text \<open>What the set-up leaves alone from one phase to the next.\<close>

definition kept :: "nvmetcp_session \<Rightarrow> nvmetcp_session \<Rightarrow> bool" where
  "kept s s' \<longleftrightarrow> tx_log s' = tx_log s \<and> capacity s' = capacity s \<and> conn_params s' = conn_params s"

definition success :: "nvme_completion \<Rightarrow> bool" where
  "success q \<longleftrightarrow> cq_status q = 0"

lemma connect_admin_round:
  assumes "session_ok s" "env_ok E" "idle (get_rx Admin s)" "phase s = PHASE_CONNECT_ADMIN"
    and q: "success q" "cq_result_u32 q AND NVMF_CONNECT_AUTHREQ_ATR = 0"
  shows "\<exists>s'. nvmetcp_socket_deliver E Admin (rsp_pdu q) s = (OK, s') \<and> at PHASE_PROP_SET s' \<and>
     kept s s' \<and> cntlid s' = ucast (cq_result_u32 q AND 0xffff)"
proof -
  let ?s = "rsp_state Admin q s"
  have "nvmetcp_rx_command E ?s = (OK, ?s\<lparr>tx_in_flight := False,
      cntlid := ucast (cq_result_u32 q AND 0xffff), phase := PHASE_PROP_SET, process := True\<rparr>)"
    using assms(4) q by (simp add: nvmetcp_rx_command_def success_def Let_def)
  from rsp_round [OF assms(1-3) this] show ?thesis
    by (simp add: at_def kept_def rx_sock)
qed

lemma plain_round:
  assumes "session_ok s" "env_ok E" "idle (get_rx Admin s)" and q: "success q"
    and ph: "phase s = PHASE_PROP_SET \<and> ph = PHASE_IDENTIFY_CTRL \<or>
         phase s = PHASE_IDENTIFY_CTRL \<and> ph = PHASE_IDENTIFY_NS"
  shows "\<exists>s'. nvmetcp_socket_deliver E Admin (rsp_pdu q) s = (OK, s') \<and> at ph s' \<and> kept s s' \<and>
     cntlid s' = cntlid s"
proof -
  let ?s = "rsp_state Admin q s"
  have "nvmetcp_rx_command E ?s = (OK, ?s\<lparr>tx_in_flight := False, phase := ph, process := True\<rparr>)"
    using ph q by (auto simp: nvmetcp_rx_command_def success_def Let_def)
  from rsp_round [OF assms(1-3) this] ph show ?thesis
    by (auto simp: at_def kept_def rx_sock)
qed

text \<open>The I/O connection is opened by the completion of Identify Namespace.\<close>

lemma identify_ns_round:
  assumes ok: "session_ok s" and E: "generous E" and idle: "idle (get_rx Admin s)"
    and ph: "phase s = PHASE_IDENTIFY_NS" and q: "success q" and p: "conn_params s = Inr p"
  shows "\<exists>s'. nvmetcp_socket_deliver E Admin (rsp_pdu q) s = (OK, s') \<and> at PHASE_ICREQ_IO s' \<and>
     kept s s' \<and> cntlid s' = cntlid s"
proof -
  have env: "env_ok E" using E by (simp add: generous_def)
  let ?s = "(rsp_state Admin q s)\<lparr>tx_in_flight := False\<rparr>"
  let ?s2 = "?s\<lparr>clk := Suc (clk s), events := events s @ [Connected IO p], phase := PHASE_ICREQ_IO\<rparr>"
  let ?s3 = "set_rx IO (nvmetcp_rx_reset (get_rx IO s)) ?s2\<lparr>process := True\<rparr>"
  have "nvmetcp_rx_command E (rsp_state Admin q s) = nvmetcp_open_socket E IO PHASE_ICREQ_IO ?s"
    using ph q by (simp add: nvmetcp_rx_command_def success_def Let_def)
  also have "\<dots> = (OK, ?s3)"
    using E p by (simp add: open_socket_eq generous_def Let_def nvmetcp_tx_resume_def)
  finally have rx: "nvmetcp_rx_command E (rsp_state Admin q s) = (OK, ?s3)" .
  have "length (rx_hdr (get_rx IO s)) = 128"
    using session_ok_get_rx [OF ok, of IO] by (simp add: rx_ok_def)
  then have "idle (get_rx IO (finish Admin ?s3))"
    by (simp add: finish_def get_rx_set_rx idle_reset)
  with rsp_round [OF ok env idle rx] show ?thesis
    by (simp add: at_def kept_def rx_sock)
qed

lemma connect_io_round:
  assumes "session_ok s" "env_ok E" "idle (get_rx IO s)" "phase s = PHASE_CONNECT_IO" "success q"
  shows "\<exists>s'. nvmetcp_socket_deliver E IO (rsp_pdu q) s = (OK, s') \<and> session_ok s' \<and>
     phase s' = PHASE_READY \<and> kept s s' \<and> capacity_data s' = None \<and>
     (capacity_data s \<noteq> None \<longrightarrow> events s' = events s @ [Capacity (capacity s), Restart OK])"
proof -
  let ?s = "(rsp_state IO q s)\<lparr>tx_in_flight := False, phase := PHASE_READY\<rparr>"
  let ?s2 = "if capacity_data s \<noteq> None
     then ?s\<lparr>capacity_data := None, events := events s @ [Capacity (capacity s), Restart OK]\<rparr> else ?s"
  have "nvmetcp_rx_command E (rsp_state IO q s) = (OK, ?s2)"
    using assms(4,5) by (simp add: nvmetcp_rx_command_def success_def Let_def)
  from rsp_round [OF assms(1-3) this] show ?thesis
    by (auto simp: kept_def finish_def)
qed

text \<open>Identify data: 4096 bytes in one data PDU.\<close>

lemma after_c2h_simps [simp]:
  "phase (after_c2h k i off d s) = phase s" "tx_log (after_c2h k i off d s) = tx_log s"
  "capacity (after_c2h k i off d s) = capacity s" "cntlid (after_c2h k i off d s) = cntlid s"
  "conn_params (after_c2h k i off d s) = conn_params s" "events (after_c2h k i off d s) = events s"
  "cmd_buf (after_c2h k i off d s) = put_at 0 d (cmd_buf s)"
  by (simp_all add: after_c2h_def)

lemma rx_ok_finish: "session_ok s \<Longrightarrow> session_ok (finish k s) \<and> idle (get_rx k (finish k s))"
  using session_ok_get_rx [of s k]
  by (auto simp: finish_def rx_ok_def intro!: session_ok_set_rx rx_ok_reset idle_reset)

lemma session_ok_after_c2h:
  assumes "session_ok s" "idle (get_rx k s)" "length d \<le> 4096"
  shows "session_ok (after_c2h k i off d s)"
proof -
  have "session_ok (s\<lparr>cmd_buf := put_at 0 d (cmd_buf s)\<rparr>)"
    using assms by (auto simp: session_ok_def simp del: put_at_0)
  then have "session_ok (s\<lparr>cmd_data_len := n, cmd_buf := put_at 0 d (cmd_buf s), cmd_data_offset := m\<rparr>)"
    for n m by (auto simp: session_ok_def simp del: put_at_0)
  then show ?thesis
    unfolding after_c2h_def using assms c2h_hdr_facts(1) [OF assms(3)]
    by (intro session_ok_set_rx) (auto simp: rx_ok_def with_header_def idle_def simp del: put_at_0)
qed

lemma identify_data_round:
  assumes ok: "session_ok s" and env: "env_ok E" and idle: "idle (get_rx Admin s)"
    and d: "length d = 4096" and off: "cmd_data_offset s = 0"
    and ph: "phase s = PHASE_IDENTIFY_CTRL \<and> c = capacity s \<or>
         phase s = PHASE_IDENTIFY_NS \<and> nvmetcp_identify_ns d (capacity s) = (OK, c)"
  shows "\<exists>s'. nvmetcp_socket_deliver E Admin (c2h_hdr i 0 4096 @ d) s = (OK, s') \<and> session_ok s' \<and>
     idle (get_rx Admin s') \<and> phase s' = phase s \<and> capacity s' = c \<and> tx_log s' = tx_log s \<and>
     conn_params s' = conn_params s \<and> cntlid s' = cntlid s"
proof -
  let ?s = "after_c2h Admin i 0 d s"
  let ?s2 = "?s\<lparr>tx_in_flight := False, capacity := c\<rparr>"
  have buf: "cmd_buf ?s = d" using ok d by (simp add: session_ok_def)
  have "nvmetcp_rx_data E ?s = (OK, ?s2)"
    using ph buf by (auto simp: nvmetcp_rx_data_def Let_def)
  then have "nvmetcp_socket_deliver E Admin (c2h_hdr i 0 4096 @ d) s = (OK, finish Admin ?s2)"
    using deliver_c2h [OF ok idle, of d 0 E i "[]"] d off by simp
  moreover have "session_ok ?s2" using session_ok_after_c2h [OF ok idle] d by simp
  ultimately show ?thesis using rx_ok_finish [of ?s2 Admin] by simp
qed

section \<open>The set-up run\<close>

text \<open>What the scheduler and the network do to a session.\<close>

datatype nv_input = Run | Net sock bytes

fun exec :: "nv_env \<Rightarrow> nv_input list \<Rightarrow> nvmetcp_session \<Rightarrow> rc \<times> nvmetcp_session" where
  "exec E [] s = (OK, s)"
| "exec E (Run # xs) s = then_ok (nvmetcp_step E s) (exec E xs)"
| "exec E (Net k b # xs) s = then_ok (nvmetcp_socket_deliver E k b s) (exec E xs)"

lemma exec_append: "exec E (xs @ ys) s = then_ok (exec E xs s) (exec E ys)"
  by (induction E xs s rule: exec.induct)
    (auto simp: then_ok_def split: prod.split rc.split)

lemma sent_on_kept: "sent_on k s s' \<Longrightarrow> map fst (tx_log s') = map fst (tx_log s) @ [k] \<and> capacity s' = capacity s \<and> conn_params s' = conn_params s \<and>
   session_ok s' \<and> phase s' = phase s \<and> idle (get_rx k s') \<and> (\<forall>j. j \<noteq> k \<longrightarrow> get_rx j s' = get_rx j s)"
  by (auto simp: sent_on_def)

text \<open>A set-up phase: its step, the answer of the target, and the state it leads to.\<close>

definition round :: "nv_env \<Rightarrow> nvmetcp_phase \<Rightarrow> nv_input list \<Rightarrow> (nvmetcp_session \<Rightarrow> bool) \<Rightarrow>
    block_device_capacity option \<Rightarrow> bool" where
  "round E ph xs Q c \<longleftrightarrow>
     (\<forall>s. at ph s \<and> (\<exists>p. conn_params s = Inr p) \<longrightarrow>
        (\<exists>s'. exec E xs s = (OK, s') \<and> Q s' \<and> conn_params s' = conn_params s \<and>
           map fst (tx_log s') = map fst (tx_log s) @ [phase_sock ph] \<and>
           capacity s' = (case c of None \<Rightarrow> capacity s | Some c \<Rightarrow> c)))"

text \<open>The state in which the answer arrives.\<close>

definition awaiting :: "nvmetcp_phase \<Rightarrow> nvmetcp_session \<Rightarrow> bool" where
  "awaiting ph s \<longleftrightarrow> session_ok s \<and> phase s = ph \<and> idle (rx_admin s) \<and> idle (get_rx (phase_sock ph) s) \<and>
     (\<exists>p. conn_params s = Inr p) \<and>
     (ph = PHASE_IDENTIFY_CTRL \<or> ph = PHASE_IDENTIFY_NS \<longrightarrow> cmd_data_offset s = 0)"

lemma round_intro:
  assumes E: "generous E"
    and ph: "ph \<in> {PHASE_ICREQ, PHASE_CONNECT_ADMIN, PHASE_PROP_SET, PHASE_IDENTIFY_CTRL,
               PHASE_IDENTIFY_NS, PHASE_ICREQ_IO, PHASE_CONNECT_IO}"
    and reply: "\<And>s. awaiting ph s \<Longrightarrow> \<exists>s'. exec E xs s = (OK, s') \<and> Q s' \<and>
        conn_params s' = conn_params s \<and> tx_log s' = tx_log s \<and>
        capacity s' = (case c of None \<Rightarrow> capacity s | Some c \<Rightarrow> c)"
  shows "round E ph (Run # xs) Q c"
  unfolding round_def
proof (intro allI impI, elim conjE)
  fix s assume a: "at ph s" and p: "\<exists>p. conn_params s = Inr p"
  from step_sends [OF E a ph] obtain s1 where s1: "nvmetcp_step E s = (OK, s1)"
    "sent_on (phase_sock ph) s s1"
    "ph = PHASE_IDENTIFY_CTRL \<or> ph = PHASE_IDENTIFY_NS \<longrightarrow> cmd_data_offset s1 = 0" by auto
  note k = sent_on_kept [OF s1(2)]
  have "idle (rx_admin s1)"
    using k a by (cases "phase_sock ph") (auto simp: at_def rx_sock [symmetric])
  with k s1(3) a p have "awaiting ph s1" by (auto simp: awaiting_def at_def)
  from reply [OF this] k s1(1)
  show "\<exists>s'. exec E (Run # xs) s = (OK, s') \<and> Q s' \<and> conn_params s' = conn_params s \<and>
      map fst (tx_log s') = map fst (tx_log s) @ [phase_sock ph] \<and>
      capacity s' = (case c of None \<Rightarrow> capacity s | Some c \<Rightarrow> c)"
    by (auto split: option.split)
qed

lemma round_icreq:
  assumes E: "generous E" and q: "icresp_ok q"
    and ph: "ph = PHASE_ICREQ \<and> ph' = PHASE_CONNECT_ADMIN \<or> ph = PHASE_ICREQ_IO \<and> ph' = PHASE_CONNECT_IO"
  shows "round E ph [Run, Net (phase_sock ph) (enc_icresp q)] (at ph') None"
proof (rule round_intro [OF E])
  fix s assume a: "awaiting ph s"
  obtain s2 where s2: "nvmetcp_socket_deliver E (phase_sock ph) (enc_icresp q) s = (OK, s2)"
     "phase s2 = (if phase_sock ph = IO then PHASE_CONNECT_IO else PHASE_CONNECT_ADMIN)" "process s2"
     "idle (get_rx (phase_sock ph) s2)" "\<forall>j. j \<noteq> phase_sock ph \<longrightarrow> get_rx j s2 = get_rx j s"
     "tx_log s2 = tx_log s" "capacity s2 = capacity s" "conn_params s2 = conn_params s"
    using deliver_icresp [of "phase_sock ph" s q E] a q by (auto simp: awaiting_def)
  have "session_ok s2"
    using guarded_deliver [of s E "phase_sock ph" "enc_icresp q"] a s2(1) E
    by (simp add: generous_def awaiting_def)
  moreover have "idle (rx_admin s2)"
    using s2(4,5) a by (cases "phase_sock ph") (auto simp: awaiting_def rx_sock [symmetric])
  ultimately have "at ph' s2" using s2 ph by (auto simp: at_def phase_sock_def rx_sock)
  with s2 show "\<exists>s'. exec E [Net (phase_sock ph) (enc_icresp q)] s = (OK, s') \<and> at ph' s' \<and>
      conn_params s' = conn_params s \<and> tx_log s' = tx_log s \<and>
      capacity s' = (case None of None \<Rightarrow> capacity s | Some c \<Rightarrow> c)" by simp
qed (use ph in auto)

lemma round_connect_admin:
  assumes E: "generous E" and q: "success q" "cq_result_u32 q AND NVMF_CONNECT_AUTHREQ_ATR = 0"
  shows "round E PHASE_CONNECT_ADMIN [Run, Net Admin (rsp_pdu q)] (at PHASE_PROP_SET) None"
proof (rule round_intro [OF E])
  fix s assume "awaiting PHASE_CONNECT_ADMIN s"
  with connect_admin_round [of s E q] E q
  show "\<exists>s'. exec E [Net Admin (rsp_pdu q)] s = (OK, s') \<and> at PHASE_PROP_SET s' \<and>
      conn_params s' = conn_params s \<and> tx_log s' = tx_log s \<and>
      capacity s' = (case None of None \<Rightarrow> capacity s | Some c \<Rightarrow> c)"
    by (auto simp: awaiting_def generous_def kept_def rx_sock)
qed simp

lemma round_prop_set:
  assumes E: "generous E" and q: "success q"
  shows "round E PHASE_PROP_SET [Run, Net Admin (rsp_pdu q)] (at PHASE_IDENTIFY_CTRL) None"
proof (rule round_intro [OF E])
  fix s assume "awaiting PHASE_PROP_SET s"
  with plain_round [of s E q PHASE_IDENTIFY_CTRL] E q
  show "\<exists>s'. exec E [Net Admin (rsp_pdu q)] s = (OK, s') \<and> at PHASE_IDENTIFY_CTRL s' \<and>
      conn_params s' = conn_params s \<and> tx_log s' = tx_log s \<and>
      capacity s' = (case None of None \<Rightarrow> capacity s | Some c \<Rightarrow> c)"
    by (auto simp: awaiting_def generous_def kept_def rx_sock)
qed simp

text \<open>What an Identify answer is: the data, then the completion.\<close>

lemma round_identify_ctrl:
  assumes E: "generous E" and q: "success q" and d: "length d = 4096"
  shows "round E PHASE_IDENTIFY_CTRL [Run, Net Admin (c2h_hdr i 0 4096 @ d), Net Admin (rsp_pdu q)]
     (at PHASE_IDENTIFY_NS) None"
proof (rule round_intro [OF E])
  fix s assume a: "awaiting PHASE_IDENTIFY_CTRL s"
  then obtain s1 where "nvmetcp_socket_deliver E Admin (c2h_hdr i 0 4096 @ d) s = (OK, s1)"
    "session_ok s1" "idle (get_rx Admin s1)" "phase s1 = PHASE_IDENTIFY_CTRL" "capacity s1 = capacity s"
    "tx_log s1 = tx_log s" "conn_params s1 = conn_params s"
    using identify_data_round [of s E d "capacity s" i] E d
    by (auto simp: awaiting_def generous_def rx_sock)
  with plain_round [of s1 E q PHASE_IDENTIFY_NS] E q
  show "\<exists>s'. exec E [Net Admin (c2h_hdr i 0 4096 @ d), Net Admin (rsp_pdu q)] s = (OK, s') \<and>
      at PHASE_IDENTIFY_NS s' \<and> conn_params s' = conn_params s \<and> tx_log s' = tx_log s \<and>
      capacity s' = (case None of None \<Rightarrow> capacity s | Some c \<Rightarrow> c)"
    by (auto simp: generous_def kept_def)
qed simp

lemma round_identify_ns:
  assumes E: "generous E" and q: "success q" and d: "length d = 4096"
    and c: "\<And>c0. nvmetcp_identify_ns d c0 = (OK, c)"
  shows "round E PHASE_IDENTIFY_NS [Run, Net Admin (c2h_hdr i 0 4096 @ d), Net Admin (rsp_pdu q)]
     (at PHASE_ICREQ_IO) (Some c)"
proof (rule round_intro [OF E])
  fix s assume a: "awaiting PHASE_IDENTIFY_NS s"
  then obtain s1 p where "nvmetcp_socket_deliver E Admin (c2h_hdr i 0 4096 @ d) s = (OK, s1)"
    "session_ok s1" "idle (get_rx Admin s1)" "phase s1 = PHASE_IDENTIFY_NS" "capacity s1 = c"
    "tx_log s1 = tx_log s" "conn_params s1 = conn_params s" "conn_params s = Inr p"
    using identify_data_round [of s E d c i] E d c
    by (auto simp: awaiting_def generous_def rx_sock)
  with identify_ns_round [of s1 E q p] E q
  show "\<exists>s'. exec E [Net Admin (c2h_hdr i 0 4096 @ d), Net Admin (rsp_pdu q)] s = (OK, s') \<and>
      at PHASE_ICREQ_IO s' \<and> conn_params s' = conn_params s \<and> tx_log s' = tx_log s \<and>
      capacity s' = (case Some c of None \<Rightarrow> capacity s | Some c \<Rightarrow> c)"
    by (auto simp: kept_def)
qed simp

lemma round_connect_io:
  assumes E: "generous E" and q: "success q"
  shows "round E PHASE_CONNECT_IO [Run, Net IO (rsp_pdu q)] (\<lambda>s. phase s = PHASE_READY) None"
proof (rule round_intro [OF E])
  fix s assume "awaiting PHASE_CONNECT_IO s"
  with connect_io_round [of s E q] E q
  show "\<exists>s'. exec E [Net IO (rsp_pdu q)] s = (OK, s') \<and> phase s' = PHASE_READY \<and>
      conn_params s' = conn_params s \<and> tx_log s' = tx_log s \<and>
      capacity s' = (case None of None \<Rightarrow> capacity s | Some c \<Rightarrow> c)"
    by (auto simp: awaiting_def generous_def kept_def phase_sock_def)
qed simp

lemma round_then:
  assumes "round E ph xs (at ph') c" "at ph s" "conn_params s = Inr p"
    and "\<And>s'. at ph' s' \<Longrightarrow> conn_params s' = Inr p \<Longrightarrow>
       map fst (tx_log s') = map fst (tx_log s) @ [phase_sock ph] \<Longrightarrow>
       capacity s' = (case c of None \<Rightarrow> capacity s | Some c \<Rightarrow> c) \<Longrightarrow> P (exec E ys s')"
  shows "P (exec E (xs @ ys) s)"
proof -
  from assms(1-3) obtain s' where "exec E xs s = (OK, s')" "at ph' s'" "conn_params s' = Inr p"
    "map fst (tx_log s') = map fst (tx_log s) @ [phase_sock ph]"
    "capacity s' = (case c of None \<Rightarrow> capacity s | Some c \<Rightarrow> c)"
    unfolding round_def by auto
  with assms(4) show ?thesis by (simp add: exec_append)
qed

text \<open>The answers of a target that needs no authentication, in order.\<close>

record target_answers =
  ta_icresp :: nvmetcp_icresp
  ta_connect :: nvme_completion
  ta_prop_set :: nvme_completion
  ta_ctrl :: bytes
  ta_ctrl_cqe :: nvme_completion
  ta_ns :: bytes
  ta_ns_cqe :: nvme_completion
  ta_io_icresp :: nvmetcp_icresp
  ta_io_connect :: nvme_completion

definition answers_ok :: "target_answers \<Rightarrow> bool" where
  "answers_ok t \<longleftrightarrow> icresp_ok (ta_icresp t) \<and> icresp_ok (ta_io_icresp t) \<and>
     success (ta_connect t) \<and> cq_result_u32 (ta_connect t) AND NVMF_CONNECT_AUTHREQ_ATR = 0 \<and>
     success (ta_prop_set t) \<and> success (ta_ctrl_cqe t) \<and> success (ta_ns_cqe t) \<and>
     success (ta_io_connect t) \<and> length (ta_ctrl t) = 4096 \<and> length (ta_ns t) = 4096"

definition setup_inputs :: "target_answers \<Rightarrow> nv_input list" where
  "setup_inputs t =
     [Run, Net Admin (enc_icresp (ta_icresp t))]
     @ [Run, Net Admin (rsp_pdu (ta_connect t))]
     @ [Run, Net Admin (rsp_pdu (ta_prop_set t))]
     @ [Run, Net Admin (c2h_hdr 0 0 4096 @ ta_ctrl t), Net Admin (rsp_pdu (ta_ctrl_cqe t))]
     @ [Run, Net Admin (c2h_hdr 0 0 4096 @ ta_ns t), Net Admin (rsp_pdu (ta_ns_cqe t))]
     @ [Run, Net IO (enc_icresp (ta_io_icresp t))]
     @ [Run, Net IO (rsp_pdu (ta_io_connect t))]"

lemma setup_run:
  assumes E: "generous E" and t: "answers_ok t" and a: "at PHASE_ICREQ s" and p: "conn_params s = Inr p"
    and c: "\<And>c0. nvmetcp_identify_ns (ta_ns t) c0 = (OK, c)"
  shows "\<exists>s'. exec E (setup_inputs t) s = (OK, s') \<and> phase s' = PHASE_READY \<and> capacity s' = c \<and>
     map fst (tx_log s') = map fst (tx_log s) @ [Admin, Admin, Admin, Admin, Admin, IO, IO]"
proof -
  have t': "icresp_ok (ta_icresp t)" "icresp_ok (ta_io_icresp t)" "success (ta_connect t)"
     "cq_result_u32 (ta_connect t) AND NVMF_CONNECT_AUTHREQ_ATR = 0"
     "success (ta_prop_set t)" "success (ta_ctrl_cqe t)" "success (ta_ns_cqe t)"
     "success (ta_io_connect t)" "length (ta_ctrl t) = 4096" "length (ta_ns t) = 4096"
    using t by (simp_all add: answers_ok_def)
  have r1: "round E PHASE_ICREQ [Run, Net Admin (enc_icresp (ta_icresp t))] (at PHASE_CONNECT_ADMIN) None"
    using round_icreq [OF E t'(1), of PHASE_ICREQ] by (simp add: phase_sock_def)
  have r6: "round E PHASE_ICREQ_IO [Run, Net IO (enc_icresp (ta_io_icresp t))] (at PHASE_CONNECT_IO) None"
    using round_icreq [OF E t'(2), of PHASE_ICREQ_IO] by (simp add: phase_sock_def)
  let ?P = "\<lambda>r. \<exists>s'. r = (OK, s') \<and> phase s' = PHASE_READY \<and> capacity s' = c \<and>
     map fst (tx_log s') = map fst (tx_log s) @ [Admin, Admin, Admin, Admin, Admin, IO, IO]"
  show ?thesis
    unfolding setup_inputs_def
    apply (rule round_then [OF r1 a p, where P = ?P])
    apply (rule round_then [OF round_connect_admin [OF E t'(3,4)], where P = ?P], assumption+)
    apply (rule round_then [OF round_prop_set [OF E t'(5)], where P = ?P], assumption+)
    apply (rule round_then [OF round_identify_ctrl [OF E t'(6,9)], where P = ?P], assumption+)
    apply (rule round_then [OF round_identify_ns [OF E t'(7,10) c], where P = ?P], assumption+)
    apply (rule round_then [OF r6, where P = ?P], assumption+)
    using round_connect_io [OF E t'(8)] unfolding round_def
    by (fastforce simp: phase_sock_def)
qed

end
