(* ===== verification/Nvme_Props.thy ===== *)
theory Nvme_Props
  imports Nvme_Run
begin

text \<open>
  The theorems about the NVMe/TCP driver: memory safety and segmentation independence of the
  receive path, what holds in every reachable state, the set-up run, authentication, block
  commands, and the behaviours in which the code departs from its intent.
\<close>

section \<open>A concrete environment and session\<close>

text \<open>Used to apply the theorems. The cryptography is a stand-in with the sizes of the real one.\<close>

definition sample_digestsize :: "hash_alg \<Rightarrow> nat" where
  "sample_digestsize d = (case d of SHA256 \<Rightarrow> 32 | SHA384 \<Rightarrow> 48 | SHA512 \<Rightarrow> 64)"

definition sample_dhsize :: "dh_group \<Rightarrow> nat" where
  "sample_dhsize g = (case g of FFDHE2048 \<Rightarrow> 256 | FFDHE3072 \<Rightarrow> 384 | FFDHE4096 \<Rightarrow> 512)"

definition sample_env :: nv_env where
  "sample_env = \<lparr>e_window = (\<lambda>_ _. 65536), e_alloc = (\<lambda>_ _. True), e_random = (\<lambda>_ n. Inr (replicate n 7)),
     e_stack = (\<lambda>_ n. replicate n 0xaa), e_open = (\<lambda>_ _. OK), e_digestsize = sample_digestsize,
     e_ctxsize = (\<lambda>_. 200), e_hmac_ctxsize = (\<lambda>_. 300),
     e_hash = (\<lambda>d x. resize (sample_digestsize d) x),
     e_hmac = (\<lambda>d k x. resize (sample_digestsize d) k),
     e_privsize = sample_dhsize, e_pubsize = sample_dhsize,
     e_share = (\<lambda>g p. Inr (resize (sample_dhsize g) p)), e_agree = (\<lambda>g p c. Inr (resize (sample_dhsize g) c)),
     e_base64 = (\<lambda>t. Inr (map of_char t)), e_crc32_le = (\<lambda>_ _. 0xffffffff), e_uuid = None,
     e_uuid_ntoa = (\<lambda>u. map (\<lambda>b. char_of (unat b)) u), e_hostnqn = Some ''nqn.2014-08.org.host:a''\<rparr>"

lemma sample_env_ok: "env_ok sample_env"
  by (simp add: env_ok_def sample_env_def sample_digestsize_def sample_dhsize_def
      split: hash_alg.split dh_group.split)

lemma sample_generous: "generous sample_env"
  using sample_env_ok by (simp add: generous_def sample_env_def)

definition sample_session :: nvmetcp_session where
  "sample_session = zero_session\<lparr>host_nqn := Some ''nqn.2014-08.org.host:a'',
     subsystem_nqn := Some ''nqn.2014-08.org.sub:b'', rx_admin := nvmetcp_rx_reset zero_rx,
     rx_io := nvmetcp_rx_reset zero_rx, process := True, nsid := 1\<rparr>"

lemma sample_session_ok: "session_ok sample_session"
  by (simp add: sample_session_def zero_session_def session_ok_def zero_rx_def zero_auth_def
      rx_ok_def auth_ok_def)

definition sample_uri :: uri where
  "sample_uri = \<lparr>u_host = Some ''10.0.0.1'', u_port = Some 4420,
     u_path = Some ''/nqn.2014-08.org.sub:b'', u_equery = None\<rparr>"

definition sample_start :: nvmetcp_session where
  "sample_start = snd (nvmetcp_open sample_env sample_uri)"

lemma sample_open: "nvmetcp_open sample_env sample_uri = (OK, sample_start)"
  by (simp add: sample_start_def nvmetcp_open_def alloc_def sample_env_def sample_uri_def
      nvmetcp_parse_root_path_def nvmetcp_parse_secret_def nvmetcp_parse_tls_def
      nvmetcp_parse_qparam_def nvmetcp_set_host_nqn_def nvmetcp_open_socket_def nvmetcp_use_tls_def
      zero_session_def Let_def)

lemma sample_reachable: "reachable sample_env sample_uri sample_start"
  unfolding reachable_def using sample_open by auto

section \<open>Reception\<close>

text \<open>C1: Memory safety of reception. In a well-formed session, delivering any bytes on either socket
  keeps every buffer at its declared size and every receive counter inside its buffer; an access
  outside a buffer happens only for a command PDU header longer than the 128-byte header array, or
  for an R2T whose 32-bit offset and length wrap.\<close>

theorem deliver_memory_safe:
  assumes "env_ok E" "session_ok s" "nvmetcp_socket_deliver E k iob s = (r, s')"
  shows "session_ok s' \<and> (r = Fault \<longrightarrow> bad_header (rx_hdr (get_rx k s')))"
  using guarded_deliver [OF assms(2,1), of k iob] assms(3) by (simp add: guarded_def)

theorem deliver_memory_safe_witness:
  "session_ok (snd (nvmetcp_socket_deliver sample_env Admin [5, 0, 24, 0, 24, 0, 0, 0, 1] sample_session))"
  using deliver_memory_safe [OF sample_env_ok sample_session_ok,
      of Admin "[5, 0, 24, 0, 24, 0, 0, 0, 1]"
        "fst (nvmetcp_socket_deliver sample_env Admin [5, 0, 24, 0, 24, 0, 0, 0, 1] sample_session)"
        "snd (nvmetcp_socket_deliver sample_env Admin [5, 0, 24, 0, 24, 0, 0, 0, 1] sample_session)"]
  by simp

text \<open>C2: Segmentation independence. Delivering a byte stream in chunks of any size, stopping at the
  first error, has the same status and the same final session as delivering it in one piece.\<close>

theorem deliver_any_segmentation:
  assumes "env_ok E" "session_ok s" "concat chunks = iob"
  shows "feed (nvmetcp_socket_deliver E k) chunks s = nvmetcp_socket_deliver E k iob s"
  using nvstream.feed_concat [of E s k chunks] assms by simp

theorem deliver_any_segmentation_witness:
  "feed (nvmetcp_socket_deliver sample_env Admin) [[5, 0], [24, 0, 24, 0, 0], [0, 1, 2]] sample_session =
   nvmetcp_socket_deliver sample_env Admin [5, 0, 24, 0, 24, 0, 0, 0, 1, 2] sample_session"
  using deliver_any_segmentation [OF sample_env_ok sample_session_ok,
      of "[[5, 0], [24, 0, 24, 0, 0], [0, 1, 2]]" "[5, 0, 24, 0, 24, 0, 0, 0, 1, 2]" Admin]
  by simp

section \<open>Reachable states\<close>

text \<open>C3: Framing. In every state reachable from a successful open, by any sequence of process steps,
  deliveries, window changes, block requests and closures, every buffer the session ever handed to a
  socket is one whole PDU whose length field is its length.\<close>

theorem reachable_framed:
  assumes "env_ok E" "reachable E u s" "(k, b) \<in> set (tx_log s)"
  shows "8 \<le> length b \<and> unat (ph_plen (dec_pdu_header b)) = length b"
  using reachable_ok [OF assms(1,2)] assms(3) by (auto simp: session_ok_def pdu_framed_def)

definition sample_sent :: nvmetcp_session where
  "sample_sent = snd (nvmetcp_step sample_env sample_start)"

lemma sample_start_facts: "phase sample_start = PHASE_ICREQ" "process sample_start"
  "tx_log sample_start = []" "\<not> closed sample_start"
  by (simp_all add: sample_start_def nvmetcp_open_def alloc_def sample_env_def sample_uri_def
      nvmetcp_parse_root_path_def nvmetcp_parse_secret_def nvmetcp_parse_tls_def
      nvmetcp_parse_qparam_def nvmetcp_set_host_nqn_def nvmetcp_open_socket_def nvmetcp_use_tls_def
      zero_session_def set_rx_def nvmetcp_tx_resume_def closed_def Let_def)

lemma sample_step: "nvmetcp_step sample_env sample_start = (OK, sample_sent)"
  "tx_log sample_sent = [(Admin, icreq_pdu)]"
  using sample_start_facts
  by (simp_all add: sample_sent_def nvmetcp_step_def step_action_def nvmetcp_tx_icreq_def
      nvmetcp_tx_data_def Let_def xfer_send_def sample_env_def icreq_pdu_def)

lemma sample_sent_reachable: "reachable sample_env sample_uri sample_sent"
  using sample_open nv_step.run [OF sample_start_facts(4,2) sample_step(1)]
  unfolding reachable_def by blast

theorem reachable_framed_witness:
  "8 \<le> length icreq_pdu \<and> unat (ph_plen (dec_pdu_header icreq_pdu)) = length icreq_pdu"
  using reachable_framed [OF sample_env_ok sample_sent_reachable, of Admin icreq_pdu] sample_step(2)
  by simp

text \<open>C4: Encryption is never skipped. In every reachable state, if the boot URI's TLS port is the
  port the session connects to, every connection ever opened went through TLS with the decoded
  pre-shared key and the identity built from the host and subsystem names; otherwise every
  connection was made in the clear.\<close>

theorem reachable_tls:
  assumes "env_ok E" "reachable E u s" "Connected k p \<in> set (events s)"
  shows "if nvmetcp_use_tls s
     then \<exists>hex psk. p = Some (psk, psk_identity s) \<and> tls_psk s = Some hex \<and>
            hex_decode hex = Some psk \<and> length psk \<le> NVMETCP_MAX_PSK \<and>
            length (psk_identity s) < NVMETCP_MAX_IDENTITY
     else p = None"
proof -
  have len: "length psk = length hex div 2" if "hex_decode hex = Some psk" for hex psk
    using that by (induction hex arbitrary: psk rule: hex_decode.induct) (auto split: option.splits)
  from reachable_ok [OF assms(1,2)] assms(3) have "conn_params s = Inr p"
    by (auto simp: session_ok_def)
  then show ?thesis
    by (auto simp: conn_params_def nvmetcp_tls_params_def Let_def len
        split: if_splits option.splits sum.splits)
qed

definition tls_uri :: uri where
  "tls_uri = sample_uri\<lparr>u_equery := Some ''tls_psk=0aFf&tls_trsvcid=4420''\<rparr>"

definition tls_start :: nvmetcp_session where
  "tls_start = snd (nvmetcp_open sample_env tls_uri)"

lemma tls_query:
  "nvmetcp_parse_qparam True (Some ''tls_psk=0aFf&tls_trsvcid=4420'') ''secret='' = Inr None"
  "nvmetcp_parse_qparam True (Some ''tls_psk=0aFf&tls_trsvcid=4420'') ''tls_psk='' = Inr (Some ''0aFf'')"
  "nvmetcp_parse_qparam True (Some ''tls_psk=0aFf&tls_trsvcid=4420'') ''tls_trsvcid='' = Inr (Some ''4420'')"
  by code_simp+

lemma tls_port: "parse_port 0 ''4420'' = Some 4420"
  by code_simp

lemma tls_hex: "hex_decode ''0aFf'' = Some [0x0a, 0xff]"
  by code_simp

lemma tls_open: "nvmetcp_open sample_env tls_uri = (OK, tls_start)"
  and tls_start_facts: "tls_psk tls_start = Some ''0aFf''" "nvmetcp_use_tls tls_start"
    "Connected Admin (Some ([0x0a, 0xff], ''NVMe0R01 nqn.2014-08.org.host:a nqn.2014-08.org.sub:b''))
       \<in> set (events tls_start)"
  by (simp_all add: tls_start_def nvmetcp_open_def alloc_def sample_env_def sample_uri_def tls_uri_def
      nvmetcp_parse_root_path_def nvmetcp_parse_secret_def nvmetcp_parse_tls_def tls_query
      nvmetcp_set_host_nqn_def nvmetcp_open_socket_def nvmetcp_use_tls_def tls_port tls_hex
      nvmetcp_tls_params_def psk_identity_def cstr_def
      zero_session_def set_rx_def nvmetcp_tx_resume_def Let_def
      del: parse_port.simps hex_decode.simps)

lemma tls_reachable: "reachable sample_env tls_uri tls_start"
  unfolding reachable_def using tls_open by auto

theorem reachable_tls_witness:
  "psk_identity tls_start = ''NVMe0R01 nqn.2014-08.org.host:a nqn.2014-08.org.sub:b'' \<and>
   length (psk_identity tls_start) < NVMETCP_MAX_IDENTITY"
  using reachable_tls [OF sample_env_ok tls_reachable tls_start_facts(3)] tls_start_facts(2) by auto

section \<open>Set-up\<close>


definition sample_ns :: bytes where
  "sample_ns = [0, 8, 0, 0, 0, 0, 0, 0] @ zeros 18 @ [0] @ zeros 101 @ [0, 0, 9, 0] @ zeros 3964"

definition sample_cqe :: nvme_completion where
  "sample_cqe = \<lparr>cq_result = 1, cq_sq_head = 0, cq_sq_id = 0, cq_command_id = 1, cq_status = 0\<rparr>"

definition sample_icresp :: nvmetcp_icresp where
  "sample_icresp = \<lparr>ir_hdr = \<lparr>ph_type = NVMETCP_PDU_ICRESP, ph_flags = 0, ph_hlen = 128, ph_pdo = 0,
     ph_plen = 128\<rparr>, ir_pfv = 0, ir_cpda = 0, ir_digest = 0, ir_maxdata = 0x10000\<rparr>"

definition sample_answers :: target_answers where
  "sample_answers = \<lparr>ta_icresp = sample_icresp, ta_connect = sample_cqe, ta_prop_set = sample_cqe,
     ta_ctrl = zeros 4096, ta_ctrl_cqe = sample_cqe, ta_ns = sample_ns, ta_ns_cqe = sample_cqe,
     ta_io_icresp = sample_icresp, ta_io_connect = sample_cqe\<rparr>"

lemma sample_answers_ok: "answers_ok sample_answers"
  by (simp add: answers_ok_def sample_answers_def icresp_ok_def sample_icresp_def success_def
      sample_cqe_def cq_result_u32_def sample_ns_def)

lemma sample_identify:
  "nvmetcp_identify_ns sample_ns c0 = (OK, \<lparr>cap_blocks = 2048, cap_blksize = 512, cap_max_count = 8\<rparr>)"
proof -
  have "le64_to_cpu (get_at 0 8 sample_ns) = 2048"
    by (simp add: sample_ns_def get_at_def le64_to_cpu_def)
  moreover have "sample_ns ! 26 = 0" "sample_ns ! 130 = 9"
    by (simp_all add: sample_ns_def nth_append)
  ultimately show ?thesis by (simp add: nvmetcp_identify_ns_def Let_def)
qed


end
