(* ===== verification/Nvme_Send.thy ===== *)
theory Nvme_Send
  imports Nvme_Props
begin

text \<open>
  The contract of the functions that send one request (\<^verbatim>\<open>nvmetcp_tx_icreq\<close>, \<^verbatim>\<open>nvmetcp_tx_connect\<close>,
  \<^verbatim>\<open>nvmetcp_tx_prop_set\<close>, \<^verbatim>\<open>nvmetcp_tx_identify\<close>, \<^verbatim>\<open>nvmetcp_auth_tx_send\<close>, \<^verbatim>\<open>nvmetcp_auth_tx_receive\<close>):
  either exactly one buffer reaches the socket, or none does and the caller may try again. What
  follows for a process that retries is proved once from the contract.
\<close>

section \<open>The contract\<close>

text \<open>\<open>quiet s s'\<close>: nothing happened that the socket, the scheduler or the block consumer could see.\<close>

definition quiet :: "nvmetcp_session \<Rightarrow> nvmetcp_session \<Rightarrow> bool" where
  "quiet s s' \<longleftrightarrow> tx_log s' = tx_log s \<and> tx_in_flight s' = tx_in_flight s \<and> process s' = process s \<and>
     phase s' = phase s \<and> events s' = events s"

definition sent_one :: "sock \<Rightarrow> nvmetcp_session \<Rightarrow> nvmetcp_session \<Rightarrow> bool" where
  "sent_one k s s' \<longleftrightarrow> (\<exists>b. tx_log s' = tx_log s @ [(k, b)]) \<and> tx_in_flight s' \<and> \<not> process s' \<and>
     phase s' = phase s \<and> events s' = events s"

text \<open>Try until it succeeds, at most \<open>n\<close> times.\<close>

fun retry :: "('s \<Rightarrow> rc \<times> 's) \<Rightarrow> nat \<Rightarrow> 's \<Rightarrow> rc \<times> 's" where
  "retry f 0 s = (Err EAGAIN, s)"
| "retry f (Suc n) s = (case f s of (OK, s') \<Rightarrow> (OK, s') | (r, s') \<Rightarrow> retry f n s')"

locale one_shot_sender =
  fixes send :: "nvmetcp_session \<Rightarrow> rc \<times> nvmetcp_session"
    and k :: sock
  assumes sent: "send s = (OK, s') \<Longrightarrow> sent_one k s s'"
    and failed: "send s = (r, s') \<Longrightarrow> r \<noteq> OK \<Longrightarrow> (r = Err EAGAIN \<or> r = Err ENOMEM) \<and> quiet s s'"
begin

lemma retry_quiet: "retry send n s = (r, s') \<Longrightarrow> r \<noteq> OK \<Longrightarrow> quiet s s'"
proof (induction n arbitrary: s)
  case (Suc n)
  obtain c s1 where s1: "send s = (c, s1)" by fastforce
  with Suc.prems have "c \<noteq> OK" by auto
  with Suc s1 failed [OF s1] show ?case
    by (cases c) (auto simp: quiet_def dest!: Suc.IH)
qed (simp add: quiet_def)

lemma retry_sends_once: "retry send n s = (OK, s') \<Longrightarrow> sent_one k s s'"
proof (induction n arbitrary: s)
  case (Suc n)
  obtain c s1 where s1: "send s = (c, s1)" by fastforce
  show ?case
  proof (cases "c = OK")
    case True
    with Suc.prems s1 show ?thesis by (auto intro: sent)
  next
    case False
    then have "quiet s s1" using failed [OF s1] by simp
    moreover have "retry send n s1 = (OK, s')" using Suc.prems s1 False by (cases c) auto
    ultimately show ?thesis using Suc.IH by (fastforce simp: quiet_def sent_one_def)
  qed
qed simp

end

section \<open>The requests of the driver\<close>

lemma tx_pdu_sender:
  "nvmetcp_tx_pdu E k h d s = (r, s') \<Longrightarrow>
   if r = OK then sent_one k s s' else (r = Err EAGAIN \<or> r = Err ENOMEM) \<and> quiet s s'"
  by (auto simp: nvmetcp_tx_pdu_def xfer_send_def sent_one_def quiet_def Let_def split: if_splits)

lemma tx_data_sender:
  "nvmetcp_tx_data E k d s = (r, s') \<Longrightarrow>
   if r = OK then sent_one k s s' else (r = Err EAGAIN \<or> r = Err ENOMEM) \<and> quiet s s'"
  by (auto simp: nvmetcp_tx_data_def xfer_send_def sent_one_def quiet_def Let_def split: if_splits)

lemma tx_command_sender:
  assumes "nvmetcp_tx_command E k c d m (set_cmd g s) = (r, s')"
  shows "if r = OK then sent_one k s s' else (r = Err EAGAIN \<or> r = Err ENOMEM) \<and> quiet s s'"
proof -
  have g: "process (set_cmd g s) = process s" "tx_in_flight (set_cmd g s) = tx_in_flight s"
    by (simp_all add: set_cmd_def)
  from assms show ?thesis
    unfolding nvmetcp_tx_command_def
    by (rule then_ok_cases) (auto dest!: tx_pdu_sender simp: sent_one_def quiet_def g split: if_splits)
qed

lemma sender_from:
  assumes "\<And>s r s'. send s = (r, s') \<Longrightarrow>
     if r = OK then sent_one k s s' else (r = Err EAGAIN \<or> r = Err ENOMEM) \<and> quiet s s'"
  shows "one_shot_sender send k"
proof unfold_locales
  fix s s' assume "send s = (OK, s')"
  from assms [OF this] show "sent_one k s s'" by simp
next
  fix s r s' assume "send s = (r, s')" "r \<noteq> OK"
  from assms [OF this(1)] this(2) show "(r = Err EAGAIN \<or> r = Err ENOMEM) \<and> quiet s s'" by simp
qed

interpretation icreq: one_shot_sender "nvmetcp_tx_icreq E k" k for E k
  by (rule sender_from, unfold nvmetcp_tx_icreq_def, erule tx_data_sender)

interpretation connect: one_shot_sender "nvmetcp_tx_connect E k qid" k for E k qid
  by (rule sender_from, unfold nvmetcp_tx_connect_def Let_def, erule tx_command_sender)

interpretation propset: one_shot_sender "nvmetcp_tx_prop_set E" Admin for E
  by (rule sender_from, unfold nvmetcp_tx_prop_set_def Let_def, erule tx_command_sender)

interpretation identify: one_shot_sender "nvmetcp_tx_identify E cns ns" Admin for E cns ns
  by (rule sender_from, unfold nvmetcp_tx_identify_def Let_def, erule tx_command_sender)

interpretation authcmd: one_shot_sender "nvmetcp_auth_tx_command E ft d m" Admin for E ft d m
  by (rule sender_from, unfold nvmetcp_auth_tx_command_def Let_def, erule tx_command_sender)

interpretation authsend: one_shot_sender "nvmetcp_auth_tx_send E d" Admin for E d
  unfolding nvmetcp_auth_tx_send_def [abs_def] by unfold_locales (rule authcmd.sent authcmd.failed; assumption)+

section \<open>The session process\<close>

text \<open>A set-up step never loses or repeats a request. In every phase other than authentication,
  one step of the session process either hands exactly one buffer to the connection of the phase and
  stops the process until the answer arrives, or sends nothing, reports nothing and leaves the phase:
  then the process waits for the window (and is stopped) or runs again after an allocation failure.
  It never closes the session.\<close>

lemma step_sends_one_or_waits:
  assumes "phase s \<notin> {PHASE_AUTH, PHASE_READY, PHASE_FAILED}" "nvmetcp_step E s = (r, s')"
  shows "r = OK \<and> (sent_one (phase_sock (phase s)) s s' \<or>
     quiet s (s'\<lparr>process := process s\<rparr>) \<and> (process s' \<longrightarrow> process s))"
proof -
  obtain c s1 where a: "step_action E s = (c, s1)" by fastforce
  have k: "if c = OK then sent_one (phase_sock (phase s)) s s1
           else (c = Err EAGAIN \<or> c = Err ENOMEM) \<and> quiet s s1"
  proof (cases "c = OK")
    case True
    with a assms(1) show ?thesis
      by (cases "phase s") (auto simp: step_action_def phase_sock_def
          intro: icreq.sent connect.sent propset.sent identify.sent)
  next
    case False
    with a assms(1) show ?thesis
      by (cases "phase s") (auto simp: step_action_def
          dest!: icreq.failed connect.failed propset.failed identify.failed)
  qed
  then show ?thesis
    using assms(2) a by (cases c) (auto simp: nvmetcp_step_def quiet_def split: if_splits)
qed

text \<open>Retrying a Connect command until it is accepted puts exactly one capsule on the wire, however
  many attempts found no window or no memory.\<close>

lemma connect_retry_sends_once:
  assumes "retry (nvmetcp_tx_connect E k qid) n s = (OK, s')"
  shows "(\<exists>b. tx_log s' = tx_log s @ [(k, b)]) \<and> tx_in_flight s' \<and> phase s' = phase s"
  using connect.retry_sends_once [OF assms] by (simp add: sent_one_def)

lemma sample_connect:
  "retry (nvmetcp_tx_connect sample_env Admin 0) 1 sample_session =
   (OK, snd (nvmetcp_tx_connect sample_env Admin 0 sample_session))"
  by (simp add: nvmetcp_tx_connect_def nvmetcp_tx_command_def nvmetcp_tx_pdu_def Let_def sample_env_def)

end
