(* ===== verification/Nvme_Auth_Props.thy ===== *)
theory Nvme_Auth_Props
  imports Nvme_Send
begin

text \<open>
  The theorems about DH-HMAC-CHAP authentication (\<^verbatim>\<open>net/tcp/nvmetcp_auth.c\<close> and its callers in
  \<^verbatim>\<open>net/tcp/nvmetcp.c\<close>): how the authentication phase ends, what the response is, and three
  behaviours that differ from what the comments of the code intend.
\<close>

section \<open>The end of the authentication phase\<close>

lemma tx_receive_step_phase:
  "nvmetcp_auth_tx_receive_step E st s = (r, s') \<Longrightarrow> phase s' = phase s"
proof -
  assume a: "nvmetcp_auth_tx_receive_step E st s = (r, s')"
  let ?s = "upd_auth (\<lambda>a. a\<lparr>au_step := st\<rparr>) s"
  obtain c s1 where c: "nvmetcp_auth_tx_receive E ?s = (c, s1)" by fastforce
  then have "phase s1 = phase s"
    using authcmd.sent authcmd.failed unfolding nvmetcp_auth_tx_receive_def
    by (cases "c = OK") (fastforce simp: sent_one_def quiet_def)+
  with a c show ?thesis by (auto simp: nvmetcp_auth_tx_receive_step_def split: rc.splits)
qed

lemma auth_rx_complete_phase:
  "nvmetcp_auth_rx_complete E s = (r, s') \<Longrightarrow> phase s' = phase s"
  by (auto simp: nvmetcp_auth_rx_complete_def Let_def dest: tx_receive_step_phase
      split: nvmetcp_auth_steps.splits if_splits)

lemma auth_send_phase: "nvmetcp_auth_tx_send E d s = (r, s') \<Longrightarrow> phase s' = phase s"
  using authsend.sent [of E d s s'] authsend.failed [of E d s r s']
  by (cases "r = OK") (auto simp: sent_one_def quiet_def)

lemma tx_reply_phase: "nvmetcp_auth_tx_reply E d ex s = (r, s') \<Longrightarrow> phase s' = phase s"
  by (auto simp: nvmetcp_auth_tx_reply_def nvmetcp_auth_transform_key_def nvmetcp_auth_response_def
      auth_hmac_eq Let_def simp del: put_at_0 dest!: auth_send_phase
      split: sum.splits option.splits prod.splits if_splits)

lemma dh_key_phase: "nvmetcp_auth_dh_key E g d k s = (r, s') \<Longrightarrow> phase s' = phase s"
  by (auto simp: nvmetcp_auth_dh_key_def get_random_nz_def alloc_def Let_def
      split: sum.splits bool.splits)

lemma rx_challenge_phase: "nvmetcp_auth_rx_challenge E s = (r, s') \<Longrightarrow> phase s' = phase s"
  unfolding nvmetcp_auth_rx_challenge_def
  by (elim then_ok_cases)
    (auto simp: Let_def simp del: put_at_0 elim!: then_ok_cases dest!: tx_reply_phase dh_key_phase
      split: option.splits sum.splits if_splits)

lemma auth_rx_data_phase: "nvmetcp_auth_rx_data E s = (r, s') \<Longrightarrow> phase s' = phase s"
  by (auto simp: nvmetcp_auth_rx_data_def nvmetcp_auth_rx_success1_def Let_def elim!: then_ok_cases
      dest!: rx_challenge_phase split: nvmetcp_auth_steps.splits if_splits)

lemma auth_finish_gate:
  assumes "then_ok (r0, s0) (\<lambda>s. let s = nvmetcp_auth_try_complete s in
            (OK, if phase s \<noteq> PHASE_AUTH then s\<lparr>process := True\<rparr> else s)) = (OK, s')"
    and "phase s0 = PHASE_AUTH"
  shows "phase s' = PHASE_AUTH \<or> phase s' = PHASE_PROP_SET \<and> au_completed (auth s') \<and>
     au_rx_complete (auth s') \<and> process s'"
  using assms by (auto simp: then_ok_eq_OK nvmetcp_auth_try_complete_def Let_def split: if_splits)

lemma rx_command_gate:
  assumes "nvmetcp_rx_command E s = (OK, s')" "phase s = PHASE_AUTH"
  shows "phase s' = PHASE_AUTH \<or> phase s' = PHASE_PROP_SET \<and> au_completed (auth s') \<and>
     au_rx_complete (auth s') \<and> process s'"
proof -
  let ?s = "s\<lparr>tx_in_flight := False\<rparr>"
  obtain r0 s0 where s0: "nvmetcp_auth_rx_complete E ?s = (r0, s0)" by fastforce
  from auth_rx_complete_phase [OF this] assms(2) have "phase s0 = PHASE_AUTH" by simp
  moreover have "then_ok (r0, s0) (\<lambda>s. let s = nvmetcp_auth_try_complete s in
            (OK, if phase s \<noteq> PHASE_AUTH then s\<lparr>process := True\<rparr> else s)) = (OK, s')"
    using assms s0 by (simp add: nvmetcp_rx_command_def Let_def split: if_splits)
  ultimately show ?thesis by (intro auth_finish_gate)
qed

lemma rx_data_gate:
  assumes "nvmetcp_rx_data E s = (OK, s')" "phase s = PHASE_AUTH"
  shows "phase s' = PHASE_AUTH \<or> phase s' = PHASE_PROP_SET \<and> au_completed (auth s') \<and>
     au_rx_complete (auth s') \<and> process s'"
proof -
  let ?s = "s\<lparr>tx_in_flight := False\<rparr>"
  obtain r0 s0 where s0: "nvmetcp_auth_rx_data E ?s = (r0, s0)" by fastforce
  from auth_rx_data_phase [OF this] assms(2) have "phase s0 = PHASE_AUTH" by simp
  moreover have "then_ok (r0, s0) (\<lambda>s. let s = nvmetcp_auth_try_complete s in
            (OK, if phase s \<noteq> PHASE_AUTH then s\<lparr>process := True\<rparr> else s)) = (OK, s')"
    using assms s0 by (simp add: nvmetcp_rx_data_def Let_def)
  ultimately show ?thesis by (intro auth_finish_gate)
qed


definition auth_session :: nvmetcp_session where
  "auth_session = sample_session\<lparr>phase := PHASE_AUTH, secret := Some ''DHHC-1:01:'',
     rx_admin := with_header (rsp_pdu sample_cqe) (rx_admin sample_session), cqe := sample_cqe,
     auth := (auth sample_session)\<lparr>au_completed := True, au_rx_cid := 1, au_step := STEP_START\<rparr>\<rparr>"

lemma auth_session_complete:
  "\<exists>s'. nvmetcp_rx_pdu_complete sample_env Admin auth_session = (OK, s') \<and> phase s' = PHASE_PROP_SET"
  by (simp add: nvmetcp_rx_pdu_complete_def auth_session_def sample_session_def zero_session_def
      get_rx_def with_header_def rsp_pdu_def Let_def nvmetcp_rx_command_def sample_cqe_def
      nvmetcp_auth_rx_complete_def zero_auth_def upd_auth_def nvmetcp_auth_try_complete_def)


lemma tx_command_auth:
  "nvmetcp_tx_command E k c d m s = (r, s') \<Longrightarrow> auth s' = auth s"
  by (auto simp: nvmetcp_tx_command_def nvmetcp_tx_pdu_def xfer_send_def set_rx_def Let_def
      split: if_splits sock.splits elim!: then_ok_cases)

lemma auth_send_auth: "nvmetcp_auth_tx_send E d s = (r, s') \<Longrightarrow> auth s' = auth s"
  unfolding nvmetcp_auth_tx_send_def nvmetcp_auth_tx_command_def Let_def
  by (drule tx_command_auth) (simp add: set_cmd_def)

lemma tx_reply_auth: "nvmetcp_auth_tx_reply E d ex s = (r, s') \<Longrightarrow> auth s' = auth s"
  by (auto simp: nvmetcp_auth_tx_reply_def nvmetcp_auth_transform_key_def nvmetcp_auth_response_def
      auth_hmac_eq Let_def simp del: put_at_0 dest!: auth_send_auth
      split: sum.splits option.splits prod.splits if_splits)

lemma dh_key_completed:
  "nvmetcp_auth_dh_key E g d k s = (r, s') \<Longrightarrow> au_completed (auth s') = au_completed (auth s)"
  by (auto simp: nvmetcp_auth_dh_key_def get_random_nz_def alloc_def Let_def
      split: sum.splits bool.splits)

lemma rx_challenge_completed:
  "nvmetcp_auth_rx_challenge E s = (r, s') \<Longrightarrow> au_completed (auth s') = au_completed (auth s)"
  unfolding nvmetcp_auth_rx_challenge_def
  by (elim then_ok_cases)
    (auto simp: Let_def simp del: put_at_0 elim!: then_ok_cases dest!: tx_reply_auth dh_key_completed
      split: option.splits sum.splits if_splits)

text \<open>C7: Authentication completes only on a valid success message. If processing the data of an
  authentication command marks the authentication as completed, the session was waiting for the
  success message, and the received message is a DH-HMAC-CHAP Success1 message of this transaction
  with the negotiated digest length and without a controller response.\<close>

theorem auth_completed_valid:
  assumes "nvmetcp_auth_rx_data E s = (OK, s')" "\<not> au_completed (auth s)" "au_completed (auth s')"
  shows "au_step (auth s) = STEP_SUCCESS1 \<and> cmd_buf s ! 0 = NVME_AUTH_DHCHAP_MESSAGES \<and>
     cmd_buf s ! 1 = NVME_AUTH_DHCHAP_MESSAGE_SUCCESS1 \<and>
     le16_to_cpu (get_at 4 2 (cmd_buf s)) = au_transaction (auth s) \<and>
     unat (cmd_buf s ! 6) = au_hl (auth s) \<and> cmd_buf s ! 8 = 0"
  using assms
  by (auto simp: nvmetcp_auth_rx_data_def nvmetcp_auth_rx_success1_def nvmetcp_auth_rx_validate_def
      dec_failure_def dec_success1_def Let_def then_ok_eq_OK dest!: rx_challenge_completed
      split: nvmetcp_auth_steps.splits if_splits)

definition success_session :: nvmetcp_session where
  "success_session = sample_session\<lparr>phase := PHASE_AUTH,
     cmd_buf := [1, 3, 0, 0, 7, 7, 32, 0, 0] @ zeros 4087,
     auth := (auth sample_session)\<lparr>au_step := STEP_SUCCESS1, au_transaction := 0x0707, au_hl := 32\<rparr>\<rparr>"

theorem auth_completed_valid_witness:
  "\<exists>s'. nvmetcp_auth_rx_data sample_env success_session = (OK, s') \<and> au_completed (auth s') \<and>
     le16_to_cpu (get_at 4 2 (cmd_buf success_session)) = au_transaction (auth success_session)"
proof -
  have "le16_to_cpu [7, 7] = 0x0707" by (simp add: le16_to_cpu_def)
  then obtain s' where s': "nvmetcp_auth_rx_data sample_env success_session = (OK, s')" "au_completed (auth s')"
    by (auto simp: nvmetcp_auth_rx_data_def success_session_def nvmetcp_auth_rx_success1_def
        nvmetcp_auth_rx_validate_def dec_failure_def dec_success1_def get_at_def Let_def)
  moreover have "\<not> au_completed (auth success_session)"
    by (simp add: success_session_def sample_session_def zero_session_def zero_auth_def)
  ultimately show ?thesis using auth_completed_valid by blast
qed

section \<open>The response\<close>

text \<open>The payload of a command buffer: what follows the 72 bytes of the capsule.\<close>

definition payload :: "bytes \<Rightarrow> bytes" where
  "payload b = drop 72 b"

lemma tx_command_payload:
  assumes "nvmetcp_tx_command E k c d m s = (OK, s')" "length c = 64"
  shows "\<exists>b. tx_log s' = tx_log s @ [(k, b)] \<and> payload b = d"
  using assms by (auto simp: nvmetcp_tx_command_def nvmetcp_tx_pdu_def xfer_send_def payload_def
      Let_def then_ok_eq_OK split: if_splits)

lemma auth_send_payload:
  assumes "nvmetcp_auth_tx_send E d s = (OK, s')"
  shows "\<exists>b. tx_log s' = tx_log s @ [(Admin, b)] \<and> payload b = d"
  using tx_command_payload [OF assms [unfolded nvmetcp_auth_tx_send_def nvmetcp_auth_tx_command_def Let_def]]
  by simp

text \<open>What is sent, for any pair of hashes: the key array holds the transformed secret, then what the
  stack held.\<close>

lemma reply_sent:
  assumes E: "env_ok E" and "nvmetcp_auth_tx_reply E d None s = (OK, s')"
    and sec: "nvmetcp_auth_parse_secret E s = Inr (n, key)" "nvmetcp_auth_hash n = Some sd"
    and hl: "au_hl (auth s) = e_digestsize E d"
  shows "\<exists>b. tx_log s' = tx_log s @ [(Admin, b)] \<and>
     payload b = enc_reply \<lparr>rp_auth_type = NVME_AUTH_DHCHAP_MESSAGES,
          rp_auth_id = NVME_AUTH_DHCHAP_MESSAGE_REPLY, rp_t_id = au_transaction (auth s),
          rp_hl = of_nat (e_digestsize E d), rp_dhvlen = 0, rp_seqnum = 0\<rparr>
        @ e_hmac E d
            (take (e_digestsize E d)
               (e_hmac E sd key (str_bytes (cstr (host_nqn s)) @ str_bytes ''NVMe-over-Fabrics'')
                @ drop (e_digestsize E sd) (e_stack E (clk s) NVME_AUTH_MAX_DIGEST_SIZE)))
            (response_input s (take (e_digestsize E d) (au_cval (auth s))))"
proof -
  have len: "length (e_hmac E d k x) = e_digestsize E d" for d k x by (rule env_okD(3) [OF E])
  define tk where "tk = e_hmac E sd key (str_bytes (cstr (host_nqn s)) @ str_bytes ''NVMe-over-Fabrics'')"
  define ky where "ky = put_at 0 tk (e_stack E (clk s) NVME_AUTH_MAX_DIGEST_SIZE)"
  obtain s1 where s1: "nvmetcp_auth_tx_send E (reply_data s (e_hmac E d (take (e_digestsize E d) ky)
        (response_input s (take (au_hl (auth s)) (au_cval (auth s))))) None) s1 = (OK, s')"
      "tx_log s1 = tx_log s"
    using assms(2) unfolding nvmetcp_auth_tx_reply_def sec
    by (auto simp: sec(2) nvmetcp_auth_transform_key_def nvmetcp_auth_response_def auth_hmac_eq Let_def
        ky_def tk_def response_input_def simp del: put_at_0 split: if_splits)
  from auth_send_payload [OF this(1)] this(2) show ?thesis
    by (simp add: reply_data_def Let_def hl len tk_def ky_def)
qed


definition chap_session :: nvmetcp_session where
  "chap_session = auth_session\<lparr>secret := Some (''DHHC-1:01:'' @ replicate 36 (CHR 0x00)),
     auth := (auth auth_session)\<lparr>au_hl := 32\<rparr>\<rparr>"

lemma chap_secret: "nvmetcp_auth_parse_secret sample_env chap_session = Inr (1, zeros 32)"
proof -
  have "of_le (zeros n) = 0" for n by (induction n) simp_all
  moreover have "(- 4294967296 :: u32) = 0" by code_simp
  ultimately show ?thesis
    by (simp add: nvmetcp_auth_parse_secret_def chap_session_def sample_env_def is_digit_def digit_val_def
        char_code_def Let_def get_at_def le32_to_cpu_def)
qed


section \<open>The secret\<close>

lemma parse_digits_dec:
  "parse_digits (of_nat a) p = (of_nat (dec_val a (takeWhile is_digit p)), dropWhile is_digit p)"
proof (induction p arbitrary: a)
  case (Cons c cs)
  show ?case using Cons [of "a * 10 + digit_val c"] by simp
qed simp

lemma crc_split:
  assumes "length k = n + 4"
  shows "le32_to_cpu (get_at n 4 k) = w \<longleftrightarrow> k = take n k @ cpu_to_le32 w"
proof
  assume "le32_to_cpu (get_at n 4 k) = w"
  moreover have l: "length (get_at n 4 k) = 4" using assms by simp
  have "cpu_to_le32 (le32_to_cpu (get_at n 4 k)) = get_at n 4 k"
  proof -
    have "of_le (get_at n 4 k) < 2 ^ 32" using of_le_bound [of "get_at n 4 k"] l by simp
    then have "unat (of_nat (of_le (get_at n 4 k)) :: u32) = of_le (get_at n 4 k)"
      by (simp add: unat_of_nat)
    then show ?thesis using to_le_of_le [of "get_at n 4 k"] l by (simp add: cpu_to_le32_def le32_to_cpu_def)
  qed
  moreover have "take n k @ get_at n 4 k = k" using assms by (simp add: get_at_def)
  ultimately show "k = take n k @ cpu_to_le32 w" by metis
next
  assume a: "k = take n k @ cpu_to_le32 w"
  have "get_at n 4 (take n k @ cpu_to_le32 w) = cpu_to_le32 w" using assms by (simp add: get_at_def)
  with a show "le32_to_cpu (get_at n 4 k) = w" by (metis le32.dec_enc)
qed

text \<open>Which secrets are accepted. The secret parser returns a hash identifier and a key exactly
  when the configured string is the tag, a decimal number that is 1, 2 or 3 modulo 32-bit wrap-around,
  a colon, and a base64 text that decodes to a key of 32, 48 or 64 bytes followed by its inverted
  CRC32 in little-endian order.\<close>

lemma secret_accepted_iff:
  "nvmetcp_auth_parse_secret E s = Inr (n, key) \<longleftrightarrow>
   (\<exists>ds b64. secret s = Some (''DHHC-1:'' @ ds @ '':'' @ b64) \<and> list_all is_digit ds \<and>
      n = dec_val 0 ds mod 2 ^ 32 \<and> 1 \<le> n \<and> n \<le> 3 \<and> length key \<in> {32, 48, 64} \<and>
      e_base64 E b64 = Inr (key @ cpu_to_le32 (NOT (e_crc32_le E 0xffffffff key))))"
  (is "?L \<longleftrightarrow> ?R")
proof
  assume L: ?L
  then obtain p where p: "secret s = Some p" "take 7 p = ''DHHC-1:''"
    by (auto simp: nvmetcp_auth_parse_secret_def Let_def split: option.splits if_splits)
  define ds q where "ds = takeWhile is_digit (drop 7 p)" and "q = dropWhile is_digit (drop 7 p)"
  have pd: "parse_digits 0 (drop 7 p) = (of_nat (dec_val 0 ds), q)"
    using parse_digits_dec [of 0 "drop 7 p"] by (simp add: ds_def q_def)
  from L p pd obtain k where k: "take 1 q = '':''" "e_base64 E (drop 1 q) = Inr k"
    "length k \<in> {36, 52, 68}" "le32_to_cpu (get_at (length k - 4) 4 k) =
        NOT (e_crc32_le E 0xffffffff (take (length k - 4) k))"
    "key = take (length k - 4) k" "n = unat (of_nat (dec_val 0 ds) :: u32)"
    "(of_nat (dec_val 0 ds) :: u32) \<noteq> 0" "(of_nat (dec_val 0 ds) :: u32) \<le> 3"
    by (auto simp: nvmetcp_auth_parse_secret_def Let_def split: sum.splits if_splits)
  have "k = key @ cpu_to_le32 (NOT (e_crc32_le E 0xffffffff key))"
    using k(3-5) crc_split [of k "length k - 4" "NOT (e_crc32_le E 0xffffffff key)"] by auto
  moreover have "q = '':'' @ drop 1 q" using k(1) by (cases q) auto
  moreover have "p = ''DHHC-1:'' @ ds @ q"
    using p(2) by (metis append_take_drop_id ds_def q_def takeWhile_dropWhile_id)
  moreover have n0: "n \<noteq> 0" using k(6,7) by (simp only: unat_eq_0 not_False_eq_True)
  then have "n = dec_val 0 ds mod 2 ^ 32" "1 \<le> n" "n \<le> 3"
    using k(6,8) n0 by (auto simp: unat_of_nat word_le_nat_alt)
  moreover have "list_all is_digit ds" by (auto simp: ds_def list_all_iff dest: set_takeWhileD)
  ultimately show ?R using p(1) k(2,3,5) by (intro exI [of _ ds] exI [of _ "drop 1 q"]) auto
next
  assume ?R
  then obtain ds b64 where R: "secret s = Some (''DHHC-1:'' @ ds @ '':'' @ b64)" "list_all is_digit ds"
      "n = dec_val 0 ds mod 2 ^ 32" "1 \<le> n" "n \<le> 3" "length key \<in> {32, 48, 64}"
      "e_base64 E b64 = Inr (key @ cpu_to_le32 (NOT (e_crc32_le E 0xffffffff key)))"
    by blast
  let ?w = "of_nat (dec_val 0 ds) :: u32"
  have w: "unat ?w = n" using R(3) by (simp add: unat_of_nat)
  then have "?w \<noteq> 0" "?w \<le> 3" using R(4,5) by (auto simp: word_le_nat_alt)
  moreover have "\<not> is_digit CHR '':''" by (simp add: is_digit_def char_code_def)
  then have "takeWhile is_digit (ds @ '':'' @ b64) = ds" "dropWhile is_digit (ds @ '':'' @ b64) = '':'' @ b64"
    using R(2) by (auto simp: list_all_iff takeWhile_append2 dropWhile_append2)
  then have "parse_digits 0 (ds @ '':'' @ b64) = (?w, '':'' @ b64)"
    using parse_digits_dec [of 0 "ds @ '':'' @ b64"] by simp
  moreover have "le32_to_cpu (get_at (length key) 4 (key @ cpu_to_le32 v)) = v" for v
    by (simp add: get_at_def)
  ultimately show ?L using R w by (auto simp: nvmetcp_auth_parse_secret_def Let_def)
qed

section \<open>Departures\<close>

text \<open>A lost Negotiate message. When the window is closed at the first authentication step, the
  step waits without having sent the Negotiate message, but it has already advanced; the next step
  therefore goes straight on to the receive command for the challenge.\<close>

lemma negotiate_lost:
  assumes "au_step (auth s) = STEP_START" "\<not> au_completed (auth s)" "\<not> tx_in_flight s"
    and "e_random E (clk s) 2 = Inr t" "e_window E (Suc (clk s)) Admin = 0"
  shows "\<exists>s'. nvmetcp_auth_step E s = (Err EAGAIN, s') \<and> tx_log s' = tx_log s \<and>
     au_step (auth s') = STEP_COMPLETE_NEGOTIATE \<and>
     nvmetcp_auth_step E s' = nvmetcp_auth_tx_receive_step E STEP_CHALLENGE s'"
proof -
  define s1 where "s1 = upd_auth (\<lambda>a. a\<lparr>au_transaction := le16_to_cpu t,
      au_step := STEP_COMPLETE_NEGOTIATE\<rparr>) (s\<lparr>clk := Suc (clk s)\<rparr>)"
  define g where "g = auth_cmd NVMF_FCTYPE_AUTH_SEND 72"
  let ?s' = "(set_cmd g s1)\<lparr>clk := Suc (clk (set_cmd g s1))\<rparr>"
  have "clk (set_cmd g s1) = Suc (clk s)" by (simp add: set_cmd_def s1_def)
  then have step: "nvmetcp_auth_step E s = (Err EAGAIN, ?s')"
    using assms by (simp add: nvmetcp_auth_step_def get_random_nz_def nvmetcp_auth_tx_negotiate_def
        nvmetcp_auth_tx_send_def nvmetcp_auth_tx_command_def nvmetcp_tx_command_def nvmetcp_tx_pdu_def
        Let_def s1_def [symmetric] g_def)
  have "tx_log ?s' = tx_log s" "auth ?s' = auth s1" "tx_in_flight ?s' = tx_in_flight s"
    by (simp_all add: set_cmd_def s1_def upd_auth_def)
  moreover have "au_step (auth s1) = STEP_COMPLETE_NEGOTIATE" by (simp add: s1_def)
  ultimately show ?thesis using step assms(3)
    by (intro exI [of _ ?s']) (simp add: nvmetcp_auth_step_def [of E ?s'])
qed

text \<open>Property Set can be skipped. In the Property Set phase any successful completion on the
  admin connection, whatever its command identifier and whether or not a Property Set command was
  sent, moves the session on to Identify Controller without sending anything.\<close>

lemma prop_set_skipped:
  assumes "env_ok E" "session_ok s" "idle (get_rx Admin s)" "phase s = PHASE_PROP_SET" "cq_status q = 0"
  shows "\<exists>s'. nvmetcp_socket_deliver E Admin (rsp_pdu q) s = (OK, s') \<and>
     phase s' = PHASE_IDENTIFY_CTRL \<and> tx_log s' = tx_log s"
  using plain_round [of s E q PHASE_IDENTIFY_CTRL] assms by (auto simp: success_def at_def kept_def)

text \<open>Uninitialised key bytes. When the secret names a hash with a shorter digest than the hash
  the controller chose, the response is keyed with the transformed secret followed by bytes that an
  automatic array of the function held before anything was written to it.\<close>

lemma reply_uses_stack_bytes:
  assumes E: "env_ok E" and ok: "nvmetcp_auth_tx_reply E d None s = (OK, s')"
    and sec: "nvmetcp_auth_parse_secret E s = Inr (n, key)" "nvmetcp_auth_hash n = Some sd"
    and hl: "au_hl (auth s) = e_digestsize E d" and short: "e_digestsize E sd < e_digestsize E d"
  shows "\<exists>b. tx_log s' = tx_log s @ [(Admin, b)] \<and>
     drop 16 (payload b) = e_hmac E d
       (e_hmac E sd key (str_bytes (cstr (host_nqn s)) @ str_bytes ''NVMe-over-Fabrics'')
        @ get_at (e_digestsize E sd) (e_digestsize E d - e_digestsize E sd)
            (e_stack E (clk s) NVME_AUTH_MAX_DIGEST_SIZE))
       (response_input s (take (e_digestsize E d) (au_cval (auth s))))"
  using reply_sent [OF E ok sec hl] short env_okD(1) [OF E, of d]
  by (auto simp: env_okD(3) [OF E] get_at_def)

definition mixed_session :: nvmetcp_session where
  "mixed_session = chap_session\<lparr>auth := (auth chap_session)\<lparr>au_hl := 64\<rparr>\<rparr>"

lemma mixed_facts: "nvmetcp_auth_parse_secret sample_env mixed_session = Inr (1, zeros 32)"
    "au_hl (auth mixed_session) = e_digestsize sample_env SHA512"
    "e_digestsize sample_env SHA256 < e_digestsize sample_env SHA512" "nvmetcp_auth_hash 1 = Some SHA256"
  using chap_secret
  by (simp_all add: nvmetcp_auth_hash_def mixed_session_def sample_env_def sample_digestsize_def
      nvmetcp_auth_parse_secret_def)

end
