(* ===== verification/Nvme_Block_Props.thy ===== *)
theory Nvme_Block_Props
  imports Nvme_Send
begin

text \<open>
  The theorems about block commands (\<^verbatim>\<open>nvmetcp_block_rw\<close>, \<^verbatim>\<open>nvmetcp_tx_h2cdata\<close>, \<^verbatim>\<open>nvmetcp_rx_data\<close>,
  \<^verbatim>\<open>nvmetcp_identify_ns\<close>) and the two ways a target can lead the receive path outside a buffer.
\<close>

section \<open>Issuing a command\<close>

text \<open>The capsule of a block command: command PDU, opcode, namespace, address, zero-based count, and
  the data that follows.\<close>

definition rw_capsule :: "byte \<Rightarrow> u32 \<Rightarrow> u64 \<Rightarrow> u32 \<Rightarrow> u16 \<Rightarrow> bytes \<Rightarrow> nat \<Rightarrow> bytes \<Rightarrow> bool" where
  "rw_capsule opc ns lba n i d m b \<longleftrightarrow>
     ph_type (dec_pdu_header b) = NVMETCP_PDU_COMMAND \<and>
     unat (ph_plen (dec_pdu_header b)) = 72 + length d \<and>
     b ! 8 = opc \<and> le16_to_cpu (get_at 10 2 b) = i \<and> le32_to_cpu (get_at 12 4 b) = ns \<and>
     le64_to_cpu (get_at 48 8 b) = lba \<and> le16_to_cpu (get_at 56 2 b) = ucast (n - 1) \<and>
     unat (le32_to_cpu (get_at 40 4 b)) = (if d = [] then m else length d) \<and> drop 72 b = d"

lemma rw_capsule_pdu:
  assumes "length d \<le> 4096" "m \<le> 4096"
  shows "rw_capsule opc ns lba n i d m (cmd_pdu (rw_cmd opc ns lba n i) (length d) m @ d)"
proof -
  have l: "unat (of_nat (72 + length d) :: u32) = 72 + length d" "unat (of_nat (length d) :: u32) = length d"
      "unat (of_nat m :: u32) = m"
    using assms by (simp_all add: unat_of_nat del: of_nat_add)
  let ?c = "rw_cmd opc ns lba n i"
  have len: "length ?c = 64" by (simp add: rw_cmd_def)
  let ?f = "set_common_sgl (cmd_sgl (length d) m) (set_common_flags NVME_CMD_SGL_METABUF ?c)"
  have lf: "length ?f = 64" using len by simp
  have f: "?f ! 0 = opc" "get_at 2 2 ?f = cpu_to_le16 i" "get_at 4 4 ?f = cpu_to_le32 ns"
      "get_at 40 8 ?f = cpu_to_le64 lba" "get_at 48 2 ?f = cpu_to_le16 (ucast (n - 1))"
      "get_at 32 4 ?f = cpu_to_le32 (of_nat (if d = [] then m else length d))"
    by (simp_all add: set_common_sgl_def set_common_flags_def put_at_def get_at_def rw_cmd_def enc_rw_def
        enc_sgl_def cmd_sgl_def nth_append numeral_eq_Suc)
  have g: "get_at (8 + j) w (cmd_pdu ?c (length d) m @ d) = get_at j w ?f" if "j + w \<le> 64" for j w
    using that lf by (simp add: cmd_pdu_def get_at_def)
  have "(cmd_pdu ?c (length d) m @ d) ! 8 = ?f ! 0"
    using lf by (simp add: cmd_pdu_def nth_append)
  moreover have "drop 72 (cmd_pdu ?c (length d) m @ d) = d" using len by simp
  moreover have "dec_pdu_header (cmd_pdu ?c (length d) m @ d) = \<lparr>ph_type = NVMETCP_PDU_COMMAND,
      ph_flags = 0, ph_hlen = 72, ph_pdo = (if length d \<noteq> 0 then 72 else 0), ph_plen = of_nat (72 + length d)\<rparr>"
    by (simp add: cmd_pdu_def)
  ultimately show ?thesis
    using g [of 2 2] g [of 4 4] g [of 40 8] g [of 48 2] g [of 32 4] f l
    by (simp add: rw_capsule_def del: of_nat_add)
qed

lemma tx_command_log:
  assumes "nvmetcp_tx_command E k c d m s = (r, s')"
  shows "if r = OK then tx_log s' = tx_log s @ [(k, cmd_pdu c (length d) m @ d)]
         else tx_log s' = tx_log s"
    and "events s' = events s" "block_data s' = block_data s" "block_buffer s' = block_buffer s"
      "block_len s' = block_len s" "block_writing s' = block_writing s"
  using assms
  by (auto simp: nvmetcp_tx_command_def nvmetcp_tx_pdu_def xfer_send_def set_rx_def Let_def
      elim!: then_ok_cases split: if_splits sock.splits)

lemma rw_send_status: "fst (rw_send E d lba n b opc s) \<in> {OK, Err EAGAIN, Err ENOMEM}"
  by (simp add: rw_send_def nvmetcp_tx_command_def nvmetcp_tx_pdu_def Let_def)

text \<open>C9: Block commands. A read or write is refused, with nothing changed, before the session is
  ready, when its buffer exceeds 4096 bytes, or while another command is in progress. Otherwise the
  consumer's interface is attached and either one capsule with the opcode, namespace, address,
  count and (for a write) the data goes out on the I/O connection and the command is recorded as in
  progress, or nothing is sent, the command is not in progress and the consumer is told the error.\<close>

theorem block_rw_behaviour:
  assumes "nvmetcp_block_rw E d lba n b opc s = (r, s')"
  shows "if phase s \<noteq> PHASE_READY then r = Err EAGAIN \<and> s' = s
    else if length b > 4096 then r = Err EINVAL \<and> s' = s
    else if block_data s \<noteq> None then r = Err EAGAIN \<and> s' = s
    else if r = OK then
      (\<exists>c. tx_log s' = tx_log s @ [(IO, c)] \<and>
         rw_capsule opc (nsid s) lba n (cid s + 1) (if opc = NVME_OPCODE_WRITE then b else [])
           (if opc = NVME_OPCODE_WRITE then 0 else length b) c) \<and>
      block_data s' = Some d \<and> block_buffer s' = b \<and> block_len s' = length b \<and>
      block_writing s' = (opc = NVME_OPCODE_WRITE) \<and> events s' = events s @ [Plug d]
    else r \<in> {Err EAGAIN, Err ENOMEM} \<and> tx_log s' = tx_log s \<and> block_data s' = None \<and>
      events s' = events s @ [Plug d, Restart r]"
proof (cases "phase s = PHASE_READY \<and> length b \<le> 4096 \<and> block_data s = None")
  case True
  obtain c s1 where t: "rw_send E d lba n b opc s = (c, s1)" by fastforce
  let ?d = "if opc = NVME_OPCODE_WRITE then b else []"
  let ?m = "if opc = NVME_OPCODE_WRITE then 0 else length b"
  have cap: "rw_capsule opc (nsid s) lba n (cid s + 1) ?d ?m
      (cmd_pdu (rw_cmd opc (nsid s) lba n (cid s + 1)) (length ?d) ?m @ ?d)"
    using True by (intro rw_capsule_pdu) auto
  have iss: "tx_log (rw_issued d lba n b opc s) = tx_log s"
    "events (rw_issued d lba n b opc s) = events s @ [Plug d]"
    "block_data (rw_issued d lba n b opc s) = Some d" "block_buffer (rw_issued d lba n b opc s) = b"
    "block_len (rw_issued d lba n b opc s) = length b"
    "block_writing (rw_issued d lba n b opc s) = (opc = NVME_OPCODE_WRITE)"
    by (simp_all add: rw_issued_def set_cmd_def)
  note log = tx_command_log [OF t [unfolded rw_send_def]]
  have rs: "r = c" "s' = (if c = OK then s1
      else s1\<lparr>block_data := None, events := events s1 @ [Restart c]\<rparr>)"
    using assms True t by (auto simp: block_rw_eq)
  have "c \<in> {OK, Err EAGAIN, Err ENOMEM}" using rw_send_status [of E d lba n b opc s] t by simp
  with True log cap rs iss show ?thesis by auto
next
  case False
  with assms show ?thesis by (auto simp: nvmetcp_block_rw_def)
qed

definition ready_session :: nvmetcp_session where
  "ready_session = sample_session\<lparr>phase := PHASE_READY\<rparr>"

lemma ready_session_ok: "session_ok ready_session"
  unfolding ready_session_def by (intro session_ok_phase sample_session_ok) simp

lemma ready_facts: "phase ready_session = PHASE_READY" "block_data ready_session = None"
  "tx_log ready_session = []" "idle (get_rx k ready_session)" "cmd_data_offset ready_session = 0"
  by (simp_all add: ready_session_def sample_session_def zero_session_def get_rx_def idle_def zero_rx_def
      split: sock.split)

definition ready_write :: "rc \<times> nvmetcp_session" where
  "ready_write = nvmetcp_block_rw sample_env 1 8 1 (zeros 512) NVME_OPCODE_WRITE ready_session"

lemma ready_write_ok: "fst ready_write = OK"
  using ready_facts
  by (simp add: ready_write_def block_rw_eq rw_send_def nvmetcp_tx_command_def nvmetcp_tx_pdu_def
      sample_env_def Let_def)

theorem block_rw_behaviour_witness:
  "\<exists>c. tx_log (snd ready_write) = [(IO, c)] \<and>
     rw_capsule NVME_OPCODE_WRITE (nsid ready_session) 8 1 (cid ready_session + 1) (zeros 512) 0 c"
  using block_rw_behaviour [of sample_env 1 8 1 "zeros 512" NVME_OPCODE_WRITE ready_session
      "fst ready_write" "snd ready_write"] ready_write_ok ready_facts
  by (auto simp: ready_write_def)

section \<open>Write data on request\<close>

text \<open>Ready-to-transfer. When the requested range lies inside the write buffer, a successful
  answer to an R2T sends one H2CData PDU with the tag, command identifier, offset and length of the
  request followed by exactly the requested bytes of the buffer. A request that reaches past the
  buffer without wrapping at 32 bits is refused and nothing is sent.\<close>

lemma h2cdata_exact:
  assumes "session_ok s" "nvmetcp_tx_h2cdata E q s = (r, s')"
    "unat (r2_offset q) + unat (r2_length q) < 2 ^ 32"
  shows "if unat (r2_offset q) + unat (r2_length q) > length (block_buffer s) then r = Err EPROTO \<and> s' = s
    else r = OK \<longrightarrow> (\<exists>h. tx_log s' = tx_log s @ [(IO, h @ get_at (unat (r2_offset q)) (unat (r2_length q)) (block_buffer s))] \<and>
      length h = 24 \<and> ph_type (dp_hdr (dec_data_pdu h)) = NVMETCP_PDU_H2CDATA \<and>
      dp_command_id (dec_data_pdu h) = r2_command_id q \<and> dp_ttag (dec_data_pdu h) = r2_ttag q \<and>
      dp_data_offset (dec_data_pdu h) = r2_offset q \<and> dp_data_length (dec_data_pdu h) = r2_length q)"
proof -
  have sum: "unat (r2_offset q + r2_length q) = unat (r2_offset q) + unat (r2_length q)"
    using assms(3) by (simp add: unat_word_ariths)
  have bl: "block_len s = length (block_buffer s)" using assms(1) by (simp add: session_ok_def)
  show ?thesis
  proof (cases "unat (r2_offset q) + unat (r2_length q) > length (block_buffer s)")
    case True
    with assms(2) sum bl show ?thesis by (simp add: nvmetcp_tx_h2cdata_def Let_def)
  next
    case False
    let ?h = "enc_data_pdu \<lparr>dp_hdr = \<lparr>ph_type = NVMETCP_PDU_H2CDATA, ph_flags = 0, ph_hlen = 24,
        ph_pdo = 24, ph_plen = 24 + r2_length q\<rparr>, dp_command_id = r2_command_id q, dp_ttag = r2_ttag q,
        dp_data_offset = r2_offset q, dp_data_length = r2_length q\<rparr>"
    have "tx_log s' = tx_log s @ [(IO, ?h @ get_at (unat (r2_offset q)) (unat (r2_length q)) (block_buffer s))]"
      if "r = OK"
      using assms(2) that False sum bl
      by (auto simp: nvmetcp_tx_h2cdata_def nvmetcp_tx_pdu_def xfer_send_def Let_def
          split: if_splits prod.splits rc.splits)
    with False show ?thesis
      by (auto intro!: exI [of _ ?h] simp: datapdu.width_enc datapdu.dec_enc)
  qed
qed

definition sample_r2t :: "u32 \<Rightarrow> u32 \<Rightarrow> nvmetcp_r2t_pdu" where
  "sample_r2t off len = \<lparr>r2_hdr = \<lparr>ph_type = NVMETCP_PDU_R2T, ph_flags = 0, ph_hlen = 24, ph_pdo = 0,
     ph_plen = 24\<rparr>, r2_command_id = 1, r2_ttag = 5, r2_offset = off, r2_length = len\<rparr>"

definition writing_session :: nvmetcp_session where
  "writing_session = ready_session\<lparr>block_data := Some 1, block_buffer := replicate 512 9,
     block_len := 512, block_writing := True\<rparr>"

lemma writing_session_ok: "session_ok writing_session"
  using ready_session_ok by (simp add: writing_session_def session_ok_def)

section \<open>Namespace data\<close>

text \<open>Identify Namespace. With \<open>lbads\<close> the block size exponent of the format the data selects, the
  parser fails (leaving the capacity as it was) unless \<open>lbads\<close> is between 1 and 31; then it reports the
  namespace size, blocks of \<open>2 ^ lbads\<close> bytes, and a largest transfer that fits the 4096-byte command
  buffer, which is zero blocks for formats above 4096 bytes.\<close>

lemma identify_ns_spec:
  fixes data :: bytes
  defines "lbads \<equiv> unat (data ! (128 + unat (data ! 26 AND 0x0f) * 4 + 2))"
  shows "if 1 \<le> lbads \<and> lbads \<le> 31
    then \<exists>c. nvmetcp_identify_ns data c0 = (OK, c) \<and> cap_blocks c = le64_to_cpu (get_at 0 8 data) \<and>
      cap_blksize c = 2 ^ lbads \<and> cap_max_count c * cap_blksize c \<le> NVMETCP_MAX_CMD_DATA \<and>
      (cap_max_count c = 0 \<longleftrightarrow> 12 < lbads)
    else nvmetcp_identify_ns data c0 = (Err EPROTO, c0)"
proof -
  define w where "w = data ! (128 + unat (data ! 26 AND 0x0f) * 4 + 2)"
  have wd: "data ! (130 + unat (data ! 26 AND 15) * 4) = w" by (simp add: w_def)
  have lw: "lbads = unat w" by (simp add: lbads_def w_def)
  have "data ! 26 AND 0x0f \<le> 0x0f" by (rule word_and_le1)
  then have fmt: "\<not> unat (data ! 26 AND 0x0f) \<ge> 16" by (simp add: word_le_nat_alt)
  have z: "w = 0 \<longleftrightarrow> \<not> 1 \<le> unat w" by (simp add: unat_eq_0 not_less_eq_eq)
  have b: "w > 31 \<longleftrightarrow> \<not> unat w \<le> 31" by (simp add: word_less_nat_alt not_le)
  show ?thesis
  proof (cases "1 \<le> lbads \<and> lbads \<le> 31")
    case True
    have "(2::nat) ^ unat w < 2 ^ 32" using True lw by (intro power_strict_increasing) auto
    then have "unat (of_nat (2 ^ unat w) :: u32) = 2 ^ unat w"
      by (simp add: unat_of_nat del: of_nat_power)
    then have sz: "unat (push_bit (unat w) 1 :: u32) = 2 ^ unat w"
      by (simp add: push_bit_eq_mult)
    have "(4096::nat) div 2 ^ unat w = 0 \<longleftrightarrow> (4096::nat) < 2 ^ unat w"
      by (auto simp: div_eq_0_iff)
    also have "\<dots> \<longleftrightarrow> (2::nat) ^ 12 < 2 ^ unat w" by simp
    also have "\<dots> \<longleftrightarrow> 12 < unat w" by (rule power_strict_increasing_iff) simp
    finally show ?thesis
      using True fmt z b sz lw by (simp add: nvmetcp_identify_ns_def Let_def wd)
  next
    case False
    with fmt z b lw show ?thesis
      by (auto simp: nvmetcp_identify_ns_def Let_def wd)
  qed
qed

section \<open>Departures\<close>

text \<open>A read is completed by its first data PDU. Whatever the length of the buffer the consumer
  asked for, the first data PDU of an ongoing read ends the command with success: the buffer gets the
  bytes of that PDU followed by what the command buffer held before, and the command is no longer in
  progress.\<close>

lemma read_completes_on_first_pdu:
  assumes ok: "session_ok s" and idle: "idle (get_rx IO s)" and ph: "phase s = PHASE_READY"
    and rd: "block_data s = Some x" "\<not> block_writing s"
    and d: "0 < length d" "length d \<le> 4096" and off: "cmd_data_offset s = 0"
  shows "\<exists>s'. nvmetcp_socket_deliver E IO (c2h_hdr i 0 (length d) @ d) s = (OK, s') \<and>
     block_data s' = None \<and> events s' = events s @ [Restart OK] \<and>
     block_buffer s' = take (block_len s) (d @ drop (length d) (cmd_buf s))"
proof -
  let ?s = "after_c2h IO i 0 d s"
  have b: "block_len s = length (block_buffer s)" "block_len s \<le> 4096" "length (cmd_buf s) = 4096"
    using ok by (simp_all add: session_ok_def)
  have f: "phase ?s = PHASE_READY" "block_data ?s = Some x" "\<not> block_writing ?s"
    "block_len ?s = block_len s" "block_buffer ?s = block_buffer s" "events ?s = events s"
    "cmd_buf ?s = d @ drop (length d) (cmd_buf s)"
    using ph rd by (simp_all add: after_c2h_def set_rx_def)
  have "nvmetcp_rx_data E ?s = (OK, ?s\<lparr>tx_in_flight := False,
      block_buffer := take (block_len s) (d @ drop (length d) (cmd_buf s)), block_data := None,
      events := events s @ [Restart OK]\<rparr>)"
    using f b d by (simp add: nvmetcp_rx_data_def Let_def)
  then show ?thesis
    using deliver_c2h [OF ok idle d, of 0 E i "[]"] off by (simp add: finish_def set_rx_def)
qed

text \<open>A command PDU can overrun the header array. A target that sends a command PDU header with a
  header length above 128 makes the receive path copy the following bytes past the end of the 128-byte
  array: from any idle state, the header and enough bytes after it lead to an access outside it.\<close>

lemma command_header_overrun:
  assumes ok: "session_ok s" and idle: "idle (get_rx k s)"
    and "128 < n" "n < 256" "120 < length rest"
  shows "fst (nvmetcp_socket_deliver E k (enc_pdu_header \<lparr>ph_type = NVMETCP_PDU_COMMAND, ph_flags = 0,
     ph_hlen = of_nat n, ph_pdo = 0, ph_plen = p\<rparr> @ rest) s) = Fault"
proof -
  let ?h = "enc_pdu_header \<lparr>ph_type = NVMETCP_PDU_COMMAND, ph_flags = 0, ph_hlen = of_nat n, ph_pdo = 0,
     ph_plen = p\<rparr>"
  let ?rx = "get_rx k s"
  let ?rx1 = "?rx\<lparr>rx_hdr := ?h @ drop 8 (rx_hdr ?rx), rx_hdr_len := 8, rx_hdr_expect := n\<rparr>"
  have un: "unat (of_nat n :: byte) = n" using assms(4) by (simp add: unat_of_nat)
  have "fill ?h ?rx = ?rx\<lparr>rx_hdr := ?h @ drop 8 (rx_hdr ?rx), rx_hdr_len := 8\<rparr>"
    using idle by (simp add: fill_def idle_def)
  then have "header_step ?h ?rx = (OK, ?rx1)"
    by (simp add: header_step_def nvmetcp_rx_header_def Let_def un)
  then have i1: "deliver_iter E k (?h @ rest) s = (OK, rest, set_rx k ?rx1 s)"
    using idle assms(3) by (simp add: deliver_iter_def deliver_header_def idle_def Let_def)
  have "length (rx_hdr ?rx1) = 128" using idle by (simp add: idle_def)
  moreover have "8 + min (n - 8) (length rest) > 128" using assms(3,5) by arith
  ultimately have "fst (deliver_iter E k rest (set_rx k ?rx1 s)) = Fault"
    using assms(3) by (simp add: deliver_iter_def deliver_header_def Let_def)
  moreover have "?h @ rest \<noteq> []" "rest \<noteq> []" using assms(5) by auto
  ultimately show ?thesis
    by (auto simp: deliver_unfold [of "?h @ rest"] deliver_unfold [of rest] i1 split: prod.split)
qed

text \<open>A wrapping R2T reads outside the write buffer. An R2T whose offset and length add up, modulo
  32 bits, to at most the buffer length but in truth exceed it is accepted, and the copy into the
  transmit buffer reads past the end of the block buffer.\<close>

lemma r2t_wrap_overread:
  assumes ok: "session_ok s" and "2 ^ 32 \<le> unat (r2_offset q) + unat (r2_length q)"
    "unat (r2_offset q + r2_length q) \<le> length (block_buffer s)"
    "e_window E (clk s) IO \<noteq> 0" "e_alloc E (Suc (clk s)) (24 + unat (r2_length q))"
  shows "nvmetcp_tx_h2cdata E q s = (Fault, s)"
proof -
  have bl: "block_len s = length (block_buffer s)" "length (block_buffer s) \<le> 4096"
    using ok by (simp_all add: session_ok_def)
  let ?o = "unat (r2_offset q)" and ?l = "unat (r2_length q)"
  have "length (get_at ?o ?l (block_buffer s) @ zeros (?l - length (get_at ?o ?l (block_buffer s)))) = ?l"
    by simp
  with assms bl show ?thesis
    by (auto simp: nvmetcp_tx_h2cdata_def nvmetcp_tx_pdu_def datapdu.width_enc Let_def)
qed

section \<open>Closing\<close>

text \<open>Closing. Closing a session stops its process, answers a deferred capacity request, and shuts
  the interfaces down with the given error, a graceful close counting as a connection reset: the
  consumer is never told success. Nothing is sent.\<close>

lemma close_reports_error:
  "let s' = nvmetcp_close s r; e = (if r = OK then Err ECONNRESET else r) in
   \<not> process s' \<and> capacity_data s' = None \<and> tx_log s' = tx_log s \<and> closed s' \<and> e \<noteq> OK \<and>
   events s' = events s @ (if capacity_data s = None then [] else [Restart e]) @ [Shutdown e]"
  by (auto simp: nvmetcp_close_def closed_def Let_def)

end
