(* ===== verification/Nvme_Query.thy ===== *)
theory Nvme_Query
  imports Nvme_Uri
begin

text \<open>
  The query parameter parser of \<^verbatim>\<open>net/tcp/nvmetcp.c\<close> against a reference definition that splits the
  query string at the ampersands.
\<close>

section \<open>Query parameters\<close>

text \<open>\<open>good e name m\<close>: the name stands at offset \<open>m\<close>, at the start of a parameter.\<close>

definition good :: "string \<Rightarrow> string \<Rightarrow> nat \<Rightarrow> bool" where
  "good e name m \<longleftrightarrow> m + length name \<le> length e \<and> take (length name) (drop m e) = name \<and>
     (m = 0 \<or> e ! (m - 1) = CHR ''&'')"

lemma strstr_Some:
  "strstr t n = Some i \<Longrightarrow> take (length n) (drop i t) = n \<and>
     (\<forall>j < i. take (length n) (drop j t) \<noteq> n)"
proof (induction t arbitrary: i)
  case (Cons c cs)
  show ?case
  proof (cases "take (length n) (c # cs) = n")
    case False
    with Cons.prems obtain i' where i: "i = Suc i'" "strstr cs n = Some i'" by auto
    with Cons.IH False show ?thesis by (auto simp: less_Suc_eq_0_disj)
  qed (use Cons.prems in auto)
qed (auto split: if_splits)

lemma strstr_None: "strstr t n = None \<Longrightarrow> take (length n) (drop j t) = n \<Longrightarrow> False"
proof (induction t arbitrary: j)
  case (Cons c cs)
  then show ?case by (cases j) (auto split: if_splits)
qed (auto split: if_splits)

lemma good_inside:
  assumes "good e name m'" "take (length name) (drop m e) = name" "m + length name \<le> length e"
    "m < m'" "m' < m + length name"
  shows "CHR ''&'' \<in> set name"
proof -
  from assms(1,4) have "e ! (m' - 1) = CHR ''&''" by (simp add: good_def)
  moreover have "e ! (m' - 1) = name ! (m' - 1 - m)"
  proof -
    have "name ! (m' - 1 - m) = take (length name) (drop m e) ! (m' - 1 - m)" using assms(2) by simp
    then show ?thesis using assms(3-5) by simp
  qed
  moreover have "m' - 1 - m < length name" using assms(4,5) by simp
  ultimately show ?thesis by (metis nth_mem)
qed

text \<open>The search finds the first good offset.\<close>

lemma find_param_spec:
  assumes "name \<noteq> []" "CHR ''&'' \<notin> set name" "\<forall>j < q. \<not> good e name j"
  shows "(case find_param e name q of
      None \<Rightarrow> \<forall>j. \<not> good e name j
    | Some m \<Rightarrow> good e name m \<and> (\<forall>j < m. \<not> good e name j))"
  using assms
proof (induction e name q rule: find_param.induct)
  case (1 e name q)
  note prem = "1.prems"
  have none: "\<not> good e name j" if "strstr (drop q e) name = None \<or> length e < q" for j
  proof
    assume g: "good e name j"
    with prem(3) have "q \<le> j" by (metis not_le)
    moreover from prem(1) have "0 < length name" by simp
    with g have "j < length e" unfolding good_def by linarith
    ultimately have "strstr (drop q e) name = None" using that by auto
    from strstr_None [OF this, of "j - q"] g \<open>q \<le> j\<close> show False by (simp add: good_def)
  qed
  show ?case
  proof (cases "q > length e \<or> strstr (drop q e) name = None")
    case True
    with none show ?thesis by (subst find_param.simps) auto
  next
    case False
    then obtain i where i: "strstr (drop q e) name = Some i" and q: "\<not> q > length e" by auto
    from strstr_Some [OF i] have at: "take (length name) (drop (q + i) e) = name"
      and before: "\<And>j. j < i \<Longrightarrow> take (length name) (drop (q + j) e) \<noteq> name"
      by (simp_all add: add.commute)
    from strstr_bound [OF i] q have bound: "q + i + length name \<le> length e" by simp
    have lower: "\<not> good e name j" if "j < q + i" for j
      using that prem(3) before [of "j - q"] by (cases "j < q") (auto simp: good_def)
    show ?thesis
    proof (cases "q + i = 0 \<or> e ! (q + i - 1) = CHR ''&''")
      case True
      with i q at bound lower show ?thesis
        by (subst find_param.simps) (auto simp: good_def Let_def)
    next
      case bad: False
      have "\<not> good e name j" if "j < q + i + length name" for j
        using that lower [of j] bad good_inside [OF _ at bound, of j] prem(2)
        by (cases "j < q + i"; cases "j = q + i") (auto simp: good_def)
      then have "case find_param e name (q + i + length name) of
          None \<Rightarrow> \<forall>j. \<not> good e name j
        | Some m \<Rightarrow> good e name m \<and> (\<forall>j < m. \<not> good e name j)"
        using 1(1) [OF q i refl bad] prem(1,2) by blast
      moreover have "find_param e name q = find_param e name (q + i + length name)"
        using i q bad prem(1) by (subst find_param.simps) (auto simp: Let_def)
      ultimately show ?thesis by simp
    qed
  qed
qed

text \<open>The reference: split the query string at \<open>&\<close> and take the first component with the prefix.\<close>

function split_amp :: "string \<Rightarrow> string list" where
  "split_amp e = takeWhile (\<lambda>c. c \<noteq> CHR ''&'') e #
     (case dropWhile (\<lambda>c. c \<noteq> CHR ''&'') e of [] \<Rightarrow> [] | c # r \<Rightarrow> split_amp r)"
  by pat_completeness auto
termination
proof (relation "measure length")
  fix e c r assume "dropWhile (\<lambda>c. c \<noteq> CHR ''&'') e = c # r"
  then have "length (c # r) \<le> length e" by (metis length_dropWhile_le)
  then show "(r, e) \<in> measure length" by simp
qed simp

declare split_amp.simps [simp del]

definition query_value :: "string \<Rightarrow> string \<Rightarrow> string option" where
  "query_value e name =
     (case find (\<lambda>c. take (length name) c = name) (split_amp e) of
        None \<Rightarrow> None
      | Some c \<Rightarrow> if drop (length name) c = [] then None else Some (drop (length name) c))"

lemma take_amp:
  assumes "CHR ''&'' \<notin> set name" "CHR ''&'' \<notin> set c"
  shows "take (length name) (c @ CHR ''&'' # r) = name \<longleftrightarrow> take (length name) c = name"
proof (cases "length name \<le> length c")
  case False
  then have "CHR ''&'' \<in> set (take (length name) (c @ CHR ''&'' # r))"
    by (cases "length name - length c") auto
  moreover have "length (take (length name) c) < length name" using False by simp
  ultimately show ?thesis using assms(1) by (metis nat_neq_iff)
qed simp

lemma no_amp_nth: "CHR ''&'' \<notin> set c \<Longrightarrow> i < length c \<Longrightarrow> c ! i \<noteq> CHR ''&''"
  by (metis nth_mem)

lemma good_split:
  assumes "name \<noteq> []" "CHR ''&'' \<notin> set name" "CHR ''&'' \<notin> set c"
  shows "good (c @ CHR ''&'' # r) name m \<longleftrightarrow>
    (m = 0 \<and> take (length name) c = name) \<or> (length c < m \<and> good r name (m - length c - 1))"
proof -
  consider "m = 0" | "0 < m" "m \<le> length c" | "length c < m" by linarith
  then show ?thesis
  proof cases
    case 1
    have "take (length name) c = name \<Longrightarrow> length name \<le> length c"
      by (metis length_take min.bounded_iff order_refl)
    with 1 show ?thesis using take_amp [OF assms(2,3), of r] by (auto simp: good_def)
  next
    case 2
    then have "(c @ CHR ''&'' # r) ! (m - 1) \<noteq> CHR ''&''"
      using no_amp_nth [OF assms(3), of "m - 1"] by (simp add: nth_append)
    with 2 show ?thesis by (simp add: good_def)
  next
    case 3
    then obtain d where m: "m = Suc (length c + d)" by (auto simp: less_iff_Suc_add)
    have pre: "(c @ CHR ''&'' # r) ! (m - 1) = (if d = 0 then CHR ''&'' else r ! (d - 1))"
      by (simp add: m nth_append nth_Cons')
    have "drop m (c @ CHR ''&'' # r) = drop d r" "m - length c - 1 = d" by (simp_all add: m)
    with pre 3 show ?thesis unfolding good_def by (simp add: m)
  qed
qed

lemma good_no_amp:
  "name \<noteq> [] \<Longrightarrow> CHR ''&'' \<notin> set e \<Longrightarrow> good e name m \<longleftrightarrow> m = 0 \<and> take (length name) e = name"
proof -
  assume n: "name \<noteq> []" and e: "CHR ''&'' \<notin> set e"
  have "take (length name) e = name \<Longrightarrow> length name \<le> length e"
    by (metis length_take min.bounded_iff order_refl)
  moreover have "e ! (m - 1) \<noteq> CHR ''&''" if "m + length name \<le> length e" "m \<noteq> 0"
    using that n by (intro no_amp_nth [OF e]) (cases m; simp)
  ultimately show ?thesis by (cases "m = 0") (auto simp: good_def)
qed

lemma split_amp_cases:
  obtains (one) "CHR ''&'' \<notin> set e" "split_amp e = [e]"
  | (more) c r where "e = c @ CHR ''&'' # r" "CHR ''&'' \<notin> set c" "split_amp e = c # split_amp r"
proof (cases "dropWhile (\<lambda>c. c \<noteq> CHR ''&'') e")
  case Nil
  then have "CHR ''&'' \<notin> set e" "takeWhile (\<lambda>c. c \<noteq> CHR ''&'') e = e"
    by (auto simp: dropWhile_eq_Nil_conv takeWhile_eq_all_conv)
  then show ?thesis by (intro one) (simp_all add: split_amp.simps [of e] Nil del: dropWhile_eq_Nil_conv)
next
  case (Cons c r)
  then have "c = CHR ''&''" "e = takeWhile (\<lambda>c. c \<noteq> CHR ''&'') e @ c # r"
    unfolding dropWhile_eq_Cons_conv by blast+
  then show ?thesis
    using Cons by (intro more [of "takeWhile (\<lambda>c. c \<noteq> CHR ''&'') e" r])
      (auto simp: split_amp.simps [of e] dest: set_takeWhileD)
qed

text \<open>The first good offset, seen through the components.\<close>

lemma query_value_first:
  assumes n: "name \<noteq> []" "CHR ''&'' \<notin> set name"
  shows "((\<forall>m. \<not> good e name m) \<longrightarrow> query_value e name = None) \<and>
    (good e name m \<and> (\<forall>j < m. \<not> good e name j) \<longrightarrow>
      query_value e name = (let v = takeWhile (\<lambda>c. c \<noteq> CHR ''&'') (drop (m + length name) e) in
        if v = [] then None else Some v))"
proof (induction e arbitrary: m rule: length_induct)
  case (1 e)
  have IH: "(\<forall>m. \<not> good r name m) \<longrightarrow> query_value r name = None"
    "good r name m \<and> (\<forall>j < m. \<not> good r name j) \<longrightarrow>
      query_value r name = (let v = takeWhile (\<lambda>c. c \<noteq> CHR ''&'') (drop (m + length name) r) in
        if v = [] then None else Some v)" if "length r < length e" for r m
    using 1 that by blast+
  have tw: "takeWhile (\<lambda>c. c \<noteq> CHR ''&'') (drop k c @ rest) = drop k c @ takeWhile (\<lambda>c. c \<noteq> CHR ''&'') rest"
    if "CHR ''&'' \<notin> set c" for k c rest
    using that by (subst takeWhile_append2) (auto dest: in_set_dropD)
  show ?case
  proof (cases e rule: split_amp_cases)
    case one
    have v: "takeWhile (\<lambda>c. c \<noteq> CHR ''&'') (drop (length name) e) = drop (length name) e"
      using tw [OF one(1), of "length name" "[]"] by simp
    show ?thesis
    proof (cases "take (length name) e = name")
      case True
      then have g0: "good e name 0" using good_no_amp [OF n(1) one(1), of 0] by blast
      have qv: "query_value e name =
          (if drop (length name) e = [] then None else Some (drop (length name) e))"
        using True one(2) by (simp add: query_value_def)
      have "m = 0" if "good e name m" using that good_no_amp [OF n(1) one(1), of m] by blast
      then show ?thesis using g0 unfolding qv Let_def by (cases "m = 0") (simp add: v, blast)+
    next
      case False
      then have "query_value e name = None" "\<not> good e name m"
        using one(2) good_no_amp [OF n(1) one(1), of m] by (simp_all add: query_value_def)
      then show ?thesis by simp
    qed
  next
    case (more c r)
    note g = good_split [OF n more(2), of r, folded more(1)]
    show ?thesis
    proof (cases "take (length name) c = name")
      case True
      then have le: "length name \<le> length c" by (metis length_take min.bounded_iff order_refl)
      have "good e name 0" using g True by blast
      then have "(\<exists>m. good e name m) \<and> (good e name m \<and> (\<forall>j < m. \<not> good e name j) \<longrightarrow> m = 0)"
        by (cases m) auto
      moreover have "query_value e name = (if drop (length name) c = [] then None else Some (drop (length name) c))"
        using True more(3) by (simp add: query_value_def)
      moreover have "takeWhile (\<lambda>c. c \<noteq> CHR ''&'') (drop (length name) e) = drop (length name) c"
        using tw [OF more(2), of "length name" "CHR ''&'' # r"] le by (simp add: more(1))
      ultimately show ?thesis by (auto simp: Let_def)
    next
      case False
      have qv: "query_value e name = query_value r name"
        using False more(3) by (simp add: query_value_def)
      have lt: "length r < length e" by (simp add: more(1))
      have ge: "good e name m' \<longleftrightarrow> length c < m' \<and> good r name (m' - length c - 1)" for m'
        using g [of m'] False by blast
      have "good r name (m - length c - 1) \<and> (\<forall>j < m - length c - 1. \<not> good r name j) \<and> length c < m"
        if a: "good e name m" "\<forall>j < m. \<not> good e name j"
      proof (intro conjI allI impI)
        fix j assume "j < m - length c - 1"
        then have "length c + 1 + j < m" by linarith
        with a(2) ge [of "length c + 1 + j"] show "\<not> good r name j" by auto
      qed (use a ge in auto)
      moreover have "drop (m + length name) e = drop (m - length c - 1 + length name) r" if "length c < m"
        using that by (simp add: more(1) drop_Cons')
      moreover have "\<forall>m. \<not> good r name m" if "\<forall>m. \<not> good e name m"
        using that ge by (metis add.commute add_diff_cancel_left' diff_diff_left less_add_Suc1 plus_1_eq_Suc)
      ultimately show ?thesis using IH(1) [OF lt] IH(2) [OF lt, of "m - length c - 1"] qv by auto
    qed
  qed
qed

text \<open>Query parameters. For a parameter name that is not empty and has no ampersand in it, the
  scanning parser returns the value that the reference gives: split the query string at the
  ampersands, take the first component that starts with the name, and return the rest of that
  component, if any.\<close>

lemma qparam_reference:
  assumes "name \<noteq> []" "CHR ''&'' \<notin> set name"
  shows "nvmetcp_parse_qparam True (Some e) name = Inr (query_value e name)"
proof (cases "find_param e name 0")
  case None
  with find_param_spec [OF assms, of 0 e] query_value_first [OF assms, of e] show ?thesis
    by (simp add: nvmetcp_parse_qparam_def)
next
  case (Some m)
  with find_param_spec [OF assms, of 0 e] query_value_first [OF assms, of e m] show ?thesis
    by (simp add: nvmetcp_parse_qparam_def Let_def)
qed

end
