(* ===== verification/Nvme_Uri_Props.thy ===== *)
theory Nvme_Uri_Props
  imports Nvme_Query Nvme_Props
begin

text \<open>
  The theorems about opening a session from a URI: the TLS decision, the pre-shared key and its
  identity, and the default host name.
\<close>

section \<open>The TLS decision\<close>

text \<open>The port that fits in 16 bits is the decimal number; the loop gives up as soon as it does not.\<close>

lemma parse_port_dec:
  assumes "a \<le> 65535"
  shows "parse_port (of_nat a) cs =
    (if list_all is_digit cs \<and> dec_val a cs \<le> 65535 then Some (of_nat (dec_val a cs)) else None)"
  using assms
proof (induction cs arbitrary: a)
  case (Cons c cs)
  show ?case
  proof (cases "is_digit c")
    case True
    then have d: "digit_val c < 10" by (rule digit_val_less)
    let ?b = "a * 10 + digit_val c"
    have w: "of_nat a * 10 + of_nat (digit_val c) = (of_nat ?b :: u32)" by simp
    have "unat (of_nat ?b :: u32) = ?b"
      using d Cons.prems by (simp add: unat_of_nat del: of_nat_add of_nat_mult)
    then have gt: "(of_nat ?b :: u32) > 0xffff \<longleftrightarrow> ?b > 65535"
      by (simp add: word_less_nat_alt del: of_nat_add of_nat_mult)
    show ?thesis
    proof (cases "?b > 65535")
      case True
      with dec_val_ge [of ?b cs] have "\<not> dec_val ?b cs \<le> 65535" by linarith
      with True gt show ?thesis
        by (simp add: \<open>is_digit c\<close> w Let_def del: of_nat_add of_nat_mult)
    next
      case False
      with Cons.IH [of ?b] gt show ?thesis
        by (simp add: \<open>is_digit c\<close> w Let_def del: of_nat_add of_nat_mult)
    qed
  qed simp
qed simp

text \<open>When the firmware encrypts. The connection uses TLS exactly when a pre-shared key and a TLS
  port are configured and the port text is a non-empty string of decimal digits whose value is the
  port the session connects to (in particular below 65536).\<close>

lemma use_tls_iff:
  "nvmetcp_use_tls s \<longleftrightarrow>
   (\<exists>psk t. tls_psk s = Some psk \<and> tls_trsvcid s = Some t \<and> t \<noteq> [] \<and> list_all is_digit t \<and>
      dec_val 0 t = unat (target_port s))"
proof -
  have "unat (target_port s) < 2 ^ LENGTH(16)" by (rule unsigned_less)
  then have lt: "unat (target_port s) \<le> 65535" by simp
  have eq: "of_nat v = (ucast (target_port s) :: u32) \<longleftrightarrow> v = unat (target_port s)" if "v \<le> 65535" for v
  proof -
    have "unat (of_nat v :: u32) = v" using that by (simp add: unat_of_nat)
    moreover have "unat (ucast (target_port s) :: u32) = unat (target_port s)"
      using lt by (simp add: unsigned_ucast_eq take_bit_nat_eq_self)
    ultimately show ?thesis by (metis word_unat_eq_iff)
  qed
  show ?thesis
    using parse_port_dec [of 0] lt eq
    by (auto simp: nvmetcp_use_tls_def split: option.splits)
qed

section \<open>The pre-shared key\<close>

text \<open>The lower-case hexadecimal text of a byte string.\<close>

definition hex_digit :: "nat \<Rightarrow> char" where
  "hex_digit n = char_of (if n < 10 then 48 + n else 87 + n)"

definition hex_text :: "bytes \<Rightarrow> string" where
  "hex_text bs = concat (map (\<lambda>b. [hex_digit (unat b div 16), hex_digit (unat b mod 16)]) bs)"

lemma hex_nibble_digit: "n < 16 \<Longrightarrow> nvmetcp_hex_nibble (hex_digit n) = Some n"
  by (auto simp: nvmetcp_hex_nibble_def hex_digit_def char_code_def Let_def)

lemma nibbles: "push_bit 4 (of_nat (unat b div 16)) OR of_nat (unat b mod 16) = (b :: byte)"
proof -
  have "(of_nat (unat b mod 16) :: byte) = take_bit 4 b"
    by (simp add: take_bit_eq_mod word_unat_eq_iff unat_of_nat unat_mod)
  moreover have "unat b div 16 < 256" using unat_byte [of b] by simp
  then have "(of_nat (unat b div 16) :: byte) = drop_bit 4 b"
    by (simp add: drop_bit_eq_div word_unat_eq_iff unat_of_nat unat_div)
  moreover have "push_bit 4 (drop_bit 4 b) OR take_bit 4 b = b"
    by (rule bit_word_eqI) (auto simp: bit_simps)
  ultimately show ?thesis by simp
qed

lemma hex_decode_text: "hex_decode (hex_text bs) = Some bs"
proof (induction bs)
  case (Cons b bs)
  have "unat b div 16 < 16" using unat_byte [of b] by simp
  with Cons show ?case by (simp add: hex_text_def hex_nibble_digit nibbles)
qed (simp add: hex_text_def)

lemma length_hex_text [simp]: "length (hex_text bs) = 2 * length bs"
  by (induction bs) (simp_all add: hex_text_def)

text \<open>The TLS parameters round-trip. A key of 1 to 64 bytes given as hexadecimal text is handed to
  TLS as that key, together with the identity made of the fixed tag and the two names, as long as the
  identity is shorter than 512 characters.\<close>

lemma tls_params_roundtrip:
  assumes "0 < length psk" "length psk \<le> 64" "tls_psk s = Some (hex_text psk)"
    "length (psk_identity s) < 512"
  shows "nvmetcp_tls_params s = Inr (psk, ''NVMe0R01 '' @ cstr (host_nqn s) @ '' '' @ cstr (subsystem_nqn s))"
  using assms by (simp add: nvmetcp_tls_params_def Let_def hex_decode_text psk_identity_def)

section \<open>The default host name\<close>

text \<open>Default host names collide. Without a configured host name, two machines whose UUID texts
  agree in their first 31 characters (of 36) get the same host NQN: the buffer is sized for 32
  characters after the prefix, terminator included.\<close>

lemma host_nqn_truncated:
  assumes "e_hostnqn E = None" "e_alloc E (clk s) 53" "e_uuid E = Some u"
  shows "host_nqn (snd (nvmetcp_set_host_nqn E s)) =
     Some (NVMETCP_DEFAULT_HOST_NQN @ take 31 (e_uuid_ntoa E u))"
  using assms by (simp add: nvmetcp_set_host_nqn_def alloc_def)

definition uuid_env :: "bytes \<Rightarrow> nv_env" where
  "uuid_env u = sample_env\<lparr>e_hostnqn := None, e_uuid := Some u,
     e_uuid_ntoa := (\<lambda>u. if hd u = 0 then ''00112233-4455-6677-8899-aabbccddeeff''
                        else ''00112233-4455-6677-8899-aabbccd12345'')\<rparr>"

end
