(* ===== verification/Tls13_Crypto.thy ===== *)
theory Tls13_Crypto
  imports Fw_Prelude
begin

text \<open>
  The TLS 1.3 primitives of \<^verbatim>\<open>net/tls.c\<close>: the key schedule, the ClientHello with its pre-shared key
  binder, the ServerHello parser, record protection, and the handshake context
  (\<^verbatim>\<open>struct tls13_handshake\<close> of \<^verbatim>\<open>include/ipxe/tls.h\<close>). The digest (with HMAC and HKDF), the AEAD
  cipher and X25519 are parameters; what is modelled is which bytes they are applied to.
\<close>

section \<open>Algorithms\<close>

text \<open>A digest algorithm with the HMAC and HKDF built on it: \<open>td_extract salt ikm\<close> is \<^verbatim>\<open>hkdf_extract\<close>,
  \<open>td_expand prk info n\<close> is \<^verbatim>\<open>hkdf_expand\<close>.\<close>

record tls_digest =
  td_size :: nat
  td_hash :: "bytes \<Rightarrow> bytes"
  td_hmac :: "bytes \<Rightarrow> bytes \<Rightarrow> bytes"
  td_extract :: "bytes \<Rightarrow> bytes \<Rightarrow> bytes"
  td_expand :: "bytes \<Rightarrow> bytes \<Rightarrow> nat \<Rightarrow> bytes"

text \<open>An AEAD cipher: whether \<^verbatim>\<open>cipher_setkey\<close> and \<^verbatim>\<open>cipher_setiv\<close> accept, encryption and decryption
  under key and nonce, and the tag over additional data and ciphertext that \<^verbatim>\<open>cipher_auth\<close> returns
  after either.\<close>

record tls_cipher =
  tc_authsize :: nat
  tc_setkey :: "bytes \<Rightarrow> bool"
  tc_setiv :: "bytes \<Rightarrow> bool"
  tc_encrypt :: "bytes \<Rightarrow> bytes \<Rightarrow> bytes \<Rightarrow> bytes"
  tc_decrypt :: "bytes \<Rightarrow> bytes \<Rightarrow> bytes \<Rightarrow> bytes"
  tc_auth :: "bytes \<Rightarrow> bytes \<Rightarrow> bytes \<Rightarrow> bytes \<Rightarrow> bytes"

abbreviation "TLS13_LABEL_PREFIX \<equiv> ''tls13 ''"
abbreviation "TLS_CLIENT_HELLO \<equiv> (1 :: byte)"
abbreviation "TLS_SERVER_HELLO \<equiv> (2 :: byte)"
abbreviation "TLS_NEW_SESSION_TICKET \<equiv> (4 :: byte)"
abbreviation "TLS_ENCRYPTED_EXTENSIONS \<equiv> (8 :: byte)"
abbreviation "TLS_FINISHED \<equiv> (20 :: byte)"
abbreviation "TLS_VERSION_TLS_1_2 \<equiv> (0x0303 :: nat)"
abbreviation "TLS_VERSION_TLS_1_3 \<equiv> (0x0304 :: nat)"
abbreviation "TLS_AES_128_GCM_SHA256 \<equiv> (0x1301 :: nat)"
abbreviation "TLS_NAMED_GROUP \<equiv> (10 :: nat)"
abbreviation "TLS_NAMED_GROUP_X25519 \<equiv> (29 :: nat)"
abbreviation "TLS_PRE_SHARED_KEY \<equiv> (41 :: nat)"
abbreviation "TLS_SUPPORTED_VERSIONS \<equiv> (43 :: nat)"
abbreviation "TLS_PSK_KEY_EXCHANGE_MODES \<equiv> (45 :: nat)"
abbreviation "TLS_KEY_SHARE \<equiv> (51 :: nat)"
abbreviation "TLS_PSK_KEY_EXCHANGE_MODE_PSK_DHE \<equiv> (1 :: byte)"
abbreviation "TLS13_NONCE_LEN \<equiv> (12 :: nat)"
abbreviation "TLS13_TRANSCRIPT_SIZE \<equiv> (1024 :: nat)"

section \<open>Key schedule\<close>

text \<open>Each length is cut to the bytes that hold it.\<close>

definition tls13_hkdf_label :: "nat \<Rightarrow> string \<Rightarrow> bytes \<Rightarrow> bytes" where
  "tls13_hkdf_label len label context =
     to_be 2 len @ [of_nat (length TLS13_LABEL_PREFIX + length label)]
     @ str_bytes TLS13_LABEL_PREFIX @ str_bytes label @ [of_nat (length context)] @ context"

definition tls13_expand_label :: "tls_digest \<Rightarrow> bytes \<Rightarrow> string \<Rightarrow> bytes \<Rightarrow> nat \<Rightarrow> bytes" where
  "tls13_expand_label d secret label context len =
     td_expand d secret (tls13_hkdf_label len label context) len"

definition tls13_derive_secret :: "tls_digest \<Rightarrow> bytes \<Rightarrow> string \<Rightarrow> bytes \<Rightarrow> bytes" where
  "tls13_derive_secret d secret label transcript =
     tls13_expand_label d secret label (td_hash d transcript) (td_size d)"

definition tls13_early_secret :: "tls_digest \<Rightarrow> bytes option \<Rightarrow> bytes" where
  "tls13_early_secret d psk =
     td_extract d [] (case psk of None \<Rightarrow> replicate (td_size d) 0 | Some k \<Rightarrow> k)"

definition tls13_handshake_secret :: "tls_digest \<Rightarrow> bytes \<Rightarrow> bytes \<Rightarrow> bytes" where
  "tls13_handshake_secret d early ecdhe =
     td_extract d (tls13_derive_secret d early ''derived'' []) ecdhe"

definition tls13_master_secret :: "tls_digest \<Rightarrow> bytes \<Rightarrow> bytes" where
  "tls13_master_secret d handshake =
     td_extract d (tls13_derive_secret d handshake ''derived'' []) (replicate (td_size d) 0)"

definition tls13_traffic_key :: "tls_digest \<Rightarrow> bytes \<Rightarrow> nat \<Rightarrow> nat \<Rightarrow> bytes \<times> bytes" where
  "tls13_traffic_key d secret key_len iv_len =
     (tls13_expand_label d secret ''key'' [] key_len, tls13_expand_label d secret ''iv'' [] iv_len)"

definition tls13_finished :: "tls_digest \<Rightarrow> bytes \<Rightarrow> bytes \<Rightarrow> bytes" where
  "tls13_finished d secret transcript =
     td_hmac d (tls13_expand_label d secret ''finished'' [] (td_size d)) (td_hash d transcript)"

definition tls13_binder :: "tls_digest \<Rightarrow> bytes \<Rightarrow> string \<Rightarrow> bytes \<Rightarrow> bytes" where
  "tls13_binder d early_secret label transcript =
     tls13_finished d (tls13_derive_secret d early_secret label []) transcript"

section \<open>ClientHello\<close>

text \<open>
  The fields in the order the code writes them. \<open>needed\<close> is the amount of space the code asks for.
  The truncated message (everything up to the binders) already carries the lengths that include the
  binders; the binder is calculated over it.
\<close>

definition client_hello_needed :: "nat \<Rightarrow> nat \<Rightarrow> nat" where
  "client_hello_needed digestsize identity_len =
     4 + 2 + 32 + 1 + (2 + 2) + (1 + 1) + 2 + 7 + 8 + 38 + 6 + 4 + 2
     + (2 + identity_len + 4) + (2 + 1 + digestsize)"

definition ch_prefix :: "bytes \<Rightarrow> bytes" where
  "ch_prefix random =
     to_be 2 TLS_VERSION_TLS_1_2 @ random @ [0]
     @ [0x00, 0x02] @ to_be 2 TLS_AES_128_GCM_SHA256 @ [0x01, 0x00]"

definition ch_extensions :: "bytes \<Rightarrow> bytes" where
  "ch_extensions public_key =
     to_be 2 TLS_SUPPORTED_VERSIONS @ [0x00, 0x03, 0x02] @ to_be 2 TLS_VERSION_TLS_1_3
     @ to_be 2 TLS_NAMED_GROUP @ [0x00, 0x04, 0x00, 0x02] @ to_be 2 TLS_NAMED_GROUP_X25519
     @ to_be 2 TLS_KEY_SHARE @ [0x00, 0x26, 0x00, 0x24] @ to_be 2 TLS_NAMED_GROUP_X25519
     @ [0x00, 0x20] @ public_key
     @ to_be 2 TLS_PSK_KEY_EXCHANGE_MODES @ [0x00, 0x02, 0x01, TLS_PSK_KEY_EXCHANGE_MODE_PSK_DHE]"

definition ch_truncated :: "nat \<Rightarrow> bytes \<Rightarrow> bytes \<Rightarrow> bytes \<Rightarrow> bytes" where
  "ch_truncated digestsize random public_key identity =
     (let binder_list_len = 2 + 1 + digestsize;
          entry_len = 2 + length identity + 4;
          prefix = ch_prefix random;
          exts = ch_extensions public_key;
          psk_len = 4 + 2 + entry_len;
          ident_end = 4 + length prefix + 2 + length exts + psk_len
      in [TLS_CLIENT_HELLO] @ to_be 3 (ident_end - 4 + binder_list_len) @ prefix
         @ to_be 2 (length exts + psk_len + binder_list_len) @ exts
         @ to_be 2 TLS_PRE_SHARED_KEY @ to_be 2 (2 + entry_len + binder_list_len)
         @ to_be 2 entry_len @ to_be 2 (length identity) @ identity @ [0, 0, 0, 0])"

text \<open>\<open>Err EINVAL\<close> stands for the return value 0; \<open>Fault\<close> for a message longer than the buffer it is
  written to.\<close>

definition tls13_client_hello ::
  "tls_digest \<Rightarrow> nat \<Rightarrow> bytes \<Rightarrow> bytes \<Rightarrow> bytes \<Rightarrow> string \<Rightarrow> string \<Rightarrow> rc \<times> bytes" where
  "tls13_client_hello d max_len random public_key psk identity binder_label =
     (if length identity > 0xffff \<or> max_len < client_hello_needed (td_size d) (length identity)
      then (Err EINVAL, [])
      else let ch = ch_truncated (td_size d) random public_key (str_bytes identity);
               early = tls13_early_secret d (Some psk);
               binder = tls13_binder d early binder_label ch;
               msg = ch @ [0x00, of_nat (1 + td_size d), of_nat (td_size d)] @ binder
           in if length msg > max_len then (Fault, []) else (OK, msg))"

section \<open>ServerHello\<close>

record tls13_server_hello =
  sh_cipher_suite :: nat
  sh_version :: nat
  sh_selected_identity :: nat
  sh_has_psk :: bool
  sh_public_key :: bytes
  sh_has_key_share :: bool

definition zero_server_hello :: tls13_server_hello where
  "zero_server_hello = \<lparr>sh_cipher_suite = 0, sh_version = 0, sh_selected_identity = 0,
     sh_has_psk = False, sh_public_key = replicate 32 0, sh_has_key_share = False\<rparr>"

definition be16_at :: "bytes \<Rightarrow> nat \<Rightarrow> nat" where
  "be16_at msg pos = of_be (get_at pos 2 msg)"

text \<open>The extension: \<open>pos\<close> is the offset of its data. A read outside the message is a fault.\<close>

definition parse_ext ::
  "bytes \<Rightarrow> nat \<Rightarrow> nat \<Rightarrow> nat \<Rightarrow> tls13_server_hello \<Rightarrow> rc \<times> tls13_server_hello" where
  "parse_ext msg ext_type ext_len pos out =
     (if ext_type = TLS_SUPPORTED_VERSIONS then
        if ext_len \<noteq> 2 then (Err EINVAL, out)
        else if pos + 2 > length msg then (Fault, out)
        else (OK, out\<lparr>sh_version := be16_at msg pos\<rparr>)
      else if ext_type = TLS_PRE_SHARED_KEY then
        if ext_len \<noteq> 2 then (Err EINVAL, out)
        else if pos + 2 > length msg then (Fault, out)
        else (OK, out\<lparr>sh_selected_identity := be16_at msg pos, sh_has_psk := True\<rparr>)
      else if ext_type = TLS_KEY_SHARE then
        if ext_len \<noteq> 4 + 32 then (Err EINVAL, out)
        else if pos + 36 > length msg then (Fault, out)
        else if be16_at msg pos \<noteq> TLS_NAMED_GROUP_X25519 then (Err EINVAL, out)
        else if be16_at msg (pos + 2) \<noteq> 32 then (Err EINVAL, out)
        else (OK, out\<lparr>sh_public_key := get_at (pos + 4) 32 msg, sh_has_key_share := True\<rparr>)
      else (OK, out))"

function parse_exts :: "bytes \<Rightarrow> nat \<Rightarrow> nat \<Rightarrow> tls13_server_hello \<Rightarrow> rc \<times> tls13_server_hello" where
  "parse_exts msg pos exts_len out =
     (if exts_len = 0 then (OK, out)
      else if exts_len < 4 then (Err EINVAL, out)
      else if pos + 4 > length msg then (Fault, out)
      else let ext_type = be16_at msg pos; ext_len = be16_at msg (pos + 2) in
        if ext_len > exts_len - 4 then (Err EINVAL, out)
        else then_ok (parse_ext msg ext_type ext_len (pos + 4) out)
               (\<lambda>out. parse_exts msg (pos + 4 + ext_len) (exts_len - 4 - ext_len) out))"
  by pat_completeness auto
termination
  by (relation "measure (\<lambda>(msg, pos, exts_len, out). exts_len)") auto

declare parse_exts.simps [simp del]

definition tls13_parse_server_hello :: "bytes \<Rightarrow> rc \<times> tls13_server_hello" where
  "tls13_parse_server_hello msg =
     (let out = zero_server_hello in
      if length msg < 4 then (Err EINVAL, out)
      else if msg ! 0 \<noteq> TLS_SERVER_HELLO then (Err EINVAL, out)
      else let body_len = of_be (get_at 1 3 msg); end = 4 + body_len in
        if end > length msg then (Err EINVAL, out)
        else if 4 + 2 + 32 > end then (Err EINVAL, out)
        else if 38 + 1 > end then (Err EINVAL, out)
        else let session_id_len = unat (msg ! 38); pos = 39 + session_id_len in
          if pos > end then (Err EINVAL, out)
          else if pos + 3 > end then (Err EINVAL, out)
          else let out = out\<lparr>sh_cipher_suite := be16_at msg pos\<rparr>; pos = pos + 3 in
            if pos + 2 > end then (Err EINVAL, out)
            else let exts_len = be16_at msg pos; pos = pos + 2 in
              if pos + exts_len > end then (Err EINVAL, out)
              else parse_exts msg pos exts_len out)"

section \<open>Record protection\<close>

definition tls13_nonce :: "bytes \<Rightarrow> u64 \<Rightarrow> bytes" where
  "tls13_nonce iv seq = take 4 iv @ map2 (\<lambda>a b. a XOR b) (get_at 4 8 iv) (to_be 8 (unat seq))"

text \<open>\<open>None\<close> is the return value 0.\<close>

definition tls13_seal ::
  "tls_cipher \<Rightarrow> bytes \<Rightarrow> bytes \<Rightarrow> u64 \<Rightarrow> bytes \<Rightarrow> bytes \<Rightarrow> byte \<Rightarrow> bytes option" where
  "tls13_seal c key iv seq aad data content_type =
     (let nonce = tls13_nonce iv seq in
      if \<not> tc_setkey c key \<or> \<not> tc_setiv c nonce then None
      else let ct = tc_encrypt c key nonce (data @ [content_type])
           in Some (ct @ tc_auth c key nonce aad ct))"

definition tls13_open ::
  "tls_cipher \<Rightarrow> bytes \<Rightarrow> bytes \<Rightarrow> u64 \<Rightarrow> bytes \<Rightarrow> bytes \<Rightarrow> errno + (byte \<times> bytes)" where
  "tls13_open c key iv seq aad record =
     (let nonce = tls13_nonce iv seq; n = length record - tc_authsize c in
      if length record < 1 + tc_authsize c then Inl EINVAL
      else if \<not> tc_setkey c key \<or> \<not> tc_setiv c nonce then Inl EINVAL
      else let ct = take n record; plain = tc_decrypt c key nonce ct in
        if tc_auth c key nonce aad ct \<noteq> drop n record then Inl EINVAL
        else Inr (last plain, butlast plain))"

section \<open>Handshake context\<close>

record tls13_handshake =
  hs_binder_label :: string
  hs_transcript :: bytes
  hs_private_key :: bytes
  hs_public_key :: bytes
  hs_early :: bytes
  hs_handshake :: bytes
  hs_master :: bytes

definition tls13_generate_key ::
  "(nat \<Rightarrow> errno + bytes) \<Rightarrow> (bytes \<Rightarrow> errno + bytes) \<Rightarrow> tls13_handshake \<Rightarrow> rc \<times> tls13_handshake" where
  "tls13_generate_key rbg share hs =
     (case rbg 32 of
        Inl e \<Rightarrow> (Err e, hs)
      | Inr priv \<Rightarrow>
          let hs = hs\<lparr>hs_private_key := priv\<rparr> in
          (case share priv of
             Inl e \<Rightarrow> (Err e, hs)
           | Inr pub \<Rightarrow> (OK, hs\<lparr>hs_public_key := pub\<rparr>)))"

definition tls13_handshake_init :: "tls_digest \<Rightarrow> bytes option \<Rightarrow> string \<Rightarrow> tls13_handshake" where
  "tls13_handshake_init d psk binder_label =
     \<lparr>hs_binder_label = binder_label, hs_transcript = [], hs_private_key = replicate 32 0,
      hs_public_key = replicate 32 0, hs_early = tls13_early_secret d psk,
      hs_handshake = replicate 32 0, hs_master = replicate 32 0\<rparr>"

definition tls13_handshake_update :: "bytes \<Rightarrow> tls13_handshake \<Rightarrow> rc \<times> tls13_handshake" where
  "tls13_handshake_update msg hs =
     (if length (hs_transcript hs) + length msg > TLS13_TRANSCRIPT_SIZE then (Err ENOSPC, hs)
      else (OK, hs\<lparr>hs_transcript := hs_transcript hs @ msg\<rparr>))"

definition tls13_handshake_derive :: "tls_digest \<Rightarrow> tls13_handshake \<Rightarrow> bytes \<Rightarrow> string \<Rightarrow> bytes" where
  "tls13_handshake_derive d hs secret label = tls13_derive_secret d secret label (hs_transcript hs)"

definition tls13_handshake_exchange ::
  "tls_digest \<Rightarrow> (bytes \<Rightarrow> bytes \<Rightarrow> errno + bytes) \<Rightarrow> bytes \<Rightarrow> tls13_handshake \<Rightarrow> rc \<times> tls13_handshake" where
  "tls13_handshake_exchange d agree partner_key hs =
     (case agree (hs_private_key hs) partner_key of
        Inl e \<Rightarrow> (Err e, hs)
      | Inr shared \<Rightarrow> (OK, hs\<lparr>hs_handshake := tls13_handshake_secret d (hs_early hs) shared\<rparr>))"

definition tls13_handshake_finished :: "tls_digest \<Rightarrow> tls13_handshake \<Rightarrow> bytes \<Rightarrow> bytes" where
  "tls13_handshake_finished d hs secret = tls13_finished d secret (hs_transcript hs)"

definition tls13_handshake_master :: "tls_digest \<Rightarrow> tls13_handshake \<Rightarrow> tls13_handshake" where
  "tls13_handshake_master d hs = hs\<lparr>hs_master := tls13_master_secret d (hs_handshake hs)\<rparr>"

end
