(* ===== verification/Tls13_Conn.thy ===== *)
theory Tls13_Conn
  imports Tls13_Crypto
begin

text \<open>
  The TLS 1.3 pre-shared key connection of \<^verbatim>\<open>net/tls13.c\<close>: a filter between a byte stream consumer
  (the plaintext stream) and a socket (the ciphertext stream). One definition per function, in the
  order of the file, except that the functions of the plaintext stream come before the receive path
  that can call back into them.

  A \<^verbatim>\<open>void\<close> function returns \<open>OK\<close>, or \<open>Fault\<close> for an access outside a buffer. The consumer may call
  back while data is delivered to it: \<open>te_consume\<close> gives the calls it makes and the status it returns.
\<close>

section \<open>State\<close>

abbreviation "TLS13_KEY_LEN \<equiv> (16 :: nat)"
abbreviation "TLS13_MAX_CLIENT_HELLO \<equiv> (512 :: nat)"
abbreviation "TLS13_MAX_PLAINTEXT \<equiv> (8192 :: nat)"
abbreviation "TLS13_MAX_RECORD \<equiv> (8214 :: nat)"
abbreviation "TLS_TYPE_CHANGE_CIPHER \<equiv> (20 :: byte)"
abbreviation "TLS_TYPE_ALERT \<equiv> (21 :: byte)"
abbreviation "TLS_TYPE_HANDSHAKE \<equiv> (22 :: byte)"
abbreviation "TLS_TYPE_DATA \<equiv> (23 :: byte)"

datatype tls13_psk_phase =
    PSK_CLIENT_HELLO | PSK_SERVER_FLIGHT | PSK_CLIENT_FINISHED | PSK_DATA | PSK_FAILED

datatype tls13_psk_direction = PSK_RX | PSK_TX

text \<open>What the connection does to its two interfaces besides sending and delivering.\<close>

datatype tls_event = WindowChanged | ShutPlain rc | ShutCipher rc

text \<open>\<open>tl_rx\<close> holds the \<^verbatim>\<open>rx_len\<close> bytes received so far. \<open>tl_wire\<close> and \<open>tl_plain\<close> record the buffers
  handed to the socket and to the consumer, \<open>tl_sealed\<close> the sequence numbers used since the transmit
  key was last set; the code keeps none of the three.\<close>

record tls13_psk =
  tl_psk :: bytes
  tl_identity :: string
  tl_hs :: tls13_handshake
  tl_phase :: tls13_psk_phase
  tl_client_hs :: bytes
  tl_server_hs :: bytes
  tl_client_ap :: bytes
  tl_server_ap :: bytes
  tl_tx_key :: bytes
  tl_tx_iv :: bytes
  tl_rx_key :: bytes
  tl_rx_iv :: bytes
  tl_tx_seq :: u64
  tl_rx_seq :: u64
  tl_tx_iobuf :: "bytes option"
  tl_rx :: bytes
  tl_wire :: "bytes list"
  tl_plain :: "bytes list"
  tl_sealed :: "u64 list"
  tl_events :: "tls_event list"
  tl_clk :: nat

text \<open>A call the consumer makes into the connection while it handles delivered data.\<close>

datatype consumer_call = Send bytes | Close rc

text \<open>The environment: the digest and cipher, the random bit generator, X25519, allocation, the socket
  window, the consumer, and opening the socket. The \<open>nat\<close> argument counts the queries, so that
  answers may change over time.\<close>

record tls_env =
  te_digest :: tls_digest
  te_cipher :: tls_cipher
  te_rbg :: "nat \<Rightarrow> nat \<Rightarrow> errno + bytes"
  te_share :: "bytes \<Rightarrow> errno + bytes"
  te_agree :: "bytes \<Rightarrow> bytes \<Rightarrow> errno + bytes"
  te_alloc :: "nat \<Rightarrow> nat \<Rightarrow> bool"
  te_window :: "nat \<Rightarrow> nat"
  te_consume :: "nat \<Rightarrow> bytes \<Rightarrow> consumer_call list \<times> rc"
  te_open :: "nat \<Rightarrow> rc"

definition tick :: "tls13_psk \<Rightarrow> tls13_psk" where
  "tick s = s\<lparr>tl_clk := Suc (tl_clk s)\<rparr>"

section \<open>Transmission\<close>

definition tls13_psk_set_key ::
  "tls_env \<Rightarrow> tls13_psk_direction \<Rightarrow> bytes \<Rightarrow> tls13_psk \<Rightarrow> tls13_psk" where
  "tls13_psk_set_key E direction secret s =
     (case tls13_traffic_key (te_digest E) secret TLS13_KEY_LEN TLS13_NONCE_LEN of (key, iv) \<Rightarrow>
       if direction = PSK_TX then s\<lparr>tl_tx_key := key, tl_tx_iv := iv, tl_sealed := []\<rparr>
       else s\<lparr>tl_rx_key := key, tl_rx_iv := iv\<rparr>)"

text \<open>\<^verbatim>\<open>struct tls13_psk_header\<close>: content type, legacy version, length of what follows.\<close>

definition record_header :: "byte \<Rightarrow> nat \<Rightarrow> bytes" where
  "record_header type len = [type] @ to_be 2 TLS_VERSION_TLS_1_2 @ to_be 2 len"

definition tls13_psk_cipher_record ::
  "tls_env \<Rightarrow> byte \<Rightarrow> bytes \<Rightarrow> tls13_psk \<Rightarrow> bytes option \<times> tls13_psk" where
  "tls13_psk_cipher_record E type data s =
     (let c = te_cipher E; cipher_len = length data + 1 + tc_authsize c;
          header = record_header TLS_TYPE_DATA cipher_len; s1 = tick s in
      if \<not> te_alloc E (tl_clk s) (5 + cipher_len) then (None, s1)
      else (case tls13_seal c (tl_tx_key s) (tl_tx_iv s) (tl_tx_seq s) header data type of
          None \<Rightarrow> (None, s1)
        | Some out \<Rightarrow>
            if length out \<noteq> cipher_len then (None, s1)
            else (Some (header @ out),
                  s1\<lparr>tl_tx_seq := tl_tx_seq s + 1, tl_sealed := tl_sealed s @ [tl_tx_seq s]\<rparr>)))"

text \<open>\<open>OK\<close> comes with the record; \<open>Err\<close> stands for a NULL result.\<close>

definition tls13_psk_client_hello :: "tls_env \<Rightarrow> tls13_psk \<Rightarrow> rc \<times> bytes \<times> tls13_psk" where
  "tls13_psk_client_hello E s =
     (let s1 = tick s in
      case te_rbg E (tl_clk s) 32 of
        Inl e \<Rightarrow> (Err e, [], s1)
      | Inr random \<Rightarrow>
          let s2 = tick s1 in
          if \<not> te_alloc E (tl_clk s1) (5 + TLS13_MAX_CLIENT_HELLO) then (Err ENOMEM, [], s2)
          else (case tls13_client_hello (te_digest E) TLS13_MAX_CLIENT_HELLO random
                       (hs_public_key (tl_hs s)) (tl_psk s) (tl_identity s) (hs_binder_label (tl_hs s)) of
              (OK, ch) \<Rightarrow>
                (case tls13_handshake_update ch (tl_hs s) of
                   (OK, hs) \<Rightarrow> (OK, record_header TLS_TYPE_HANDSHAKE (length ch) @ ch, s2\<lparr>tl_hs := hs\<rparr>)
                 | (e, hs) \<Rightarrow> (e, [], s2))
            | (e, ch) \<Rightarrow> (e, [], s2)))"

definition tls13_psk_fail :: "rc \<Rightarrow> tls13_psk \<Rightarrow> tls13_psk" where
  "tls13_psk_fail r s =
     (if tl_phase s = PSK_FAILED then s
      else s\<lparr>tl_phase := PSK_FAILED, tl_events := tl_events s @ [ShutPlain r, ShutCipher r]\<rparr>)"

definition finished_message :: "tls_env \<Rightarrow> tls13_psk \<Rightarrow> bytes" where
  "finished_message E s =
     [TLS_FINISHED, 0, 0, 32] @ tls13_handshake_finished (te_digest E) (tl_hs s) (tl_client_hs s)"

text \<open>\<^verbatim>\<open>tls13_psk_tx\<close>: first the next handshake record, if one is due and none is pending; then the
  pending record goes out if the window is open.\<close>

definition tx_construct :: "tls_env \<Rightarrow> tls13_psk \<Rightarrow> rc \<times> tls13_psk" where
  "tx_construct E s =
     (if tl_tx_iobuf s \<noteq> None then (OK, s)
      else (case tl_phase s of
          PSK_CLIENT_HELLO \<Rightarrow>
            (case tls13_psk_client_hello E s of
               (OK, r, s) \<Rightarrow> (OK, s\<lparr>tl_tx_iobuf := Some r, tl_phase := PSK_SERVER_FLIGHT\<rparr>)
             | (Fault, r, s) \<Rightarrow> (Fault, s)
             | (Err e, r, s) \<Rightarrow> (OK, tls13_psk_fail (Err EINVAL) s))
        | PSK_CLIENT_FINISHED \<Rightarrow>
            (case tls13_psk_cipher_record E TLS_TYPE_HANDSHAKE (finished_message E s) s of
               (None, s) \<Rightarrow> (OK, tls13_psk_fail (Err EINVAL) s)
             | (Some r, s) \<Rightarrow> (OK, s\<lparr>tl_tx_iobuf := Some r\<rparr>))
        | _ \<Rightarrow> (OK, s)))"

definition tx_flush :: "tls_env \<Rightarrow> tls13_psk \<Rightarrow> tls13_psk" where
  "tx_flush E s =
     (case tl_tx_iobuf s of
        None \<Rightarrow> s
      | Some r \<Rightarrow>
          let s1 = tick s in
          if te_window E (tl_clk s) = 0 then s1
          else let s2 = s1\<lparr>tl_wire := tl_wire s @ [r], tl_tx_iobuf := None\<rparr> in
            if tl_phase s = PSK_CLIENT_FINISHED
            then (tls13_psk_set_key E PSK_TX (tl_client_ap s) s2)\<lparr>tl_tx_seq := 0, tl_phase := PSK_DATA\<rparr>
            else s2)"

definition tls13_psk_tx :: "tls_env \<Rightarrow> tls13_psk \<Rightarrow> rc \<times> tls13_psk" where
  "tls13_psk_tx E s =
     (if tl_phase s = PSK_FAILED then (OK, s)
      else then_ok (tx_construct E s)
        (\<lambda>s. if tl_phase s = PSK_FAILED then (OK, s)
             else let s = tx_flush E s in (OK, s\<lparr>tl_events := tl_events s @ [WindowChanged]\<rparr>)))"

section \<open>The plaintext stream\<close>

definition tls13_psk_plainstream_window :: "tls_env \<Rightarrow> tls13_psk \<Rightarrow> nat \<times> tls13_psk" where
  "tls13_psk_plainstream_window E s =
     (if tl_phase s \<noteq> PSK_DATA then (0, s)
      else if tl_tx_iobuf s \<noteq> None then (0, s)
      else (te_window E (tl_clk s), tick s))"

definition tls13_psk_plainstream_deliver :: "tls_env \<Rightarrow> bytes \<Rightarrow> tls13_psk \<Rightarrow> rc \<times> tls13_psk" where
  "tls13_psk_plainstream_deliver E data s =
     (if tl_phase s \<noteq> PSK_DATA then (Err EINVAL, s)
      else (case tls13_psk_cipher_record E TLS_TYPE_DATA data s of
          (None, s) \<Rightarrow> (Err ENOMEM, s)
        | (Some r, s) \<Rightarrow> tls13_psk_tx E (s\<lparr>tl_tx_iobuf := Some r\<rparr>)))"

definition tls13_psk_close :: "rc \<Rightarrow> tls13_psk \<Rightarrow> tls13_psk" where
  "tls13_psk_close r s =
     s\<lparr>tl_phase := PSK_FAILED, tl_events := tl_events s @ [ShutPlain r, ShutCipher r]\<rparr>"

section \<open>Reception\<close>

text \<open>The keys after a ServerHello and after the server's Finished message, from the updated handshake
  context.\<close>

definition hello_keys :: "tls_env \<Rightarrow> tls13_handshake \<Rightarrow> tls13_psk \<Rightarrow> tls13_psk" where
  "hello_keys E hs s =
     (let c = tls13_handshake_derive (te_digest E) hs (hs_handshake hs) ''c hs traffic'';
          v = tls13_handshake_derive (te_digest E) hs (hs_handshake hs) ''s hs traffic'';
          s = s\<lparr>tl_hs := hs, tl_client_hs := c, tl_server_hs := v\<rparr>
      in (tls13_psk_set_key E PSK_RX v (tls13_psk_set_key E PSK_TX c s))\<lparr>tl_tx_seq := 0, tl_rx_seq := 0\<rparr>)"

definition finished_keys :: "tls_env \<Rightarrow> tls13_handshake \<Rightarrow> tls13_psk \<Rightarrow> tls13_psk" where
  "finished_keys E hs s =
     (let hs = tls13_handshake_master (te_digest E) hs;
          c = tls13_handshake_derive (te_digest E) hs (hs_master hs) ''c ap traffic'';
          v = tls13_handshake_derive (te_digest E) hs (hs_master hs) ''s ap traffic'';
          s = s\<lparr>tl_hs := hs, tl_client_ap := c, tl_server_ap := v\<rparr>
      in (tls13_psk_set_key E PSK_RX v s)\<lparr>tl_rx_seq := 0, tl_phase := PSK_CLIENT_FINISHED\<rparr>)"

definition tls13_psk_server_hello :: "tls_env \<Rightarrow> bytes \<Rightarrow> tls13_psk \<Rightarrow> rc \<times> tls13_psk" where
  "tls13_psk_server_hello E msg s =
     (case tls13_parse_server_hello msg of
        (OK, hello) \<Rightarrow>
          if sh_version hello \<noteq> TLS_VERSION_TLS_1_3 then (Err EINVAL, s)
          else if sh_cipher_suite hello \<noteq> TLS_AES_128_GCM_SHA256 then (Err EINVAL, s)
          else if \<not> sh_has_key_share hello then (Err EINVAL, s)
          else if \<not> sh_has_psk hello then (Err EINVAL, s)
          else (case tls13_handshake_update msg (tl_hs s) of
              (OK, hs) \<Rightarrow>
                (case tls13_handshake_exchange (te_digest E) (te_agree E) (sh_public_key hello) hs of
                   (OK, hs) \<Rightarrow> (OK, hello_keys E hs s)
                 | (e, hs) \<Rightarrow> (e, s\<lparr>tl_hs := hs\<rparr>))
            | (e, hs) \<Rightarrow> (e, s))
      | (e, hello) \<Rightarrow> (e, s))"

definition tls13_psk_server_finished :: "tls_env \<Rightarrow> bytes \<Rightarrow> tls13_psk \<Rightarrow> rc \<times> tls13_psk" where
  "tls13_psk_server_finished E msg s =
     (if length msg \<noteq> 36 then (Err EINVAL, s)
      else if tls13_handshake_finished (te_digest E) (tl_hs s) (tl_server_hs s) \<noteq> drop 4 msg
      then (Err EINVAL, s)
      else (case tls13_handshake_update msg (tl_hs s) of
          (OK, hs) \<Rightarrow> (OK, finished_keys E hs s)
        | (e, hs) \<Rightarrow> (e, s)))"

text \<open>One handshake message, including its four-byte header.\<close>

definition handshake_message :: "tls_env \<Rightarrow> bytes \<Rightarrow> tls13_psk \<Rightarrow> rc \<times> tls13_psk" where
  "handshake_message E msg s =
     (let type = msg ! 0 in
      if type = TLS_SERVER_HELLO then tls13_psk_server_hello E msg s
      else if type = TLS_ENCRYPTED_EXTENSIONS then
        (case tls13_handshake_update msg (tl_hs s) of (r, hs) \<Rightarrow> (r, s\<lparr>tl_hs := hs\<rparr>))
      else if type = TLS_FINISHED then tls13_psk_server_finished E msg s
      else if type = TLS_NEW_SESSION_TICKET then (OK, s)
      else (Err EINVAL, s))"

function tls13_psk_handshake :: "tls_env \<Rightarrow> bytes \<Rightarrow> tls13_psk \<Rightarrow> rc \<times> tls13_psk" where
  "tls13_psk_handshake E data s =
     (if length data < 4 then (OK, s)
      else let total = 4 + of_be (get_at 1 3 data) in
        if total > length data then (Err EINVAL, s)
        else then_ok (handshake_message E (take total data) s)
               (\<lambda>s. tls13_psk_handshake E (drop total data) s))"
  by pat_completeness auto
termination
  by (relation "measure (\<lambda>(E, data, s). length data)") auto

declare tls13_psk_handshake.simps [simp del]

fun consumer_calls :: "tls_env \<Rightarrow> consumer_call list \<Rightarrow> tls13_psk \<Rightarrow> rc \<times> tls13_psk" where
  "consumer_calls E [] s = (OK, s)"
| "consumer_calls E (Send data # cs) s =
     (case tls13_psk_plainstream_deliver E data s of
        (Fault, s) \<Rightarrow> (Fault, s)
      | (r, s) \<Rightarrow> consumer_calls E cs s)"
| "consumer_calls E (Close r # cs) s = consumer_calls E cs (tls13_psk_close r s)"

definition tls13_psk_deliver :: "tls_env \<Rightarrow> bytes \<Rightarrow> tls13_psk \<Rightarrow> rc \<times> tls13_psk" where
  "tls13_psk_deliver E data s =
     (if data = [] then (OK, s)
      else let s1 = tick s in
        if \<not> te_alloc E (tl_clk s) (length data) then (Err ENOMEM, s1)
        else (case te_consume E (tl_clk s) data of (calls, r) \<Rightarrow>
            then_ok (consumer_calls E calls (s1\<lparr>tl_plain := tl_plain s @ [data]\<rparr>)) (\<lambda>s. (r, s))))"

definition tls13_psk_record :: "tls_env \<Rightarrow> bytes \<Rightarrow> tls13_psk \<Rightarrow> rc \<times> tls13_psk" where
  "tls13_psk_record E record s =
     (let type = record ! 0; body = drop 5 record in
      if type = TLS_TYPE_CHANGE_CIPHER then (OK, s)
      else if type = TLS_TYPE_HANDSHAKE then tls13_psk_handshake E body s
      else if type \<noteq> TLS_TYPE_DATA then (Err EINVAL, s)
      else (case tls13_open (te_cipher E) (tl_rx_key s) (tl_rx_iv s) (tl_rx_seq s) (take 5 record) body of
          Inl e \<Rightarrow> (Err EINVAL, s)
        | Inr (content_type, plain) \<Rightarrow>
            let s = s\<lparr>tl_rx_seq := tl_rx_seq s + 1\<rparr> in
            if content_type = TLS_TYPE_HANDSHAKE then tls13_psk_handshake E plain s
            else if content_type = TLS_TYPE_DATA then tls13_psk_deliver E plain s
            else (Err EINVAL, s)))"

text \<open>What the handlers of single messages, the plaintext stream and the bookkeeping updates keep,
  the whole receive path keeps.\<close>

locale conn_invariant =
  fixes E :: tls_env
    and P :: "tls13_psk \<Rightarrow> bool"
  assumes tick: "P s \<Longrightarrow> P (tick s)"
    and message: "P s \<Longrightarrow> P (snd (handshake_message E msg s))"
    and plain_send: "P s \<Longrightarrow> P (snd (tls13_psk_plainstream_deliver E data s))"
    and shut: "P s \<Longrightarrow> P (tls13_psk_close r s)"
    and delivered: "P s \<Longrightarrow> P (s\<lparr>tl_plain := ps\<rparr>)"
    and opened: "P s \<Longrightarrow> P (s\<lparr>tl_rx_seq := n\<rparr>)"
begin

lemmas sequence = then_ok_state [where P = P]

lemma calls: "P s \<Longrightarrow> P (snd (consumer_calls E cs s))"
proof (induction cs arbitrary: s)
  case (Cons c cs)
  show ?case
  proof (cases c)
    case (Send data)
    obtain r t where t: "tls13_psk_plainstream_deliver E data s = (r, t)" by fastforce
    then have "P t" using plain_send [OF Cons.prems, of data] by simp
    then show ?thesis using Cons.IH [of t] by (cases r) (simp_all add: Send t)
  qed (simp add: Cons.IH shut Cons.prems)
qed simp

lemma delivery:
  assumes "P s"
  shows "P (snd (tls13_psk_deliver E data s))"
proof (cases "data = [] \<or> \<not> te_alloc E (tl_clk s) (length data)")
  case False
  obtain cs r where c: "te_consume E (tl_clk s) data = (cs, r)" by fastforce
  have calls_ok: "P (snd (consumer_calls E cs ((tick s)\<lparr>tl_plain := tl_plain s @ [data]\<rparr>)))"
    by (intro calls delivered tick assms)
  then have "P (snd (then_ok (consumer_calls E cs ((tick s)\<lparr>tl_plain := tl_plain s @ [data]\<rparr>)) (\<lambda>s. (r, s))))"
    by (rule sequence) (use calls_ok in simp)
  with False c show ?thesis by (simp add: tls13_psk_deliver_def Let_def)
qed (use assms in \<open>auto simp: tls13_psk_deliver_def Let_def intro: tick\<close>)

lemma handshake: "P s \<Longrightarrow> P (snd (tls13_psk_handshake E data s))"
proof (induction "length data" arbitrary: data s rule: less_induct)
  case less
  let ?t = "4 + of_be (get_at 1 3 data)"
  show ?case
  proof (cases "length data < 4 \<or> length data < ?t")
    case False
    then have "P (snd (tls13_psk_handshake E (drop ?t data) t))" if "P t" for t
      using that less.hyps [of "drop ?t data" t] by auto
    moreover have "P (snd (handshake_message E (take ?t data) s))" by (rule message) (rule less.prems)
    ultimately show ?thesis
      using False by (subst tls13_psk_handshake.simps) (auto simp: Let_def intro!: sequence)
  qed (use less.prems in \<open>auto simp: tls13_psk_handshake.simps [of E data s] Let_def\<close>)
qed

lemma record_step: "P s \<Longrightarrow> P (snd (tls13_psk_record E r s))"
  by (simp add: tls13_psk_record_def Let_def handshake delivery opened split: sum.split prod.split)

end

text \<open>The record is consumed only after it was handled; the handlers leave the receive buffer alone,
  so the loop ends.\<close>

lemma set_key_rx [simp]: "tl_rx (tls13_psk_set_key E d k s) = tl_rx s"
  by (simp add: tls13_psk_set_key_def split: prod.splits)

lemma tick_rx [simp]: "tl_rx (tick s) = tl_rx s"
  by (simp add: tick_def)

lemma fail_rx [simp]: "tl_rx (tls13_psk_fail r s) = tl_rx s"
  by (simp add: tls13_psk_fail_def)

lemma cipher_record_rx: "tls13_psk_cipher_record E t data s = (r, s') \<Longrightarrow> tl_rx s' = tl_rx s"
  by (auto simp: tls13_psk_cipher_record_def Let_def split: if_splits option.splits)

lemma client_hello_rx: "tls13_psk_client_hello E s = (c, r, s') \<Longrightarrow> tl_rx s' = tl_rx s"
  by (auto simp: tls13_psk_client_hello_def Let_def split: if_splits sum.splits prod.splits rc.splits)

lemma tx_construct_rx: "tx_construct E s = (r, s') \<Longrightarrow> tl_rx s' = tl_rx s"
  by (auto simp: tx_construct_def dest!: cipher_record_rx client_hello_rx
      split: if_splits tls13_psk_phase.splits prod.splits rc.splits option.splits)

lemma tx_flush_rx [simp]: "tl_rx (tx_flush E s) = tl_rx s"
  by (simp add: tx_flush_def Let_def split: option.splits)

lemma tx_rx [simp]: "tl_rx (snd (tls13_psk_tx E s)) = tl_rx s"
  by (auto simp: tls13_psk_tx_def then_ok_def Let_def dest!: tx_construct_rx split: prod.splits rc.splits)

lemma tx_kept: "tls13_psk_tx E s = (r, t) \<Longrightarrow> tl_rx t = tl_rx s"
  using tx_rx [of E s] by simp

lemma plainstream_deliver_rx [simp]: "tl_rx (snd (tls13_psk_plainstream_deliver E data s)) = tl_rx s"
  by (auto simp: tls13_psk_plainstream_deliver_def dest!: cipher_record_rx split: prod.splits option.splits)

lemma close_rx [simp]: "tl_rx (tls13_psk_close r s) = tl_rx s"
  by (simp add: tls13_psk_close_def)

lemma keys_rx [simp]: "tl_rx (hello_keys E hs s) = tl_rx s" "tl_rx (finished_keys E hs s) = tl_rx s"
  by (simp_all add: hello_keys_def finished_keys_def Let_def)

lemma server_hello_rx [simp]: "tl_rx (snd (tls13_psk_server_hello E msg s)) = tl_rx s"
  by (auto simp: tls13_psk_server_hello_def Let_def split: prod.splits rc.splits)

lemma server_finished_rx [simp]: "tl_rx (snd (tls13_psk_server_finished E msg s)) = tl_rx s"
  by (auto simp: tls13_psk_server_finished_def Let_def split: prod.splits rc.splits)

lemma handshake_message_rx [simp]: "tl_rx (snd (handshake_message E msg s)) = tl_rx s"
  by (auto simp: handshake_message_def Let_def split: prod.splits)

interpretation rx_kept: conn_invariant E "\<lambda>t. tl_rx t = b" for E b
  by unfold_locales simp_all

lemma record_rx: "tls13_psk_record E r s = (c, s') \<Longrightarrow> tl_rx s' = tl_rx s"
  using rx_kept.record_step [of s "tl_rx s" E r] by simp

definition record_total :: "bytes \<Rightarrow> nat" where
  "record_total b = 5 + of_be (get_at 3 2 b)"

function tls13_psk_rx :: "tls_env \<Rightarrow> tls13_psk \<Rightarrow> rc \<times> tls13_psk" where
  "tls13_psk_rx E s =
     (let total = record_total (tl_rx s) in
      if length (tl_rx s) < 5 then (OK, s)
      else if total > TLS13_MAX_RECORD then (OK, tls13_psk_fail (Err EINVAL) s)
      else if length (tl_rx s) < total then (OK, s)
      else (case tls13_psk_record E (take total (tl_rx s)) s of
          (OK, s') \<Rightarrow>
            (case tls13_psk_tx E (s'\<lparr>tl_rx := drop total (tl_rx s')\<rparr>) of
               (OK, s'') \<Rightarrow> tls13_psk_rx E s''
             | (r, s'') \<Rightarrow> (r, s''))
        | (Fault, s') \<Rightarrow> (Fault, s')
        | (Err e, s') \<Rightarrow> (OK, tls13_psk_fail (Err e) s')))"
  by pat_completeness auto
termination
proof (relation "measure (\<lambda>(E, s). length (tl_rx s))")
  fix E :: tls_env and s :: tls13_psk and n r t r' u
  assume n: "n = record_total (tl_rx s)" "\<not> length (tl_rx s) < 5" "\<not> length (tl_rx s) < n"
    and t: "(r, t) = tls13_psk_record E (take n (tl_rx s)) s"
    and u: "(r', u) = tls13_psk_tx E (t\<lparr>tl_rx := drop n (tl_rx t)\<rparr>)"
  have "tl_rx u = drop n (tl_rx s)"
    using tx_kept [OF u [symmetric]] record_rx [OF t [symmetric]] by simp
  then show "((E, u), (E, s)) \<in> measure (\<lambda>(E, s). length (tl_rx s))"
    using n by (simp add: record_total_def)
qed simp

declare tls13_psk_rx.simps [simp del]

definition tls13_psk_cipherstream_deliver :: "tls_env \<Rightarrow> bytes \<Rightarrow> tls13_psk \<Rightarrow> rc \<times> tls13_psk" where
  "tls13_psk_cipherstream_deliver E data s =
     (if length (tl_rx s) + length data > TLS13_MAX_RECORD
      then (Err EINVAL, tls13_psk_fail (Err EINVAL) s)
      else tls13_psk_rx E (s\<lparr>tl_rx := tl_rx s @ data\<rparr>))"

definition tls13_psk_cipherstream_window :: "tls_env \<Rightarrow> tls13_psk \<Rightarrow> rc \<times> tls13_psk" where
  "tls13_psk_cipherstream_window E s = tls13_psk_tx E s"

section \<open>Creation\<close>

text \<open>The zeroed connection.\<close>

definition zero_conn :: tls13_psk where
  "zero_conn = \<lparr>tl_psk = [], tl_identity = [],
     tl_hs = \<lparr>hs_binder_label = [], hs_transcript = [], hs_private_key = replicate 32 0,
       hs_public_key = replicate 32 0, hs_early = replicate 32 0, hs_handshake = replicate 32 0,
       hs_master = replicate 32 0\<rparr>,
     tl_phase = PSK_CLIENT_HELLO, tl_client_hs = replicate 32 0, tl_server_hs = replicate 32 0,
     tl_client_ap = replicate 32 0, tl_server_ap = replicate 32 0,
     tl_tx_key = replicate TLS13_KEY_LEN 0, tl_tx_iv = replicate TLS13_NONCE_LEN 0,
     tl_rx_key = replicate TLS13_KEY_LEN 0, tl_rx_iv = replicate TLS13_NONCE_LEN 0,
     tl_tx_seq = 0, tl_rx_seq = 0, tl_tx_iobuf = None, tl_rx = [], tl_wire = [], tl_plain = [],
     tl_sealed = [], tl_events = [], tl_clk = 0\<rparr>"

text \<open>\<^verbatim>\<open>add_tls13_psk\<close>: three allocations (the structure, the key, the identity), the ephemeral key, the
  socket, then the ClientHello. \<open>n\<close> is the size of the structure.\<close>

definition add_tls13_psk :: "tls_env \<Rightarrow> nat \<Rightarrow> bytes \<Rightarrow> string \<Rightarrow> rc \<times> tls13_psk" where
  "add_tls13_psk E n psk identity =
     (let s = zero_conn; d = te_digest E in
      if \<not> te_alloc E 0 n then (Err ENOMEM, s)
      else if \<not> te_alloc E 1 (length psk) then (Err ENOMEM, s)
      else if \<not> te_alloc E 2 (length identity + 1) then (Err ENOMEM, s)
      else let s = s\<lparr>tl_psk := psk, tl_identity := identity, tl_clk := 4\<rparr> in
        (case tls13_generate_key (te_rbg E 3) (te_share E) (tls13_handshake_init d (Some psk) ''ext binder'') of
           (OK, hs) \<Rightarrow>
             (case te_open E 4 of
                OK \<Rightarrow> tls13_psk_tx E (s\<lparr>tl_hs := hs, tl_phase := PSK_CLIENT_HELLO, tl_clk := 5\<rparr>)
              | r \<Rightarrow> (r, s))
         | (r, hs) \<Rightarrow> (r, s)))"

section \<open>Events\<close>

text \<open>What can happen to a connection: data or a window change from the socket, data from the
  consumer, or a close from either side. A failed or closed connection is unplugged from both, so
  nothing reaches it any more.\<close>

inductive tls_step :: "tls_env \<Rightarrow> tls13_psk \<Rightarrow> tls13_psk \<Rightarrow> bool" for E where
  cipher: "tl_phase s \<noteq> PSK_FAILED \<Longrightarrow> tls_step E s (snd (tls13_psk_cipherstream_deliver E data s))"
| window: "tl_phase s \<noteq> PSK_FAILED \<Longrightarrow> tls_step E s (snd (tls13_psk_cipherstream_window E s))"
| query: "tl_phase s \<noteq> PSK_FAILED \<Longrightarrow> tls_step E s (snd (tls13_psk_plainstream_window E s))"
| plain: "tl_phase s \<noteq> PSK_FAILED \<Longrightarrow> tls_step E s (snd (tls13_psk_plainstream_deliver E data s))"
| closing: "tl_phase s \<noteq> PSK_FAILED \<Longrightarrow> tls_step E s (tls13_psk_close r s)"

inductive_cases tls_stepE: "tls_step E s s'"

definition tls_reachable :: "tls_env \<Rightarrow> bytes \<Rightarrow> string \<Rightarrow> tls13_psk \<Rightarrow> bool" where
  "tls_reachable E psk identity s \<longleftrightarrow>
     (\<exists>n s0. add_tls13_psk E n psk identity = (OK, s0) \<and> (tls_step E)\<^sup>*\<^sup>* s0 s)"

text \<open>An invariant of the single operations is an invariant of the connection.\<close>

locale conn_machine = conn_invariant +
  assumes transmit: "P s \<Longrightarrow> P (snd (tls13_psk_tx E s))"
    and failing: "P s \<Longrightarrow> P (tls13_psk_fail r s)"
    and buffered: "P s \<Longrightarrow> length b \<le> TLS13_MAX_RECORD \<Longrightarrow> P (s\<lparr>tl_rx := b\<rparr>)"
    and bounded: "P s \<Longrightarrow> length (tl_rx s) \<le> TLS13_MAX_RECORD"
begin

lemma receive: "P s \<Longrightarrow> P (snd (tls13_psk_rx E s))"
proof (induction "length (tl_rx s)" arbitrary: s rule: less_induct)
  case less
  let ?n = "record_total (tl_rx s)"
  obtain r t where t: "tls13_psk_record E (take ?n (tl_rx s)) s = (r, t)" by fastforce
  then have "P t" using record_step [OF less.prems, of "take ?n (tl_rx s)"] by simp
  have rx: "tl_rx t = tl_rx s" using t by (rule record_rx)
  obtain r' u where u: "tls13_psk_tx E (t\<lparr>tl_rx := drop ?n (tl_rx t)\<rparr>) = (r', u)" by fastforce
  have "length (tl_rx t) \<le> TLS13_MAX_RECORD" using \<open>P t\<close> by (rule bounded)
  then have "P (t\<lparr>tl_rx := drop ?n (tl_rx t)\<rparr>)" by (intro buffered \<open>P t\<close>) simp
  then have "P u" using transmit [of "t\<lparr>tl_rx := drop ?n (tl_rx t)\<rparr>"] u by simp
  have "tl_rx u = drop ?n (tl_rx s)" using tx_kept [OF u] rx by simp
  then have "P (snd (tls13_psk_rx E u))" if "\<not> length (tl_rx s) < 5"
    using less.hyps [of u] \<open>P u\<close> that by (simp add: record_total_def)
  then show ?case
    using less.prems t u \<open>P t\<close> \<open>P u\<close>
    by (subst tls13_psk_rx.simps) (simp add: Let_def failing split: rc.split)
qed

lemma cipher_deliver:
  assumes "P s"
  shows "P (snd (tls13_psk_cipherstream_deliver E data s))"
proof (cases "length (tl_rx s) + length data > TLS13_MAX_RECORD")
  case False
  then have "P (s\<lparr>tl_rx := tl_rx s @ data\<rparr>)" by (intro buffered assms) simp
  then have "P (snd (tls13_psk_rx E (s\<lparr>tl_rx := tl_rx s @ data\<rparr>)))" by (rule receive)
  with False show ?thesis by (simp add: tls13_psk_cipherstream_deliver_def)
qed (simp add: tls13_psk_cipherstream_deliver_def failing assms)

lemma event: "P s \<Longrightarrow> tls_step E s s' \<Longrightarrow> P s'"
  by (elim tls_stepE) (simp_all add: cipher_deliver tls13_psk_cipherstream_window_def
      tls13_psk_plainstream_window_def transmit plain_send shut tick)

end

end
