(* ===== verification/Tls13_Crypto_Props.thy ===== *)
theory Tls13_Crypto_Props
  imports Tls13_Crypto
begin

text \<open>
  The theorems about the TLS 1.3 primitives of \<^verbatim>\<open>net/tls.c\<close>: domain separation of the key schedule,
  the ClientHello layout, totality and faithfulness of the ServerHello parser, and record protection.
\<close>

section \<open>Key schedule\<close>

lemma to_be_inj: "v < 256 ^ n \<Longrightarrow> w < 256 ^ n \<Longrightarrow> to_be n v = to_be n w \<longleftrightarrow> v = w"
  by (metis of_be_to_be mod_less)

lemma of_nat_byte_inj: "m < 256 \<Longrightarrow> n < 256 \<Longrightarrow> (of_nat m :: byte) = of_nat n \<longleftrightarrow> m = n"
  by (simp add: word_unat_eq_iff unat_of_nat)

text \<open>Key derivation separates its uses. Two HKDF labels built within the limits of the format
  (lengths of two bytes and one byte) are equal only if the output length, the label and the context
  are equal.\<close>

lemma hkdf_label_injective:
  assumes "len1 < 65536" "len2 < 65536" "length l1 \<le> 249" "length l2 \<le> 249"
    "length c1 < 256" "length c2 < 256"
    and eq: "tls13_hkdf_label len1 l1 c1 = tls13_hkdf_label len2 l2 c2"
  shows "len1 = len2 \<and> l1 = l2 \<and> c1 = c2"
proof -
  have e: "to_be 2 len1 = to_be 2 len2 \<and> (of_nat (length l1) :: byte) = of_nat (length l2) \<and>
      str_bytes l1 @ [of_nat (length c1)] @ c1 = str_bytes l2 @ [of_nat (length c2)] @ c2"
    using eq by (simp add: tls13_hkdf_label_def str_bytes_def)
  then have len: "len1 = len2" using assms(1,2) by (simp add: to_be_inj)
  have "length l1 = length l2"
    using e assms(3,4) by (subst of_nat_byte_inj [symmetric]) auto
  then have "str_bytes l1 = str_bytes l2" "c1 = c2" using e by simp_all
  then show ?thesis using len by (simp add: str_bytes_inj)
qed

section \<open>ClientHello\<close>

lemma length_ch_prefix [simp]: "length random = 32 \<Longrightarrow> length (ch_prefix random) = 41"
  by (simp add: ch_prefix_def)

lemma length_ch_extensions [simp]: "length pk = 32 \<Longrightarrow> length (ch_extensions pk) = 63"
  by (simp add: ch_extensions_def)

lemma length_ch_truncated:
  "length random = 32 \<Longrightarrow> length pk = 32 \<Longrightarrow> length (ch_truncated n random pk i) = 122 + length i"
  by (simp add: ch_truncated_def Let_def)

text \<open>The message and the room that the code asked for.\<close>

lemma client_hello_length:
  assumes "length random = 32" "length pk = 32" "\<And>k x. length (td_hmac d k x) = td_size d"
    "tls13_client_hello d max_len random pk psk ident l = (OK, msg)"
  shows "length msg = 125 + length ident + td_size d \<and>
     msg = ch_truncated (td_size d) random pk (str_bytes ident)
       @ [0, of_nat (1 + td_size d), of_nat (td_size d)]
       @ tls13_binder d (tls13_early_secret d (Some psk)) l (ch_truncated (td_size d) random pk (str_bytes ident))"
  using assms by (auto simp: tls13_client_hello_def Let_def length_ch_truncated tls13_binder_def
      tls13_finished_def split: if_splits)

text \<open>The ClientHello. A ClientHello that was built has every length field equal to the number of
  bytes that follow it inside its enclosing structure (message, extensions, pre-shared key extension,
  identities, identity, binders, binder), carries the identity, and ends with the binder of everything
  before the binders list.\<close>

lemma client_hello_layout:
  assumes "length random = 32" "length pk = 32" "\<And>k x. length (td_hmac d k x) = td_size d"
    "td_size d = 32" "length ident < 60000"
    "tls13_client_hello d max_len random pk psk ident l = (OK, msg)"
  shows "length msg \<le> max_len \<and> msg ! 0 = TLS_CLIENT_HELLO \<and> of_be (get_at 1 3 msg) = length msg - 4 \<and>
     get_at 6 32 msg = random \<and> of_be (get_at 45 2 msg) = length msg - 47 \<and>
     of_be (get_at 110 2 msg) = TLS_PRE_SHARED_KEY \<and> of_be (get_at 112 2 msg) = length msg - 114 \<and>
     of_be (get_at 114 2 msg) = 6 + length ident \<and> of_be (get_at 116 2 msg) = length ident \<and>
     get_at 118 (length ident) msg = str_bytes ident \<and>
     of_be (get_at (122 + length ident) 2 msg) = 33 \<and> msg ! (124 + length ident) = 32 \<and>
     drop (125 + length ident) msg =
       tls13_binder d (tls13_early_secret d (Some psk)) l (take (122 + length ident) msg)"
proof -
  define ch where "ch = ch_truncated 32 random pk (str_bytes ident)"
  define b where "b = tls13_binder d (tls13_early_secret d (Some psk)) l ch"
  note c = client_hello_length [OF assms(1-3,6), unfolded assms(4), folded ch_def, folded b_def]
  from c [THEN conjunct1] have len: "length msg = 157 + length ident" by simp
  from c [THEN conjunct2] have msg: "msg = ch @ [0, 33, 32] @ b" by simp
  have lch: "length ch = 122 + length ident" using assms(1,2) by (simp add: ch_def length_ch_truncated)
  define tl where "tl = to_be 2 TLS_PRE_SHARED_KEY @ to_be 2 (43 + length ident)
      @ to_be 2 (6 + length ident) @ to_be 2 (length ident) @ str_bytes ident @ [0, 0, 0, 0 :: byte]"
  have fld: "ch = [TLS_CLIENT_HELLO] @ to_be 3 (153 + length ident) @ ch_prefix random
      @ to_be 2 (110 + length ident) @ ch_extensions pk @ tl"
    using assms(1,2) by (simp add: ch_def tl_def ch_truncated_def Let_def add.commute add.left_commute)
  define pre where "pre = [TLS_CLIENT_HELLO] @ to_be 3 (153 + length ident) @ ch_prefix random
      @ to_be 2 (110 + length ident) @ ch_extensions pk"
  have pre: "ch = pre @ tl" "length pre = 110"
    using assms(1,2) by (simp_all add: fld pre_def)
  have ltl: "length tl = 12 + length ident" by (simp add: tl_def)
  have g: "get_at (110 + i) n msg = get_at i n tl" if "i + n \<le> 12 + length ident" for i n
    using that pre(2) ltl by (simp add: msg pre(1) get_at_append_left get_at_append_right)
  have "max_len \<ge> length msg"
    using assms(6) by (auto simp: tls13_client_hello_def Let_def split: if_splits)
  moreover have "msg ! 0 = TLS_CLIENT_HELLO" by (simp add: msg fld)
  moreover have "of_be (get_at 1 3 msg) = 153 + length ident"
    using assms(5) by (simp add: msg fld get_at_def of_be_to_be)
  moreover have "get_at 6 32 msg = random"
    using assms(1) by (simp add: msg fld get_at_def ch_prefix_def)
  moreover have "of_be (get_at 45 2 msg) = 110 + length ident"
    using assms(1,5) by (simp add: msg fld get_at_def of_be_to_be)
  moreover have "of_be (get_at 110 2 msg) = TLS_PRE_SHARED_KEY" "of_be (get_at 112 2 msg) = 43 + length ident"
      "of_be (get_at 114 2 msg) = 6 + length ident" "of_be (get_at 116 2 msg) = length ident"
      "get_at 118 (length ident) msg = str_bytes ident"
    using g [of 0 2] g [of 2 2] g [of 4 2] g [of 6 2] g [of 8 "length ident"] assms(5)
    by (simp_all add: tl_def get_at_def of_be_to_be)
  moreover have "get_at (122 + length ident) 2 msg = [0, 33]" "msg ! (124 + length ident) = 32"
      "drop (125 + length ident) msg = b" "take (122 + length ident) msg = ch"
    using lch by (simp_all add: msg get_at_def nth_append)
  moreover have "of_be [0, 33] = 33" by (simp add: of_be_def)
  ultimately show ?thesis using len by (simp add: b_def)
qed

definition toy_digest :: tls_digest where
  "toy_digest = \<lparr>td_size = 32, td_hash = resize 32, td_hmac = (\<lambda>k x. resize 32 (k @ x)),
     td_extract = (\<lambda>s k. resize 32 (k @ s)), td_expand = (\<lambda>p i n. resize n (p @ i))\<rparr>"

lemma toy_sizes [simp]: "td_size toy_digest = 32" "length (td_hmac toy_digest k x) = 32"
  "length (td_hash toy_digest x) = 32" "length (td_extract toy_digest s k) = 32"
  "length (td_expand toy_digest p i n) = n"
  by (simp_all add: toy_digest_def)

definition toy_identity :: string where
  "toy_identity = ''NVMe0R01 h s''"

definition toy_hello :: "rc \<times> bytes" where
  "toy_hello = tls13_client_hello toy_digest 512 (replicate 32 1) (replicate 32 2) [3, 4] toy_identity ''ext binder''"

lemma toy_hello_ok: "fst toy_hello = OK"
  by (simp add: toy_hello_def toy_identity_def tls13_client_hello_def client_hello_needed_def Let_def
      length_ch_truncated tls13_binder_def tls13_finished_def)

text \<open>The space check of the ClientHello is four bytes short. When the buffer has room for what
  the code calculates but not for four bytes more, the check passes and the message is written past
  the end of the buffer. (The key share extension is counted as 38 bytes; it has 42 with its header.)\<close>

lemma client_hello_overrun:
  assumes "length random = 32" "length pk = 32" "\<And>k x. length (td_hmac d k x) = td_size d"
    "length ident \<le> 0xffff" "client_hello_needed (td_size d) (length ident) \<le> max_len"
    "max_len < client_hello_needed (td_size d) (length ident) + 4"
  shows "fst (tls13_client_hello d max_len random pk psk ident l) = Fault"
  using assms by (simp add: tls13_client_hello_def client_hello_needed_def Let_def length_ch_truncated
      tls13_binder_def tls13_finished_def)

section \<open>ServerHello\<close>

lemma parse_ext_safe: "pos + ext_len \<le> length msg \<Longrightarrow> fst (parse_ext msg t ext_len pos out) \<noteq> Fault"
  by (simp add: parse_ext_def)

lemma parse_exts_safe: "pos + exts_len \<le> length msg \<Longrightarrow> fst (parse_exts msg pos exts_len out) \<noteq> Fault"
proof (induction msg pos exts_len out rule: parse_exts.induct)
  case (1 msg pos exts_len out)
  let ?l = "be16_at msg (pos + 2)"
  show ?case
  proof (cases "exts_len = 0 \<or> exts_len < 4 \<or> ?l > exts_len - 4")
    case False
    obtain r o' where p: "parse_ext msg (be16_at msg pos) ?l (pos + 4) out = (r, o')" by fastforce
    have "pos + 4 + ?l \<le> length msg" using False "1.prems" by auto
    then have "r \<noteq> Fault" using parse_ext_safe [of "pos + 4" ?l msg] p by (metis fst_conv)
    moreover have "fst (parse_exts msg (pos + 4 + ?l) (exts_len - 4 - ?l) o') \<noteq> Fault"
      by (rule "1.IH") (use False "1.prems" in auto)
    ultimately show ?thesis
      using False p "1.prems" by (cases r) (simp_all add: parse_exts.simps [of msg pos] Let_def)
  qed (use "1.prems" in \<open>auto simp: parse_exts.simps [of msg pos] Let_def\<close>)
qed

lemma server_hello_safe: "fst (tls13_parse_server_hello msg) \<noteq> Fault"
  by (auto simp: tls13_parse_server_hello_def Let_def intro!: parse_exts_safe)

text \<open>The extensions of a ServerHello and their encoding (RFC 8446 section 4.2).\<close>

datatype sh_ext = ExtVersion nat | ExtPsk nat | ExtKeyShare bytes | ExtOther nat bytes

definition enc_ext :: "nat \<Rightarrow> bytes \<Rightarrow> bytes" where
  "enc_ext t d = to_be 2 t @ to_be 2 (length d) @ d"

primrec ext_bytes :: "sh_ext \<Rightarrow> bytes" where
  "ext_bytes (ExtVersion v) = enc_ext TLS_SUPPORTED_VERSIONS (to_be 2 v)"
| "ext_bytes (ExtPsk i) = enc_ext TLS_PRE_SHARED_KEY (to_be 2 i)"
| "ext_bytes (ExtKeyShare k) = enc_ext TLS_KEY_SHARE (to_be 2 TLS_NAMED_GROUP_X25519 @ to_be 2 32 @ k)"
| "ext_bytes (ExtOther t d) = enc_ext t d"

primrec ext_ok :: "sh_ext \<Rightarrow> bool" where
  "ext_ok (ExtVersion v) = (v < 65536)"
| "ext_ok (ExtPsk i) = (i < 65536)"
| "ext_ok (ExtKeyShare k) = (length k = 32)"
| "ext_ok (ExtOther t d) = (t < 65536 \<and> t \<notin> {TLS_SUPPORTED_VERSIONS, TLS_PRE_SHARED_KEY, TLS_KEY_SHARE} \<and>
     length d < 65536)"

primrec apply_ext :: "sh_ext \<Rightarrow> tls13_server_hello \<Rightarrow> tls13_server_hello" where
  "apply_ext (ExtVersion v) h = h\<lparr>sh_version := v\<rparr>"
| "apply_ext (ExtPsk i) h = h\<lparr>sh_selected_identity := i, sh_has_psk := True\<rparr>"
| "apply_ext (ExtKeyShare k) h = h\<lparr>sh_public_key := k, sh_has_key_share := True\<rparr>"
| "apply_ext (ExtOther t d) h = h"

definition server_hello_bytes :: "bytes \<Rightarrow> bytes \<Rightarrow> nat \<Rightarrow> sh_ext list \<Rightarrow> bytes" where
  "server_hello_bytes random session_id suite exts =
     (let es = concat (map ext_bytes exts);
          body = to_be 2 TLS_VERSION_TLS_1_2 @ random @ [of_nat (length session_id)] @ session_id
            @ to_be 2 suite @ [0] @ to_be 2 (length es) @ es
      in [TLS_SERVER_HELLO] @ to_be 3 (length body) @ body)"

lemma be16_at_right: "be16_at (pre @ xs) (length pre + i) = be16_at xs i"
  by (simp add: be16_at_def get_at_append_right)

lemma be16_at_enc [simp]: "be16_at (to_be 2 v @ rest) 0 = v mod 65536"
  by (simp add: be16_at_def get_at_def of_be_to_be)

lemma be16_at_enc_only [simp]: "be16_at (to_be 2 v) 0 = v mod 65536"
  using be16_at_enc [of v "[]"] by simp

lemma be16_at_enc_second [simp]: "be16_at (to_be 2 u @ rest) 2 = be16_at rest 0"
  using be16_at_right [of "to_be 2 u" rest 0] by simp

definition ext_type :: "sh_ext \<Rightarrow> nat" where
  "ext_type e = be16_at (ext_bytes e) 0"

definition ext_size :: "sh_ext \<Rightarrow> nat" where
  "ext_size e = length (ext_bytes e) - 4"

lemma enc_ext_header:
  "be16_at (enc_ext t d @ rest) 0 = t mod 65536" "be16_at (enc_ext t d @ rest) 2 = length d mod 65536"
  by (simp_all add: enc_ext_def)

lemma ext_bytes_header:
  assumes "ext_ok e"
  shows "be16_at (ext_bytes e @ rest) 0 = ext_type e \<and> be16_at (ext_bytes e @ rest) 2 = ext_size e \<and>
     length (ext_bytes e) = 4 + ext_size e"
  using assms enc_ext_header [where rest = rest] enc_ext_header [where rest = "[]"]
  by (cases e) (simp_all add: ext_type_def ext_size_def, simp_all add: enc_ext_def)

lemma parse_ext_enc:
  assumes "ext_ok e"
  shows "parse_ext (pre @ ext_bytes e @ post) (ext_type e) (ext_size e) (length pre + 4) out =
     (OK, apply_ext e out)"
  using assms
  by (cases e)
    (simp_all add: parse_ext_def ext_type_def ext_size_def enc_ext_def be16_at_def get_at_def of_be_to_be)

lemma parse_exts_enc:
  "list_all ext_ok es \<Longrightarrow>
   parse_exts (pre @ concat (map ext_bytes es) @ post) (length pre) (length (concat (map ext_bytes es))) out =
   (OK, fold apply_ext es out)"
proof (induction es arbitrary: pre out)
  case Nil
  then show ?case by (simp add: parse_exts.simps)
next
  case (Cons e es)
  let ?rest = "concat (map ext_bytes es) @ post"
  let ?msg = "pre @ ext_bytes e @ ?rest"
  have e: "ext_ok e" and es: "list_all ext_ok es" using Cons.prems by simp_all
  note h = ext_bytes_header [OF e, of ?rest]
  have t: "be16_at ?msg (length pre) = ext_type e" "be16_at ?msg (length pre + 2) = ext_size e"
    using be16_at_right [of pre "ext_bytes e @ ?rest" 0] be16_at_right [of pre "ext_bytes e @ ?rest" 2] h
    by simp_all
  have "parse_exts ?msg (length pre + 4 + ext_size e) (length (concat (map ext_bytes es))) (apply_ext e out) =
      (OK, fold apply_ext es (apply_ext e out))"
    using Cons.IH [of "pre @ ext_bytes e" "apply_ext e out"] es h by (simp add: add.assoc)
  then show ?case
    using t h parse_ext_enc [OF e, of pre ?rest out]
    by (subst parse_exts.simps) (simp add: Let_def del: parse_exts.simps)
qed

lemma parse_server_hello_enc:
  assumes "length random = 32" "length session_id < 256" "suite < 65536" "list_all ext_ok exts"
    "length (concat (map ext_bytes exts)) < 65536"
  shows "tls13_parse_server_hello (server_hello_bytes random session_id suite exts @ rest) =
       (OK, fold apply_ext exts (zero_server_hello\<lparr>sh_cipher_suite := suite\<rparr>))"
proof -
  define es where "es = concat (map ext_bytes exts)"
  define pre where "pre = to_be 2 TLS_VERSION_TLS_1_2 @ random @ [of_nat (length session_id)] @ session_id"
  define n where "n = length session_id + 40 + length es"
  define hd where "hd = [TLS_SERVER_HELLO] @ to_be 3 n @ pre"
  define m where "m = hd @ to_be 2 suite @ [0] @ to_be 2 (length es) @ es @ rest"
  have lh: "length hd = 39 + length session_id" using assms(1) by (simp add: hd_def pre_def)
  have m: "server_hello_bytes random session_id suite exts @ rest = m"
    using assms(1)
    by (simp add: server_hello_bytes_def Let_def m_def hd_def pre_def n_def es_def add.commute add.left_commute)
  have lm: "length m = 4 + n + length rest" using lh by (simp add: m_def n_def)
  have n: "of_be (get_at (Suc 0) 3 m) = n"
    using assms(2,5) by (simp add: m_def hd_def get_at_def of_be_to_be n_def es_def)
  have m0: "m ! 0 = TLS_SERVER_HELLO" by (simp add: m_def hd_def)
  have "m ! 38 = of_nat (length session_id)"
    using assms(1) by (simp add: m_def hd_def pre_def nth_append)
  then have sid: "unat (m ! 38) = length session_id" using assms(2) by (simp add: unat_of_nat)
  have suite: "be16_at m (39 + length session_id) = suite"
    using be16_at_right [of hd _ 0] lh assms(3) by (simp add: m_def)
  have "m = (hd @ to_be 2 suite @ [0]) @ to_be 2 (length es) @ es @ rest" by (simp add: m_def)
  then have elen: "be16_at m (42 + length session_id) = length es"
    using be16_at_right [of "hd @ to_be 2 suite @ [0]" "to_be 2 (length es) @ es @ rest" 0] lh assms(5)
    by (simp add: es_def)
  have "m = (hd @ to_be 2 suite @ [0] @ to_be 2 (length es)) @ es @ rest" by (simp add: m_def)
  then have "parse_exts m (44 + length session_id) (length es) out = (OK, fold apply_ext exts out)" for out
    using parse_exts_enc [OF assms(4), of "hd @ to_be 2 suite @ [0] @ to_be 2 (length es)" rest out] lh
    by (simp add: es_def)
  moreover have "44 + length session_id + length es = 4 + n" by (simp add: n_def)
  ultimately have "tls13_parse_server_hello m = (OK, fold apply_ext exts (zero_server_hello\<lparr>sh_cipher_suite := suite\<rparr>))"
    using m0 n sid suite elen lm
    by (simp add: tls13_parse_server_hello_def Let_def n_def add.commute add.left_commute)
  then show ?thesis using m by simp
qed

text \<open>The ServerHello parser. Parsing any bytes stays inside the message; parsing the encoding of a
  ServerHello (any random, session identifier, cipher suite and list of well-formed extensions)
  succeeds with that cipher suite and what the extensions say, a later one overriding an earlier one
  of the same kind and unknown ones ignored, whatever follows the message.\<close>

lemma server_hello_roundtrip:
  assumes "length random = 32" "length session_id < 256" "suite < 65536" "list_all ext_ok exts"
    "length (concat (map ext_bytes exts)) < 65536"
  shows "fst (tls13_parse_server_hello msg) \<noteq> Fault \<and>
     tls13_parse_server_hello (server_hello_bytes random session_id suite exts @ rest) =
       (OK, fold apply_ext exts (zero_server_hello\<lparr>sh_cipher_suite := suite\<rparr>))"
  using parse_server_hello_enc [OF assms] server_hello_safe by simp

definition toy_exts :: "sh_ext list" where
  "toy_exts = [ExtVersion TLS_VERSION_TLS_1_3, ExtOther 7 [1, 2, 3], ExtKeyShare (replicate 32 9), ExtPsk 0]"

section \<open>Record protection\<close>

text \<open>What record protection needs from an AEAD cipher: decryption and encryption under the same key
  and nonce are inverse to each other and keep the length, and the tag has its size.\<close>

definition aead_ok :: "tls_cipher \<Rightarrow> bool" where
  "aead_ok c \<longleftrightarrow> (\<forall>k n x. tc_decrypt c k n (tc_encrypt c k n x) = x \<and> tc_encrypt c k n (tc_decrypt c k n x) = x \<and>
     length (tc_encrypt c k n x) = length x) \<and> (\<forall>k n a x. length (tc_auth c k n a x) = tc_authsize c)"

lemma aead_okD:
  assumes "aead_ok c"
  shows "tc_decrypt c k n (tc_encrypt c k n x) = x" "tc_encrypt c k n (tc_decrypt c k n x) = x"
    "length (tc_encrypt c k n x) = length x" "length (tc_auth c k n a x) = tc_authsize c"
  using assms by (simp_all add: aead_ok_def)

lemma aead_length_decrypt: "aead_ok c \<Longrightarrow> length (tc_decrypt c k n x) = length x"
  by (metis aead_okD(2,3))

lemma seal_length:
  "aead_ok c \<Longrightarrow> tls13_seal c key iv seq aad data t = Some r \<Longrightarrow> length r = length data + 1 + tc_authsize c"
  by (auto simp: tls13_seal_def Let_def aead_okD split: if_splits)

lemma open_iff_seal:
  assumes "aead_ok c"
  shows "tls13_open c key iv seq aad r = Inr (t, data) \<longleftrightarrow> tls13_seal c key iv seq aad data t = Some r"
    (is "?L \<longleftrightarrow> ?R")
proof
  note ok = aead_okD [OF assms] aead_length_decrypt [OF assms]
  let ?n = "tls13_nonce iv seq" and ?k = "length r - tc_authsize c"
  assume L: ?L
  let ?p = "tc_decrypt c key ?n (take ?k r)"
  from L have c: "1 + tc_authsize c \<le> length r" "tc_setkey c key" "tc_setiv c ?n"
      "tc_auth c key ?n aad (take ?k r) = drop ?k r" "last ?p = t" "butlast ?p = data"
    by (auto simp: tls13_open_def Let_def split: if_splits)
  have "?p \<noteq> []" using c(1) ok(5) [of key ?n "take ?k r"] by (cases "?p = []") auto
  then have "data @ [t] = ?p" using c(5,6) append_butlast_last_id by blast
  then have "tc_encrypt c key ?n (data @ [t]) = take ?k r" by (simp add: ok)
  then show ?R using c by (simp add: tls13_seal_def Let_def)
next
  note ok = aead_okD [OF assms]
  let ?n = "tls13_nonce iv seq"
  let ?ct = "tc_encrypt c key ?n (data @ [t])"
  assume ?R
  then have c: "tc_setkey c key" "tc_setiv c ?n" and r: "r = ?ct @ tc_auth c key ?n aad ?ct"
    by (auto simp: tls13_seal_def Let_def split: if_splits)
  have "length r - tc_authsize c = length ?ct" by (simp add: r ok)
  then show ?L using c ok by (simp add: tls13_open_def Let_def r)
qed

text \<open>Records are accepted exactly when they were sealed. Opening a record under a key, IV, sequence
  number and header yields a content type and data if and only if the record is what sealing that
  content type and data under the same parameters produces; sealed records round-trip and everything
  else is rejected.\<close>

lemma open_iff_sealed:
  assumes "aead_ok c"
  shows "tls13_open c key iv seq aad r = Inr (t, data) \<longleftrightarrow> tls13_seal c key iv seq aad data t = Some r"
  using assms by (rule open_iff_seal)

text \<open>A stand-in cipher: a byte-wise XOR with a key stream and a tag that depends on all inputs.\<close>

definition toy_stream :: "bytes \<Rightarrow> bytes \<Rightarrow> nat \<Rightarrow> bytes" where
  "toy_stream key nonce n = replicate n (sum_list key + sum_list nonce)"

definition toy_cipher :: tls_cipher where
  "toy_cipher = \<lparr>tc_authsize = 16, tc_setkey = (\<lambda>k. length k = 16), tc_setiv = (\<lambda>n. length n = 12),
     tc_encrypt = (\<lambda>k n x. map2 (\<lambda>a b. a XOR b) x (toy_stream k n (length x))),
     tc_decrypt = (\<lambda>k n x. map2 (\<lambda>a b. a XOR b) x (toy_stream k n (length x))),
     tc_auth = (\<lambda>k n a x. resize 16 (sum_list (k @ n @ a @ x) # k))\<rparr>"

lemma map2_xor_xor: "length xs = length ys \<Longrightarrow> map2 (\<lambda>a b. a XOR b) (map2 (\<lambda>a b :: byte. a XOR b) xs ys) ys = xs"
  by (induction xs ys rule: list_induct2) (simp_all add: xor.assoc)

lemma toy_aead [simp]: "aead_ok toy_cipher"
  by (simp add: aead_ok_def toy_cipher_def map2_xor_xor toy_stream_def)

text \<open>Different sequence numbers give different nonces.\<close>

lemma map2_xor_inj:
  "length xs = length ys \<Longrightarrow> length ys = length zs \<Longrightarrow>
   map2 (\<lambda>a b :: byte. a XOR b) xs ys = map2 (\<lambda>a b. a XOR b) xs zs \<longleftrightarrow> ys = zs"
proof (induction xs ys zs rule: list_induct3)
  case (Cons x xs y ys z zs)
  have "x XOR y = x XOR z \<longleftrightarrow> y = z" by (auto simp: bit_eq_iff bit_simps)
  with Cons show ?case by simp
qed simp

lemma nonce_inj:
  assumes "length iv = 12"
  shows "tls13_nonce iv m = tls13_nonce iv n \<longleftrightarrow> m = n"
proof -
  have "unat m < 256 ^ 8" "unat n < 256 ^ 8"
    using unsigned_less [of m] unsigned_less [of n] by simp_all
  then have "to_be 8 (unat m) = to_be 8 (unat n) \<longleftrightarrow> m = n" by (simp add: to_be_inj word_unat_eq_iff)
  moreover have "map2 (\<lambda>a b. a XOR b) (get_at 4 8 iv) (to_be 8 (unat m)) =
      map2 (\<lambda>a b. a XOR b) (get_at 4 8 iv) (to_be 8 (unat n)) \<longleftrightarrow> to_be 8 (unat m) = to_be 8 (unat n)"
    using assms by (intro map2_xor_inj) simp_all
  ultimately show ?thesis by (simp add: tls13_nonce_def)
qed

end
