(* ===== verification/Tls13_Conn_Inv.thy ===== *)
theory Tls13_Conn_Inv
  imports Tls13_Conn Tls13_Crypto_Props
begin

text \<open>
  Invariants of the TLS 1.3 connection: the transmit sequence number counts the records sealed since
  the transmit key was set; the wire carries one ClientHello and then sealed records only; keys and
  secrets have their sizes; after its creation a connection never builds a second ClientHello and no
  operation leaves a buffer. Each is an interpretation of \<open>conn_machine\<close>.
\<close>

lemma tick_simps [simp]:
  "tl_phase (tick s) = tl_phase s" "tl_hs (tick s) = tl_hs s" "tl_tx_iobuf (tick s) = tl_tx_iobuf s"
  "tl_wire (tick s) = tl_wire s" "tl_sealed (tick s) = tl_sealed s" "tl_tx_seq (tick s) = tl_tx_seq s"
  "tl_rx_seq (tick s) = tl_rx_seq s" "tl_tx_key (tick s) = tl_tx_key s" "tl_tx_iv (tick s) = tl_tx_iv s"
  "tl_rx_key (tick s) = tl_rx_key s" "tl_rx_iv (tick s) = tl_rx_iv s"
  "tl_client_hs (tick s) = tl_client_hs s" "tl_server_hs (tick s) = tl_server_hs s"
  "tl_client_ap (tick s) = tl_client_ap s" "tl_server_ap (tick s) = tl_server_ap s"
  "tl_psk (tick s) = tl_psk s" "tl_identity (tick s) = tl_identity s" "tl_plain (tick s) = tl_plain s"
  "tl_clk (tick s) = Suc (tl_clk s)" "tl_events (tick s) = tl_events s"
  by (simp_all add: tick_def)

lemma set_key_simps [simp]:
  "tl_phase (tls13_psk_set_key E d k s) = tl_phase s" "tl_hs (tls13_psk_set_key E d k s) = tl_hs s"
  "tl_tx_iobuf (tls13_psk_set_key E d k s) = tl_tx_iobuf s" "tl_wire (tls13_psk_set_key E d k s) = tl_wire s"
  "tl_plain (tls13_psk_set_key E d k s) = tl_plain s" "tl_events (tls13_psk_set_key E d k s) = tl_events s"
  "tl_clk (tls13_psk_set_key E d k s) = tl_clk s" "tl_tx_seq (tls13_psk_set_key E d k s) = tl_tx_seq s"
  "tl_rx_seq (tls13_psk_set_key E d k s) = tl_rx_seq s"
  "tl_client_hs (tls13_psk_set_key E d k s) = tl_client_hs s" "tl_server_hs (tls13_psk_set_key E d k s) = tl_server_hs s"
  "tl_client_ap (tls13_psk_set_key E d k s) = tl_client_ap s" "tl_server_ap (tls13_psk_set_key E d k s) = tl_server_ap s"
  "tl_sealed (tls13_psk_set_key E PSK_TX k s) = []" "tl_sealed (tls13_psk_set_key E PSK_RX k s) = tl_sealed s"
  "tl_tx_key (tls13_psk_set_key E PSK_RX k s) = tl_tx_key s" "tl_tx_iv (tls13_psk_set_key E PSK_RX k s) = tl_tx_iv s"
  "tl_rx_key (tls13_psk_set_key E PSK_TX k s) = tl_rx_key s" "tl_rx_iv (tls13_psk_set_key E PSK_TX k s) = tl_rx_iv s"
  "tl_tx_key (tls13_psk_set_key E PSK_TX k s) = fst (tls13_traffic_key (te_digest E) k TLS13_KEY_LEN TLS13_NONCE_LEN)"
  "tl_tx_iv (tls13_psk_set_key E PSK_TX k s) = snd (tls13_traffic_key (te_digest E) k TLS13_KEY_LEN TLS13_NONCE_LEN)"
  "tl_rx_key (tls13_psk_set_key E PSK_RX k s) = fst (tls13_traffic_key (te_digest E) k TLS13_KEY_LEN TLS13_NONCE_LEN)"
  "tl_rx_iv (tls13_psk_set_key E PSK_RX k s) = snd (tls13_traffic_key (te_digest E) k TLS13_KEY_LEN TLS13_NONCE_LEN)"
  by (simp_all add: tls13_psk_set_key_def split: prod.split)

text \<open>Case rules for the two record builders: success with the record, or a NULL result.\<close>

lemma cipher_record_cases:
  assumes "tls13_psk_cipher_record E t data s = (r, s')"
  obtains (null) "r = None" "s' = tick s"
  | (built) out where "r = Some (record_header TLS_TYPE_DATA (length data + 1 + tc_authsize (te_cipher E)) @ out)"
      "tls13_seal (te_cipher E) (tl_tx_key s) (tl_tx_iv s) (tl_tx_seq s)
         (record_header TLS_TYPE_DATA (length data + 1 + tc_authsize (te_cipher E))) data t = Some out"
      "length out = length data + 1 + tc_authsize (te_cipher E)"
      "s' = (tick s)\<lparr>tl_tx_seq := tl_tx_seq s + 1, tl_sealed := tl_sealed s @ [tl_tx_seq s]\<rparr>"
  using assms by (auto simp: tls13_psk_cipher_record_def Let_def split: if_splits option.splits)

lemma client_hello_cases:
  assumes "tls13_psk_client_hello E s = (c, r, s')"
  obtains (null) e n where "c = Err e" "s' = s\<lparr>tl_clk := n\<rparr>"
  | (fault) random n where "c = Fault" "s' = s\<lparr>tl_clk := n\<rparr>" "te_rbg E (tl_clk s) 32 = Inr random"
      "fst (tls13_client_hello (te_digest E) TLS13_MAX_CLIENT_HELLO random (hs_public_key (tl_hs s))
         (tl_psk s) (tl_identity s) (hs_binder_label (tl_hs s))) = Fault"
  | (built) random ch n where "c = OK" "r = record_header TLS_TYPE_HANDSHAKE (length ch) @ ch"
      "te_rbg E (tl_clk s) 32 = Inr random"
      "tls13_client_hello (te_digest E) TLS13_MAX_CLIENT_HELLO random (hs_public_key (tl_hs s))
         (tl_psk s) (tl_identity s) (hs_binder_label (tl_hs s)) = (OK, ch)"
      "length (hs_transcript (tl_hs s)) + length ch \<le> TLS13_TRANSCRIPT_SIZE"
      "s' = s\<lparr>tl_clk := n, tl_hs := (tl_hs s)\<lparr>hs_transcript := hs_transcript (tl_hs s) @ ch\<rparr>\<rparr>"
  using assms
  by (auto simp: tls13_psk_client_hello_def tls13_handshake_update_def Let_def tick_def
      split: if_splits sum.splits prod.splits rc.splits)

text \<open>The outcomes of the two halves of \<^verbatim>\<open>tls13_psk_tx\<close>.\<close>

lemma tx_construct_cases:
  assumes "tx_construct E s = (c, s')"
  obtains (keep) "c = OK" "s' = s"
  | (failed) t where "c = OK" "s' = tls13_psk_fail (Err EINVAL) (s\<lparr>tl_clk := t\<rparr>)"
  | (fault) r t where "c = Fault" "tl_phase s = PSK_CLIENT_HELLO" "tls13_psk_client_hello E s = (Fault, r, t)" "s' = t"
  | (hello) r t where "c = OK" "tl_phase s = PSK_CLIENT_HELLO" "tl_tx_iobuf s = None"
      "tls13_psk_client_hello E s = (OK, r, t)" "s' = t\<lparr>tl_tx_iobuf := Some r, tl_phase := PSK_SERVER_FLIGHT\<rparr>"
  | (finished) r t where "c = OK" "tl_phase s = PSK_CLIENT_FINISHED" "tl_tx_iobuf s = None"
      "tls13_psk_cipher_record E TLS_TYPE_HANDSHAKE (finished_message E s) s = (Some r, t)"
      "s' = t\<lparr>tl_tx_iobuf := Some r\<rparr>"
proof (cases "tl_tx_iobuf s")
  case None
  show thesis
  proof (cases "tl_phase s")
    case PSK_CLIENT_HELLO
    obtain d r t where ch: "tls13_psk_client_hello E s = (d, r, t)" using prod_cases3 by blast
    show thesis
      using ch
    proof (cases rule: client_hello_cases)
      case (null e n)
      then show thesis using assms None PSK_CLIENT_HELLO ch by (intro failed) (auto simp: tx_construct_def)
    next
      case (fault random n)
      then show thesis using assms None PSK_CLIENT_HELLO ch that(3) by (auto simp: tx_construct_def)
    next
      case (built random m n)
      then show thesis using assms None PSK_CLIENT_HELLO ch hello by (auto simp: tx_construct_def)
    qed
  next
    case PSK_CLIENT_FINISHED
    obtain r t where c: "tls13_psk_cipher_record E TLS_TYPE_HANDSHAKE (finished_message E s) s = (r, t)"
      by fastforce
    show thesis
      using c
    proof (cases rule: cipher_record_cases)
      case null
      then show thesis using assms None PSK_CLIENT_FINISHED c
        by (intro failed) (auto simp: tx_construct_def tick_def)
    next
      case (built out)
      then show thesis using assms None PSK_CLIENT_FINISHED c finished by (auto simp: tx_construct_def)
    qed
  qed (use assms None keep in \<open>auto simp: tx_construct_def\<close>)
qed (use assms keep in \<open>auto simp: tx_construct_def\<close>)

lemma tx_flush_cases:
  obtains (keep) t where "tx_flush E s = s\<lparr>tl_clk := t\<rparr>"
  | (sent) r where "tl_tx_iobuf s = Some r" "te_window E (tl_clk s) \<noteq> 0" "tl_phase s \<noteq> PSK_CLIENT_FINISHED"
      "tx_flush E s = (tick s)\<lparr>tl_wire := tl_wire s @ [r], tl_tx_iobuf := None\<rparr>"
  | (switched) r where "tl_tx_iobuf s = Some r" "te_window E (tl_clk s) \<noteq> 0" "tl_phase s = PSK_CLIENT_FINISHED"
      "tx_flush E s = (tls13_psk_set_key E PSK_TX (tl_client_ap s)
         ((tick s)\<lparr>tl_wire := tl_wire s @ [r], tl_tx_iobuf := None\<rparr>))\<lparr>tl_tx_seq := 0, tl_phase := PSK_DATA\<rparr>"
proof (cases "tl_tx_iobuf s")
  case None
  then show thesis using keep [of "tl_clk s"] by (simp add: tx_flush_def)
next
  case (Some r)
  show thesis
  proof (cases "te_window E (tl_clk s) = 0")
    case True
    then show thesis using keep [of "Suc (tl_clk s)"] Some by (simp add: tx_flush_def tick_def)
  next
    case False
    show thesis
    proof (cases "tl_phase s = PSK_CLIENT_FINISHED")
      case True
      then show thesis using switched Some False by (simp add: tx_flush_def Let_def)
    next
      case open_phase: False
      then show thesis using sent Some False by (simp add: tx_flush_def Let_def)
    qed
  qed
qed

text \<open>An invariant that the record builders' results keep is kept by transmission.\<close>

lemma tx_invariant:
  assumes P: "P s"
    and clk: "\<And>t n. P t \<Longrightarrow> P (t\<lparr>tl_clk := n\<rparr>)"
    and ev: "\<And>t es. P t \<Longrightarrow> P (t\<lparr>tl_events := es\<rparr>)"
    and fail: "\<And>t r. P t \<Longrightarrow> P (tls13_psk_fail r t)"
    and hello: "\<And>t r u. P t \<Longrightarrow> tl_phase t = PSK_CLIENT_HELLO \<Longrightarrow> tl_tx_iobuf t = None \<Longrightarrow>
      tls13_psk_client_hello E t = (OK, r, u) \<Longrightarrow> P (u\<lparr>tl_tx_iobuf := Some r, tl_phase := PSK_SERVER_FLIGHT\<rparr>)"
    and finish: "\<And>t r u. P t \<Longrightarrow> tl_phase t = PSK_CLIENT_FINISHED \<Longrightarrow> tl_tx_iobuf t = None \<Longrightarrow>
      tls13_psk_cipher_record E TLS_TYPE_HANDSHAKE (finished_message E t) t = (Some r, u) \<Longrightarrow>
      P (u\<lparr>tl_tx_iobuf := Some r\<rparr>)"
    and sent: "\<And>t r. P t \<Longrightarrow> tl_tx_iobuf t = Some r \<Longrightarrow> tl_phase t \<noteq> PSK_CLIENT_FINISHED \<Longrightarrow>
      P ((tick t)\<lparr>tl_wire := tl_wire t @ [r], tl_tx_iobuf := None\<rparr>)"
    and switched: "\<And>t r. P t \<Longrightarrow> tl_tx_iobuf t = Some r \<Longrightarrow> tl_phase t = PSK_CLIENT_FINISHED \<Longrightarrow>
      P ((tls13_psk_set_key E PSK_TX (tl_client_ap t)
         ((tick t)\<lparr>tl_wire := tl_wire t @ [r], tl_tx_iobuf := None\<rparr>))\<lparr>tl_tx_seq := 0, tl_phase := PSK_DATA\<rparr>)"
  shows "P (snd (tls13_psk_tx E s))"
proof (cases "tl_phase s = PSK_FAILED")
  case False
  obtain c t where t: "tx_construct E s = (c, t)" by fastforce
  then have Pt: "P t"
  proof (cases rule: tx_construct_cases)
    case (fault r u)
    from fault(3) show ?thesis by (cases rule: client_hello_cases) (use fault(4) P clk in auto)
  qed (use P clk fail hello finish in auto)
  have "P (tx_flush E t)"
    by (cases rule: tx_flush_cases [of E t]) (use Pt clk sent switched in auto)
  then show ?thesis using False t Pt by (cases c) (simp_all add: tls13_psk_tx_def Let_def ev)
qed (simp add: tls13_psk_tx_def P)

lemma plain_send_invariant:
  assumes P: "P s" and tick: "\<And>t. P t \<Longrightarrow> P (tick t)"
    and data: "\<And>r u. tl_phase s = PSK_DATA \<Longrightarrow> tls13_psk_cipher_record E TLS_TYPE_DATA data s = (Some r, u) \<Longrightarrow>
      P (u\<lparr>tl_tx_iobuf := Some r\<rparr>)"
    and tx: "\<And>t. P t \<Longrightarrow> P (snd (tls13_psk_tx E t))"
  shows "P (snd (tls13_psk_plainstream_deliver E data s))"
proof (cases "tl_phase s = PSK_DATA")
  case True
  obtain r u where c: "tls13_psk_cipher_record E TLS_TYPE_DATA data s = (r, u)" by fastforce
  then show ?thesis
  proof (cases rule: cipher_record_cases)
    case null
    then show ?thesis using c True P tick by (simp add: tls13_psk_plainstream_deliver_def)
  next
    case (built out)
    then show ?thesis using c True tx [OF data] by (simp add: tls13_psk_plainstream_deliver_def)
  qed
qed (simp add: tls13_psk_plainstream_deliver_def P)

text \<open>A handshake message is rejected, leaving at most the handshake context changed, or it is an
  accepted ServerHello, an accepted Finished message, or one that only extends the transcript.\<close>

lemma message_cases:
  assumes "handshake_message E msg s = (c, s')"
  obtains (rejected) e where "c = Err e" "s' = s \<or> (\<exists>hello. tls13_parse_server_hello msg = (OK, hello)) \<and>
      length (hs_transcript (tl_hs s)) + length msg \<le> TLS13_TRANSCRIPT_SIZE \<and>
      s' = s\<lparr>tl_hs := (tl_hs s)\<lparr>hs_transcript := hs_transcript (tl_hs s) @ msg\<rparr>\<rparr>"
  | (hello) h shared where "c = OK" "msg ! 0 = TLS_SERVER_HELLO" "tls13_parse_server_hello msg = (OK, h)"
      "sh_version h = TLS_VERSION_TLS_1_3" "sh_cipher_suite h = TLS_AES_128_GCM_SHA256" "sh_has_key_share h"
      "sh_has_psk h" "length (hs_transcript (tl_hs s)) + length msg \<le> TLS13_TRANSCRIPT_SIZE"
      "te_agree E (hs_private_key (tl_hs s)) (sh_public_key h) = Inr shared"
      "s' = hello_keys E ((tl_hs s)\<lparr>hs_transcript := hs_transcript (tl_hs s) @ msg,
         hs_handshake := tls13_handshake_secret (te_digest E) (hs_early (tl_hs s)) shared\<rparr>) s"
  | (finished) "c = OK" "msg ! 0 = TLS_FINISHED" "length msg = 36"
      "tls13_handshake_finished (te_digest E) (tl_hs s) (tl_server_hs s) = drop 4 msg"
      "length (hs_transcript (tl_hs s)) + length msg \<le> TLS13_TRANSCRIPT_SIZE"
      "s' = finished_keys E ((tl_hs s)\<lparr>hs_transcript := hs_transcript (tl_hs s) @ msg\<rparr>) s"
  | (extensions) "c = OK" "msg ! 0 = TLS_ENCRYPTED_EXTENSIONS"
      "length (hs_transcript (tl_hs s)) + length msg \<le> TLS13_TRANSCRIPT_SIZE"
      "s' = s\<lparr>tl_hs := (tl_hs s)\<lparr>hs_transcript := hs_transcript (tl_hs s) @ msg\<rparr>\<rparr>"
  | (ticket) "c = OK" "msg ! 0 = TLS_NEW_SESSION_TICKET" "s' = s"
proof -
  have nofault: "fst (tls13_parse_server_hello msg) \<noteq> Fault" by (rule server_hello_safe)
  note defs = handshake_message_def tls13_handshake_update_def tls13_handshake_exchange_def
  show thesis
  proof (cases "msg ! 0 = TLS_SERVER_HELLO")
    case True
    then have *: "tls13_psk_server_hello E msg s = (c, s')" using assms by (simp add: handshake_message_def)
    then show thesis
      using nofault rejected hello True
      by (auto simp: tls13_psk_server_hello_def tls13_handshake_update_def tls13_handshake_exchange_def
          split: prod.splits rc.splits if_splits sum.splits)
  next
    case not_hello: False
    show thesis
    proof (cases "msg ! 0 = TLS_FINISHED")
      case True
      then show thesis
        using assms rejected finished
        by (auto simp: handshake_message_def tls13_psk_server_finished_def tls13_handshake_update_def
            split: if_splits)
    next
      case False
      then show thesis
        using assms not_hello rejected extensions ticket
        by (auto simp: handshake_message_def tls13_handshake_update_def Let_def split: if_splits)
    qed
  qed
qed

lemma message_invariant:
  assumes "P s" and "\<And>hs. P (s\<lparr>tl_hs := (tl_hs s)\<lparr>hs_transcript := hs\<rparr>\<rparr>)"
    and "\<And>t k. P (hello_keys E ((tl_hs s)\<lparr>hs_transcript := t, hs_handshake := k\<rparr>) s)"
    and "\<And>t. P (finished_keys E ((tl_hs s)\<lparr>hs_transcript := t\<rparr>) s)"
  shows "P (snd (handshake_message E msg s))"
proof -
  obtain c s' where m: "handshake_message E msg s = (c, s')" by fastforce
  then have "P s'" by (cases rule: message_cases) (use assms in auto)
  with m show ?thesis by simp
qed

section \<open>Sequence numbers\<close>

definition seq_ok :: "tls13_psk \<Rightarrow> bool" where
  "seq_ok s \<longleftrightarrow> length (tl_rx s) \<le> TLS13_MAX_RECORD \<and> tl_tx_seq s = of_nat (length (tl_sealed s)) \<and>
     tl_sealed s = map of_nat [0..<length (tl_sealed s)]"

lemma seq_ok_updates [simp]:
  "seq_ok (s\<lparr>tl_clk := n\<rparr>) = seq_ok s" "seq_ok (s\<lparr>tl_events := es\<rparr>) = seq_ok s"
  "seq_ok (s\<lparr>tl_phase := p\<rparr>) = seq_ok s" "seq_ok (s\<lparr>tl_tx_iobuf := i\<rparr>) = seq_ok s"
  "seq_ok (s\<lparr>tl_wire := w\<rparr>) = seq_ok s" "seq_ok (s\<lparr>tl_plain := w\<rparr>) = seq_ok s"
  "seq_ok (s\<lparr>tl_hs := hs\<rparr>) = seq_ok s" "seq_ok (s\<lparr>tl_rx_seq := q\<rparr>) = seq_ok s"
  "seq_ok (tick s) = seq_ok s" "seq_ok (tls13_psk_fail r s) = seq_ok s" "seq_ok (tls13_psk_close r s) = seq_ok s"
  "seq_ok ((tls13_psk_set_key E PSK_TX k s)\<lparr>tl_tx_seq := 0\<rparr>) = (length (tl_rx s) \<le> TLS13_MAX_RECORD)"
  by (simp_all add: seq_ok_def tick_def tls13_psk_fail_def tls13_psk_close_def tls13_psk_set_key_def
      split: prod.split)

lemma seq_ok_keys: "seq_ok s \<Longrightarrow> seq_ok (hello_keys E hs s)" "seq_ok s \<Longrightarrow> seq_ok (finished_keys E hs s)"
  by (simp_all add: seq_ok_def hello_keys_def finished_keys_def tls13_psk_set_key_def Let_def split: prod.split)

lemma seq_ok_sealed:
  assumes "tls13_psk_cipher_record E t data s = (Some r, u)" "seq_ok s"
  shows "seq_ok u"
  using assms(1) by (cases rule: cipher_record_cases) (use assms(2) in \<open>auto simp: seq_ok_def add.commute\<close>)

lemma seq_ok_tx: "seq_ok s \<Longrightarrow> seq_ok (snd (tls13_psk_tx E s))"
proof (erule tx_invariant)
  fix t r u
  assume "seq_ok t" "tls13_psk_client_hello E t = (OK, r, u)"
  from this(2) show "seq_ok (u\<lparr>tl_tx_iobuf := Some r, tl_phase := PSK_SERVER_FLIGHT\<rparr>)"
    by (cases rule: client_hello_cases) (use \<open>seq_ok t\<close> in auto)
next
  fix t r
  assume "seq_ok t"
  then show "seq_ok ((tls13_psk_set_key E PSK_TX (tl_client_ap t)
      ((tick t)\<lparr>tl_wire := tl_wire t @ [r], tl_tx_iobuf := None\<rparr>))\<lparr>tl_tx_seq := 0, tl_phase := PSK_DATA\<rparr>)"
    by (auto simp: seq_ok_def)
qed (auto dest: seq_ok_sealed)

lemma seq_ok_message: "seq_ok s \<Longrightarrow> seq_ok (snd (handshake_message E msg s))"
  by (rule message_invariant) (auto simp: seq_ok_keys)

interpretation seqs: conn_machine E seq_ok for E
proof unfold_locales
  fix s msg data r n ps b
  assume ok: "seq_ok s"
  show "seq_ok (snd (handshake_message E msg s))" using ok by (rule seq_ok_message)
  show "seq_ok (snd (tls13_psk_plainstream_deliver E data s))"
    by (rule plain_send_invariant) (use ok in \<open>auto intro: seq_ok_tx dest: seq_ok_sealed\<close>)
  show "seq_ok (snd (tls13_psk_tx E s))" using ok by (rule seq_ok_tx)
  show "seq_ok (s\<lparr>tl_rx := b\<rparr>)" if "length b \<le> TLS13_MAX_RECORD" using ok that by (simp add: seq_ok_def)
  show "length (tl_rx s) \<le> TLS13_MAX_RECORD" using ok by (simp add: seq_ok_def)
qed simp_all

section \<open>What goes on the wire\<close>

definition hello_record :: "bytes \<Rightarrow> bool" where
  "hello_record r \<longleftrightarrow> (\<exists>ch. r = record_header TLS_TYPE_HANDSHAKE (length ch) @ ch \<and> length ch \<le> TLS13_MAX_CLIENT_HELLO \<and>
     ch \<noteq> [] \<and> ch ! 0 = TLS_CLIENT_HELLO)"

definition sealed_record :: "tls_env \<Rightarrow> bytes \<Rightarrow> bool" where
  "sealed_record E r \<longleftrightarrow> (\<exists>key iv seq t data out.
     tls13_seal (te_cipher E) key iv seq (record_header TLS_TYPE_DATA (length out)) data t = Some out \<and>
     r = record_header TLS_TYPE_DATA (length out) @ out)"

definition outgoing :: "tls13_psk \<Rightarrow> bytes list" where
  "outgoing s = tl_wire s @ (case tl_tx_iobuf s of None \<Rightarrow> [] | Some r \<Rightarrow> [r])"

text \<open>Of the records sent and pending, only the first may be something else than a sealed record, and
  then it is a ClientHello; none exists before the ClientHello is built.\<close>

definition records_ok :: "tls_env \<Rightarrow> bytes list \<Rightarrow> bool" where
  "records_ok E rs \<longleftrightarrow> (rs \<noteq> [] \<longrightarrow> hello_record (hd rs) \<or> sealed_record E (hd rs)) \<and> list_all (sealed_record E) (tl rs)"

definition wire_ok :: "tls_env \<Rightarrow> tls13_psk \<Rightarrow> bool" where
  "wire_ok E s \<longleftrightarrow> length (tl_rx s) \<le> TLS13_MAX_RECORD \<and> (tl_phase s = PSK_CLIENT_HELLO \<longrightarrow> outgoing s = []) \<and>
     records_ok E (outgoing s)"

lemma records_ok_snoc: "records_ok E rs \<Longrightarrow> sealed_record E r \<Longrightarrow> records_ok E (rs @ [r])"
  by (cases rs) (auto simp: records_ok_def)

lemma records_ok_prefix: "records_ok E (rs @ ss) \<Longrightarrow> records_ok E rs"
  by (cases rs) (auto simp: records_ok_def)

lemma outgoing_updates [simp]:
  "outgoing (s\<lparr>tl_clk := n\<rparr>) = outgoing s" "outgoing (s\<lparr>tl_events := es\<rparr>) = outgoing s"
  "outgoing (s\<lparr>tl_phase := p\<rparr>) = outgoing s" "outgoing (s\<lparr>tl_plain := w\<rparr>) = outgoing s"
  "outgoing (s\<lparr>tl_hs := hs\<rparr>) = outgoing s" "outgoing (s\<lparr>tl_rx_seq := q\<rparr>) = outgoing s"
  "outgoing (s\<lparr>tl_tx_seq := q\<rparr>) = outgoing s" "outgoing (s\<lparr>tl_sealed := l\<rparr>) = outgoing s"
  "outgoing (s\<lparr>tl_rx := b\<rparr>) = outgoing s" "outgoing (tick s) = outgoing s"
  "outgoing (tls13_psk_set_key E d k s) = outgoing s" "outgoing (tls13_psk_close r s) = outgoing s"
  "outgoing (tls13_psk_fail r s) = outgoing s"
  by (simp_all add: outgoing_def tls13_psk_close_def tls13_psk_fail_def)

lemma sealed_record_built:
  assumes "tls13_psk_cipher_record E t data s = (Some r, u)"
  shows "sealed_record E r \<and> tl_wire u = tl_wire s \<and> tl_phase u = tl_phase s \<and> tl_rx u = tl_rx s"
  using assms
proof (cases rule: cipher_record_cases)
  case (built out)
  then have "sealed_record E r"
    unfolding sealed_record_def
    by (intro exI [of _ "tl_tx_key s"] exI [of _ "tl_tx_iv s"] exI [of _ "tl_tx_seq s"] exI [of _ t]
        exI [of _ data] exI [of _ out]) simp
  with built show ?thesis by simp
qed simp

lemma client_hello_first:
  assumes "tls13_client_hello d n random pk psk ident l = (OK, ch)"
  shows "length ch \<le> n \<and> ch \<noteq> [] \<and> ch ! 0 = TLS_CLIENT_HELLO"
  using assms by (auto simp: tls13_client_hello_def ch_truncated_def Let_def split: if_splits)

lemma hello_record_built:
  assumes "tls13_psk_client_hello E s = (OK, r, u)"
  shows "hello_record r \<and> tl_wire u = tl_wire s \<and> tl_rx u = tl_rx s"
  using assms by (cases rule: client_hello_cases) (auto simp: hello_record_def dest: client_hello_first)

lemma wire_ok_updates [simp]:
  "wire_ok E (s\<lparr>tl_clk := n\<rparr>) = wire_ok E s" "wire_ok E (s\<lparr>tl_events := es\<rparr>) = wire_ok E s"
  "wire_ok E (s\<lparr>tl_plain := w\<rparr>) = wire_ok E s" "wire_ok E (s\<lparr>tl_hs := hs\<rparr>) = wire_ok E s"
  "wire_ok E (s\<lparr>tl_rx_seq := q\<rparr>) = wire_ok E s" "wire_ok E (tick s) = wire_ok E s"
  by (simp_all add: wire_ok_def)

lemma wire_ok_fail: "wire_ok E s \<Longrightarrow> wire_ok E (tls13_psk_fail r s)" "wire_ok E s \<Longrightarrow> wire_ok E (tls13_psk_close r s)"
  by (simp_all add: wire_ok_def tls13_psk_fail_def tls13_psk_close_def)

lemma wire_ok_pending:
  assumes "tls13_psk_cipher_record E t data s = (Some r, u)" "wire_ok E s" "tl_phase s \<noteq> PSK_CLIENT_HELLO"
  shows "wire_ok E (u\<lparr>tl_tx_iobuf := Some r\<rparr>)"
proof -
  note b = sealed_record_built [OF assms(1)]
  have "records_ok E (tl_wire s)" using assms(2) by (auto simp: wire_ok_def outgoing_def dest: records_ok_prefix)
  then show ?thesis using b assms(2,3) by (simp add: wire_ok_def outgoing_def records_ok_snoc)
qed

lemma wire_ok_sent:
  "wire_ok E t \<Longrightarrow> tl_tx_iobuf t = Some r \<Longrightarrow> wire_ok E ((tick t)\<lparr>tl_wire := tl_wire t @ [r], tl_tx_iobuf := None\<rparr>)"
  by (auto simp: wire_ok_def outgoing_def)

lemma wire_ok_tx: "wire_ok E s \<Longrightarrow> wire_ok E (snd (tls13_psk_tx E s))"
proof (erule tx_invariant)
  fix t r u
  assume t: "wire_ok E t" "tl_phase t = PSK_CLIENT_HELLO" and u: "tls13_psk_client_hello E t = (OK, r, u)"
  from t have "tl_wire t = []" by (simp add: wire_ok_def outgoing_def)
  then show "wire_ok E (u\<lparr>tl_tx_iobuf := Some r, tl_phase := PSK_SERVER_FLIGHT\<rparr>)"
    using hello_record_built [OF u] t by (simp add: wire_ok_def outgoing_def records_ok_def)
next
  fix t r
  assume t: "wire_ok E t" "tl_tx_iobuf t = Some r"
  then show "wire_ok E ((tls13_psk_set_key E PSK_TX (tl_client_ap t)
      ((tick t)\<lparr>tl_wire := tl_wire t @ [r], tl_tx_iobuf := None\<rparr>))\<lparr>tl_tx_seq := 0, tl_phase := PSK_DATA\<rparr>)"
    using wire_ok_sent [OF t] by (auto simp: wire_ok_def)
qed (auto intro: wire_ok_fail wire_ok_pending wire_ok_sent)

lemma wire_ok_message: "wire_ok E s \<Longrightarrow> wire_ok E (snd (handshake_message E msg s))"
  by (rule message_invariant) (auto simp: wire_ok_def hello_keys_def finished_keys_def outgoing_def Let_def)

interpretation wire: conn_machine E "wire_ok E" for E
proof unfold_locales
  fix s msg data r n ps b
  assume ok: "wire_ok E s"
  show "wire_ok E (snd (handshake_message E msg s))" using ok by (rule wire_ok_message)
  show "wire_ok E (snd (tls13_psk_plainstream_deliver E data s))"
    by (rule plain_send_invariant) (use ok in \<open>auto intro: wire_ok_tx wire_ok_pending\<close>)
  show "wire_ok E (snd (tls13_psk_tx E s))" using ok by (rule wire_ok_tx)
  show "wire_ok E (s\<lparr>tl_rx := b\<rparr>)" if "length b \<le> TLS13_MAX_RECORD" using ok that by (simp add: wire_ok_def)
  show "length (tl_rx s) \<le> TLS13_MAX_RECORD" using ok by (simp add: wire_ok_def)
qed (simp_all add: wire_ok_fail)

section \<open>Sizes\<close>

text \<open>What the connection relies on: SHA-256 with 32-byte outputs, an AEAD cipher with a 16-byte tag,
  32-byte X25519 keys and secrets, random numbers of the requested length, and a consumer that does
  not itself leave its buffers.\<close>

definition digest_ok :: "tls_digest \<Rightarrow> bool" where
  "digest_ok d \<longleftrightarrow> td_size d = 32 \<and> (\<forall>x. length (td_hash d x) = 32) \<and> (\<forall>k x. length (td_hmac d k x) = 32) \<and>
     (\<forall>k x. length (td_extract d k x) = 32) \<and> (\<forall>k x n. length (td_expand d k x n) = n)"

definition tls_env_ok :: "tls_env \<Rightarrow> bool" where
  "tls_env_ok E \<longleftrightarrow> digest_ok (te_digest E) \<and> aead_ok (te_cipher E) \<and> tc_authsize (te_cipher E) = 16 \<and>
     (\<forall>n l b. te_rbg E n l = Inr b \<longrightarrow> length b = l) \<and> (\<forall>p q. te_share E p = Inr q \<longrightarrow> length q = 32) \<and>
     (\<forall>n b. snd (te_consume E n b) \<noteq> Fault) \<and> (\<forall>n. te_open E n \<noteq> Fault)"

definition sizes_ok :: "tls13_psk \<Rightarrow> bool" where
  "sizes_ok s \<longleftrightarrow> length (hs_transcript (tl_hs s)) \<le> TLS13_TRANSCRIPT_SIZE \<and> length (hs_public_key (tl_hs s)) = 32 \<and>
     length (tl_client_hs s) = 32 \<and> length (tl_server_hs s) = 32 \<and> length (tl_client_ap s) = 32 \<and>
     length (tl_server_ap s) = 32 \<and> length (tl_tx_key s) = TLS13_KEY_LEN \<and> length (tl_tx_iv s) = TLS13_NONCE_LEN \<and>
     length (tl_rx_key s) = TLS13_KEY_LEN \<and> length (tl_rx_iv s) = TLS13_NONCE_LEN"

definition conn_sizes :: "tls_env \<Rightarrow> tls13_psk \<Rightarrow> bool" where
  "conn_sizes E s \<longleftrightarrow> length (tl_rx s) \<le> TLS13_MAX_RECORD \<and> (tls_env_ok E \<longrightarrow> sizes_ok s)"

lemma sizes_ok_updates [simp]:
  "sizes_ok (s\<lparr>tl_clk := n\<rparr>) = sizes_ok s" "sizes_ok (s\<lparr>tl_events := es\<rparr>) = sizes_ok s"
  "sizes_ok (s\<lparr>tl_phase := p\<rparr>) = sizes_ok s" "sizes_ok (s\<lparr>tl_tx_iobuf := i\<rparr>) = sizes_ok s"
  "sizes_ok (s\<lparr>tl_wire := w\<rparr>) = sizes_ok s" "sizes_ok (s\<lparr>tl_plain := w\<rparr>) = sizes_ok s"
  "sizes_ok (s\<lparr>tl_tx_seq := q\<rparr>) = sizes_ok s" "sizes_ok (s\<lparr>tl_rx_seq := q\<rparr>) = sizes_ok s"
  "sizes_ok (s\<lparr>tl_rx := b\<rparr>) = sizes_ok s" "sizes_ok (s\<lparr>tl_sealed := l\<rparr>) = sizes_ok s"
  "sizes_ok (tick s) = sizes_ok s" "sizes_ok (tls13_psk_fail r s) = sizes_ok s" "sizes_ok (tls13_psk_close r s) = sizes_ok s"
  by (simp_all add: sizes_ok_def tick_def tls13_psk_fail_def tls13_psk_close_def)

lemma traffic_key_sizes:
  "digest_ok d \<Longrightarrow> length (fst (tls13_traffic_key d k m n)) = m \<and> length (snd (tls13_traffic_key d k m n)) = n"
  by (simp add: digest_ok_def tls13_traffic_key_def tls13_expand_label_def)

lemma derive_size: "digest_ok d \<Longrightarrow> length (tls13_handshake_derive d hs k l) = 32"
  by (simp add: digest_ok_def tls13_handshake_derive_def tls13_derive_secret_def tls13_expand_label_def)

lemma sizes_ok_set_key: "digest_ok (te_digest E) \<Longrightarrow> sizes_ok s \<Longrightarrow> sizes_ok (tls13_psk_set_key E d k s)"
  by (cases d) (simp_all add: sizes_ok_def traffic_key_sizes)

lemma sizes_ok_keys:
  assumes "digest_ok (te_digest E)" "sizes_ok s" "length (hs_transcript hs) \<le> TLS13_TRANSCRIPT_SIZE"
    "length (hs_public_key hs) = 32"
  shows "sizes_ok (hello_keys E hs s)" "sizes_ok (finished_keys E hs s)"
  using assms
  by (simp_all add: sizes_ok_def hello_keys_def finished_keys_def Let_def traffic_key_sizes derive_size
      tls13_handshake_master_def)

lemma sizes_ok_message:
  assumes "digest_ok (te_digest E)" "sizes_ok s"
  shows "sizes_ok (snd (handshake_message E msg s))"
proof -
  obtain c t where m: "handshake_message E msg s = (c, t)" by fastforce
  then have "sizes_ok t"
  proof (cases rule: message_cases)
    case (hello h shared)
    then show ?thesis using assms sizes_ok_keys(1) [OF assms] by (simp add: sizes_ok_def)
  next
    case finished
    then show ?thesis using assms sizes_ok_keys(2) [OF assms] by (simp add: sizes_ok_def)
  qed (use assms(2) in \<open>auto simp: sizes_ok_def\<close>)
  with m show ?thesis by simp
qed

lemma sizes_ok_tx:
  assumes "digest_ok (te_digest E)" "sizes_ok s"
  shows "sizes_ok (snd (tls13_psk_tx E s))"
  using assms(2)
proof (rule tx_invariant)
  fix t r u
  assume t: "sizes_ok t" and u: "tls13_psk_client_hello E t = (OK, r, u)"
  from u show "sizes_ok (u\<lparr>tl_tx_iobuf := Some r, tl_phase := PSK_SERVER_FLIGHT\<rparr>)"
    by (cases rule: client_hello_cases) (use t in \<open>auto simp: sizes_ok_def\<close>)
next
  fix t r u
  assume t: "sizes_ok t"
    and u: "tls13_psk_cipher_record E TLS_TYPE_HANDSHAKE (finished_message E t) t = (Some r, u)"
  from u show "sizes_ok (u\<lparr>tl_tx_iobuf := Some r\<rparr>)" by (cases rule: cipher_record_cases) (use t in auto)
qed (use assms(1) in \<open>auto intro: sizes_ok_set_key\<close>)

lemma conn_sizes_rx: "conn_sizes E s \<Longrightarrow> tl_rx t = tl_rx s \<Longrightarrow> (tls_env_ok E \<Longrightarrow> sizes_ok s \<Longrightarrow> sizes_ok t) \<Longrightarrow> conn_sizes E t"
  by (auto simp: conn_sizes_def)

lemma tls_env_digest: "tls_env_ok E \<Longrightarrow> digest_ok (te_digest E)"
  by (simp add: tls_env_ok_def)

interpretation sizes: conn_machine E "conn_sizes E" for E
proof unfold_locales
  fix s msg data r n ps b
  assume ok: "conn_sizes E s"
  note tx = conn_sizes_rx [OF _ tx_rx sizes_ok_tx [OF tls_env_digest]]
  show "conn_sizes E (snd (handshake_message E msg s))"
    using ok by (rule conn_sizes_rx) (simp_all add: sizes_ok_message tls_env_digest)
  show "conn_sizes E (snd (tls13_psk_plainstream_deliver E data s))"
  proof (rule plain_send_invariant)
    show "conn_sizes E (u\<lparr>tl_tx_iobuf := Some r\<rparr>)"
      if "tls13_psk_cipher_record E TLS_TYPE_DATA data s = (Some r, u)" for r u
      using that by (cases rule: cipher_record_cases) (use ok in \<open>auto simp: conn_sizes_def\<close>)
  qed (use ok tx in \<open>auto simp: conn_sizes_def\<close>)
  show "conn_sizes E (snd (tls13_psk_tx E s))" using ok by (intro tx)
  show "length (tl_rx s) \<le> TLS13_MAX_RECORD" using ok by (simp add: conn_sizes_def)
qed (simp_all add: conn_sizes_def)

section \<open>No faults\<close>

definition started :: "tls13_psk \<Rightarrow> bool" where
  "started s \<longleftrightarrow> length (tl_rx s) \<le> TLS13_MAX_RECORD \<and> tl_phase s \<noteq> PSK_CLIENT_HELLO"

lemma started_tick [simp]: "started (tick s) = started s"
  by (simp add: started_def)

lemma started_tx:
  assumes "started s"
  shows "started (snd (tls13_psk_tx E s))"
  using assms
proof (rule tx_invariant)
  show "started (u\<lparr>tl_tx_iobuf := Some r\<rparr>)"
    if "started t" "tls13_psk_cipher_record E TLS_TYPE_HANDSHAKE (finished_message E t) t = (Some r, u)" for t r u
    using sealed_record_built [OF that(2)] that(1) by (simp add: started_def)
qed (auto simp: started_def tls13_psk_fail_def)

interpretation started: conn_machine E started for E
proof unfold_locales
  fix s msg data r n ps b
  assume ok: "started s"
  show "started (snd (handshake_message E msg s))"
    by (rule message_invariant) (use ok in \<open>auto simp: started_def hello_keys_def finished_keys_def Let_def\<close>)
  show "started (snd (tls13_psk_plainstream_deliver E data s))"
  proof (rule plain_send_invariant)
    show "started (u\<lparr>tl_tx_iobuf := Some r\<rparr>)"
      if "tls13_psk_cipher_record E TLS_TYPE_DATA data s = (Some r, u)" for r u
      using sealed_record_built [OF that] ok by (simp add: started_def)
  qed (use ok started_tx in \<open>auto simp: started_tick\<close>)
  show "started (snd (tls13_psk_tx E s))" using ok by (rule started_tx)
qed (auto simp: started_def tls13_psk_close_def tls13_psk_fail_def)

lemma tx_nofault: "started s \<Longrightarrow> fst (tls13_psk_tx E s) = OK"
proof -
  assume s: "started s"
  obtain c t where t: "tx_construct E s = (c, t)" by fastforce
  then have "c = OK" by (cases rule: tx_construct_cases) (use s in \<open>auto simp: started_def\<close>)
  with t show ?thesis by (simp add: tls13_psk_tx_def Let_def)
qed

lemma plain_nofault:
  assumes s: "started s"
  shows "fst (tls13_psk_plainstream_deliver E data s) \<noteq> Fault"
proof -
  obtain r t where c: "tls13_psk_cipher_record E TLS_TYPE_DATA data s = (r, t)" by fastforce
  show ?thesis
  proof (cases r)
    case (Some q)
    then have "started (t\<lparr>tl_tx_iobuf := Some q\<rparr>)"
      using sealed_record_built [of E TLS_TYPE_DATA data s q t] c s by (simp add: started_def)
    then show ?thesis using c Some tx_nofault [of "t\<lparr>tl_tx_iobuf := Some q\<rparr>" E]
      by (simp add: tls13_psk_plainstream_deliver_def)
  qed (use c in \<open>simp add: tls13_psk_plainstream_deliver_def\<close>)
qed

lemma calls_nofault: "started s \<Longrightarrow> fst (consumer_calls E cs s) \<noteq> Fault"
proof (induction cs arbitrary: s)
  case (Cons c cs)
  show ?case
  proof (cases c)
    case (Send data)
    obtain r t where t: "tls13_psk_plainstream_deliver E data s = (r, t)" by fastforce
    moreover have "started t" using started.plain_send [OF Cons.prems, of E data] t by simp
    ultimately show ?thesis
      using plain_nofault [OF Cons.prems, of E data] Cons.IH [of t] by (cases r) (simp_all add: Send)
  next
    case (Close r)
    then show ?thesis using Cons.IH [OF started.shut [OF Cons.prems]] by simp
  qed
qed simp

lemma deliver_nofault:
  assumes "tls_env_ok E" "started s"
  shows "fst (tls13_psk_deliver E data s) \<noteq> Fault"
proof -
  obtain cs r where c: "te_consume E (tl_clk s) data = (cs, r)" by fastforce
  have "r \<noteq> Fault" using assms(1) c by (metis snd_conv tls_env_ok_def)
  moreover have "started ((tick s)\<lparr>tl_plain := ps\<rparr>)" for ps using assms(2) by (simp add: started_def)
  then have "fst (consumer_calls E cs ((tick s)\<lparr>tl_plain := tl_plain s @ [data]\<rparr>)) \<noteq> Fault" by (rule calls_nofault)
  ultimately show ?thesis
    using c by (auto simp: tls13_psk_deliver_def Let_def then_ok_def split: prod.splits rc.splits)
qed

lemma message_nofault: "fst (handshake_message E msg s) \<noteq> Fault"
  by (cases "handshake_message E msg s") (auto elim: message_cases)

lemma handshake_nofault: "fst (tls13_psk_handshake E data s) \<noteq> Fault"
proof (induction E data s rule: tls13_psk_handshake.induct)
  case (1 E data s)
  let ?t = "4 + of_be (get_at 1 3 data)"
  obtain r t where t: "handshake_message E (take ?t data) s = (r, t)" by fastforce
  with message_nofault [of E "take ?t data" s] have "r \<noteq> Fault" by simp
  then show ?case using t "1.IH"
    by (subst tls13_psk_handshake.simps) (cases r; simp add: Let_def)
qed

lemma record_nofault:
  assumes "tls_env_ok E" "started s"
  shows "fst (tls13_psk_record E r s) \<noteq> Fault"
proof -
  have "started (s\<lparr>tl_rx_seq := n\<rparr>)" for n using assms(2) by (simp add: started_def)
  then have "fst (tls13_psk_deliver E d (s\<lparr>tl_rx_seq := n\<rparr>)) \<noteq> Fault" for d n
    using deliver_nofault [OF assms(1)] by blast
  then show ?thesis
    by (simp add: tls13_psk_record_def Let_def handshake_nofault split: sum.split prod.split)
qed

lemma rx_nofault: "tls_env_ok E \<Longrightarrow> started s \<Longrightarrow> fst (tls13_psk_rx E s) = OK"
proof (induction E s rule: tls13_psk_rx.induct)
  case (1 E s)
  let ?n = "record_total (tl_rx s)"
  obtain r t where t: "tls13_psk_record E (take ?n (tl_rx s)) s = (r, t)" by fastforce
  have "started t" using started.record_step [OF "1.prems"(2), of E "take ?n (tl_rx s)"] t by simp
  then have st: "started (t\<lparr>tl_rx := drop ?n (tl_rx t)\<rparr>)" by (auto simp: started_def)
  obtain r' u where u: "tls13_psk_tx E (t\<lparr>tl_rx := drop ?n (tl_rx t)\<rparr>) = (r', u)" by fastforce
  have "r' = OK" "started u" using tx_nofault [OF st, of E] started_tx [OF st, of E] u by simp_all
  moreover have "r \<noteq> Fault" using record_nofault [OF "1.prems", of "take ?n (tl_rx s)"] t by simp
  ultimately show ?case using t u "1.IH" [OF refl _ _ _ t [symmetric] _ u [symmetric]] "1.prems"(1)
    by (subst tls13_psk_rx.simps) (cases r; simp add: Let_def)
qed

end
