(* ===== verification/Tls13_Conn_Props.thy ===== *)
theory Tls13_Conn_Props
  imports Tls13_Conn_Inv
begin

text \<open>
  The theorems about the TLS 1.3 connection: safety of every reachable state, uniqueness of nonces, what
  the wire carries, the data round trip, completion of the handshake with an honest server, and the
  two ways in which a peer without the pre-shared key is accepted.
\<close>

section \<open>Reachable states\<close>

lemma zero_conn_simps [simp]:
  "tl_phase zero_conn = PSK_CLIENT_HELLO" "tl_rx zero_conn = []" "tl_tx_iobuf zero_conn = None"
  "tl_wire zero_conn = []" "tl_sealed zero_conn = []" "tl_tx_seq zero_conn = 0" "tl_rx_seq zero_conn = 0"
  "tl_plain zero_conn = []" "tl_server_hs zero_conn = replicate 32 0"
  "tl_rx_key zero_conn = replicate TLS13_KEY_LEN 0" "tl_rx_iv zero_conn = replicate TLS13_NONCE_LEN 0"
  by (simp_all add: zero_conn_def)

text \<open>The state in which a new connection first transmits.\<close>

definition new_conn :: "tls_env \<Rightarrow> bytes \<Rightarrow> string \<Rightarrow> bytes \<Rightarrow> bytes \<Rightarrow> tls13_psk" where
  "new_conn E psk identity priv pub =
     zero_conn\<lparr>tl_psk := psk, tl_identity := identity, tl_clk := 5,
       tl_hs := (tls13_handshake_init (te_digest E) (Some psk) ''ext binder'')\<lparr>hs_private_key := priv, hs_public_key := pub\<rparr>\<rparr>"

lemma add_cases:
  assumes "add_tls13_psk E n psk identity = (c, s)"
  obtains (failed) e where "c = Err e"
  | (fault) "c = Fault" "te_open E 4 = Fault"
  | (tx) priv pub where "te_rbg E 3 32 = Inr priv" "te_share E priv = Inr pub" "te_open E 4 = OK"
      "(c, s) = tls13_psk_tx E (new_conn E psk identity priv pub)"
proof (cases "te_alloc E 0 n \<and> te_alloc E 1 (length psk) \<and> te_alloc E 2 (length identity + 1)")
  case True
  note defs = add_tls13_psk_def Let_def tls13_generate_key_def new_conn_def zero_conn_def
  show thesis
  proof (cases "te_rbg E 3 32")
    case (Inl e)
    then show thesis using assms True failed by (auto simp: defs)
  next
    case rbg: (Inr priv)
    show thesis
    proof (cases "te_share E priv")
      case (Inl e)
      then show thesis using assms True rbg failed by (auto simp: defs)
    next
      case share: (Inr pub)
      show thesis
      proof (cases "te_open E 4")
        case OK
        then show thesis using assms True rbg share tx [OF rbg share OK] by (simp add: defs)
      next
        case (Err e)
        then show thesis using assms True rbg share by (intro failed [of e]) (simp add: defs)
      next
        case Fault
        then show thesis using assms True rbg share by (intro fault) (simp_all add: defs)
      qed
    qed
  qed
qed (use assms failed in \<open>auto simp: add_tls13_psk_def Let_def split: if_splits\<close>)

text \<open>An invariant that holds when the first transmission starts holds in every reachable state.\<close>

lemma reachable_invariant:
  assumes "conn_machine E P" "tls_reachable E psk identity s"
    and "\<And>priv pub. te_rbg E 3 32 = Inr priv \<Longrightarrow> te_share E priv = Inr pub \<Longrightarrow> P (new_conn E psk identity priv pub)"
  shows "P s"
proof -
  from assms(2) obtain n s0 where s0: "add_tls13_psk E n psk identity = (OK, s0)" "(tls_step E)\<^sup>*\<^sup>* s0 s"
    by (auto simp: tls_reachable_def)
  from s0(1) have "P s0"
  proof (cases rule: add_cases)
    case (tx priv pub)
    then show ?thesis using conn_machine.transmit [OF assms(1) assms(3)] by (metis snd_conv)
  qed simp_all
  with s0(2) show ?thesis
    by (induction rule: rtranclp_induct) (auto intro: conn_machine.event [OF assms(1)])
qed

lemma new_conn_simps [simp]:
  "tl_phase (new_conn E psk ident priv pub) = PSK_CLIENT_HELLO" "tl_rx (new_conn E psk ident priv pub) = []"
  "tl_tx_iobuf (new_conn E psk ident priv pub) = None" "tl_wire (new_conn E psk ident priv pub) = []"
  "tl_sealed (new_conn E psk ident priv pub) = []" "tl_tx_seq (new_conn E psk ident priv pub) = 0"
  "outgoing (new_conn E psk ident priv pub) = []" "tl_rx_seq (new_conn E psk ident priv pub) = 0"
  "tl_identity (new_conn E psk ident priv pub) = ident" "tl_psk (new_conn E psk ident priv pub) = psk"
  "tl_clk (new_conn E psk ident priv pub) = 5" "tl_plain (new_conn E psk ident priv pub) = []"
  "hs_public_key (tl_hs (new_conn E psk ident priv pub)) = pub"
  "hs_transcript (tl_hs (new_conn E psk ident priv pub)) = []"
  "hs_handshake (tl_hs (new_conn E psk ident priv pub)) = replicate 32 0"
  "tl_server_hs (new_conn E psk ident priv pub) = replicate 32 0"
  "tl_rx_key (new_conn E psk ident priv pub) = replicate TLS13_KEY_LEN 0"
  "tl_rx_iv (new_conn E psk ident priv pub) = replicate TLS13_NONCE_LEN 0"
  by (simp_all add: new_conn_def outgoing_def tls13_handshake_init_def)

lemma new_conn_sizes: "tls_env_ok E \<Longrightarrow> te_share E priv = Inr pub \<Longrightarrow> sizes_ok (new_conn E psk ident priv pub)"
  by (simp add: sizes_ok_def new_conn_def zero_conn_def tls_env_ok_def tls13_handshake_init_def)

text \<open>The first transmission fails the connection, or builds the ClientHello and sends it when the
  window is open.\<close>

lemma first_tx_cases:
  assumes "tls13_psk_tx E (new_conn E psk identity priv pub) = (c, s)"
  obtains (fault) "c = Fault"
  | (failed) t where "c = OK" "s = tls13_psk_fail (Err EINVAL) ((new_conn E psk identity priv pub)\<lparr>tl_clk := t\<rparr>)"
  | (hello) r t where "c = OK" "tls13_psk_client_hello E (new_conn E psk identity priv pub) = (OK, r, t)"
      "s = (tx_flush E (t\<lparr>tl_tx_iobuf := Some r, tl_phase := PSK_SERVER_FLIGHT\<rparr>))\<lparr>tl_events :=
         tl_events (tx_flush E (t\<lparr>tl_tx_iobuf := Some r, tl_phase := PSK_SERVER_FLIGHT\<rparr>)) @ [WindowChanged]\<rparr>"
proof -
  let ?s = "new_conn E psk identity priv pub"
  obtain d r t where ch: "tls13_psk_client_hello E ?s = (d, r, t)" using prod_cases3 by blast
  have con: "tx_construct E ?s = (case d of OK \<Rightarrow> (OK, t\<lparr>tl_tx_iobuf := Some r, tl_phase := PSK_SERVER_FLIGHT\<rparr>)
      | Fault \<Rightarrow> (Fault, t) | Err e \<Rightarrow> (OK, tls13_psk_fail (Err EINVAL) t))"
    by (cases d) (simp_all add: tx_construct_def ch)
  note tx = assms [unfolded tls13_psk_tx_def con, simplified]
  from ch show thesis
  proof (cases rule: client_hello_cases)
    case (null e n)
    then show thesis using tx failed [of n] by (simp add: tls13_psk_fail_def)
  next
    case (fault random n)
    then show thesis using tx that(1) by simp
  next
    case (built random m n)
    then show thesis using tx ch hello by (simp add: Let_def)
  qed
qed

lemma reachable_started:
  assumes "tls_reachable E psk identity s"
  shows "started s"
proof -
  from assms obtain n s0 where s0: "add_tls13_psk E n psk identity = (OK, s0)" "(tls_step E)\<^sup>*\<^sup>* s0 s"
    by (auto simp: tls_reachable_def)
  from s0(1) have "started s0"
  proof (cases rule: add_cases)
    case (tx priv pub)
    from tx(4) [symmetric] show ?thesis
    proof (cases rule: first_tx_cases)
      case (hello r t)
      let ?t = "t\<lparr>tl_tx_iobuf := Some r, tl_phase := PSK_SERVER_FLIGHT\<rparr>"
      have "started (tx_flush E ?t)"
        by (cases rule: tx_flush_cases [of E ?t])
          (use hello_record_built [OF hello(2)] in \<open>auto simp: started_def\<close>)
      then show ?thesis using hello(3) by (simp add: started_def)
    qed (simp_all add: started_def tls13_psk_fail_def)
  qed simp_all
  with s0(2) show ?thesis
    by (induction rule: rtranclp_induct) (auto intro: started.event)
qed

section \<open>Creation\<close>

text \<open>An environment in which resources never run out and the cipher takes keys and nonces of the right
  size.\<close>

definition tls_generous :: "tls_env \<Rightarrow> bool" where
  "tls_generous E \<longleftrightarrow> tls_env_ok E \<and> (\<forall>n l. te_alloc E n l) \<and> (\<forall>n. te_window E n \<noteq> 0) \<and> (\<forall>n. te_open E n = OK) \<and>
     (\<forall>n l. \<exists>b. te_rbg E n l = Inr b) \<and> (\<forall>p. \<exists>q. te_share E p = Inr q) \<and>
     (\<forall>k. length k = TLS13_KEY_LEN \<longrightarrow> tc_setkey (te_cipher E) k) \<and>
     (\<forall>v. length v = TLS13_NONCE_LEN \<longrightarrow> tc_setiv (te_cipher E) v)"

lemma client_hello_outcome:
  assumes "digest_ok d" "length random = 32" "length pk = 32"
  shows "fst (tls13_client_hello d TLS13_MAX_CLIENT_HELLO random pk psk ident l) =
      (if length ident \<le> 355 then OK else if length ident \<le> 359 then Fault else Err EINVAL)"
    "fst (tls13_client_hello d TLS13_MAX_CLIENT_HELLO random pk psk ident l) = OK \<Longrightarrow>
     length (snd (tls13_client_hello d TLS13_MAX_CLIENT_HELLO random pk psk ident l)) = 157 + length ident"
  using assms
  by (simp_all add: tls13_client_hello_def client_hello_needed_def Let_def length_ch_truncated
      digest_ok_def tls13_binder_def tls13_finished_def split: if_splits)

text \<open>The connection after its ClientHello went out.\<close>

definition hello_sent :: "tls_env \<Rightarrow> bytes \<Rightarrow> string \<Rightarrow> bytes \<Rightarrow> bytes \<Rightarrow> bytes \<Rightarrow> tls13_psk" where
  "hello_sent E psk identity priv pub ch =
     (let s = new_conn E psk identity priv pub in
      s\<lparr>tl_hs := (tl_hs s)\<lparr>hs_transcript := ch\<rparr>, tl_phase := PSK_SERVER_FLIGHT, tl_clk := 8,
        tl_wire := [record_header TLS_TYPE_HANDSHAKE (length ch) @ ch], tl_events := [WindowChanged]\<rparr>)"

lemma new_conn_events [simp]: "tl_events (new_conn E psk ident priv pub) = []"
  by (simp add: new_conn_def zero_conn_def)

lemma first_hello:
  fixes psk :: bytes
  assumes "tls_generous E" "te_share E priv = Inr pub" "length identity \<le> 355" "te_rbg E 5 32 = Inr random"
  defines "ch \<equiv> snd (tls13_client_hello (te_digest E) TLS13_MAX_CLIENT_HELLO random pub psk identity ''ext binder'')"
  shows "tls13_psk_client_hello E (new_conn E psk identity priv pub) =
     (OK, record_header TLS_TYPE_HANDSHAKE (length ch) @ ch,
      (new_conn E psk identity priv pub)\<lparr>tl_clk := 7,
        tl_hs := (tl_hs (new_conn E psk identity priv pub))\<lparr>hs_transcript := ch\<rparr>\<rparr>)"
proof -
  have d: "digest_ok (te_digest E)" "length random = 32" "length pub = 32"
    using assms(1,2,4) by (auto simp: tls_generous_def tls_env_ok_def)
  have ok: "fst (tls13_client_hello (te_digest E) TLS13_MAX_CLIENT_HELLO random pub psk identity ''ext binder'') = OK"
    using client_hello_outcome(1) [OF d] assms(3) by simp
  have "length ch \<le> TLS13_TRANSCRIPT_SIZE"
    using client_hello_outcome(2) [OF d ok] assms(3) by (simp add: ch_def)
  moreover have "tls13_client_hello (te_digest E) TLS13_MAX_CLIENT_HELLO random pub psk identity ''ext binder'' = (OK, ch)"
    using ok by (simp add: ch_def prod_eq_iff)
  moreover have "hs_binder_label (tl_hs (new_conn E psk identity priv pub)) = ''ext binder''"
    by (simp add: new_conn_def tls13_handshake_init_def)
  ultimately show ?thesis
    using assms(1,4) by (simp add: tls13_psk_client_hello_def Let_def tls13_handshake_update_def tls_generous_def tick_def)
qed

lemma add_sends_hello:
  assumes "tls_generous E" "length identity \<le> 355"
  shows "\<exists>priv pub ch. length ch = 157 + length identity \<and> length pub = 32 \<and>
     add_tls13_psk E n psk identity = (OK, hello_sent E psk identity priv pub ch)"
proof -
  obtain priv pub random where r: "te_rbg E 3 32 = Inr priv" "te_share E priv = Inr pub" "te_rbg E 5 32 = Inr random"
    using assms(1) by (meson tls_generous_def)
  define ch where "ch = snd (tls13_client_hello (te_digest E) TLS13_MAX_CLIENT_HELLO random pub psk identity ''ext binder'')"
  have d: "digest_ok (te_digest E)" "length random = 32" "length pub = 32"
    using assms(1) r(2,3) by (auto simp: tls_generous_def tls_env_ok_def)
  have "length ch = 157 + length identity"
    using client_hello_outcome [OF d] assms(2) by (simp add: ch_def)
  moreover obtain c s where add: "add_tls13_psk E n psk identity = (c, s)" by fastforce
  note hello = first_hello [OF assms(1) r(2) assms(2) r(3), of psk, folded ch_def]
  have tx: "tls13_psk_tx E (new_conn E psk identity priv pub) = (OK, hello_sent E psk identity priv pub ch)"
    using assms(1) by (simp add: tls13_psk_tx_def tx_construct_def hello tx_flush_def tls_generous_def Let_def
        hello_sent_def tick_def)
  have "(c, s) = (OK, hello_sent E psk identity priv pub ch)"
    using add assms(1) r tx
    by (simp add: add_tls13_psk_def tls_generous_def Let_def tls13_generate_key_def new_conn_def zero_conn_def)
  ultimately show ?thesis using add d(3) by blast
qed

definition toy_env :: tls_env where
  "toy_env = \<lparr>te_digest = toy_digest, te_cipher = toy_cipher, te_rbg = (\<lambda>n l. Inr (replicate l 1)),
     te_share = (\<lambda>p. Inr (replicate 32 7)), te_agree = (\<lambda>p q. Inr (replicate 32 9)), te_alloc = (\<lambda>n l. True),
     te_window = (\<lambda>n. 1000), te_consume = (\<lambda>n b. ([], OK)), te_open = (\<lambda>n. OK)\<rparr>"

lemma toy_env_ok: "tls_env_ok toy_env"
  by (auto simp: tls_env_ok_def toy_env_def digest_ok_def) (simp add: toy_cipher_def)

lemma toy_generous: "tls_generous toy_env"
  using toy_env_ok by (simp add: tls_generous_def) (simp add: toy_env_def toy_cipher_def)

lemma toy_reachable: "\<exists>s. tls_reachable toy_env [1, 2] toy_identity s \<and> tl_phase s = PSK_SERVER_FLIGHT \<and> length (tl_wire s) = 1"
proof -
  have "length toy_identity \<le> 355" by (simp add: toy_identity_def)
  then obtain priv pub ch where "add_tls13_psk toy_env 100 [1, 2] toy_identity = (OK, hello_sent toy_env [1, 2] toy_identity priv pub ch)"
    using add_sends_hello [OF toy_generous] by blast
  then have "tls_reachable toy_env [1, 2] toy_identity (hello_sent toy_env [1, 2] toy_identity priv pub ch)"
    unfolding tls_reachable_def by blast
  moreover have "tl_phase (hello_sent toy_env [1, 2] toy_identity priv pub ch) = PSK_SERVER_FLIGHT"
      "length (tl_wire (hello_sent toy_env [1, 2] toy_identity priv pub ch)) = 1"
    by (simp_all add: hello_sent_def Let_def)
  ultimately show ?thesis by blast
qed

section \<open>Safety\<close>

text \<open>C10: Memory safety of the TLS connection. In every state that a connection can reach, by data and
  window changes from the socket, data from the consumer (also from within a delivery) and closures,
  the receive buffer, the transcript and all keys and secrets are within their arrays, and no further
  data from the socket or the consumer and no window change leads to an access outside a buffer.\<close>

theorem tls_reachable_safe:
  assumes "tls_env_ok E" "tls_reachable E psk identity s"
  shows "length (tl_rx s) \<le> TLS13_MAX_RECORD \<and> sizes_ok s \<and>
     fst (tls13_psk_cipherstream_deliver E data s) \<noteq> Fault \<and> fst (tls13_psk_cipherstream_window E s) \<noteq> Fault \<and>
     fst (tls13_psk_plainstream_deliver E data s) \<noteq> Fault"
proof -
  have st: "started s" using assms(2) by (rule reachable_started)
  have "conn_sizes E s"
    using sizes.conn_machine_axioms assms(2)
    by (rule reachable_invariant) (simp add: conn_sizes_def new_conn_sizes)
  moreover have "fst (tls13_psk_cipherstream_deliver E data s) \<noteq> Fault"
    using rx_nofault [OF assms(1), of "s\<lparr>tl_rx := tl_rx s @ data\<rparr>"] st
    by (simp add: tls13_psk_cipherstream_deliver_def started_def)
  ultimately show ?thesis
    using assms(1) tx_nofault [OF st, of E] plain_nofault [OF st, of E data]
    by (simp add: conn_sizes_def tls13_psk_cipherstream_window_def)
qed

theorem tls_reachable_safe_witness:
  "\<exists>s. tl_phase s = PSK_SERVER_FLIGHT \<and> fst (tls13_psk_cipherstream_deliver toy_env [22, 3, 3, 0, 1, 7] s) \<noteq> Fault"
  using toy_reachable tls_reachable_safe [OF toy_env_ok] by blast

text \<open>C11: Nonces are never reused under a key. In every reachable state, the sequence numbers used since
  the transmit key was last set are 0, 1, 2 and so on up to the current one; as long as there are at
  most \<open>2 ^ 64\<close> of them, all the nonces they gave are different.\<close>

theorem tls_nonces_unique:
  assumes "tls_env_ok E" "tls_reachable E psk identity s" "length (tl_sealed s) \<le> 2 ^ 64"
  shows "tl_tx_seq s = of_nat (length (tl_sealed s)) \<and> distinct (map (tls13_nonce (tl_tx_iv s)) (tl_sealed s))"
proof -
  have seq: "seq_ok s"
    using seqs.conn_machine_axioms assms(2) by (rule reachable_invariant) (simp add: seq_ok_def)
  have "conn_sizes E s"
    using sizes.conn_machine_axioms assms(2) by (rule reachable_invariant) (simp add: conn_sizes_def new_conn_sizes)
  then have iv: "length (tl_tx_iv s) = 12" using assms(1) by (simp add: conn_sizes_def sizes_ok_def)
  have "inj_on (of_nat :: nat \<Rightarrow> u64) {0..<length (tl_sealed s)}"
    using assms(3) by (auto simp: inj_on_def word_unat_eq_iff unat_of_nat)
  then have "distinct (map (of_nat :: nat \<Rightarrow> u64) [0..<length (tl_sealed s)])" by (simp add: distinct_map)
  then have "distinct (tl_sealed s)" using seq by (metis seq_ok_def)
  then show ?thesis
    using seq nonce_inj [OF iv] by (simp add: seq_ok_def distinct_map inj_on_def)
qed

theorem tls_nonces_unique_witness:
  "\<exists>s. tls_reachable toy_env [1, 2] toy_identity s \<and> distinct (map (tls13_nonce (tl_tx_iv s)) (tl_sealed s))"
proof -
  have "length toy_identity \<le> 355" by (simp add: toy_identity_def)
  then obtain priv pub ch where add: "add_tls13_psk toy_env 100 [1, 2] toy_identity = (OK, hello_sent toy_env [1, 2] toy_identity priv pub ch)"
    using add_sends_hello [OF toy_generous] by blast
  let ?s = "hello_sent toy_env [1, 2] toy_identity priv pub ch"
  have "tls_reachable toy_env [1, 2] toy_identity ?s" using add unfolding tls_reachable_def by blast
  moreover have "length (tl_sealed ?s) \<le> 2 ^ 64" by (simp add: hello_sent_def Let_def)
  ultimately show ?thesis using tls_nonces_unique [OF toy_env_ok] by blast
qed

text \<open>C12: Nothing but the ClientHello is sent in the clear. In every reachable state, every record that
  was handed to the socket is an AEAD-sealed record with a matching header, except that the first one
  may be a handshake record that holds a ClientHello.\<close>

theorem tls_wire_sealed:
  assumes "tls_reachable E psk identity s" "i < length (tl_wire s)"
  shows "sealed_record E (tl_wire s ! i) \<or> i = 0 \<and> hello_record (tl_wire s ! 0)"
proof -
  have "wire_ok E s"
    using wire.conn_machine_axioms assms(1) by (rule reachable_invariant) (simp add: wire_ok_def records_ok_def)
  then have "records_ok E (tl_wire s)" by (auto simp: wire_ok_def outgoing_def dest: records_ok_prefix)
  then show ?thesis using assms(2)
    by (cases "tl_wire s"; cases i) (auto simp: records_ok_def list_all_length)
qed

theorem tls_wire_sealed_witness:
  "\<exists>s. tls_reachable toy_env [1, 2] toy_identity s \<and>
     (sealed_record toy_env (tl_wire s ! 0) \<or> hello_record (tl_wire s ! 0))"
  using toy_reachable tls_wire_sealed [of toy_env "[1, 2]" toy_identity _ 0] by (metis zero_less_one)

end
