(* ===== verification/Tls13_Flow.thy ===== *)
theory Tls13_Flow
  imports Tls13_Conn_Props
begin

text \<open>
  Runs of the TLS 1.3 connection: one record at a time through the receive loop, the handshake with an
  honest server, a stream of data records, and the two attacks by a peer that has no pre-shared key.
\<close>

section \<open>Records and messages, one at a time\<close>

lemma length_record_header [simp]: "length (record_header t n) = 5"
  by (simp add: record_header_def)

lemma record_header_nth [simp]: "(record_header t n @ b) ! 0 = t"
  by (simp add: record_header_def)

lemma record_total_header: "n < 65536 \<Longrightarrow> record_total (record_header t n @ b) = 5 + n"
  by (simp add: record_total_def record_header_def get_at_def of_be_to_be)

text \<open>The receive loop on a buffer that starts with a whole record.\<close>

lemma rx_one_record:
  assumes "tl_rx s = record_header t (length b) @ b @ rest" "length b \<le> 8209"
    and "tls13_psk_record E (record_header t (length b) @ b) s = (OK, u)"
    and "tls13_psk_tx E (u\<lparr>tl_rx := rest\<rparr>) = (OK, v)"
  shows "tls13_psk_rx E s = tls13_psk_rx E v"
proof -
  have n: "record_total (tl_rx s) = 5 + length b"
    using assms(1,2) record_total_header [of "length b" t "b @ rest"] by simp
  have "take (5 + length b) (tl_rx s) = record_header t (length b) @ b" by (simp add: assms(1))
  moreover have "tl_rx u = tl_rx s" using assms(3) by (rule record_rx)
  then have "drop (5 + length b) (tl_rx u) = rest" by (simp add: assms(1))
  ultimately show ?thesis
    using assms(2-4) n by (subst tls13_psk_rx.simps) (simp add: Let_def assms(1))
qed

lemma rx_empty: "length (tl_rx s) < 5 \<Longrightarrow> tls13_psk_rx E s = (OK, s)"
  by (subst tls13_psk_rx.simps) (simp add: Let_def)

definition hs_msg :: "byte \<Rightarrow> bytes \<Rightarrow> bytes" where
  "hs_msg t body = [t] @ to_be 3 (length body) @ body"

lemma length_hs_msg [simp]: "length (hs_msg t body) = 4 + length body"
  by (simp add: hs_msg_def)

lemma handshake_one:
  assumes "length body < 16777216"
  shows "tls13_psk_handshake E (hs_msg t body @ rest) s =
     then_ok (handshake_message E (hs_msg t body) s) (tls13_psk_handshake E rest)"
proof -
  have "of_be (get_at 1 3 (hs_msg t body @ rest)) = length body"
    using assms by (simp add: hs_msg_def get_at_def of_be_to_be)
  moreover have "take (4 + length body) (hs_msg t body @ rest) = hs_msg t body"
      "drop (4 + length body) (hs_msg t body @ rest) = rest"
    by simp_all
  ultimately show ?thesis by (subst tls13_psk_handshake.simps) (simp add: Let_def)
qed

lemma handshake_nil: "tls13_psk_handshake E [] s = (OK, s)"
  by (subst tls13_psk_handshake.simps) simp

lemma handshake_single:
  assumes "length body < 16777216"
  shows "tls13_psk_handshake E (hs_msg t body) s = handshake_message E (hs_msg t body) s"
proof -
  have "tls13_psk_handshake E (hs_msg t body) s = then_ok (handshake_message E (hs_msg t body) s) (tls13_psk_handshake E [])"
    using handshake_one [OF assms, of E t "[]" s] by simp
  moreover have "tls13_psk_handshake E [] = (\<lambda>s. (OK, s))" by (simp add: fun_eq_iff handshake_nil)
  ultimately show ?thesis
    by (cases "handshake_message E (hs_msg t body) s"; cases "fst (handshake_message E (hs_msg t body) s)") simp_all
qed

lemma finished_msg: "length v = 32 \<Longrightarrow> hs_msg TLS_FINISHED v = [TLS_FINISHED, 0, 0, 32] @ v"
  by (simp add: hs_msg_def to_be_def numeral_3_eq_3)

lemma hs_msg_0 [simp]: "hs_msg t body ! 0 = t"
  by (simp add: hs_msg_def)

text \<open>Transmission when nothing is due, and when the client's Finished message is.\<close>

definition notify :: "tls13_psk \<Rightarrow> tls13_psk" where
  "notify s = s\<lparr>tl_events := tl_events s @ [WindowChanged]\<rparr>"

lemma notify_simps [simp]:
  "tl_phase (notify s) = tl_phase s" "tl_tx_iobuf (notify s) = tl_tx_iobuf s" "tl_rx (notify s) = tl_rx s"
  "tl_hs (notify s) = tl_hs s" "tl_wire (notify s) = tl_wire s" "tl_plain (notify s) = tl_plain s"
  "tl_tx_key (notify s) = tl_tx_key s" "tl_tx_iv (notify s) = tl_tx_iv s" "tl_rx_key (notify s) = tl_rx_key s"
  "tl_rx_iv (notify s) = tl_rx_iv s" "tl_tx_seq (notify s) = tl_tx_seq s" "tl_rx_seq (notify s) = tl_rx_seq s"
  "tl_client_hs (notify s) = tl_client_hs s" "tl_server_hs (notify s) = tl_server_hs s"
  "tl_client_ap (notify s) = tl_client_ap s"
  by (simp_all add: notify_def)

lemma tx_idle:
  "tl_phase s = PSK_SERVER_FLIGHT \<or> tl_phase s = PSK_DATA \<Longrightarrow> tl_tx_iobuf s = None \<Longrightarrow> tls13_psk_tx E s = (OK, notify s)"
  by (auto simp: tls13_psk_tx_def tx_construct_def tx_flush_def Let_def notify_def)

lemma nonce_length [simp]: "length iv = 12 \<Longrightarrow> length (tls13_nonce iv seq) = 12"
  by (simp add: tls13_nonce_def)

lemma seal_works:
  assumes "tls_generous E" "length key = TLS13_KEY_LEN" "length iv = TLS13_NONCE_LEN"
  shows "\<exists>out. tls13_seal (te_cipher E) key iv seq aad data t = Some out \<and> length out = length data + 17"
proof -
  have "aead_ok (te_cipher E)" "tc_authsize (te_cipher E) = 16"
    using assms(1) by (simp_all add: tls_generous_def tls_env_ok_def)
  moreover have "\<exists>out. tls13_seal (te_cipher E) key iv seq aad data t = Some out"
    using assms by (simp add: tls13_seal_def Let_def tls_generous_def)
  ultimately show ?thesis using seal_length by fastforce
qed

lemma cipher_record_works:
  assumes "tls_generous E" "length (tl_tx_key s) = TLS13_KEY_LEN" "length (tl_tx_iv s) = TLS13_NONCE_LEN"
  shows "\<exists>out. tls13_seal (te_cipher E) (tl_tx_key s) (tl_tx_iv s) (tl_tx_seq s)
       (record_header TLS_TYPE_DATA (length out)) data t = Some out \<and> length out = length data + 17 \<and>
     tls13_psk_cipher_record E t data s = (Some (record_header TLS_TYPE_DATA (length out) @ out),
       (tick s)\<lparr>tl_tx_seq := tl_tx_seq s + 1, tl_sealed := tl_sealed s @ [tl_tx_seq s]\<rparr>)"
proof -
  let ?n = "length data + 1 + tc_authsize (te_cipher E)"
  obtain out where out: "tls13_seal (te_cipher E) (tl_tx_key s) (tl_tx_iv s) (tl_tx_seq s)
      (record_header TLS_TYPE_DATA ?n) data t = Some out" "length out = length data + 17"
    using seal_works [OF assms] by blast
  have n: "?n = length out" using assms(1) out(2) by (simp add: tls_generous_def tls_env_ok_def)
  show ?thesis
    using assms(1) out unfolding tls13_psk_cipher_record_def Let_def n
    by (intro exI [of _ out]) (simp add: tls_generous_def)
qed

lemma tx_finish:
  assumes gen: "tls_generous E" and s: "sizes_ok s" "tl_phase s = PSK_CLIENT_FINISHED" "tl_tx_iobuf s = None"
  shows "\<exists>out v. tls13_seal (te_cipher E) (tl_tx_key s) (tl_tx_iv s) (tl_tx_seq s)
       (record_header TLS_TYPE_DATA (length out)) (finished_message E s) TLS_TYPE_HANDSHAKE = Some out \<and>
     tls13_psk_tx E s = (OK, v) \<and> tl_phase v = PSK_DATA \<and> tl_tx_seq v = 0 \<and> tl_rx_seq v = tl_rx_seq s \<and>
     tl_wire v = tl_wire s @ [record_header TLS_TYPE_DATA (length out) @ out] \<and> tl_rx v = tl_rx s \<and>
     (tl_tx_key v, tl_tx_iv v) = tls13_traffic_key (te_digest E) (tl_client_ap s) TLS13_KEY_LEN TLS13_NONCE_LEN \<and>
     (tl_rx_key v, tl_rx_iv v) = (tl_rx_key s, tl_rx_iv s) \<and> tl_tx_iobuf v = None \<and> tl_plain v = tl_plain s"
proof -
  have "length (tl_tx_key s) = TLS13_KEY_LEN" "length (tl_tx_iv s) = TLS13_NONCE_LEN"
    using s(1) by (simp_all add: sizes_ok_def)
  from cipher_record_works [OF gen this, where t = TLS_TYPE_HANDSHAKE and data = "finished_message E s"]
  obtain out where out: "tls13_seal (te_cipher E) (tl_tx_key s) (tl_tx_iv s) (tl_tx_seq s)
       (record_header TLS_TYPE_DATA (length out)) (finished_message E s) TLS_TYPE_HANDSHAKE = Some out"
     "tls13_psk_cipher_record E TLS_TYPE_HANDSHAKE (finished_message E s) s =
       (Some (record_header TLS_TYPE_DATA (length out) @ out),
        (tick s)\<lparr>tl_tx_seq := tl_tx_seq s + 1, tl_sealed := tl_sealed s @ [tl_tx_seq s]\<rparr>)"
    by blast
  have w: "te_window E n \<noteq> 0" for n using gen by (simp add: tls_generous_def)
  show ?thesis
    using out(1) w
    by (intro exI [of _ out]) (simp add: tls13_psk_tx_def tx_construct_def s out(2) tx_flush_def Let_def)
qed

section \<open>The handshake with an honest server\<close>

lemma hello_keys_simps [simp]:
  "tl_phase (hello_keys E hs s) = tl_phase s" "tl_tx_iobuf (hello_keys E hs s) = tl_tx_iobuf s"
  "tl_hs (hello_keys E hs s) = hs" "tl_wire (hello_keys E hs s) = tl_wire s" "tl_plain (hello_keys E hs s) = tl_plain s"
  "tl_tx_seq (hello_keys E hs s) = 0" "tl_rx_seq (hello_keys E hs s) = 0"
  "tl_client_hs (hello_keys E hs s) = tls13_handshake_derive (te_digest E) hs (hs_handshake hs) ''c hs traffic''"
  "tl_server_hs (hello_keys E hs s) = tls13_handshake_derive (te_digest E) hs (hs_handshake hs) ''s hs traffic''"
  "(tl_tx_key (hello_keys E hs s), tl_tx_iv (hello_keys E hs s)) =
     tls13_traffic_key (te_digest E) (tl_client_hs (hello_keys E hs s)) TLS13_KEY_LEN TLS13_NONCE_LEN"
  "(tl_rx_key (hello_keys E hs s), tl_rx_iv (hello_keys E hs s)) =
     tls13_traffic_key (te_digest E) (tl_server_hs (hello_keys E hs s)) TLS13_KEY_LEN TLS13_NONCE_LEN"
  by (simp_all add: hello_keys_def Let_def)

lemma finished_keys_simps [simp]:
  "tl_phase (finished_keys E hs s) = PSK_CLIENT_FINISHED" "tl_tx_iobuf (finished_keys E hs s) = tl_tx_iobuf s"
  "tl_hs (finished_keys E hs s) = tls13_handshake_master (te_digest E) hs" "tl_wire (finished_keys E hs s) = tl_wire s"
  "tl_plain (finished_keys E hs s) = tl_plain s" "tl_rx_seq (finished_keys E hs s) = 0"
  "tl_tx_seq (finished_keys E hs s) = tl_tx_seq s" "tl_tx_key (finished_keys E hs s) = tl_tx_key s"
  "tl_tx_iv (finished_keys E hs s) = tl_tx_iv s" "tl_client_hs (finished_keys E hs s) = tl_client_hs s"
  "tl_client_ap (finished_keys E hs s) = tls13_handshake_derive (te_digest E) hs
     (tls13_master_secret (te_digest E) (hs_handshake hs)) ''c ap traffic''"
  "(tl_rx_key (finished_keys E hs s), tl_rx_iv (finished_keys E hs s)) =
     tls13_traffic_key (te_digest E) (tls13_handshake_derive (te_digest E) hs
       (tls13_master_secret (te_digest E) (hs_handshake hs)) ''s ap traffic'') TLS13_KEY_LEN TLS13_NONCE_LEN"
  by (simp_all add: finished_keys_def Let_def tls13_handshake_master_def tls13_handshake_derive_def)

text \<open>The server's first message is accepted and gives the handshake keys.\<close>

lemma server_hello_accepted:
  assumes "sh = hs_msg TLS_SERVER_HELLO body" "tls13_parse_server_hello sh = (OK, h)"
    "sh_version h = TLS_VERSION_TLS_1_3" "sh_cipher_suite h = TLS_AES_128_GCM_SHA256" "sh_has_key_share h" "sh_has_psk h"
    "length (hs_transcript (tl_hs s)) + length sh \<le> TLS13_TRANSCRIPT_SIZE"
    "te_agree E (hs_private_key (tl_hs s)) (sh_public_key h) = Inr shared"
  shows "tls13_psk_record E (record_header TLS_TYPE_HANDSHAKE (length sh) @ sh) s =
     (OK, hello_keys E ((tl_hs s)\<lparr>hs_transcript := hs_transcript (tl_hs s) @ sh,
        hs_handshake := tls13_handshake_secret (te_digest E) (hs_early (tl_hs s)) shared\<rparr>) s)"
proof -
  have "length body < 16777216" using assms(1,7) by simp
  then have "tls13_psk_handshake E sh s = handshake_message E sh s"
    unfolding assms(1) by (rule handshake_single)
  moreover have "sh ! 0 = TLS_SERVER_HELLO" by (simp add: assms(1))
  moreover have "tls13_psk_server_hello E sh s = (OK, hello_keys E ((tl_hs s)\<lparr>hs_transcript := hs_transcript (tl_hs s) @ sh,
      hs_handshake := tls13_handshake_secret (te_digest E) (hs_early (tl_hs s)) shared\<rparr>) s)"
    using assms(2-8) by (simp add: tls13_psk_server_hello_def tls13_handshake_update_def tls13_handshake_exchange_def)
  ultimately show ?thesis
    by (simp add: tls13_psk_record_def Let_def handshake_message_def)
qed

text \<open>The server's encrypted messages are accepted and give the application keys.\<close>

lemma server_flight_accepted:
  assumes gen: "tls_generous E" and size: "length (hs_transcript (tl_hs s)) + length ee + 36 \<le> TLS13_TRANSCRIPT_SIZE"
    and ee: "ee = hs_msg TLS_ENCRYPTED_EXTENSIONS eb"
    and fin: "fin = hs_msg TLS_FINISHED (tls13_finished (te_digest E) (tl_server_hs s) (hs_transcript (tl_hs s) @ ee))"
    and seal: "tls13_seal (te_cipher E) (tl_rx_key s) (tl_rx_iv s) (tl_rx_seq s)
      (record_header TLS_TYPE_DATA (length out)) (ee @ fin) TLS_TYPE_HANDSHAKE = Some out"
  shows "\<exists>t. tls13_psk_record E (record_header TLS_TYPE_DATA (length out) @ out) s =
     (OK, finished_keys E ((tl_hs s)\<lparr>hs_transcript := hs_transcript (tl_hs s) @ ee @ fin\<rparr>) t) \<and>
     t = s\<lparr>tl_rx_seq := tl_rx_seq s + 1, tl_hs := (tl_hs s)\<lparr>hs_transcript := hs_transcript (tl_hs s) @ ee\<rparr>\<rparr>"
proof -
  let ?d = "te_digest E"
  define t where "t = s\<lparr>tl_rx_seq := tl_rx_seq s + 1, tl_hs := (tl_hs s)\<lparr>hs_transcript := hs_transcript (tl_hs s) @ ee\<rparr>\<rparr>"
  have ok: "aead_ok (te_cipher E)" "digest_ok ?d" using gen by (simp_all add: tls_generous_def tls_env_ok_def)
  have "length (tls13_finished ?d k x) = 32" for k x using ok(2) by (simp add: tls13_finished_def digest_ok_def)
  then have lf: "length fin = 36" "drop 4 fin = tls13_finished ?d (tl_server_hs s) (hs_transcript (tl_hs s) @ ee)"
    by (simp_all add: fin hs_msg_def)
  have "tls13_open (te_cipher E) (tl_rx_key s) (tl_rx_iv s) (tl_rx_seq s) (record_header TLS_TYPE_DATA (length out)) out =
      Inr (TLS_TYPE_HANDSHAKE, ee @ fin)"
    using open_iff_seal [OF ok(1)] seal by blast
  then have "tls13_psk_record E (record_header TLS_TYPE_DATA (length out) @ out) s =
      tls13_psk_handshake E (ee @ fin) (s\<lparr>tl_rx_seq := tl_rx_seq s + 1\<rparr>)"
    by (simp add: tls13_psk_record_def Let_def)
  also have "\<dots> = tls13_psk_handshake E fin t"
  proof -
    have "length eb < 16777216" using size ee by simp
    moreover have "handshake_message E ee (s\<lparr>tl_rx_seq := tl_rx_seq s + 1\<rparr>) = (OK, t)"
      using size by (simp add: handshake_message_def ee tls13_handshake_update_def t_def)
    ultimately show ?thesis unfolding ee by (subst handshake_one) simp_all
  qed
  also have "\<dots> = handshake_message E fin t"
    using lf(1) unfolding fin by (intro handshake_single) simp
  also have "\<dots> = (OK, finished_keys E ((tl_hs s)\<lparr>hs_transcript := hs_transcript (tl_hs s) @ ee @ fin\<rparr>) t)"
  proof -
    have "fin ! 0 = TLS_FINISHED" by (simp add: fin)
    then show ?thesis
      using size lf
      by (simp add: handshake_message_def tls13_psk_server_finished_def tls13_handshake_finished_def t_def
          tls13_handshake_update_def)
  qed
  finally show ?thesis using t_def by blast
qed

text \<open>From there the client's own Finished message goes out and the receive loop ends in the data phase.\<close>

lemma server_flight_completes:
  fixes E s ee fin out
  defines "d \<equiv> te_digest E" and "tr \<equiv> hs_transcript (tl_hs s)" and "k \<equiv> hs_handshake (tl_hs s)"
  assumes gen: "tls_generous E" and s: "sizes_ok s" "tl_tx_iobuf s = None"
    and rx: "tl_rx s = record_header TLS_TYPE_DATA (length out) @ out"
    and size: "length tr + length ee + 36 \<le> TLS13_TRANSCRIPT_SIZE"
    and ee: "ee = hs_msg TLS_ENCRYPTED_EXTENSIONS eb"
    and fin: "fin = hs_msg TLS_FINISHED (tls13_finished d (tl_server_hs s) (tr @ ee))"
    and seal: "tls13_seal (te_cipher E) (tl_rx_key s) (tl_rx_iv s) (tl_rx_seq s)
      (record_header TLS_TYPE_DATA (length out)) (ee @ fin) TLS_TYPE_HANDSHAKE = Some out"
  shows "\<exists>v cf. tls13_psk_rx E s = (OK, v) \<and> tl_phase v = PSK_DATA \<and> tl_tx_seq v = 0 \<and> tl_rx_seq v = 0 \<and>
     tl_rx v = [] \<and> tl_tx_iobuf v = None \<and>
     (tl_tx_key v, tl_tx_iv v) = tls13_traffic_key d (tls13_derive_secret d (tls13_master_secret d k) ''c ap traffic''
        (tr @ ee @ fin)) TLS13_KEY_LEN TLS13_NONCE_LEN \<and>
     (tl_rx_key v, tl_rx_iv v) = tls13_traffic_key d (tls13_derive_secret d (tls13_master_secret d k) ''s ap traffic''
        (tr @ ee @ fin)) TLS13_KEY_LEN TLS13_NONCE_LEN \<and>
     tls13_seal (te_cipher E) (tl_tx_key s) (tl_tx_iv s) (tl_tx_seq s) (record_header TLS_TYPE_DATA (length cf))
       (hs_msg TLS_FINISHED (tls13_finished d (tl_client_hs s) (tr @ ee @ fin))) TLS_TYPE_HANDSHAKE = Some cf \<and>
     tl_wire v = tl_wire s @ [record_header TLS_TYPE_DATA (length cf) @ cf]"
proof -
  have ok: "digest_ok d" "aead_ok (te_cipher E)" "tc_authsize (te_cipher E) = 16"
    using gen by (simp_all add: tls_generous_def tls_env_ok_def d_def)
  have lfin: "length (tls13_finished d k x) = 32" for k x using ok(1) by (simp add: tls13_finished_def digest_ok_def)
  have lout: "length out = length ee + 53" using seal_length [OF ok(2) seal] ok(3) lfin by (simp add: fin)
  have lfin36: "length fin = 36" by (simp add: fin lfin)
  define hs2 where "hs2 = (tl_hs s)\<lparr>hs_transcript := tr @ ee @ fin\<rparr>"
  obtain t where rec: "tls13_psk_record E (record_header TLS_TYPE_DATA (length out) @ out) s = (OK, finished_keys E hs2 t)"
      and t: "t = s\<lparr>tl_rx_seq := tl_rx_seq s + 1, tl_hs := (tl_hs s)\<lparr>hs_transcript := tr @ ee\<rparr>\<rparr>"
    using server_flight_accepted [OF gen _ ee _ seal] size by (auto simp: fin d_def hs2_def tr_def)
  define u where "u = (finished_keys E hs2 t)\<lparr>tl_rx := []\<rparr>"
  have "sizes_ok t" using s(1) size by (simp add: t sizes_ok_def)
  then have zu: "sizes_ok u"
    using sizes_ok_keys(2) [OF ok(1) [unfolded d_def], of t hs2] size s(1) lfin36
    by (simp add: u_def hs2_def sizes_ok_def)
  have pu: "tl_phase u = PSK_CLIENT_FINISHED" "tl_tx_iobuf u = None" "tl_wire u = tl_wire s" "tl_rx u = []"
      "tl_rx_seq u = 0" "tl_tx_seq u = tl_tx_seq s" "tl_tx_key u = tl_tx_key s" "tl_tx_iv u = tl_tx_iv s"
    using s(2) by (simp_all add: u_def t)
  have fm: "finished_message E u = hs_msg TLS_FINISHED (tls13_finished d (tl_client_hs s) (tr @ ee @ fin))"
    using lfin by (simp add: finished_message_def u_def t finished_msg tls13_handshake_finished_def d_def
        tls13_handshake_master_def hs2_def)
  have ap: "tl_client_ap u = tls13_derive_secret d (tls13_master_secret d k) ''c ap traffic'' (tr @ ee @ fin)"
      "(tl_rx_key u, tl_rx_iv u) = tls13_traffic_key d
         (tls13_derive_secret d (tls13_master_secret d k) ''s ap traffic'' (tr @ ee @ fin)) TLS13_KEY_LEN TLS13_NONCE_LEN"
    by (simp_all add: u_def hs2_def tls13_handshake_derive_def d_def k_def)
  obtain cf v where cf: "tls13_seal (te_cipher E) (tl_tx_key u) (tl_tx_iv u) (tl_tx_seq u)
       (record_header TLS_TYPE_DATA (length cf)) (finished_message E u) TLS_TYPE_HANDSHAKE = Some cf"
     and tx: "tls13_psk_tx E u = (OK, v)" and v: "tl_phase v = PSK_DATA" "tl_tx_seq v = 0" "tl_rx_seq v = tl_rx_seq u"
       "tl_wire v = tl_wire u @ [record_header TLS_TYPE_DATA (length cf) @ cf]" "tl_rx v = tl_rx u"
       "(tl_tx_key v, tl_tx_iv v) = tls13_traffic_key (te_digest E) (tl_client_ap u) TLS13_KEY_LEN TLS13_NONCE_LEN"
       "(tl_rx_key v, tl_rx_iv v) = (tl_rx_key u, tl_rx_iv u)" "tl_tx_iobuf v = None"
    using tx_finish [OF gen zu pu(1,2)] by blast
  have "tls13_psk_rx E s = tls13_psk_rx E v"
    by (rule rx_one_record [where rest = "[]" and b = out and t = TLS_TYPE_DATA]) (use lout size tx rec rx in \<open>simp_all add: u_def\<close>)
  moreover have "tls13_psk_rx E v = (OK, v)" by (rule rx_empty) (simp add: v pu)
  ultimately show ?thesis
    using cf v pu ap fm by (intro exI [of _ v] exI [of _ cf]) (simp add: d_def)
qed

text \<open>C13: The handshake completes with an honest server. When the ClientHello is out and the server
  answers with a ServerHello that selects TLS 1.3, the cipher suite, the pre-shared key and a key
  share, followed in one sealed record by EncryptedExtensions and a Finished message computed over the
  transcript with the RFC 8446 key schedule, the connection is ready for data: its transmit and
  receive keys are the client and server application traffic keys of the schedule, both sequence
  numbers are zero, and the client's Finished message over the whole transcript went out, sealed under
  the client handshake key.\<close>

theorem handshake_completes:
  fixes E s sh ee fin out shared
  defines "d \<equiv> te_digest E"
  defines "t1 \<equiv> hs_transcript (tl_hs s) @ sh"
  defines "secret \<equiv> tls13_handshake_secret d (hs_early (tl_hs s)) shared"
  defines "c_hs \<equiv> tls13_derive_secret d secret ''c hs traffic'' t1"
    and "s_hs \<equiv> tls13_derive_secret d secret ''s hs traffic'' t1"
  defines "t2 \<equiv> t1 @ ee @ fin"
  assumes gen: "tls_generous E" and s: "sizes_ok s" "tl_phase s = PSK_SERVER_FLIGHT" "tl_tx_iobuf s = None" "tl_rx s = []"
    and sh: "sh = hs_msg TLS_SERVER_HELLO body" "tls13_parse_server_hello sh = (OK, h)"
      "sh_version h = TLS_VERSION_TLS_1_3" "sh_cipher_suite h = TLS_AES_128_GCM_SHA256" "sh_has_key_share h" "sh_has_psk h"
      "te_agree E (hs_private_key (tl_hs s)) (sh_public_key h) = Inr shared"
    and ee: "ee = hs_msg TLS_ENCRYPTED_EXTENSIONS eb"
    and fin: "fin = hs_msg TLS_FINISHED (tls13_finished d s_hs (t1 @ ee))"
    and size: "length t1 + length ee + 36 \<le> TLS13_TRANSCRIPT_SIZE"
    and out: "tls13_seal (te_cipher E) (fst (tls13_traffic_key d s_hs TLS13_KEY_LEN TLS13_NONCE_LEN))
      (snd (tls13_traffic_key d s_hs TLS13_KEY_LEN TLS13_NONCE_LEN)) 0
      (record_header TLS_TYPE_DATA (length out)) (ee @ fin) TLS_TYPE_HANDSHAKE = Some out"
  shows "\<exists>s' cf. tls13_psk_cipherstream_deliver E
       (record_header TLS_TYPE_HANDSHAKE (length sh) @ sh @ record_header TLS_TYPE_DATA (length out) @ out) s = (OK, s') \<and>
     tl_phase s' = PSK_DATA \<and> tl_tx_seq s' = 0 \<and> tl_rx_seq s' = 0 \<and> tl_rx s' = [] \<and> tl_tx_iobuf s' = None \<and>
     (tl_tx_key s', tl_tx_iv s') = tls13_traffic_key d
       (tls13_derive_secret d (tls13_master_secret d secret) ''c ap traffic'' t2) TLS13_KEY_LEN TLS13_NONCE_LEN \<and>
     (tl_rx_key s', tl_rx_iv s') = tls13_traffic_key d
       (tls13_derive_secret d (tls13_master_secret d secret) ''s ap traffic'' t2) TLS13_KEY_LEN TLS13_NONCE_LEN \<and>
     tls13_seal (te_cipher E) (fst (tls13_traffic_key d c_hs TLS13_KEY_LEN TLS13_NONCE_LEN))
       (snd (tls13_traffic_key d c_hs TLS13_KEY_LEN TLS13_NONCE_LEN)) 0 (record_header TLS_TYPE_DATA (length cf))
       (hs_msg TLS_FINISHED (tls13_finished d c_hs t2)) TLS_TYPE_HANDSHAKE = Some cf \<and>
     tl_wire s' = tl_wire s @ [record_header TLS_TYPE_DATA (length cf) @ cf]"
proof -
  let ?r2 = "record_header TLS_TYPE_DATA (length out) @ out"
  have ok: "digest_ok d" "aead_ok (te_cipher E)" "tc_authsize (te_cipher E) = 16"
    using gen by (simp_all add: tls_generous_def tls_env_ok_def d_def)
  have "length (tls13_finished d k x) = 32" for k x using ok(1) by (simp add: tls13_finished_def digest_ok_def)
  then have lout: "length out = length ee + 53" using seal_length [OF ok(2) out] ok(3) by (simp add: fin)
  have lsh: "length sh \<le> TLS13_TRANSCRIPT_SIZE" using size by (simp add: t1_def)
  define s0 where "s0 = s\<lparr>tl_rx := record_header TLS_TYPE_HANDSHAKE (length sh) @ sh @ ?r2\<rparr>"
  define hs1 where "hs1 = (tl_hs s)\<lparr>hs_transcript := t1, hs_handshake := secret\<rparr>"
  define s1 where "s1 = notify ((hello_keys E hs1 s0)\<lparr>tl_rx := ?r2\<rparr>)"
  have z: "sizes_ok s0" using s(1) by (simp add: s0_def)
  have "tls13_psk_record E (record_header TLS_TYPE_HANDSHAKE (length sh) @ sh) s0 = (OK, hello_keys E hs1 s0)"
    using server_hello_accepted [OF sh(1-6), of s0 E shared] sh(7) size
    by (simp add: s0_def hs1_def t1_def secret_def d_def)
  moreover have "tls13_psk_tx E ((hello_keys E hs1 s0)\<lparr>tl_rx := ?r2\<rparr>) = (OK, s1)"
    unfolding s1_def by (rule tx_idle) (simp_all add: s0_def s)
  ultimately have step1: "tls13_psk_rx E s0 = tls13_psk_rx E s1"
    using lsh by (intro rx_one_record) (simp_all add: s0_def)
  have keys1: "tl_server_hs s1 = s_hs" "tl_client_hs s1 = c_hs" "tl_rx_seq s1 = 0" "tl_tx_seq s1 = 0" "tl_hs s1 = hs1"
      "tl_rx_key s1 = fst (tls13_traffic_key d s_hs TLS13_KEY_LEN TLS13_NONCE_LEN)"
      "tl_rx_iv s1 = snd (tls13_traffic_key d s_hs TLS13_KEY_LEN TLS13_NONCE_LEN)"
      "tl_tx_key s1 = fst (tls13_traffic_key d c_hs TLS13_KEY_LEN TLS13_NONCE_LEN)"
      "tl_tx_iv s1 = snd (tls13_traffic_key d c_hs TLS13_KEY_LEN TLS13_NONCE_LEN)" "tl_rx s1 = ?r2"
    by (simp_all add: s1_def s_hs_def c_hs_def hs1_def d_def tls13_handshake_derive_def hello_keys_def Let_def)
  have hs1: "hs_transcript hs1 = t1" "hs_handshake hs1 = secret" by (simp_all add: hs1_def)
  have z1: "sizes_ok s1"
    using sizes_ok_keys(1) [OF ok(1) [unfolded d_def] z, of hs1] size s(1)
    by (simp add: s1_def notify_def hs1_def sizes_ok_def t1_def)
  have p1: "tl_tx_iobuf s1 = None" "tl_wire s1 = tl_wire s" using s by (simp_all add: s1_def s0_def)
  have "tls13_psk_cipherstream_deliver E (record_header TLS_TYPE_HANDSHAKE (length sh) @ sh @ ?r2) s = tls13_psk_rx E s1"
    using step1 lsh lout size s(4) by (simp add: tls13_psk_cipherstream_deliver_def s0_def)
  then show ?thesis
    using server_flight_completes [OF gen z1 p1(1) keys1(10) _ ee, of fin] size fin out
    unfolding keys1 hs1 p1(2) t2_def d_def by simp
qed

lemma hello_sent_simps [simp]:
  "tl_phase (hello_sent E psk ident priv pub ch) = PSK_SERVER_FLIGHT" "tl_rx (hello_sent E psk ident priv pub ch) = []"
  "tl_tx_iobuf (hello_sent E psk ident priv pub ch) = None" "tl_rx_seq (hello_sent E psk ident priv pub ch) = 0"
  "tl_wire (hello_sent E psk ident priv pub ch) = [record_header TLS_TYPE_HANDSHAKE (length ch) @ ch]"
  "tl_plain (hello_sent E psk ident priv pub ch) = []" "hs_transcript (tl_hs (hello_sent E psk ident priv pub ch)) = ch"
  "hs_handshake (tl_hs (hello_sent E psk ident priv pub ch)) = replicate 32 0"
  "tl_server_hs (hello_sent E psk ident priv pub ch) = replicate 32 0"
  "tl_rx_key (hello_sent E psk ident priv pub ch) = replicate TLS13_KEY_LEN 0"
  "tl_rx_iv (hello_sent E psk ident priv pub ch) = replicate TLS13_NONCE_LEN 0"
  by (simp_all add: hello_sent_def Let_def)

lemma hello_sent_sizes:
  "length pub = 32 \<Longrightarrow> length ch \<le> TLS13_TRANSCRIPT_SIZE \<Longrightarrow> sizes_ok (hello_sent E psk ident priv pub ch)"
  by (simp add: sizes_ok_def hello_sent_def new_conn_def zero_conn_def tls13_handshake_init_def Let_def)

lemma server_hello_is_msg:
  "server_hello_bytes random sid suite exts = hs_msg TLS_SERVER_HELLO (drop 4 (server_hello_bytes random sid suite exts))"
  by (simp add: server_hello_bytes_def hs_msg_def Let_def)

theorem handshake_completes_witness:
  "\<exists>s data s'. tl_phase s = PSK_SERVER_FLIGHT \<and> tls13_psk_cipherstream_deliver toy_env data s = (OK, s') \<and>
     tl_phase s' = PSK_DATA"
proof -
  let ?E = toy_env and ?d = "te_digest toy_env"
  have "length toy_identity \<le> 355" by (simp add: toy_identity_def)
  then obtain priv pub ch where ch: "length ch = 157 + length toy_identity" "length pub = 32"
      "add_tls13_psk ?E 100 [1, 2] toy_identity = (OK, hello_sent ?E [1, 2] toy_identity priv pub ch)"
    using add_sends_hello [OF toy_generous] by blast
  define s where "s = hello_sent ?E [1, 2] toy_identity priv pub ch"
  have s: "sizes_ok s" "tl_phase s = PSK_SERVER_FLIGHT" "tl_tx_iobuf s = None" "tl_rx s = []"
    using ch by (simp_all add: s_def hello_sent_sizes toy_identity_def)
  define sh where "sh = server_hello_bytes (replicate 32 5) [] TLS_AES_128_GCM_SHA256 toy_exts"
  define h where "h = fold apply_ext toy_exts (zero_server_hello\<lparr>sh_cipher_suite := TLS_AES_128_GCM_SHA256\<rparr>)"
  have h: "tls13_parse_server_hello sh = (OK, h)" "sh_version h = TLS_VERSION_TLS_1_3"
      "sh_cipher_suite h = TLS_AES_128_GCM_SHA256" "sh_has_key_share h" "sh_has_psk h"
    using parse_server_hello_enc [of "replicate 32 5" "[]" TLS_AES_128_GCM_SHA256 toy_exts "[]"]
    by (simp_all add: sh_def h_def) (simp_all add: toy_exts_def enc_ext_def)
  have agree: "te_agree ?E (hs_private_key (tl_hs s)) (sh_public_key h) = Inr (replicate 32 9)"
    by (simp add: toy_env_def)
  define ee where "ee = hs_msg TLS_ENCRYPTED_EXTENSIONS [0, 0]"
  define s_hs where "s_hs = tls13_derive_secret ?d (tls13_handshake_secret ?d (hs_early (tl_hs s)) (replicate 32 9))
    ''s hs traffic'' (hs_transcript (tl_hs s) @ sh)"
  define fin where "fin = hs_msg TLS_FINISHED (tls13_finished ?d s_hs ((hs_transcript (tl_hs s) @ sh) @ ee))"
  have "digest_ok ?d" using toy_env_ok by (simp add: tls_env_ok_def)
  then obtain out where "tls13_seal (te_cipher ?E) (fst (tls13_traffic_key ?d s_hs TLS13_KEY_LEN TLS13_NONCE_LEN))
      (snd (tls13_traffic_key ?d s_hs TLS13_KEY_LEN TLS13_NONCE_LEN)) 0
      (record_header TLS_TYPE_DATA (length (ee @ fin) + 17)) (ee @ fin) TLS_TYPE_HANDSHAKE = Some out"
      "length out = length (ee @ fin) + 17"
    using seal_works [OF toy_generous] traffic_key_sizes by blast
  then have out: "tls13_seal (te_cipher ?E) (fst (tls13_traffic_key ?d s_hs TLS13_KEY_LEN TLS13_NONCE_LEN))
      (snd (tls13_traffic_key ?d s_hs TLS13_KEY_LEN TLS13_NONCE_LEN)) 0
      (record_header TLS_TYPE_DATA (length out)) (ee @ fin) TLS_TYPE_HANDSHAKE = Some out" by simp
  have "length sh = 103" by (simp add: sh_def server_hello_bytes_def toy_exts_def enc_ext_def Let_def)
  then have "length (hs_transcript (tl_hs s) @ sh) + length ee + 36 \<le> TLS13_TRANSCRIPT_SIZE"
    using ch by (simp add: s_def ee_def toy_identity_def)
  from handshake_completes [OF toy_generous s server_hello_is_msg [of "replicate 32 5" "[]" TLS_AES_128_GCM_SHA256 toy_exts,
        folded sh_def] h agree ee_def fin_def [unfolded s_hs_def] this out [unfolded s_hs_def]]
  show ?thesis using s(2) by blast
qed

end
