(* ===== verification/Tls13_Data.thy ===== *)
theory Tls13_Data
  imports Tls13_Flow
begin

text \<open>
  Application data through the TLS 1.3 connection: what one side sends the other side delivers; and
  what a peer without the pre-shared key can do before the handshake: inject data under the all-zero
  key, and complete the handshake with a Finished message keyed with the all-zero secret.
\<close>

section \<open>The data stream\<close>

text \<open>A consumer that accepts all data and does not answer from within the delivery.\<close>

definition quiet_consumer :: "tls_env \<Rightarrow> bool" where
  "quiet_consumer E \<longleftrightarrow> (\<forall>n b. te_consume E n b = ([], OK))"

lemma data_record_rx:
  assumes "tls_generous E" "quiet_consumer E" "tl_phase s = PSK_SERVER_FLIGHT \<or> tl_phase s = PSK_DATA"
    "tl_tx_iobuf s = None" "data \<noteq> []" "length data \<le> TLS13_MAX_PLAINTEXT"
    and seal: "tls13_seal (te_cipher E) (tl_rx_key s) (tl_rx_iv s) (tl_rx_seq s)
      (record_header TLS_TYPE_DATA (length out)) data TLS_TYPE_DATA = Some out"
    and rx: "tl_rx s = record_header TLS_TYPE_DATA (length out) @ out @ rest"
  shows "tls13_psk_rx E s = tls13_psk_rx E (notify (s\<lparr>tl_rx_seq := tl_rx_seq s + 1, tl_clk := Suc (tl_clk s),
     tl_plain := tl_plain s @ [data], tl_rx := rest\<rparr>))"
proof -
  have ok: "aead_ok (te_cipher E)" "tc_authsize (te_cipher E) = 16" "\<And>n l. te_alloc E n l"
    using assms(1) by (simp_all add: tls_generous_def tls_env_ok_def)
  have "tls13_open (te_cipher E) (tl_rx_key s) (tl_rx_iv s) (tl_rx_seq s) (record_header TLS_TYPE_DATA (length out)) out =
      Inr (TLS_TYPE_DATA, data)"
    using open_iff_seal [OF ok(1)] seal by blast
  then have rec: "tls13_psk_record E (record_header TLS_TYPE_DATA (length out) @ out) s =
      (OK, s\<lparr>tl_rx_seq := tl_rx_seq s + 1, tl_clk := Suc (tl_clk s), tl_plain := tl_plain s @ [data]\<rparr>)"
    using assms(2,5) ok(3)
    by (simp add: tls13_psk_record_def Let_def tls13_psk_deliver_def quiet_consumer_def tick_def)
  have "length out \<le> 8209" using seal_length [OF ok(1) seal] ok(2) assms(6) by simp
  then show ?thesis
    using rx_one_record [OF rx _ rec tx_idle] assms(3,4) by simp
qed

definition synced :: "tls13_psk \<Rightarrow> tls13_psk \<Rightarrow> bool" where
  "synced A B \<longleftrightarrow> tl_rx_key B = tl_tx_key A \<and> tl_rx_iv B = tl_tx_iv A \<and> tl_rx_seq B = tl_tx_seq A"

definition ready :: "tls13_psk \<Rightarrow> bool" where
  "ready s \<longleftrightarrow> tl_phase s = PSK_DATA \<and> tl_tx_iobuf s = None \<and> length (tl_tx_key s) = TLS13_KEY_LEN \<and>
     length (tl_tx_iv s) = TLS13_NONCE_LEN"

lemma send_one:
  assumes gen: "tls_generous E" and A: "ready A"
  shows "\<exists>out A'. tls13_psk_plainstream_deliver E data A = (OK, A') \<and> ready A' \<and>
     tls13_seal (te_cipher E) (tl_tx_key A) (tl_tx_iv A) (tl_tx_seq A)
       (record_header TLS_TYPE_DATA (length out)) data TLS_TYPE_DATA = Some out \<and>
     tl_wire A' = tl_wire A @ [record_header TLS_TYPE_DATA (length out) @ out] \<and>
     tl_tx_key A' = tl_tx_key A \<and> tl_tx_iv A' = tl_tx_iv A \<and> tl_tx_seq A' = tl_tx_seq A + 1"
proof -
  obtain out where out: "tls13_seal (te_cipher E) (tl_tx_key A) (tl_tx_iv A) (tl_tx_seq A)
       (record_header TLS_TYPE_DATA (length out)) data TLS_TYPE_DATA = Some out"
     "tls13_psk_cipher_record E TLS_TYPE_DATA data A = (Some (record_header TLS_TYPE_DATA (length out) @ out),
       (tick A)\<lparr>tl_tx_seq := tl_tx_seq A + 1, tl_sealed := tl_sealed A @ [tl_tx_seq A]\<rparr>)"
    using cipher_record_works [OF gen, of A data TLS_TYPE_DATA] A by (auto simp: ready_def)
  have w: "te_window E n \<noteq> 0" for n using gen by (simp add: tls_generous_def)
  show ?thesis
    using out(1) A w
    by (intro exI [of _ out])
      (simp add: tls13_psk_plainstream_deliver_def ready_def out(2) tls13_psk_tx_def tx_construct_def tx_flush_def Let_def)
qed

fun send_all :: "tls_env \<Rightarrow> bytes list \<Rightarrow> tls13_psk \<Rightarrow> rc \<times> tls13_psk" where
  "send_all E [] s = (OK, s)"
| "send_all E (d # ds) s = then_ok (tls13_psk_plainstream_deliver E d s) (send_all E ds)"

lemma receive_one:
  assumes gen: "tls_generous E" "quiet_consumer E" and B: "tl_phase B = PSK_DATA" "tl_tx_iobuf B = None" "tl_rx B = []"
    and d: "data \<noteq> []" "length data \<le> TLS13_MAX_PLAINTEXT" and sync: "synced A B"
    and seal: "tls13_seal (te_cipher E) (tl_tx_key A) (tl_tx_iv A) (tl_tx_seq A)
       (record_header TLS_TYPE_DATA (length out)) data TLS_TYPE_DATA = Some out"
  shows "\<exists>B'. tls13_psk_cipherstream_deliver E (record_header TLS_TYPE_DATA (length out) @ out) B = (OK, B') \<and>
     tl_phase B' = PSK_DATA \<and> tl_tx_iobuf B' = None \<and> tl_rx B' = [] \<and> tl_plain B' = tl_plain B @ [data] \<and>
     tl_rx_key B' = tl_rx_key B \<and> tl_rx_iv B' = tl_rx_iv B \<and> tl_rx_seq B' = tl_rx_seq B + 1"
proof -
  have ok: "aead_ok (te_cipher E)" "tc_authsize (te_cipher E) = 16"
    using gen(1) by (simp_all add: tls_generous_def tls_env_ok_def)
  have l: "length out \<le> 8209" using seal_length [OF ok(1) seal] ok(2) d(2) by simp
  define b where "b = B\<lparr>tl_rx := record_header TLS_TYPE_DATA (length out) @ out\<rparr>"
  define B' where "B' = notify (b\<lparr>tl_rx_seq := tl_rx_seq b + 1, tl_clk := Suc (tl_clk b),
     tl_plain := tl_plain b @ [data], tl_rx := []\<rparr>)"
  have "tls13_psk_rx E b = tls13_psk_rx E B'"
    unfolding B'_def using gen _ _ d
    by (rule data_record_rx [where out = out]) (use B sync seal in \<open>simp_all add: b_def synced_def\<close>)
  also have "\<dots> = (OK, B')" by (rule rx_empty) (simp add: B'_def)
  finally have "tls13_psk_cipherstream_deliver E (record_header TLS_TYPE_DATA (length out) @ out) B = (OK, B')"
    using B(3) l by (simp add: tls13_psk_cipherstream_deliver_def b_def)
  then show ?thesis using B by (intro exI [of _ B']) (simp add: B'_def b_def)
qed

text \<open>C14: The data stream round-trips. Between two connections in the data phase whose keys and sequence
  numbers agree, every list of buffers (each of 1 to 8192 bytes) that one consumer sends goes out as
  one record per buffer, and the other side, receiving these records, delivers exactly the same buffers
  in the same order; the two sides stay in step.\<close>

theorem stream_roundtrip:
  assumes "tls_generous E" "quiet_consumer E" "ready A" "tl_phase B = PSK_DATA" "tl_tx_iobuf B = None" "tl_rx B = []"
    "synced A B" "\<forall>d\<in>set ds. d \<noteq> [] \<and> length d \<le> TLS13_MAX_PLAINTEXT"
  shows "\<exists>A' rs B'. send_all E ds A = (OK, A') \<and> tl_wire A' = tl_wire A @ rs \<and> length rs = length ds \<and>
     feed (tls13_psk_cipherstream_deliver E) rs B = (OK, B') \<and> tl_plain B' = tl_plain B @ ds \<and> synced A' B'"
  using assms(3-8)
proof (induction ds arbitrary: A B)
  case Nil
  then show ?case by simp
next
  case (Cons d ds)
  obtain out A1 where A1: "tls13_psk_plainstream_deliver E d A = (OK, A1)" "ready A1"
      "tls13_seal (te_cipher E) (tl_tx_key A) (tl_tx_iv A) (tl_tx_seq A)
         (record_header TLS_TYPE_DATA (length out)) d TLS_TYPE_DATA = Some out"
      "tl_wire A1 = tl_wire A @ [record_header TLS_TYPE_DATA (length out) @ out]"
      "tl_tx_key A1 = tl_tx_key A" "tl_tx_iv A1 = tl_tx_iv A" "tl_tx_seq A1 = tl_tx_seq A + 1"
    using send_one [OF assms(1) Cons.prems(1)] by blast
  have d: "d \<noteq> []" "length d \<le> TLS13_MAX_PLAINTEXT" using Cons.prems(6) by simp_all
  obtain B1 where B1: "tls13_psk_cipherstream_deliver E (record_header TLS_TYPE_DATA (length out) @ out) B = (OK, B1)"
      "tl_phase B1 = PSK_DATA" "tl_tx_iobuf B1 = None" "tl_rx B1 = []" "tl_plain B1 = tl_plain B @ [d]"
      "tl_rx_key B1 = tl_rx_key B" "tl_rx_iv B1 = tl_rx_iv B" "tl_rx_seq B1 = tl_rx_seq B + 1"
    using receive_one [OF assms(1,2) Cons.prems(2-4) d Cons.prems(5) A1(3)] by blast
  have "synced A1 B1" using Cons.prems(5) A1 B1 by (simp add: synced_def)
  moreover have "\<forall>d\<in>set ds. d \<noteq> [] \<and> length d \<le> TLS13_MAX_PLAINTEXT" using Cons.prems(6) by simp
  ultimately obtain A' rs B' where IH: "send_all E ds A1 = (OK, A')" "tl_wire A' = tl_wire A1 @ rs" "length rs = length ds"
     "feed (tls13_psk_cipherstream_deliver E) rs B1 = (OK, B')" "tl_plain B' = tl_plain B1 @ ds" "synced A' B'"
    using Cons.IH [OF A1(2) B1(2,3,4)] by blast
  show ?case
    by (intro exI [of _ A'] exI [of _ "(record_header TLS_TYPE_DATA (length out) @ out) # rs"] exI [of _ B'])
      (simp add: A1 B1 IH)
qed

definition toy_peer :: tls13_psk where
  "toy_peer = zero_conn\<lparr>tl_phase := PSK_DATA\<rparr>"

lemma toy_quiet: "quiet_consumer toy_env"
  by (simp add: quiet_consumer_def toy_env_def)

theorem stream_roundtrip_witness:
  "\<exists>A' rs B'. send_all toy_env [[1, 2, 3], [4]] toy_peer = (OK, A') \<and> length rs = 2 \<and>
     feed (tls13_psk_cipherstream_deliver toy_env) rs toy_peer = (OK, B') \<and> tl_plain B' = [[1, 2, 3], [4]]"
proof -
  have p: "ready toy_peer" "tl_phase toy_peer = PSK_DATA" "tl_tx_iobuf toy_peer = None" "tl_rx toy_peer = []"
      "synced toy_peer toy_peer" "tl_plain toy_peer = []"
    by (simp_all add: toy_peer_def ready_def synced_def zero_conn_def)
  have "\<forall>d\<in>set [[1, 2, 3], [4 :: byte]]. d \<noteq> [] \<and> length d \<le> TLS13_MAX_PLAINTEXT" by simp
  from stream_roundtrip [OF toy_generous toy_quiet p(1-5) this] p(6)
  obtain A' rs B' where "send_all toy_env [[1, 2, 3], [4]] toy_peer = (OK, A')" "length rs = length [[1, 2, 3], [4 :: byte]]"
     "feed (tls13_psk_cipherstream_deliver toy_env) rs toy_peer = (OK, B')" "tl_plain B' = tl_plain toy_peer @ [[1, 2, 3], [4]]"
    by blast
  then show ?thesis using p(6) by (intro exI [of _ A'] exI [of _ rs] exI [of _ B']) simp
qed

section \<open>A peer without the pre-shared key\<close>

text \<open>C20: Data is accepted before the handshake. Right after the ClientHello, before any message of the
  server, a record sealed under the all-zero key and nonce (which need no secret) is accepted, and its
  content is delivered to the consumer.\<close>

theorem zero_key_data_delivered:
  assumes gen: "tls_generous E" "quiet_consumer E" and id: "length identity \<le> 355"
    and add: "add_tls13_psk E n psk identity = (OK, s)" and d: "data \<noteq> []" "length data \<le> TLS13_MAX_PLAINTEXT"
    and seal: "tls13_seal (te_cipher E) (replicate 16 0) (replicate 12 0) 0
      (record_header TLS_TYPE_DATA (length out)) data TLS_TYPE_DATA = Some out"
  shows "\<exists>s'. tls13_psk_cipherstream_deliver E (record_header TLS_TYPE_DATA (length out) @ out) s = (OK, s') \<and>
     tl_phase s' = PSK_SERVER_FLIGHT \<and> tl_plain s' = [data]"
proof -
  obtain priv pub ch where s: "s = hello_sent E psk identity priv pub ch"
    using add_sends_hello [OF gen(1) id, of n psk] add by auto
  have ok: "aead_ok (te_cipher E)" "tc_authsize (te_cipher E) = 16"
    using gen(1) by (simp_all add: tls_generous_def tls_env_ok_def)
  have l: "length out \<le> 8209" using seal_length [OF ok(1) seal] ok(2) d(2) by simp
  define b where "b = s\<lparr>tl_rx := record_header TLS_TYPE_DATA (length out) @ out\<rparr>"
  define s' where "s' = notify (b\<lparr>tl_rx_seq := tl_rx_seq b + 1, tl_clk := Suc (tl_clk b),
     tl_plain := tl_plain b @ [data], tl_rx := []\<rparr>)"
  have "tls13_psk_rx E b = tls13_psk_rx E s'"
    unfolding s'_def using gen _ _ d
    by (rule data_record_rx [where out = out]) (use seal in \<open>simp_all add: b_def s\<close>)
  also have "\<dots> = (OK, s')" by (rule rx_empty) (simp add: s'_def)
  finally have "tls13_psk_cipherstream_deliver E (record_header TLS_TYPE_DATA (length out) @ out) s = (OK, s')"
    using l by (simp add: tls13_psk_cipherstream_deliver_def b_def s)
  then show ?thesis by (intro exI [of _ s']) (simp add: s'_def b_def s)
qed

text \<open>An environment's connection whose ClientHello is out.\<close>

lemma toy_hello_sent:
  "\<exists>priv pub ch. add_tls13_psk toy_env 100 [1, 2] toy_identity = (OK, hello_sent toy_env [1, 2] toy_identity priv pub ch)"
proof -
  have "length toy_identity \<le> 355" by (simp add: toy_identity_def)
  then show ?thesis using add_sends_hello [OF toy_generous] by blast
qed

theorem zero_key_data_delivered_witness:
  "\<exists>s out s'. add_tls13_psk toy_env 100 [1, 2] toy_identity = (OK, s) \<and>
     tls13_psk_cipherstream_deliver toy_env (record_header TLS_TYPE_DATA (length out) @ out) s = (OK, s') \<and>
     tl_plain s' = [[6, 6, 6]]"
proof -
  obtain s where s: "add_tls13_psk toy_env 100 [1, 2] toy_identity = (OK, s)" using toy_hello_sent by blast
  have id: "length toy_identity \<le> 355" by (simp add: toy_identity_def)
  obtain out where "tls13_seal (te_cipher toy_env) (replicate 16 0) (replicate 12 0) 0
      (record_header TLS_TYPE_DATA 20) [6, 6, 6] TLS_TYPE_DATA = Some out" "length out = 20"
    using seal_works [OF toy_generous, of "replicate 16 0" "replicate 12 0" 0 "record_header TLS_TYPE_DATA 20" "[6, 6, 6]" TLS_TYPE_DATA]
    by auto
  then have "tls13_seal (te_cipher toy_env) (replicate 16 0) (replicate 12 0) 0
      (record_header TLS_TYPE_DATA (length out)) [6, 6, 6] TLS_TYPE_DATA = Some out" by simp
  from zero_key_data_delivered [OF toy_generous toy_quiet id s _ _ this] s show ?thesis by auto
qed

text \<open>C21: The handshake can be completed without the pre-shared key. Right after the ClientHello, a
  plaintext Finished message whose MAC is keyed with the all-zero secret, calculated over the
  ClientHello as it was seen on the wire, takes the connection straight to the data phase. All traffic
  keys are then functions of what was on the wire: neither the pre-shared key nor any private key
  enters.\<close>

theorem forged_finished_accepted:
  fixes E s
  defines "d \<equiv> te_digest E" and "z \<equiv> replicate 32 0" and "ch \<equiv> drop 5 (hd (tl_wire s))"
  defines "fin \<equiv> hs_msg TLS_FINISHED (tls13_finished d z ch)"
  assumes gen: "tls_generous E" and id: "length identity \<le> 355"
    and add: "add_tls13_psk E n psk identity = (OK, s)"
  shows "\<exists>s'. tls13_psk_cipherstream_deliver E (record_header TLS_TYPE_HANDSHAKE 36 @ fin) s = (OK, s') \<and>
     tl_phase s' = PSK_DATA \<and>
     (tl_tx_key s', tl_tx_iv s') = tls13_traffic_key d (tls13_derive_secret d (tls13_master_secret d z)
        ''c ap traffic'' (ch @ fin)) TLS13_KEY_LEN TLS13_NONCE_LEN \<and>
     (tl_rx_key s', tl_rx_iv s') = tls13_traffic_key d (tls13_derive_secret d (tls13_master_secret d z)
        ''s ap traffic'' (ch @ fin)) TLS13_KEY_LEN TLS13_NONCE_LEN"
proof -
  obtain priv pub c where s: "s = hello_sent E psk identity priv pub c" "length pub = 32" "length c = 157 + length identity"
    using add_sends_hello [OF gen id, of n psk] add by auto
  have ch: "ch = c" by (simp add: ch_def s(1))
  have ok: "digest_ok d" using gen by (simp add: tls_generous_def tls_env_ok_def d_def)
  then have "length (tls13_finished d k x) = 32" for k x by (simp add: tls13_finished_def digest_ok_def)
  then have lf: "length fin = 36" "drop 4 fin = tls13_finished d z c" "fin ! 0 = TLS_FINISHED"
    by (simp_all add: fin_def hs_msg_def ch)
  define b where "b = s\<lparr>tl_rx := record_header TLS_TYPE_HANDSHAKE 36 @ fin\<rparr>"
  define hs where "hs = (tl_hs s)\<lparr>hs_transcript := c @ fin\<rparr>"
  have "tls13_psk_handshake E fin b = handshake_message E fin b"
    using lf(1) unfolding fin_def by (intro handshake_single) simp
  also have "\<dots> = (OK, finished_keys E hs b)"
    using lf id s(3)
    by (simp add: handshake_message_def tls13_psk_server_finished_def tls13_handshake_finished_def b_def s(1)
        tls13_handshake_update_def hs_def z_def d_def)
  finally have rec: "tls13_psk_record E (record_header TLS_TYPE_HANDSHAKE (length fin) @ fin) b = (OK, finished_keys E hs b)"
    by (simp add: tls13_psk_record_def Let_def)
  define u where "u = (finished_keys E hs b)\<lparr>tl_rx := []\<rparr>"
  have zs: "sizes_ok s" using s id by (simp add: hello_sent_sizes)
  then have zu: "sizes_ok u"
    using sizes_ok_keys(2) [OF ok [unfolded d_def], of b hs] id s lf(1) by (simp add: u_def b_def hs_def sizes_ok_def)
  have pu: "tl_phase u = PSK_CLIENT_FINISHED" "tl_tx_iobuf u = None" "tl_rx u = []" by (simp_all add: u_def b_def s(1))
  obtain v where v: "tls13_psk_tx E u = (OK, v)" "tl_phase v = PSK_DATA" "tl_rx v = []"
      "(tl_tx_key v, tl_tx_iv v) = tls13_traffic_key (te_digest E) (tl_client_ap u) TLS13_KEY_LEN TLS13_NONCE_LEN"
      "(tl_rx_key v, tl_rx_iv v) = (tl_rx_key u, tl_rx_iv u)"
    using tx_finish [OF gen zu pu(1,2)] pu(3) by auto
  have "tls13_psk_rx E b = tls13_psk_rx E v"
    by (rule rx_one_record [where rest = "[]" and b = fin and t = TLS_TYPE_HANDSHAKE])
      (use lf rec v(1) in \<open>simp_all add: b_def u_def\<close>)
  moreover have "tls13_psk_rx E v = (OK, v)" by (rule rx_empty) (simp add: v)
  ultimately have "tls13_psk_cipherstream_deliver E (record_header TLS_TYPE_HANDSHAKE 36 @ fin) s = (OK, v)"
    using lf by (simp add: tls13_psk_cipherstream_deliver_def b_def s(1))
  then show ?thesis
    using v by (intro exI [of _ v]) (simp add: u_def hs_def s(1) ch tls13_handshake_derive_def d_def z_def)
qed

theorem forged_finished_accepted_witness:
  "\<exists>s fin s'. add_tls13_psk toy_env 100 [1, 2] toy_identity = (OK, s) \<and>
     tls13_psk_cipherstream_deliver toy_env (record_header TLS_TYPE_HANDSHAKE 36 @ fin) s = (OK, s') \<and> tl_phase s' = PSK_DATA"
proof -
  obtain s where s: "add_tls13_psk toy_env 100 [1, 2] toy_identity = (OK, s)" using toy_hello_sent by blast
  have id: "length toy_identity \<le> 355" by (simp add: toy_identity_def)
  from forged_finished_accepted [OF toy_generous id s] s show ?thesis by blast
qed

section \<open>The identity limit\<close>

text \<open>Which identities can be used. Although the NVMe/TCP driver accepts pre-shared key identities of
  up to 511 characters, a connection gets beyond its ClientHello only with at most 355: from 356 to 359
  the ClientHello overruns its 512-byte buffer, and from 360 the connection fails at once.\<close>

lemma identity_limit:
  assumes "tls_generous E"
  shows "if length identity \<le> 355
     then \<exists>s. add_tls13_psk E n psk identity = (OK, s) \<and> tl_phase s = PSK_SERVER_FLIGHT \<and> length (tl_wire s) = 1
     else if length identity \<le> 359 then fst (add_tls13_psk E n psk identity) = Fault
     else \<exists>s. add_tls13_psk E n psk identity = (OK, s) \<and> tl_phase s = PSK_FAILED \<and> tl_wire s = []"
proof (cases "length identity \<le> 355")
  case True
  then show ?thesis using add_sends_hello [OF assms True, of n psk] by fastforce
next
  case False
  obtain priv pub random where r: "te_rbg E 3 32 = Inr priv" "te_share E priv = Inr pub" "te_rbg E 5 32 = Inr random"
    using assms by (meson tls_generous_def)
  have d: "digest_ok (te_digest E)" "length random = 32" "length pub = 32"
    using assms r(2,3) by (auto simp: tls_generous_def tls_env_ok_def)
  let ?s = "new_conn E psk identity priv pub"
  let ?ch = "tls13_client_hello (te_digest E) TLS13_MAX_CLIENT_HELLO random pub psk identity ''ext binder''"
  have "fst ?ch = (if length identity \<le> 359 then Fault else Err EINVAL)"
    using client_hello_outcome(1) [OF d] False by simp
  moreover have "hs_binder_label (tl_hs ?s) = ''ext binder''" by (simp add: new_conn_def tls13_handshake_init_def)
  moreover have alloc: "\<And>n l. te_alloc E n l" "te_open E 4 = OK" using assms by (simp_all add: tls_generous_def)
  ultimately have ch: "\<exists>r t. tls13_psk_client_hello E ?s =
      (if length identity \<le> 359 then Fault else Err EINVAL, r, t) \<and> tl_wire t = [] \<and> tl_phase t = PSK_CLIENT_HELLO"
    using r(3) by (cases ?ch) (simp add: tls13_psk_client_hello_def Let_def)
  have add: "add_tls13_psk E n psk identity = tls13_psk_tx E ?s"
    using alloc r by (simp add: add_tls13_psk_def Let_def tls13_generate_key_def new_conn_def zero_conn_def)
  show ?thesis
    using ch False
    by (auto simp: add tls13_psk_tx_def tx_construct_def tls13_psk_fail_def split: if_splits)
qed

end
