(* ===== verification/Nvo.thy ===== *)
theory Nvo
  imports Fw_Prelude
begin

text \<open>
  The non-volatile options block of \<^verbatim>\<open>core/nvo.c\<close>: one checksum byte followed by DHCP-encoded options,
  kept in memory and mirrored to a storage device. One definition per function, in the order of the
  file. The functions of \<^verbatim>\<open>nvs.c\<close>, \<^verbatim>\<open>dhcpopts.c\<close> and \<^verbatim>\<open>settings.c\<close> that it calls are not part of this
  repository and are arguments, collected in \<open>nvo_env\<close>.
\<close>

section \<open>State\<close>

text \<open>A storage device with state \<open>'d\<close>. A read returns its status and the bytes it put into the buffer.\<close>

record 'd nvs_device =
  nd_read :: "nat \<Rightarrow> nat \<Rightarrow> 'd \<Rightarrow> rc \<times> bytes"
  nd_write :: "nat \<Rightarrow> bytes \<Rightarrow> 'd \<Rightarrow> rc \<times> 'd"

text \<open>\<open>nb_data\<close> is the heap block behind \<^verbatim>\<open>data\<close> (empty when nothing is allocated), \<open>nb_opts_data\<close> the
  offset in it that \<^verbatim>\<open>dhcpopts.data\<close> points to (\<open>None\<close> for \<^verbatim>\<open>NULL\<close>); \<open>nb_registered\<close> says whether the
  settings block is registered.\<close>

record 'd nvo_block =
  nb_nvs :: "'d nvs_device"
  nb_address :: nat
  nb_data :: bytes
  nb_len :: nat
  nb_resize :: "(nat \<Rightarrow> rc) option"
  nb_opts_data :: "nat option"
  nb_used_len :: nat
  nb_alloc_len :: nat
  nb_registered :: bool

text \<open>What \<^verbatim>\<open>dhcpopt_store()\<close> does to the option block: it calls the block's reallocation method, writes
  inside the option area, and sets the used length.\<close>

datatype opt_action = Realloc nat | Put nat bytes | SetUsed nat

text \<open>The functions outside this repository: \<open>ne_alloc n\<close> tells whether \<^verbatim>\<open>realloc()\<close> to \<open>n\<close> bytes
  succeeds and \<open>ne_fresh\<close> the uninitialised bytes that it hands out.\<close>

record 'd nvo_env =
  ne_alloc :: "nat \<Rightarrow> bool"
  ne_fresh :: "nat \<Rightarrow> byte"
  ne_nvs_read :: "'d nvs_device \<Rightarrow> nat \<Rightarrow> nat \<Rightarrow> 'd \<Rightarrow> rc \<times> bytes"
  ne_nvs_write :: "'d nvs_device \<Rightarrow> nat \<Rightarrow> bytes \<Rightarrow> 'd \<Rightarrow> rc \<times> 'd"
  ne_no_realloc :: "nat \<Rightarrow> rc"
  ne_applies :: "nat \<Rightarrow> bool"
  ne_opt_store :: "nat \<Rightarrow> bytes option \<Rightarrow> bytes \<Rightarrow> opt_action list \<times> rc"
  ne_opt_fetch :: "nat \<Rightarrow> bytes \<Rightarrow> errno + bytes"
  ne_used_len :: "bytes \<Rightarrow> nat"
  ne_register :: rc

section \<open>Operations\<close>

definition nvo_checksum :: "'d nvo_block \<Rightarrow> byte" where
  "nvo_checksum nvo = foldl (\<lambda>sum b. sum + b) 0 (take (nb_len nvo) (nb_data nvo))"

definition nvo_realloc :: "'d nvo_env \<Rightarrow> nat \<Rightarrow> 'd nvo_block \<Rightarrow> rc \<times> 'd nvo_block" where
  "nvo_realloc E len nvo =
    (if \<not> ne_alloc E len then (Err ENOMEM, nvo)
     else
       let new_data = take len (nb_data nvo) @ map (ne_fresh E) [length (nb_data nvo)..<len];
           nvo = nvo\<lparr>nb_data := new_data, nb_len := len\<rparr> in
       if len \<noteq> 0 then (OK, nvo\<lparr>nb_opts_data := Some 1, nb_alloc_len := len - 1\<rparr>)
       else (OK, nvo\<lparr>nb_opts_data := None, nb_used_len := 0, nb_alloc_len := 0\<rparr>))"

definition nvo_realloc_dhcpopt :: "'d nvo_env \<Rightarrow> nat \<Rightarrow> 'd nvo_block \<Rightarrow> rc \<times> 'd nvo_block" where
  "nvo_realloc_dhcpopt E len nvo =
    (case nb_resize nvo of
       None \<Rightarrow> (ne_no_realloc E len, nvo)
     | Some resize_method \<Rightarrow>
         let len = (if len \<noteq> 0 then len + 1 else len) in
         then_ok (resize_method len, nvo) (nvo_realloc E len))"

text \<open>The option area: what \<^verbatim>\<open>dhcpopts.data\<close> and \<^verbatim>\<open>dhcpopts.alloc_len\<close> describe.\<close>

definition option_area :: "'d nvo_block \<Rightarrow> bytes" where
  "option_area nvo = (case nb_opts_data nvo of None \<Rightarrow> [] | Some off \<Rightarrow> get_at off (nb_alloc_len nvo) (nb_data nvo))"

definition nvo_load :: "'d nvo_env \<Rightarrow> 'd nvo_block \<Rightarrow> 'd \<Rightarrow> rc \<times> 'd nvo_block" where
  "nvo_load E nvo d =
    (if nb_len nvo = 0 then (OK, nvo)
     else if length (nb_data nvo) < nb_len nvo then (Fault, nvo)
     else
       let (r, bs) = ne_nvs_read E (nb_nvs nvo) (nb_address nvo) (nb_len nvo) d;
           nvo = nvo\<lparr>nb_data := put_at 0 bs (nb_data nvo)\<rparr> in
       then_ok (r, nvo) (\<lambda>nvo.
         let bad_sum = (nvo_checksum nvo \<noteq> 0);
             wiped = nvo\<lparr>nb_data := replicate (nb_len nvo) 0\<rparr>;
             rescan = (\<lambda>nvo. nvo\<lparr>nb_used_len := ne_used_len E (option_area nvo)\<rparr>) in
         if bad_sum then (OK, rescan wiped)
         else case nb_opts_data nvo of
             None \<Rightarrow> (Fault, nvo)
           | Some off \<Rightarrow>
               if length (nb_data nvo) \<le> off then (Fault, nvo)
               else if nb_data nvo ! off = 0 then (OK, rescan wiped)
               else (OK, rescan nvo)))"

definition nvo_save :: "'d nvo_env \<Rightarrow> 'd nvo_block \<Rightarrow> 'd \<Rightarrow> rc \<times> 'd nvo_block \<times> 'd" where
  "nvo_save E nvo d =
    (if 0 < nb_len nvo then
       if length (nb_data nvo) < nb_len nvo then (Fault, nvo, d)
       else
         let nvo = nvo\<lparr>nb_data := (nb_data nvo)[0 := nb_data nvo ! 0 - nvo_checksum nvo]\<rparr>;
             (r, d) = ne_nvs_write E (nb_nvs nvo) (nb_address nvo) (take (nb_len nvo) (nb_data nvo)) d in
         (r, nvo, d)
     else
       let (r, d) = nd_write (nb_nvs nvo) (nb_address nvo) [] d in (r, nvo, d))"

definition nvo_applies :: "'d nvo_env \<Rightarrow> string option \<Rightarrow> nat \<Rightarrow> bool" where
  "nvo_applies E scope tag \<longleftrightarrow> scope = None \<and> ne_applies E tag"

text \<open>\<^verbatim>\<open>dhcpopt_store()\<close> acting on the block; a write outside the option area is a fault.\<close>

fun dhcpopt_run :: "'d nvo_env \<Rightarrow> opt_action list \<Rightarrow> 'd nvo_block \<Rightarrow> rc \<times> 'd nvo_block" where
  "dhcpopt_run E [] nvo = (OK, nvo)"
| "dhcpopt_run E (Realloc n # as) nvo = then_ok (nvo_realloc_dhcpopt E n nvo) (dhcpopt_run E as)"
| "dhcpopt_run E (Put off bs # as) nvo =
    (case nb_opts_data nvo of
       None \<Rightarrow> if bs = [] then dhcpopt_run E as nvo else (Fault, nvo)
     | Some base \<Rightarrow>
         if nb_alloc_len nvo < off + length bs then (Fault, nvo)
         else dhcpopt_run E as (nvo\<lparr>nb_data := put_at (base + off) bs (nb_data nvo)\<rparr>))"
| "dhcpopt_run E (SetUsed n # as) nvo = dhcpopt_run E as (nvo\<lparr>nb_used_len := n\<rparr>)"

definition nvo_store ::
  "'d nvo_env \<Rightarrow> nat \<Rightarrow> bytes option \<Rightarrow> 'd nvo_block \<Rightarrow> 'd \<Rightarrow> rc \<times> 'd nvo_block \<times> 'd" where
  "nvo_store E tag data nvo d =
    (let (actions, result) = ne_opt_store E tag data (option_area nvo);
         (r, nvo) = then_ok (dhcpopt_run E actions nvo) (\<lambda>nvo. (result, nvo)) in
     case r of OK \<Rightarrow> nvo_save E nvo d | e \<Rightarrow> (e, nvo, d))"

definition nvo_fetch :: "'d nvo_env \<Rightarrow> nat \<Rightarrow> 'd nvo_block \<Rightarrow> errno + bytes" where
  "nvo_fetch E tag nvo = ne_opt_fetch E tag (option_area nvo)"

definition nvo_init :: "'d nvs_device \<Rightarrow> nat \<Rightarrow> nat \<Rightarrow> (nat \<Rightarrow> rc) option \<Rightarrow> 'd nvo_block \<Rightarrow> 'd nvo_block" where
  "nvo_init nvs address len resize_method nvo =
    nvo\<lparr>nb_nvs := nvs, nb_address := address, nb_len := len, nb_resize := resize_method,
        nb_opts_data := None, nb_used_len := 0, nb_alloc_len := 0, nb_registered := False\<rparr>"

definition register_nvo :: "'d nvo_env \<Rightarrow> 'd nvo_block \<Rightarrow> 'd \<Rightarrow> rc \<times> 'd nvo_block" where
  "register_nvo E nvo d =
    (case nvo_realloc E (nb_len nvo) nvo of
       (OK, nvo) \<Rightarrow>
         (case then_ok (nvo_load E nvo d) (\<lambda>nvo. (ne_register E, nvo)) of
            (OK, nvo) \<Rightarrow> (OK, nvo\<lparr>nb_registered := True\<rparr>)
          | (Fault, nvo) \<Rightarrow> (Fault, nvo)
          | (e, nvo) \<Rightarrow> (e, snd (nvo_realloc E 0 nvo)))
     | (e, nvo) \<Rightarrow> (e, nvo))"

definition unregister_nvo :: "'d nvo_env \<Rightarrow> 'd nvo_block \<Rightarrow> 'd nvo_block" where
  "unregister_nvo E nvo = snd (nvo_realloc E 0 (nvo\<lparr>nb_registered := False\<rparr>))"

section \<open>Well-formed blocks\<close>

definition nvo_wf :: "'d nvo_block \<Rightarrow> bool" where
  "nvo_wf nvo \<longleftrightarrow> nb_len nvo = length (nb_data nvo) \<and> nb_alloc_len nvo = nb_len nvo - 1 \<and>
     nb_opts_data nvo = (if nb_len nvo = 0 then None else Some 1) \<and> nb_len nvo \<noteq> 1"

text \<open>What no operation on the contents changes.\<close>

definition same_device :: "'d nvo_block \<Rightarrow> 'd nvo_block \<Rightarrow> bool" where
  "same_device nvo nvo' \<longleftrightarrow> nb_nvs nvo' = nb_nvs nvo \<and> nb_address nvo' = nb_address nvo \<and>
     nb_resize nvo' = nb_resize nvo \<and> nb_registered nvo' = nb_registered nvo"

lemma foldl_plus_sum_list: "foldl (\<lambda>sum b. sum + b) a xs = a + (sum_list xs :: byte)"
  by (induction xs arbitrary: a) (simp_all add: ac_simps)

lemma checksum_sum: "nvo_checksum nvo = sum_list (take (nb_len nvo) (nb_data nvo))"
  by (simp add: nvo_checksum_def foldl_plus_sum_list)

lemma option_area_wf: "nvo_wf nvo \<Longrightarrow> option_area nvo = tl (nb_data nvo)"
  by (cases "nb_data nvo") (auto simp: nvo_wf_def option_area_def get_at_def)

lemma realloc_cases:
  assumes "nvo_realloc E len nvo = (r, nvo')" "len \<noteq> 1"
  obtains "r = Err ENOMEM" "nvo' = nvo" "\<not> ne_alloc E len"
    | "r = OK" "nvo_wf nvo'" "nb_len nvo' = len" "same_device nvo nvo'" "ne_alloc E len"
  using assms by (auto simp: nvo_realloc_def nvo_wf_def same_device_def Let_def split: if_splits)

lemma realloc_dhcpopt_wf:
  assumes wf: "nvo_wf nvo"
  shows "nvo_wf (snd (nvo_realloc_dhcpopt E len nvo)) \<and> same_device nvo (snd (nvo_realloc_dhcpopt E len nvo))"
proof (cases "nb_resize nvo")
  case (Some f)
  let ?len = "if len \<noteq> 0 then len + 1 else len"
  obtain r nvo' where r: "nvo_realloc E ?len nvo = (r, nvo')" by fastforce
  have "?len \<noteq> 1" by simp
  with r have "nvo_wf nvo' \<and> same_device nvo nvo'"
    using wf by (elim realloc_cases) (auto simp: same_device_def)
  then show ?thesis using Some wf r
    by (cases "f ?len") (simp_all add: nvo_realloc_dhcpopt_def Let_def same_device_def)
qed (simp add: nvo_realloc_dhcpopt_def wf same_device_def)

lemma dhcpopt_run_wf:
  assumes "nvo_wf nvo"
  shows "nvo_wf (snd (dhcpopt_run E as nvo)) \<and> same_device nvo (snd (dhcpopt_run E as nvo))"
  using assms
proof (induction as arbitrary: nvo)
  case Nil
  then show ?case by (simp add: same_device_def)
next
  case (Cons a as)
  show ?case
  proof (cases a)
    case (Realloc n)
    obtain r nvo' where r: "nvo_realloc_dhcpopt E n nvo = (r, nvo')" by fastforce
    with realloc_dhcpopt_wf [OF Cons.prems, of E n] have "nvo_wf nvo'" "same_device nvo nvo'" by simp_all
    with Cons.IH [of nvo'] show ?thesis by (cases r) (auto simp: Realloc r same_device_def)
  next
    case (Put off bs)
    show ?thesis
    proof (cases "nb_opts_data nvo = None \<or> nb_alloc_len nvo < off + length bs")
      case True
      with Cons.IH [OF Cons.prems] Cons.prems show ?thesis
        by (cases "nb_opts_data nvo") (simp_all add: Put same_device_def)
    next
      case False
      then have "nb_opts_data nvo = Some 1" "nb_len nvo \<noteq> 0" "off + length bs \<le> nb_len nvo - 1"
        using Cons.prems by (auto simp: nvo_wf_def split: if_splits)
      then have "(1 + off) + length bs \<le> length (nb_data nvo)" "nb_opts_data nvo = Some 1"
        using Cons.prems by (cases "nb_data nvo"; simp add: nvo_wf_def)+
      from length_put_at [OF this(1)] have "nvo_wf (nvo\<lparr>nb_data := put_at (1 + off) bs (nb_data nvo)\<rparr>)"
        using Cons.prems by (simp add: nvo_wf_def)
      with Cons.IH [OF this] False \<open>nb_opts_data nvo = Some 1\<close> show ?thesis
        by (auto simp: Put same_device_def)
    qed
  next
    case (SetUsed n)
    then have "nvo_wf (nvo\<lparr>nb_used_len := n\<rparr>)" using Cons.prems by (simp add: nvo_wf_def)
    from Cons.IH [OF this] show ?thesis by (simp add: SetUsed same_device_def)
  qed
qed

section \<open>Storage devices\<close>

text \<open>The contract of the storage functions of \<^verbatim>\<open>nvs.c\<close> for a device without block boundaries: a
  read of at least one byte is the device's, and a successful write is a successful write of the device.\<close>

definition nvs_ok :: "'d nvo_env \<Rightarrow> bool" where
  "nvs_ok E \<longleftrightarrow> (\<forall>dev a n d. 0 < n \<longrightarrow> ne_nvs_read E dev a n d = nd_read dev a n d) \<and>
     (\<forall>dev a bs d d'. bs \<noteq> [] \<longrightarrow> ne_nvs_write E dev a bs d = (OK, d') \<longrightarrow> nd_write dev a bs d = (OK, d'))"

text \<open>The checksum that saving writes makes the sum of the block zero and changes no other byte.\<close>

lemma sum_list_update_0: "xs \<noteq> [] \<Longrightarrow> sum_list (xs[0 := v]) = sum_list xs - xs ! 0 + (v :: byte)"
  by (cases xs) (simp_all add: ac_simps)

definition sealed_block :: "bytes \<Rightarrow> bytes" where
  "sealed_block data = (if data = [] then [] else data[0 := data ! 0 - sum_list data])"

lemma sealed_block_sum: "sum_list (sealed_block data) = 0"
  by (simp add: sealed_block_def sum_list_update_0)

lemma sealed_block_tl [simp]: "tl (sealed_block data) = tl data"
  by (cases data) (simp_all add: sealed_block_def)

lemma length_sealed_block [simp]: "length (sealed_block data) = length data"
  by (simp add: sealed_block_def)

lemma save_wf:
  assumes "nvo_wf nvo" "nvo_save E nvo d = (r, nvo', d')"
  shows "nvo' = nvo\<lparr>nb_data := sealed_block (nb_data nvo)\<rparr> \<and> nvo_wf nvo' \<and>
    (r, d') = (if nb_data nvo = [] then nd_write (nb_nvs nvo) (nb_address nvo) [] d
       else ne_nvs_write E (nb_nvs nvo) (nb_address nvo) (sealed_block (nb_data nvo)) d)"
  using assms
  by (cases "nb_data nvo = []")
     (auto simp: nvo_save_def nvo_wf_def checksum_sum sealed_block_def split: prod.splits)

text \<open>A device that keeps one block: a successful write stores the block (the empty one erases it), and a
  successful read of at least one byte returns it.\<close>

locale block_device =
  fixes dev :: "'d nvs_device"
    and content :: "'d \<Rightarrow> bytes option"
  assumes write_ok: "nd_write dev a bs d = (OK, d') \<Longrightarrow> content d' = (if bs = [] then None else Some bs)"
    and read_ok: "nd_read dev a n d = (OK, bs) \<Longrightarrow> 0 < n \<Longrightarrow> content d = Some bs \<and> length bs = n"
begin

lemma save_content:
  assumes "nvs_ok E" "nvo_wf nvo" "nb_nvs nvo = dev" "nvo_save E nvo d = (OK, nvo', d')"
  shows "content d' = (if nb_data nvo' = [] then None else Some (nb_data nvo')) \<and> sum_list (nb_data nvo') = 0 \<and>
    tl (nb_data nvo') = tl (nb_data nvo) \<and> nvo_wf nvo'"
proof -
  let ?b = "sealed_block (nb_data nvo)"
  have s: "nb_data nvo' = ?b" "nvo_wf nvo'"
    "(OK, d') = (if nb_data nvo = [] then nd_write dev (nb_address nvo) [] d
       else ne_nvs_write E dev (nb_address nvo) ?b d)"
    using save_wf [OF assms(2,4)] assms(3) by auto
  have e: "?b = [] \<longleftrightarrow> nb_data nvo = []" by (simp add: sealed_block_def)
  have "nd_write dev (nb_address nvo) ?b d = (OK, d')"
  proof (cases "nb_data nvo = []")
    case False
    then have "?b \<noteq> []" "ne_nvs_write E dev (nb_address nvo) ?b d = (OK, d')"
      using s(3) e by simp_all
    then show ?thesis using assms(1) by (simp add: nvs_ok_def)
  qed (use s(3) e in simp)
  from write_ok [OF this] show ?thesis by (simp add: s sealed_block_sum)
qed

lemma load_content:
  assumes "nvs_ok E" "nvo_wf nvo" "nb_nvs nvo = dev" "nvo_load E nvo d = (OK, nvo')" "nb_len nvo \<noteq> 0"
  shows "\<exists>b. content d = Some b \<and> length b = nb_len nvo \<and> nvo_wf nvo' \<and> same_device nvo nvo' \<and>
    nb_data nvo' = (if sum_list b = 0 \<and> b ! 1 \<noteq> 0 then b else replicate (length b) 0)"
proof -
  obtain r b where rb: "ne_nvs_read E dev (nb_address nvo) (nb_len nvo) d = (r, b)" by fastforce
  have w: "nb_len nvo = length (nb_data nvo)" "nb_opts_data nvo = Some 1" "nb_len nvo \<noteq> 1" "nb_data nvo \<noteq> []"
    "nb_alloc_len nvo = nb_len nvo - 1"
    using assms(2,5) by (auto simp: nvo_wf_def)
  have r: "r = OK" using assms(3,4,5) rb w by (cases r) (auto simp: nvo_load_def)
  have b: "content d = Some b" "length b = nb_len nvo"
    using read_ok [of "nb_address nvo" "nb_len nvo" d b] assms(1,5) rb r by (simp_all add: nvs_ok_def)
  have p: "put_at 0 b (nb_data nvo) = b" using b(2) w(1) by simp
  show ?thesis
    using assms(3,4,5) rb r b w p
    by (auto simp: nvo_load_def checksum_sum Let_def nvo_wf_def same_device_def split: if_splits)
qed

end

text \<open>Reading succeeds: what loading then does.\<close>

lemma load_reads:
  assumes "nvo_wf nvo" "nb_len nvo \<noteq> 0" "length b = nb_len nvo"
    "ne_nvs_read E (nb_nvs nvo) (nb_address nvo) (nb_len nvo) d = (OK, b)"
  shows "\<exists>nvo'. nvo_load E nvo d = (OK, nvo')"
  using assms by (auto simp: nvo_load_def Let_def nvo_wf_def le_Suc_eq)

end
