(* ===== verification/Efi_Nvs.thy ===== *)
theory Efi_Nvs
  imports Nvo
begin

text \<open>
  The EFI variable storage of \<^verbatim>\<open>interface/efi/efi_nvs.c\<close>, which keeps the options block of \<open>Nvo\<close> in one
  non-volatile EFI variable. The platform's \<^verbatim>\<open>GetVariable()\<close> and \<^verbatim>\<open>SetVariable()\<close> are arguments; what the
  UEFI specification says of them is the locale \<open>uefi_variables\<close>. The variable's value is \<open>None\<close> when it
  does not exist.
\<close>

section \<open>The platform\<close>

datatype efi_status = EFI_SUCCESS | EFI_NOT_FOUND | EFI_BUFFER_TOO_SMALL | EFI_STATUS nat

text \<open>\<^verbatim>\<open>GetVariable()\<close> takes the size of the buffer and returns its status, the updated size and the bytes it
  wrote; \<^verbatim>\<open>SetVariable()\<close> takes the new value.\<close>

record efi_runtime =
  rs_get :: "nat \<Rightarrow> bytes option \<Rightarrow> efi_status \<times> nat \<times> bytes"
  rs_set :: "bytes \<Rightarrow> bytes option \<Rightarrow> efi_status \<times> bytes option"

text \<open>The numbers that \<^verbatim>\<open>EEFI()\<close> gives to the status codes: those of the UEFI specification.\<close>

fun EEFI :: "efi_status \<Rightarrow> errno" where
  "EEFI EFI_SUCCESS = EOTHER 0"
| "EEFI EFI_NOT_FOUND = EOTHER 14"
| "EEFI EFI_BUFFER_TOO_SMALL = EOTHER 5"
| "EEFI (EFI_STATUS n) = EOTHER n"

section \<open>Operations\<close>

definition efi_nvs_read :: "efi_runtime \<Rightarrow> nat \<Rightarrow> nat \<Rightarrow> bytes option \<Rightarrow> rc \<times> bytes" where
  "efi_nvs_read RS address len v =
    (if len = 0 then (OK, [])
     else
       let (efirc, size, bs) = rs_get RS len v in
       if efirc \<noteq> EFI_SUCCESS then (Err (EEFI efirc), bs)
       else if size \<noteq> len then (Err EIO, bs)
       else (OK, bs))"

definition efi_nvs_write :: "efi_runtime \<Rightarrow> nat \<Rightarrow> bytes \<Rightarrow> bytes option \<Rightarrow> rc \<times> bytes option" where
  "efi_nvs_write RS address data v =
    (let (efirc, v) = rs_set RS data v in
     if efirc \<noteq> EFI_SUCCESS then (Err (EEFI efirc), v) else (OK, v))"

definition efi_nvs_resize :: "nat \<Rightarrow> rc" where
  "efi_nvs_resize len = OK"

definition efi_nvs_probe_len :: "efi_runtime \<Rightarrow> bytes option \<Rightarrow> nat" where
  "efi_nvs_probe_len RS v =
    (let (efirc, size, bs) = rs_get RS 0 v in
     if efirc = EFI_NOT_FOUND then 0
     else if efirc \<noteq> EFI_BUFFER_TOO_SMALL then 0
     else size)"

definition efi_nvs :: "efi_runtime \<Rightarrow> bytes option nvs_device" where
  "efi_nvs RS = \<lparr>nd_read = efi_nvs_read RS, nd_write = efi_nvs_write RS\<rparr>"

text \<open>The static block is zero before start-up.\<close>

definition zero_nvo :: "efi_runtime \<Rightarrow> bytes option nvo_block" where
  "zero_nvo RS = \<lparr>nb_nvs = efi_nvs RS, nb_address = 0, nb_data = [], nb_len = 0, nb_resize = None,
     nb_opts_data = None, nb_used_len = 0, nb_alloc_len = 0, nb_registered = False\<rparr>"

definition efi_nvs_startup ::
  "efi_runtime \<Rightarrow> bytes option nvo_env \<Rightarrow> bytes option \<Rightarrow> rc \<times> bytes option nvo_block" where
  "efi_nvs_startup RS E v =
    (let len = efi_nvs_probe_len RS v;
         efi_nvo = nvo_init (efi_nvs RS) 0 len (Some efi_nvs_resize) (zero_nvo RS) in
     register_nvo E efi_nvo v)"

section \<open>What the platform promises\<close>

text \<open>The variable services of the UEFI specification. Each may fail; a failed \<^verbatim>\<open>SetVariable()\<close> says nothing
  about the value. A value of no bytes deletes the variable.\<close>

locale uefi_variables =
  fixes RS :: efi_runtime
  assumes get_none: "fst (rs_get RS n None) \<noteq> EFI_SUCCESS \<and> fst (rs_get RS n None) \<noteq> EFI_BUFFER_TOO_SMALL"
    and get_small: "rs_get RS n (Some b) = (EFI_BUFFER_TOO_SMALL, sz, w) \<Longrightarrow> n < length b \<and> sz = length b"
    and get_success: "rs_get RS n (Some b) = (EFI_SUCCESS, sz, w) \<Longrightarrow> length b \<le> n \<and> sz = length b \<and> w = b"
    and set_success: "rs_set RS data v = (EFI_SUCCESS, v') \<Longrightarrow> v' = (if data = [] then None else Some data)"
begin

lemma read_success: "efi_nvs_read RS a n v = (OK, bs) \<Longrightarrow> 0 < n \<Longrightarrow> v = Some bs \<and> length bs = n"
  using get_none [of n] get_success [of n]
  by (cases v) (force simp: efi_nvs_read_def split: prod.splits if_splits)+

lemma probe_none: "efi_nvs_probe_len RS None = 0"
  using get_none [of 0] by (auto simp: efi_nvs_probe_len_def split: prod.splits)

text \<open>EFI variables are a block device in the sense of \<open>Nvo\<close>.\<close>

lemma block: "block_device (efi_nvs RS) (\<lambda>v. v)"
proof
  fix a bs d d' assume "nd_write (efi_nvs RS) a bs d = (OK, d')"
  then have "rs_set RS bs d = (EFI_SUCCESS, d')"
    by (auto simp: efi_nvs_def efi_nvs_write_def split: prod.splits if_splits)
  then show "d' = (if bs = [] then None else Some bs)" by (rule set_success)
next
  fix a n d bs assume "nd_read (efi_nvs RS) a n d = (OK, bs)" "0 < n"
  then show "d = Some bs \<and> length bs = n"
    using read_success by (simp add: efi_nvs_def)
qed

end

sublocale uefi_variables \<subseteq> efi: block_device "efi_nvs RS" "\<lambda>v. v"
  by (rule block)

text \<open>A platform on which no service fails.\<close>

definition plain_runtime :: efi_runtime where
  "plain_runtime = \<lparr>
     rs_get = (\<lambda>n v. case v of
         None \<Rightarrow> (EFI_NOT_FOUND, n, [])
       | Some b \<Rightarrow> if n < length b then (EFI_BUFFER_TOO_SMALL, length b, []) else (EFI_SUCCESS, length b, b)),
     rs_set = (\<lambda>data v. (EFI_SUCCESS, if data = [] then None else Some data))\<rparr>"

interpretation plain: uefi_variables plain_runtime
  by unfold_locales (auto simp: plain_runtime_def split: if_splits)

section \<open>Storing and restarting\<close>

text \<open>The services do not fail on reading (the value has at least one byte).\<close>

definition readable :: "efi_runtime \<Rightarrow> bytes \<Rightarrow> bool" where
  "readable RS b \<longleftrightarrow> rs_get RS 0 (Some b) = (EFI_BUFFER_TOO_SMALL, length b, []) \<and>
     rs_get RS (length b) (Some b) = (EFI_SUCCESS, length b, b)"

text \<open>A restart with working memory and settings.\<close>

definition healthy :: "bytes option nvo_env \<Rightarrow> bool" where
  "healthy E \<longleftrightarrow> nvs_ok E \<and> (\<forall>n. ne_alloc E n) \<and> ne_register E = OK"

lemma realloc_healthy:
  assumes "\<And>n. ne_alloc E n" "len \<noteq> 1"
  shows "\<exists>nvo'. nvo_realloc E len nvo = (OK, nvo') \<and> nvo_wf nvo' \<and> nb_len nvo' = len \<and> same_device nvo nvo'"
  using assms by (cases "nvo_realloc E len nvo") (auto elim!: realloc_cases)

lemma startup_readable:
  assumes "uefi_variables RS" "healthy E" "readable RS b" "2 \<le> length b"
  shows "\<exists>nvo. efi_nvs_startup RS E (Some b) = (OK, nvo) \<and> nvo_wf nvo \<and> nb_registered nvo \<and> nb_nvs nvo = efi_nvs RS \<and>
    nb_data nvo = (if sum_list b = 0 \<and> b ! 1 \<noteq> 0 then b else replicate (length b) 0)"
proof -
  let ?init = "nvo_init (efi_nvs RS) 0 (length b) (Some efi_nvs_resize) (zero_nvo RS)"
  have E: "nvs_ok E" "\<And>n. ne_alloc E n" "ne_register E = OK" using assms(2) by (auto simp: healthy_def)
  have probe: "efi_nvs_probe_len RS (Some b) = length b"
    using assms(3) by (simp add: readable_def efi_nvs_probe_len_def)
  have "length b \<noteq> 1" using assms(4) by simp
  from realloc_healthy [OF E(2) this] obtain n1 where n1: "nvo_realloc E (length b) ?init = (OK, n1)"
    "nvo_wf n1" "nb_len n1 = length b" "same_device ?init n1" by blast
  have dev: "nb_nvs n1 = efi_nvs RS" using n1(4) by (simp add: same_device_def nvo_init_def)
  have ne: "nb_len n1 \<noteq> 0" "b \<noteq> []" using assms(4) n1(3) by auto
  have "ne_nvs_read E (nb_nvs n1) (nb_address n1) (nb_len n1) (Some b) = (OK, b)"
    using E(1) ne assms(3) by (simp add: nvs_ok_def dev n1(3) efi_nvs_def efi_nvs_read_def readable_def)
  from load_reads [OF n1(2) ne(1) _ this] n1(3) obtain n2 where n2: "nvo_load E n1 (Some b) = (OK, n2)" by auto
  have bd: "block_device (efi_nvs RS) (\<lambda>v. v)" by (rule uefi_variables.block [OF assms(1)])
  have c: "nvo_wf n2" "same_device n1 n2" "nb_data n2 = (if sum_list b = 0 \<and> b ! 1 \<noteq> 0 then b else replicate (length b) 0)"
    using block_device.load_content [OF bd E(1) n1(2) dev n2 ne(1)] by auto
  have "efi_nvs_startup RS E (Some b) = (OK, n2\<lparr>nb_registered := True\<rparr>)"
    using n1(1,3) n2 E(3) by (simp add: efi_nvs_startup_def probe register_nvo_def nvo_init_def)
  then show ?thesis using c dev by (simp add: nvo_wf_def same_device_def)
qed

end
