(* ===== verification/Nvo_Props.thy ===== *)
theory Nvo_Props
  imports Efi_Nvs
begin

text \<open>
  Properties of the non-volatile options over EFI variables: stored options survive a restart, corruption
  is detected, and the one variable whose loading reads outside the block.
\<close>

lemma store_saves:
  assumes "nvo_wf nvo" "nvo_store E tag data nvo d = (OK, nvo', d')"
  obtains nvo1 where "nvo_wf nvo1" "same_device nvo nvo1" "nvo_save E nvo1 d = (OK, nvo', d')"
proof -
  obtain as result where o: "ne_opt_store E tag data (option_area nvo) = (as, result)" by fastforce
  obtain r nvo1 where r: "dhcpopt_run E as nvo = (r, nvo1)" by fastforce
  with dhcpopt_run_wf [OF assms(1), of E as] have wf: "nvo_wf nvo1" "same_device nvo nvo1" by simp_all
  have "nvo_save E nvo1 d = (OK, nvo', d')"
    using assms(2) by (cases r; cases result; simp add: nvo_store_def o r)
  then show thesis by (rule that [OF wf])
qed

lemma startup_absent:
  assumes "uefi_variables RS" "healthy E"
  shows "\<exists>nvo. efi_nvs_startup RS E None = (OK, nvo) \<and> nvo_wf nvo \<and> nb_registered nvo \<and> nb_data nvo = []"
  using assms
  by (auto simp: efi_nvs_startup_def uefi_variables.probe_none healthy_def register_nvo_def nvo_realloc_def
      nvo_load_def nvo_init_def zero_nvo_def nvo_wf_def)

text \<open>C15: Options survive a restart. When storing a setting succeeds, the EFI variable holds the whole
  block with a zero byte sum (or does not exist when no options are left), and a restart of the
  firmware registers a block with exactly the same contents, from which every setting has the same value.
  (The variable must be readable and its first option must not be a pad byte.)\<close>

theorem store_survives_restart:
  assumes rs: "uefi_variables RS" and wf: "nvo_wf nvo" "nb_nvs nvo = efi_nvs RS" and E: "nvs_ok E" "healthy E'"
    and st: "nvo_store E tag data nvo v = (OK, nvo', v')"
    and rd: "nb_data nvo' \<noteq> [] \<Longrightarrow> readable RS (nb_data nvo') \<and> nb_data nvo' ! 1 \<noteq> 0"
  shows "v' = (if nb_data nvo' = [] then None else Some (nb_data nvo')) \<and> sum_list (nb_data nvo') = 0 \<and>
    (\<exists>nvo''. efi_nvs_startup RS E' v' = (OK, nvo'') \<and> nb_registered nvo'' \<and> nvo_wf nvo'' \<and>
       nb_data nvo'' = nb_data nvo' \<and> (\<forall>t. nvo_fetch E' t nvo'' = nvo_fetch E' t nvo'))"
proof -
  obtain nvo1 where n1: "nvo_wf nvo1" "same_device nvo nvo1" "nvo_save E nvo1 v = (OK, nvo', v')"
    using store_saves [OF wf(1) st] .
  have dev: "nb_nvs nvo1 = efi_nvs RS" using n1(2) wf(2) by (simp add: same_device_def)
  from block_device.save_content [OF uefi_variables.block [OF rs] E(1) n1(1) dev n1(3)]
  have c: "v' = (if nb_data nvo' = [] then None else Some (nb_data nvo'))" "sum_list (nb_data nvo') = 0" "nvo_wf nvo'"
    by simp_all
  have "\<exists>nvo''. efi_nvs_startup RS E' v' = (OK, nvo'') \<and> nb_registered nvo'' \<and> nvo_wf nvo'' \<and> nb_data nvo'' = nb_data nvo'"
  proof (cases "nb_data nvo' = []")
    case True
    then show ?thesis using startup_absent [OF rs E(2)] c(1) by auto
  next
    case False
    then have "2 \<le> length (nb_data nvo')" using c(3) by (cases "nb_data nvo'") (auto simp: nvo_wf_def)
    from startup_readable [OF rs E(2) _ this] rd False c show ?thesis by auto
  qed
  with c show ?thesis by (auto simp: nvo_fetch_def option_area_wf)
qed

text \<open>A library that stores its data as the only option.\<close>

definition toy_nvo_env :: "bytes option nvo_env" where
  "toy_nvo_env = \<lparr>ne_alloc = (\<lambda>_. True), ne_fresh = (\<lambda>_. 0xaa), ne_nvs_read = nd_read,
     ne_nvs_write = nd_write, ne_no_realloc = (\<lambda>_. Err ENOSPC), ne_applies = (\<lambda>_. True),
     ne_opt_store = (\<lambda>tag data area. case data of
         None \<Rightarrow> ([SetUsed 0, Realloc 0], OK)
       | Some d \<Rightarrow> let opt = of_nat tag # of_nat (length d) # d in
           ([Realloc (length opt), SetUsed (length opt), Put 0 opt], OK)),
     ne_opt_fetch = (\<lambda>tag area. if area = [] then Inl ENOENT else Inr (drop 2 area)), ne_used_len = length,
     ne_register = OK\<rparr>"

lemma readable_plain: "readable plain_runtime b \<longleftrightarrow> b \<noteq> []"
  by (simp add: readable_def plain_runtime_def)

lemma toy_nvo_env_ok: "nvs_ok toy_nvo_env" "healthy toy_nvo_env"
  by (simp_all add: nvs_ok_def healthy_def toy_nvo_env_def)

definition toy_nvo :: "bytes option nvo_block" where
  "toy_nvo = snd (efi_nvs_startup plain_runtime toy_nvo_env None)"

lemma toy_nvo_eq: "toy_nvo = (zero_nvo plain_runtime)\<lparr>nb_resize := Some efi_nvs_resize, nb_registered := True\<rparr>"
  by (simp add: toy_nvo_def efi_nvs_startup_def plain.probe_none register_nvo_def nvo_realloc_def nvo_load_def
      nvo_init_def zero_nvo_def toy_nvo_env_def)

theorem store_survives_restart_witness:
  "\<exists>nvo' nvo''. nvo_store toy_nvo_env 18 (Some [7, 8]) toy_nvo None = (OK, nvo', Some [0xdd, 18, 2, 7, 8]) \<and>
     efi_nvs_startup plain_runtime toy_nvo_env (Some [0xdd, 18, 2, 7, 8]) = (OK, nvo'') \<and>
     nvo_fetch toy_nvo_env 18 nvo'' = Inr [7, 8]"
proof -
  obtain nvo' where s: "nvo_store toy_nvo_env 18 (Some [7, 8]) toy_nvo None = (OK, nvo', Some [0xdd, 18, 2, 7, 8])"
    and d: "nb_data nvo' = [0xdd, 18, 2, 7, 8]" and f: "nvo_fetch toy_nvo_env 18 nvo' = Inr [7, 8]"
    by (simp add: toy_nvo_eq zero_nvo_def nvo_store_def toy_nvo_env_def efi_nvs_resize_def nvo_realloc_dhcpopt_def
        nvo_realloc_def nvo_save_def nvo_checksum_def efi_nvs_def efi_nvs_write_def plain_runtime_def option_area_def
        put_at_def get_at_def nvo_fetch_def upt_rec)
  have "nvo_wf toy_nvo" "nb_nvs toy_nvo = efi_nvs plain_runtime"
    by (simp_all add: toy_nvo_eq zero_nvo_def nvo_wf_def)
  from store_survives_restart [OF plain.uefi_variables_axioms this toy_nvo_env_ok s]
  show ?thesis using s f by (auto simp: d readable_plain)
qed

text \<open>C16: Corruption of stored options is detected. When a single byte of a saved block (one with a zero byte
  sum) is changed, start-up wipes the block instead of using it.\<close>

lemma sum_list_update: "i < length xs \<Longrightarrow> sum_list (xs[i := v]) = sum_list xs - xs ! i + (v :: byte)"
  by (induction xs arbitrary: i) (auto simp: ac_simps split: nat.split)

theorem corruption_wiped:
  assumes "uefi_variables RS" "healthy E" "sum_list b = 0" "2 \<le> length b" "i < length b" "x \<noteq> b ! i"
    "readable RS (b[i := x])"
  shows "\<exists>nvo. efi_nvs_startup RS E (Some (b[i := x])) = (OK, nvo) \<and> nb_data nvo = replicate (length b) 0 \<and>
    option_area nvo = replicate (length b - 1) 0"
proof -
  have "sum_list (b[i := x]) \<noteq> 0" using assms(3,5,6) by (simp add: sum_list_update)
  with startup_readable [OF assms(1,2,7)] assms(4)
  obtain nvo where "efi_nvs_startup RS E (Some (b[i := x])) = (OK, nvo)" "nvo_wf nvo" "nb_data nvo = replicate (length b) 0"
    by auto
  then show ?thesis by (auto simp: option_area_wf)
qed

theorem corruption_wiped_witness:
  "\<exists>nvo. efi_nvs_startup plain_runtime toy_nvo_env (Some [0xdd, 18, 2, 7, 9]) = (OK, nvo) \<and> option_area nvo = [0, 0, 0, 0]"
  using corruption_wiped [OF plain.uefi_variables_axioms toy_nvo_env_ok(2), of "[0xdd, 18, 2, 7, 8]"
      "Suc (Suc (Suc (Suc 0)))" 9]
  by (auto simp: readable_plain)

text \<open>Which variable makes start-up read outside its block. With a readable, non-empty variable,
  start-up makes an access outside the block if and only if the variable is one zero byte: its
  checksum is right, and the first option byte that the code then looks at is not there.\<close>

lemma startup_overread_iff:
  assumes "healthy E" "readable RS b" "b \<noteq> []"
  shows "fst (efi_nvs_startup RS E (Some b)) = Fault \<longleftrightarrow> b = [0]"
  using assms
  by (cases b)
     (auto simp: efi_nvs_startup_def efi_nvs_probe_len_def readable_def register_nvo_def nvo_realloc_def healthy_def
      nvo_init_def nvs_ok_def nvo_load_def zero_nvo_def efi_nvs_def efi_nvs_read_def nvo_checksum_def foldl_plus_sum_list Let_def)

end
