(* ===== verification/Nbct.thy ===== *)
theory Nbct
  imports Nvme_Uri
begin

text \<open>
  The NVMe boot credentials table of \<^verbatim>\<open>drivers/block/nbct.c\<close>: an ACPI table with one fixed-size entry per
  NVMe/TCP session, which the firmware installs and the initramfs script \<^verbatim>\<open>initramfs-nbft/nbft-connect\<close>
  reads at fixed offsets. The theory has both sides, and the property that they agree.
\<close>

section \<open>Layout\<close>

abbreviation "NBCT_ENTRY_LEN \<equiv> (1152 :: nat)"
abbreviation "NBCT_TRADDR_LEN \<equiv> (128 :: nat)"
abbreviation "NBCT_TRSVCID_LEN \<equiv> (16 :: nat)"
abbreviation "NBCT_NQN_LEN \<equiv> (256 :: nat)"
abbreviation "NBCT_HOSTNQN_LEN \<equiv> (256 :: nat)"
abbreviation "NBCT_SECRET_LEN \<equiv> (320 :: nat)"
abbreviation "NBCT_TLS_TRSVCID_LEN \<equiv> (16 :: nat)"
abbreviation "NBCT_TLS_PSK_LEN \<equiv> (128 :: nat)"

text \<open>The header of an ACPI table (36 bytes: signature, length, revision, checksum, OEM identifiers, OEM
  revision, compiler identifier and revision), with the fields that the code sets.\<close>

record acpi_header =
  ah_signature :: bytes
  ah_length :: u32
  ah_revision :: byte
  ah_oem_id :: bytes
  ah_oem_table_id :: bytes

definition enc_acpi_header :: "acpi_header \<Rightarrow> bytes" where
  "enc_acpi_header h = resize 4 (ah_signature h) @ cpu_to_le32 (ah_length h) @ [ah_revision h, 0] @
     resize 6 (ah_oem_id h) @ resize 8 (ah_oem_table_id h) @ replicate 12 0"

record nbct_header =
  nh_count :: byte

definition enc_nbct_header :: "nbct_header \<Rightarrow> bytes" where
  "enc_nbct_header h = [nh_count h, 0, 0, 0]"

record nbct_entry =
  nt_index :: u16
  nt_traddr :: bytes
  nt_trsvcid :: bytes
  nt_nqn :: bytes
  nt_hostnqn :: bytes
  nt_secret :: bytes
  nt_tls_trsvcid :: bytes
  nt_tls_psk :: bytes

definition enc_nbct_entry :: "nbct_entry \<Rightarrow> bytes" where
  "enc_nbct_entry e = cpu_to_le16 (nt_index e) @ [0, 0] @ resize NBCT_TRADDR_LEN (nt_traddr e) @
     resize NBCT_TRSVCID_LEN (nt_trsvcid e) @ resize NBCT_NQN_LEN (nt_nqn e) @
     resize NBCT_HOSTNQN_LEN (nt_hostnqn e) @ resize NBCT_SECRET_LEN (nt_secret e) @
     resize NBCT_TLS_TRSVCID_LEN (nt_tls_trsvcid e) @ resize NBCT_TLS_PSK_LEN (nt_tls_psk e)"

section \<open>Operations\<close>

definition nbct_complete :: "nvmetcp_session \<Rightarrow> rc" where
  "nbct_complete s = (if subsystem_nqn s = None then Err EAGAIN else OK)"

text \<open>\<^verbatim>\<open>snprintf()\<close> into a field of a zeroed table: at most one byte less than the field.\<close>

definition snprintf_field :: "nat \<Rightarrow> string \<Rightarrow> bytes" where
  "snprintf_field n str = take (n - 1) (str_bytes str)"

text \<open>\<^verbatim>\<open>%d\<close> of a number that is not negative.\<close>

fun decimal :: "nat \<Rightarrow> string" where
  "decimal n = (if n < 10 then [char_of (48 + n)] else decimal (n div 10) @ [char_of (48 + n mod 10)])"

declare decimal.simps [simp del]

text \<open>The entry of one session; \<^verbatim>\<open>%s\<close> of a null pointer is a fault.\<close>

definition session_entry :: "nat \<Rightarrow> nvmetcp_session \<Rightarrow> nbct_entry option" where
  "session_entry i s =
    (case (target_host s, subsystem_nqn s, host_nqn s) of
       (Some host, Some nqn, Some hostnqn) \<Rightarrow> Some \<lparr>
         nt_index = of_nat i,
         nt_traddr = snprintf_field NBCT_TRADDR_LEN host,
         nt_trsvcid = snprintf_field NBCT_TRSVCID_LEN (decimal (unat (target_port s))),
         nt_nqn = snprintf_field NBCT_NQN_LEN nqn,
         nt_hostnqn = snprintf_field NBCT_HOSTNQN_LEN hostnqn,
         nt_secret = (case secret s of None \<Rightarrow> [] | Some x \<Rightarrow> snprintf_field NBCT_SECRET_LEN x),
         nt_tls_trsvcid = (case tls_trsvcid s of None \<Rightarrow> [] | Some x \<Rightarrow> snprintf_field NBCT_TLS_TRSVCID_LEN x),
         nt_tls_psk = (case tls_psk s of None \<Rightarrow> [] | Some x \<Rightarrow> snprintf_field NBCT_TLS_PSK_LEN x)\<rparr>
     | _ \<Rightarrow> None)"

text \<open>The loop that fills in the entries from index \<open>i\<close> on.\<close>

fun fill_entries :: "nat \<Rightarrow> nvmetcp_session list \<Rightarrow> bytes \<Rightarrow> bytes option" where
  "fill_entries i [] table = Some table"
| "fill_entries i (s # ss) table =
    (case session_entry i s of
       None \<Rightarrow> None
     | Some e \<Rightarrow> fill_entries (i + 1) ss (put_at (36 + 4 + i * NBCT_ENTRY_LEN) (enc_nbct_entry e) table))"

text \<open>\<open>mem_ok\<close> tells whether \<^verbatim>\<open>zalloc()\<close> succeeds and \<open>inst\<close> is the table installation method; the result has
  the table that was passed to it.\<close>

definition nbct_install :: "(nat \<Rightarrow> bool) \<Rightarrow> (bytes \<Rightarrow> rc) \<Rightarrow> nvmetcp_session list \<Rightarrow> rc \<times> bytes option" where
  "nbct_install mem_ok inst sessions =
    (let count = length sessions; len = 36 + 4 + count * NBCT_ENTRY_LEN in
     if count = 0 then (OK, None)
     else if \<not> mem_ok len then (Err ENOMEM, None)
     else
       let acpi = enc_acpi_header \<lparr>ah_signature = str_bytes ''NBCT'', ah_length = of_nat len, ah_revision = 1,
             ah_oem_id = str_bytes ''NBCT'', ah_oem_table_id = str_bytes ''iPXE''\<rparr>;
           hdr = enc_nbct_header \<lparr>nh_count = of_nat count\<rparr>;
           table = put_at 36 hdr (put_at 0 acpi (replicate len 0)) in
       case fill_entries 0 sessions table of
         None \<Rightarrow> (Fault, None)
       | Some table \<Rightarrow> (inst table, Some table))"

section \<open>The reader\<close>

text \<open>\<^verbatim>\<open>dd\<close> at the field's offset, with the NUL bytes deleted.\<close>

definition nbct_field :: "bytes \<Rightarrow> nat \<Rightarrow> nat \<Rightarrow> nat \<Rightarrow> bytes" where
  "nbct_field table i off len = filter (\<lambda>b. b \<noteq> 0) (get_at (40 + i * NBCT_ENTRY_LEN + off) len table)"

section \<open>Properties\<close>

lemma length_enc_nbct_entry [simp]: "length (enc_nbct_entry e) = 1124"
  by (simp add: enc_nbct_entry_def)

lemma length_enc_acpi_header [simp]: "length (enc_acpi_header h) = 36"
  by (simp add: enc_acpi_header_def)

lemma length_enc_nbct_header [simp]: "length (enc_nbct_header h) = 4"
  by (simp add: enc_nbct_header_def)

lemma fill_entries_length:
  "fill_entries i ss t = Some t' \<Longrightarrow> 40 + (i + length ss) * NBCT_ENTRY_LEN \<le> length t \<Longrightarrow> length t' = length t"
  by (induction i ss t rule: fill_entries.induct) (auto split: option.splits)

text \<open>Filling in entries leaves what is before them alone.\<close>

lemma fill_entries_before:
  "fill_entries i ss t = Some t' \<Longrightarrow> 40 + (i + length ss) * NBCT_ENTRY_LEN \<le> length t \<Longrightarrow>
   off + n \<le> 40 + i * NBCT_ENTRY_LEN \<Longrightarrow> get_at off n t' = get_at off n t"
proof (induction i ss t rule: fill_entries.induct)
  case (2 i s ss t)
  then show ?case by (auto simp: get_put_before split: option.splits)
qed auto

lemma fill_entries_nth:
  assumes "fill_entries i ss t = Some t'" "40 + (i + length ss) * NBCT_ENTRY_LEN \<le> length t" "j < length ss"
  shows "\<exists>e. session_entry (i + j) (ss ! j) = Some e \<and>
    get_at (40 + (i + j) * NBCT_ENTRY_LEN) 1124 t' = enc_nbct_entry e"
  using assms
proof (induction i ss t arbitrary: j rule: fill_entries.induct)
  case (2 i s ss t)
  then obtain e where e: "session_entry i s = Some e" by (auto split: option.splits)
  let ?t = "put_at (36 + 4 + i * NBCT_ENTRY_LEN) (enc_nbct_entry e) t"
  have f: "fill_entries (i + 1) ss ?t = Some t'" "40 + (i + 1 + length ss) * NBCT_ENTRY_LEN \<le> length ?t"
    using 2(2,3) e by simp_all
  show ?case
  proof (cases j)
    case 0
    have "get_at (40 + i * NBCT_ENTRY_LEN) 1124 t' = get_at (40 + i * NBCT_ENTRY_LEN) 1124 ?t"
      by (rule fill_entries_before [OF f]) simp
    also have "\<dots> = enc_nbct_entry e" using 2(3) by (simp add: get_put_same)
    finally show ?thesis using 0 e by simp
  next
    case (Suc k)
    then have "k < length ss" using 2(4) by simp
    from 2(1) [OF e f this] have "\<exists>e. session_entry (i + 1 + k) (ss ! k) = Some e \<and>
        get_at (40 + (i + 1 + k) * NBCT_ENTRY_LEN) 1124 t' = enc_nbct_entry e" .
    moreover have "i + 1 + k = i + j" "(s # ss) ! j = ss ! k" using Suc by simp_all
    ultimately show ?thesis by (simp only:)
  qed
qed simp

text \<open>A field inside an entry.\<close>

lemma get_at_get_at: "off + n \<le> m \<Longrightarrow> get_at off n (get_at base m t) = get_at (base + off) n t"
proof -
  assume "off + n \<le> m"
  then have "n \<le> m - off" by simp
  then show ?thesis by (simp add: get_at_def drop_take min_absorb1 add.commute)
qed

lemma resize_filter: "0 \<notin> set b \<Longrightarrow> length b \<le> n \<Longrightarrow> filter (\<lambda>x. x \<noteq> 0) (resize n b) = b"
  by (auto simp: resize_def filter_id_conv)

text \<open>Reading a field of an entry gives what was printed into it.\<close>

lemma entry_fields:
  "get_at 4 128 (enc_nbct_entry e) = resize 128 (nt_traddr e)"
  "get_at 132 16 (enc_nbct_entry e) = resize 16 (nt_trsvcid e)"
  "get_at 148 256 (enc_nbct_entry e) = resize 256 (nt_nqn e)"
  "get_at 404 256 (enc_nbct_entry e) = resize 256 (nt_hostnqn e)"
  "get_at 660 320 (enc_nbct_entry e) = resize 320 (nt_secret e)"
  "get_at 980 16 (enc_nbct_entry e) = resize 16 (nt_tls_trsvcid e)"
  "get_at 996 128 (enc_nbct_entry e) = resize 128 (nt_tls_psk e)"
  by (simp_all add: enc_nbct_entry_def get_at_def)

text \<open>A C string holds no NUL character.\<close>

definition c_string :: "string \<Rightarrow> bool" where
  "c_string str \<longleftrightarrow> CHR 0x00 \<notin> set str"

lemma str_bytes_no_0: "c_string str \<Longrightarrow> 0 \<notin> set (str_bytes str)"
proof
  assume c: "c_string str" and "0 \<in> set (str_bytes str)"
  then obtain ch where ch: "ch \<in> set str" "(of_char ch :: byte) = of_char (CHR 0x00)"
    by (auto simp: str_bytes_def)
  from ch(2) have "ch = CHR 0x00" by (simp only: of_char_byte_inj)
  with c ch(1) show False by (simp add: c_string_def)
qed

lemma field_read: "c_string str \<Longrightarrow> 0 < n \<Longrightarrow> filter (\<lambda>x. x \<noteq> 0) (resize n (snprintf_field n str)) = snprintf_field n str"
  by (rule resize_filter) (auto simp: snprintf_field_def dest: in_set_takeD str_bytes_no_0)

lemma field_empty: "filter (\<lambda>x. x \<noteq> 0) (resize n []) = []"
  by (simp add: resize_def)

lemma char_of_digit: "(d :: nat) < 10 \<Longrightarrow> char_code (char_of (48 + d)) = 48 + d"
  by (simp add: char_code_def)

lemma is_digit_char_of: "(d :: nat) < 10 \<Longrightarrow> is_digit (char_of (48 + d))"
  by (simp add: is_digit_def char_of_digit)

lemma decimal_digits: "list_all is_digit (decimal n)"
  by (induction n rule: decimal.induct) (subst decimal.simps, simp add: is_digit_char_of)

lemma dec_val_append: "dec_val a (xs @ ys) = dec_val (dec_val a xs) ys"
  by (induction xs arbitrary: a) simp_all

lemma decimal_val: "dec_val 0 (decimal n) = n"
proof (induction n rule: decimal.induct)
  case (1 n)
  then show ?case
    by (subst decimal.simps) (auto simp: dec_val_append digit_val_def char_of_digit)
qed

lemma decimal_c_string: "c_string (decimal n)"
proof -
  have "\<not> is_digit (CHR 0x00)" by (simp add: is_digit_def char_code_def)
  then show ?thesis using decimal_digits [of n] by (auto simp: c_string_def list_all_iff)
qed

lemma decimal_length: "n < 10 ^ Suc k \<Longrightarrow> length (decimal n) \<le> Suc k"
proof (induction k arbitrary: n)
  case 0
  then show ?case by (subst decimal.simps) simp
next
  case (Suc k)
  then have "length (decimal (n div 10)) \<le> Suc k" by (intro Suc.IH) auto
  then show ?case by (subst decimal.simps) simp
qed

lemma port_text: "snprintf_field NBCT_TRSVCID_LEN (decimal (unat (p :: u16))) = str_bytes (decimal (unat p))"
proof -
  have "unat p < 10 ^ Suc 4" using unsigned_less [of p, where 'a = nat] by simp
  from decimal_length [OF this] show ?thesis by (simp add: snprintf_field_def)
qed

text \<open>What the seven fields of a session's entry read as.\<close>

lemma session_entry_read:
  assumes "session_entry i s = Some e"
    "list_all c_string (List.map_filter id [target_host s, subsystem_nqn s, host_nqn s, secret s, tls_trsvcid s, tls_psk s])"
  shows "map (\<lambda>(off, len). filter (\<lambda>b. b \<noteq> 0) (get_at off len (enc_nbct_entry e)))
      [(4, 128), (132, 16), (148, 256), (404, 256), (660, 320), (980, 16), (996, 128)] =
    [snprintf_field 128 (the (target_host s)), str_bytes (decimal (unat (target_port s))),
     snprintf_field 256 (the (subsystem_nqn s)), snprintf_field 256 (the (host_nqn s)),
     snprintf_field 320 (case_option [] id (secret s)), snprintf_field 16 (case_option [] id (tls_trsvcid s)),
     snprintf_field 128 (case_option [] id (tls_psk s))]"
proof -
  have p: "filter (\<lambda>b. b \<noteq> 0) (resize 16 (snprintf_field 16 (decimal (unat (target_port s))))) =
      str_bytes (decimal (unat (target_port s)))"
    by (simp only: field_read decimal_c_string port_text [symmetric])
  have n: "snprintf_field k [] = []" for k by (simp add: snprintf_field_def str_bytes_def)
  from assms(1) obtain host nqn hostnqn where h: "target_host s = Some host" "subsystem_nqn s = Some nqn"
    "host_nqn s = Some hostnqn" by (auto simp: session_entry_def split: option.splits)
  show ?thesis
    using assms h
    by (cases "secret s"; cases "tls_trsvcid s"; cases "tls_psk s")
       (auto simp: session_entry_def entry_fields field_read field_empty p n List.map_filter_simps)
qed


text \<open>A session with a secret and without TLS.\<close>

definition toy_session :: nvmetcp_session where
  "toy_session = zero_session\<lparr>target_host := Some ''10.0.0.1'', target_port := 4420, subsystem_nqn := Some ''nqn.d'',
     host_nqn := Some ''nqn.h'', secret := Some ''DHHC-1:00:x:'', tls_trsvcid := None, tls_psk := None\<rparr>"


end
