(* ===== verification/Settings.thy ===== *)
theory Settings
  imports Fw_Prelude
begin

text \<open>
  The settings interface that the trust-on-first-use code and the device key commands call. The settings
  core itself (\<^verbatim>\<open>core/settings.c\<close>) is not part of this repository: its functions are the fields of
  \<open>settings_env\<close>, and what its documentation promises is the locale \<open>settings_laws\<close>.
\<close>

abbreviation "NVO_SETTINGS_NAME \<equiv> ''nvo''"

text \<open>Setting tags: \<^verbatim>\<open>DHCP_ENCAP_OPT ( DHCP_EB_ENCAP, n )\<close>.\<close>

definition DHCP_ENCAP_OPT :: "nat \<Rightarrow> nat \<Rightarrow> nat" where
  "DHCP_ENCAP_OPT encapsulator encapsulated = (push_bit 8 encapsulator OR encapsulated)"

definition DHCP_EB_TRUST :: nat where "DHCP_EB_TRUST = DHCP_ENCAP_OPT 175 0x5a"
definition DHCP_EB_DEVICE_KEY :: nat where "DHCP_EB_DEVICE_KEY = DHCP_ENCAP_OPT 175 0x5e"
definition DHCP_EB_SERVER_FINGERPRINT :: nat where "DHCP_EB_SERVER_FINGERPRINT = DHCP_ENCAP_OPT 175 0x5f"
definition DHCP_EB_PUBKEY :: nat where "DHCP_EB_PUBKEY = DHCP_ENCAP_OPT 175 0x60"
definition DHCP_EB_SIG :: nat where "DHCP_EB_SIG = DHCP_ENCAP_OPT 175 0x61"

lemmas tag_defs = DHCP_EB_TRUST_def DHCP_EB_DEVICE_KEY_def DHCP_EB_SERVER_FINGERPRINT_def DHCP_EB_PUBKEY_def
  DHCP_EB_SIG_def DHCP_ENCAP_OPT_def

text \<open>The functions of the settings core, on a state \<open>'m\<close> that they keep. A settings block is given by
  name; \<open>None\<close> is the null pointer, which stands for all blocks when reading and for the generic block
  when writing. \<open>se_parse_name\<close> is \<^verbatim>\<open>parse_setting_name()\<close> (a tag or an error).\<close>

record 'm settings_env =
  se_find :: "string \<Rightarrow> 'm \<Rightarrow> bool"
  se_exists :: "string option \<Rightarrow> nat \<Rightarrow> 'm \<Rightarrow> bool"
  se_store :: "string option \<Rightarrow> nat \<Rightarrow> bytes \<Rightarrow> 'm \<Rightarrow> rc \<times> 'm"
  se_delete :: "string option \<Rightarrow> nat \<Rightarrow> 'm \<Rightarrow> rc \<times> 'm"
  se_fetch_raw :: "string option \<Rightarrow> nat \<Rightarrow> nat \<Rightarrow> 'm \<Rightarrow> errno + bytes"
  se_parse_name :: "string \<Rightarrow> 'm \<Rightarrow> errno + nat"

text \<open>What the settings core promises, in terms of the settings in the non-volatile block (\<open>nv\<close>) and in the
  generic block (\<open>gen\<close>). A failed write may or may not have changed the one setting it was for (the
  non-volatile options change in memory before they are saved).\<close>

locale settings_laws =
  fixes E :: "'m settings_env"
    and nv :: "'m \<Rightarrow> nat \<Rightarrow> bytes option"
    and gen :: "'m \<Rightarrow> nat \<Rightarrow> bytes option"
  assumes exists_nv: "se_exists E (Some NVO_SETTINGS_NAME) t m \<longleftrightarrow> nv m t \<noteq> None"
    and exists_any: "nv m t \<noteq> None \<Longrightarrow> se_exists E None t m"
    and store_ok: "se_store E (Some NVO_SETTINGS_NAME) t d m = (OK, m') \<Longrightarrow> nv m' = (nv m)(t := Some d) \<and> gen m' = gen m"
    and store_frame: "se_store E (Some NVO_SETTINGS_NAME) t d m = (r, m') \<Longrightarrow>
        gen m' = gen m \<and> (\<forall>u. u \<noteq> t \<longrightarrow> nv m' u = nv m u) \<and> nv m' t \<in> {nv m t, Some d}"
    and generic_store: "se_store E None t d m = (OK, m') \<Longrightarrow> gen m' = (gen m)(t := Some d) \<and> nv m' = nv m"
    and delete_ok: "se_delete E (Some NVO_SETTINGS_NAME) t m = (OK, m') \<Longrightarrow> nv m' = (nv m)(t := None) \<and> gen m' = gen m"
    and delete_frame: "se_delete E (Some NVO_SETTINGS_NAME) t m = (r, m') \<Longrightarrow>
        gen m' = gen m \<and> (\<forall>u. u \<noteq> t \<longrightarrow> nv m' u = nv m u) \<and> nv m' t \<in> {nv m t, None}"
    and no_fault: "fst (se_store E b t d m) \<noteq> Fault" "fst (se_delete E b t m) \<noteq> Fault"

text \<open>A settings core that never fails: two maps.\<close>

type_synonym two_blocks = "(nat \<Rightarrow> bytes option) \<times> (nat \<Rightarrow> bytes option)"

definition setting_names :: "(string \<times> nat) list" where
  "setting_names = [(''device-key'', DHCP_EB_DEVICE_KEY), (''server-fingerprint'', DHCP_EB_SERVER_FINGERPRINT),
     (''trust'', DHCP_EB_TRUST)]"

definition plain_settings :: "two_blocks settings_env" where
  "plain_settings = \<lparr>
     se_find = (\<lambda>name m. name = NVO_SETTINGS_NAME),
     se_exists = (\<lambda>b t (nv, gen). if b = None then nv t \<noteq> None \<or> gen t \<noteq> None else nv t \<noteq> None),
     se_store = (\<lambda>b t d (nv, gen). (OK, if b = None then (nv, gen(t := Some d)) else (nv(t := Some d), gen))),
     se_delete = (\<lambda>b t (nv, gen). (OK, if b = None then (nv, gen(t := None)) else (nv(t := None), gen))),
     se_fetch_raw = (\<lambda>b t len (nv, gen). case nv t of Some d \<Rightarrow> Inr (take len d)
        | None \<Rightarrow> (case gen t of Some d \<Rightarrow> Inr (take len d) | None \<Rightarrow> Inl ENOENT)),
     se_parse_name = (\<lambda>name m. case map_of setting_names name of Some t \<Rightarrow> Inr t | None \<Rightarrow> Inl ENOENT)\<rparr>"

interpretation plain_store: settings_laws plain_settings fst snd
  by unfold_locales (auto simp: plain_settings_def split: if_splits)

end
