(* ===== verification/Tofu.thy ===== *)
theory Tofu
  imports Settings
begin

text \<open>
  Trust on first use: \<^verbatim>\<open>net/tofu.c\<close> and the certificate validation handler of \<^verbatim>\<open>net/tls.c\<close> that calls it.
  X.509 parsing, certificate stores and the rest of TLS 1.2 are outside the model: a certificate is given
  by its SHA-256 fingerprint.
\<close>

section \<open>Storing the fingerprint\<close>

abbreviation "TOFU_FINGERPRINT_LEN \<equiv> (32 :: nat)"

record x509_certificate =
  x5_fingerprint :: bytes

definition tofu_settings :: "'m settings_env \<Rightarrow> 'm \<Rightarrow> string option" where
  "tofu_settings E m = (if se_find E NVO_SETTINGS_NAME m then Some NVO_SETTINGS_NAME else None)"

definition tofu_fingerprint_present :: "'m settings_env \<Rightarrow> 'm \<Rightarrow> bool" where
  "tofu_fingerprint_present E m = se_exists E None DHCP_EB_SERVER_FINGERPRINT m"

definition tofu_store :: "'m settings_env \<Rightarrow> x509_certificate option \<Rightarrow> 'm \<Rightarrow> rc \<times> 'm" where
  "tofu_store E cert m =
    (case cert of
       None \<Rightarrow> (Err EINVAL, m)
     | Some cert \<Rightarrow>
         let fingerprint = x5_fingerprint cert in
         case tofu_settings E m of
           None \<Rightarrow> (Err ENODEV, m)
         | Some settings \<Rightarrow>
             then_ok (se_store E (Some settings) DHCP_EB_SERVER_FINGERPRINT fingerprint m)
               (se_store E (Some settings) DHCP_EB_TRUST fingerprint))"

section \<open>Certificate validation\<close>

text \<open>The state of a TLS connection that the handler uses: \<open>tc_client_chain\<close> is the client's certificate
  chain (none, or one that may be empty), \<open>tc_valid\<close> the certificates marked valid, \<open>tc_resumed\<close> whether
  transmission was scheduled, \<open>tc_alerts\<close> the alerts that were sent, \<open>tc_closed\<close> the reason with which the connection was closed.\<close>

record tls_connection =
  tc_validating :: bool
  tc_validator_restarted :: "rc option"
  tc_chain :: "x509_certificate list"
  tc_client_chain :: "x509_certificate list option"
  tc_pending :: nat
  tc_valid :: "x509_certificate list"
  tc_resumed :: bool
  tc_alerts :: "(byte \<times> byte) list"
  tc_closed :: "rc option"

abbreviation "TLS_TX_CERTIFICATE \<equiv> (0x02 :: nat)"
abbreviation "TLS_TX_CLIENT_KEY_EXCHANGE \<equiv> (0x04 :: nat)"
abbreviation "TLS_TX_CERTIFICATE_VERIFY \<equiv> (0x08 :: nat)"
abbreviation "TLS_TX_CHANGE_CIPHER \<equiv> (0x10 :: nat)"
abbreviation "TLS_TX_FINISHED \<equiv> (0x20 :: nat)"

definition schedule_handshake :: "tls_connection \<Rightarrow> tls_connection" where
  "schedule_handshake tls =
    (let p = or (tc_pending tls) (or TLS_TX_CLIENT_KEY_EXCHANGE (or TLS_TX_CHANGE_CIPHER TLS_TX_FINISHED));
         p = (case tc_client_chain tls of
                None \<Rightarrow> p
              | Some links \<Rightarrow>
                  let p = or p TLS_TX_CERTIFICATE in
                  if links \<noteq> [] then or p TLS_TX_CERTIFICATE_VERIFY else p) in
     tls\<lparr>tc_pending := p, tc_resumed := True\<rparr>)"

text \<open>Closing ends the pending validation and the transmission process and shuts the interfaces down; the
  session's list of connections and its secrets are not modelled.\<close>

definition tls_close :: "rc \<Rightarrow> tls_connection \<Rightarrow> tls_connection" where
  "tls_close rc tls = tls\<lparr>tc_validating := False, tc_resumed := False, tc_closed := Some rc\<rparr>"

abbreviation "TLS_ALERT_WARNING \<equiv> (1 :: byte)"
abbreviation "TLS_ALERT_CLOSE_NOTIFY \<equiv> (0 :: byte)"

definition tls_close_alert :: "rc \<Rightarrow> tls_connection \<Rightarrow> tls_connection" where
  "tls_close_alert rc tls =
    tls_close rc (tls\<lparr>tc_alerts := tc_alerts tls @ [(TLS_ALERT_WARNING, TLS_ALERT_CLOSE_NOTIFY)]\<rparr>)"

definition tls_validator_done ::
  "'m settings_env \<Rightarrow> rc \<Rightarrow> tls_connection \<Rightarrow> 'm \<Rightarrow> tls_connection \<times> 'm" where
  "tls_validator_done E rc tls m =
    (let tls = tls\<lparr>tc_validating := False, tc_validator_restarted := Some rc\<rparr> in
     if rc \<noteq> OK then
       if \<not> tofu_fingerprint_present E m then
         let cert = (case tc_chain tls of [] \<Rightarrow> None | c # cs \<Rightarrow> Some c) in
         case tofu_store E cert m of
           (OK, m) \<Rightarrow>
             (schedule_handshake (tls\<lparr>tc_valid := (case cert of None \<Rightarrow> [] | Some c \<Rightarrow> [c]) @ tc_valid tls\<rparr>), m)
         | (rc, m) \<Rightarrow> (tls_close_alert rc tls, m)
       else (tls_close_alert rc tls, m)
     else (schedule_handshake tls, m))"

section \<open>Lemmas\<close>

definition continues :: "tls_connection \<Rightarrow> bool" where
  "continues tls \<longleftrightarrow> tc_resumed tls \<and> tc_closed tls = None"

text \<open>A connection whose certificate is being validated.\<close>

definition awaiting :: "tls_connection \<Rightarrow> bool" where
  "awaiting tls \<longleftrightarrow> \<not> tc_resumed tls \<and> tc_closed tls = None"

lemma schedule_simps [simp]:
  "tc_resumed (schedule_handshake tls)" "tc_closed (schedule_handshake tls) = tc_closed tls"
  "tc_valid (schedule_handshake tls) = tc_valid tls"
  by (simp_all add: schedule_handshake_def Let_def)

lemma close_simps [simp]:
  "\<not> tc_resumed (tls_close_alert r tls)" "tc_closed (tls_close_alert r tls) = Some r"
  by (simp_all add: tls_close_alert_def tls_close_def)

lemma tofu_store_cases:
  assumes "tofu_store E cert m = (r, m')"
  obtains (none) "cert = None" "r = Err EINVAL" "m' = m"
    | (absent) c where "cert = Some c" "r = Err ENODEV" "m' = m" "\<not> se_find E NVO_SETTINGS_NAME m"
    | (first) c where "cert = Some c" "r \<noteq> OK"
        "se_store E (Some NVO_SETTINGS_NAME) DHCP_EB_SERVER_FINGERPRINT (x5_fingerprint c) m = (r, m')"
    | (second) c m1 where "cert = Some c"
        "se_store E (Some NVO_SETTINGS_NAME) DHCP_EB_SERVER_FINGERPRINT (x5_fingerprint c) m = (OK, m1)"
        "se_store E (Some NVO_SETTINGS_NAME) DHCP_EB_TRUST (x5_fingerprint c) m1 = (r, m')"
proof (cases cert)
  case None
  then show thesis using assms by (intro none) (simp_all add: tofu_store_def)
next
  case (Some c)
  show thesis
  proof (cases "se_find E NVO_SETTINGS_NAME m")
    case False
    then show thesis using assms Some by (intro absent [of c]) (simp_all add: tofu_store_def tofu_settings_def)
  next
    case True
    with assms Some have "then_ok (se_store E (Some NVO_SETTINGS_NAME) DHCP_EB_SERVER_FINGERPRINT (x5_fingerprint c) m)
        (se_store E (Some NVO_SETTINGS_NAME) DHCP_EB_TRUST (x5_fingerprint c)) = (r, m')"
      by (simp add: tofu_store_def tofu_settings_def Let_def)
    then show thesis
    proof (cases rule: then_ok_cases)
      case (ok m1)
      then show thesis by (intro second [OF Some])
    next
      case fail
      then show thesis by (intro first [OF Some])
    qed
  qed
qed

context settings_laws
begin

lemma tofu_store_pins:
  assumes "tofu_store E cert m = (OK, m')"
  shows "\<exists>c. cert = Some c \<and> nv m' = (nv m)(DHCP_EB_SERVER_FINGERPRINT \<mapsto> x5_fingerprint c, DHCP_EB_TRUST \<mapsto> x5_fingerprint c)"
  using assms
proof (cases rule: tofu_store_cases)
  case (second c m1)
  from store_ok [OF second(2)] store_ok [OF second(3)] second(1) show ?thesis by auto
qed simp_all

lemma pinned: "nv m DHCP_EB_SERVER_FINGERPRINT \<noteq> None \<Longrightarrow> tofu_fingerprint_present E m"
  by (simp add: tofu_fingerprint_present_def exists_any)

text \<open>What a validation result does: a good one continues; a bad one continues only without a fingerprint,
  and then the leaf certificate is pinned.\<close>

lemma done_outcome:
  assumes aw: "awaiting tls" and d: "tls_validator_done E r tls m = (tls', m')"
  obtains (good) "r = OK" "continues tls'" "m' = m"
    | (pinned) "r \<noteq> OK" "tofu_fingerprint_present E m" "tc_closed tls' = Some r" "\<not> continues tls'" "m' = m"
    | (accepted) c cs where "r \<noteq> OK" "\<not> tofu_fingerprint_present E m" "continues tls'" "tc_chain tls = c # cs"
        "tofu_store E (Some c) m = (OK, m')"
    | (refused) cert e where "r \<noteq> OK" "\<not> tofu_fingerprint_present E m" "tc_closed tls' = Some e" "\<not> continues tls'" "e \<noteq> OK"
        "tofu_store E cert m = (e, m')"
proof -
  let ?cert = "case tc_chain tls of [] \<Rightarrow> None | c # cs \<Rightarrow> Some c"
  obtain e m1 where st: "tofu_store E ?cert m = (e, m1)" by fastforce
  consider "r = OK" | "r \<noteq> OK" "tofu_fingerprint_present E m" | "r \<noteq> OK" "\<not> tofu_fingerprint_present E m" by blast
  then show thesis
  proof cases
    case 1
    then show ?thesis using aw d by (intro good) (auto simp: tls_validator_done_def continues_def awaiting_def)
  next
    case 2
    then show ?thesis using d by (intro pinned) (auto simp: tls_validator_done_def continues_def)
  next
    case 3
    show ?thesis
    proof (cases e)
      case OK
      obtain c cs where c: "tc_chain tls = c # cs"
        using st OK by (cases "tc_chain tls") (simp_all add: tofu_store_def)
      show ?thesis using aw d 3 st OK c
        by (intro accepted) (auto simp: tls_validator_done_def continues_def awaiting_def)
    qed (use d 3 st in \<open>auto intro!: refused simp: tls_validator_done_def continues_def\<close>)
  qed
qed

text \<open>A stored fingerprint stays, whatever the outcome of later validations.\<close>

lemma tofu_store_keeps:
  assumes "tofu_store E cert m = (r, m')" "nv m DHCP_EB_SERVER_FINGERPRINT \<noteq> None"
  shows "nv m' DHCP_EB_SERVER_FINGERPRINT \<noteq> None"
  using assms(1)
proof (cases rule: tofu_store_cases)
  case (first c)
  from store_frame [OF first(3)] assms(2) show ?thesis by auto
next
  case (second c m1)
  from store_ok [OF second(2)] store_frame [OF second(3)] show ?thesis by (auto simp: tag_defs)
qed (use assms(2) in simp_all)

end

section \<open>Sequences of connections\<close>

text \<open>The connections of a device, one after the other: for each, the validation result and the connection;
  the result tells which of them continued although their validation failed.\<close>

fun contacts :: "'m settings_env \<Rightarrow> (rc \<times> tls_connection) list \<Rightarrow> 'm \<Rightarrow> bool list \<times> 'm" where
  "contacts E [] m = ([], m)"
| "contacts E ((r, tls) # cs) m =
    (let (tls', m) = tls_validator_done E r tls m; (acc, m) = contacts E cs m in
     ((r \<noteq> OK \<and> continues tls') # acc, m))"

context settings_laws
begin

lemma contacts_pinned:
  assumes "nv m DHCP_EB_SERVER_FINGERPRINT = Some fp" "\<forall>(r, tls)\<in>set cs. awaiting tls" "contacts E cs m = (acc, m')"
  shows "True \<notin> set acc \<and> m' = m"
  using assms
proof (induction cs arbitrary: acc)
  case (Cons c cs)
  obtain r tls where c: "c = (r, tls)" by fastforce
  obtain tls' m1 where d: "tls_validator_done E r tls m = (tls', m1)" by fastforce
  have "tofu_fingerprint_present E m" using Cons.prems(1) by (simp add: pinned)
  moreover have "awaiting tls" using Cons.prems(2) c by simp
  ultimately have "m1 = m \<and> \<not> (r \<noteq> OK \<and> continues tls')"
    using d by (elim done_outcome) auto
  with Cons c d show ?case by (auto split: prod.splits)
qed simp

lemma contacts_once:
  assumes "\<forall>(r, tls)\<in>set cs. awaiting tls" "contacts E cs m = (acc, m')" "i < length cs" "acc ! i"
  shows "(\<forall>j < length cs. acc ! j \<longrightarrow> j = i) \<and> (\<exists>c rest. tc_chain (snd (cs ! i)) = c # rest \<and>
    nv m' DHCP_EB_SERVER_FINGERPRINT = Some (x5_fingerprint c) \<and> nv m' DHCP_EB_TRUST = Some (x5_fingerprint c))"
  using assms
proof (induction cs arbitrary: acc m i)
  case (Cons c cs)
  obtain r tls where c: "c = (r, tls)" by fastforce
  obtain tls' m1 where d: "tls_validator_done E r tls m = (tls', m1)" by fastforce
  obtain acc1 where a: "contacts E cs m1 = (acc1, m')" "acc = (r \<noteq> OK \<and> continues tls') # acc1"
    using Cons.prems(2) by (auto simp: c d split: prod.splits)
  have aw: "awaiting tls" "\<forall>(r, tls)\<in>set cs. awaiting tls" using Cons.prems(1) c by auto
  show ?case
  proof (cases "r \<noteq> OK \<and> continues tls'")
    case True
    from aw(1) d obtain x xs where x: "tc_chain tls = x # xs" "tofu_store E (Some x) m = (OK, m1)"
      using True by (elim done_outcome) auto
    have n: "nv m1 = (nv m)(DHCP_EB_SERVER_FINGERPRINT \<mapsto> x5_fingerprint x, DHCP_EB_TRUST \<mapsto> x5_fingerprint x)"
      using tofu_store_pins [OF x(2)] by simp
    then have fp: "nv m1 DHCP_EB_SERVER_FINGERPRINT = Some (x5_fingerprint x)" by (simp add: tag_defs)
    from contacts_pinned [OF this aw(2) a(1)] have p: "True \<notin> set acc1" "m' = m1" by simp_all
    have len: "length acc1 = length cs" using a(1) by (induction cs arbitrary: acc1 m1) (auto split: prod.splits)
    then have "i = 0" using Cons.prems(3,4) p(1) a(2) by (cases i) (auto simp: in_set_conv_nth)
    moreover have "j = 0" if "j < length (c # cs)" "acc ! j" for j
      using that p(1) a(2) len by (cases j) (auto simp: in_set_conv_nth)
    ultimately show ?thesis using c x(1) p(2) fp n by auto
  next
    case False
    then obtain k where k: "i = Suc k" "k < length cs" "acc1 ! k"
      using Cons.prems(3,4) a(2) by (cases i) auto
    from Cons.IH [OF aw(2) a(1) k(2,3)] False show ?thesis
      using k(1) a(2) by (auto simp: less_Suc_eq_0_disj)
  qed
qed simp

end

section \<open>Properties\<close>

text \<open>C18: Trust on first use accepts one certificate. In any sequence of connections of a device whose
  fingerprint is not cleared, at most one connection continues after its certificate failed validation;
  the fingerprint and the trusted root that are stored from then on are those of its leaf certificate.
  With a fingerprint stored beforehand, none continues.\<close>

theorem tofu_accepts_once:
  assumes "settings_laws E nv gen" "\<forall>(r, tls)\<in>set cs. awaiting tls" "contacts E cs m = (acc, m')"
  shows "(nv m DHCP_EB_SERVER_FINGERPRINT \<noteq> None \<longrightarrow> True \<notin> set acc \<and> m' = m) \<and>
    (\<forall>i < length cs. acc ! i \<longrightarrow> (\<forall>j < length cs. acc ! j \<longrightarrow> j = i) \<and>
      (\<exists>c rest. tc_chain (snd (cs ! i)) = c # rest \<and> nv m' DHCP_EB_SERVER_FINGERPRINT = Some (x5_fingerprint c) \<and>
         nv m' DHCP_EB_TRUST = Some (x5_fingerprint c)))"
  using settings_laws.contacts_pinned [OF assms(1) _ assms(2,3)] settings_laws.contacts_once [OF assms]
  by blast

definition toy_contact :: "bytes \<Rightarrow> tls_connection" where
  "toy_contact fp = \<lparr>tc_validating = True, tc_validator_restarted = None, tc_chain = [\<lparr>x5_fingerprint = fp\<rparr>],
     tc_client_chain = None, tc_pending = 0, tc_valid = [], tc_resumed = False, tc_alerts = [], tc_closed = None\<rparr>"

lemmas toy_contact_simps = toy_contact_def awaiting_def continues_def tls_validator_done_def tofu_fingerprint_present_def
  tofu_store_def tofu_settings_def plain_settings_def schedule_handshake_def tls_close_alert_def tls_close_def tag_defs Let_def

theorem tofu_accepts_once_witness:
  "\<exists>m'. contacts plain_settings [(Err EPERM, toy_contact [1]), (Err EPERM, toy_contact [2])] (Map.empty, Map.empty) =
      ([True, False], m') \<and> fst m' DHCP_EB_SERVER_FINGERPRINT = Some [1]"
proof -
  let ?cs = "[(Err EPERM, toy_contact [1]), (Err EPERM, toy_contact [2])]"
  obtain acc m' where c: "contacts plain_settings ?cs (Map.empty, Map.empty) = (acc, m')" by (rule prod.exhaust)
  then have acc: "acc = [True, False]" by (simp add: toy_contact_simps)
  have "\<forall>(r, tls)\<in>set ?cs. awaiting tls" by (simp add: toy_contact_def awaiting_def)
  from tofu_accepts_once [OF plain_store.settings_laws_axioms this c] acc
  have "fst m' DHCP_EB_SERVER_FINGERPRINT = Some [1]"
    by (auto simp: toy_contact_def less_Suc_eq_0_disj All_less_Suc2)
  with c acc show ?thesis by simp
qed

text \<open>C22: A failure in between locks the device out. When the fingerprint was stored and then storing the
  trusted root fails, the connection is closed, and from then on every connection whose certificate
  does not validate is refused, that of the same server included, although nothing was trusted.\<close>

theorem tofu_partial_failure:
  assumes laws: "settings_laws E nv gen" and tls: "awaiting tls" "tc_chain tls = c # rest" "r \<noteq> OK"
    and m: "\<not> tofu_fingerprint_present E m" "se_find E NVO_SETTINGS_NAME m"
    and s1: "se_store E (Some NVO_SETTINGS_NAME) DHCP_EB_SERVER_FINGERPRINT (x5_fingerprint c) m = (OK, m1)"
    and s2: "se_store E (Some NVO_SETTINGS_NAME) DHCP_EB_TRUST (x5_fingerprint c) m1 = (Err e, m2)"
  shows "snd (tls_validator_done E r tls m) = m2 \<and> tc_closed (fst (tls_validator_done E r tls m)) = Some (Err e) \<and>
    (\<forall>r' tls'. r' \<noteq> OK \<longrightarrow> awaiting tls' \<longrightarrow> \<not> continues (fst (tls_validator_done E r' tls' m2)))"
proof -
  have "nv m2 DHCP_EB_SERVER_FINGERPRINT = Some (x5_fingerprint c)"
    using settings_laws.store_ok [OF laws s1] settings_laws.store_frame [OF laws s2] by (auto simp: tag_defs)
  then have "tofu_fingerprint_present E m2" using settings_laws.pinned [OF laws] by simp
  then have "\<forall>r' tls'. r' \<noteq> OK \<longrightarrow> awaiting tls' \<longrightarrow> \<not> continues (fst (tls_validator_done E r' tls' m2))"
    by (simp add: tls_validator_done_def continues_def)
  moreover have "tofu_store E (Some c) m = (Err e, m2)"
    using m(2) s1 s2 by (simp add: tofu_store_def tofu_settings_def)
  ultimately show ?thesis using tls m(1) by (simp add: tls_validator_done_def)
qed

text \<open>Storage with room for the fingerprint only.\<close>

definition tight_settings :: "two_blocks settings_env" where
  "tight_settings = plain_settings\<lparr>se_store := (\<lambda>b t d m.
     if t = DHCP_EB_TRUST then (Err ENOSPC, m) else se_store plain_settings b t d m)\<rparr>"

interpretation tight_store: settings_laws tight_settings fst snd
  by unfold_locales (auto simp: tight_settings_def plain_settings_def split: if_splits)

theorem tofu_partial_failure_witness:
  "\<exists>m2. snd (tls_validator_done tight_settings (Err EPERM) (toy_contact [1]) (Map.empty, Map.empty)) = m2 \<and>
     \<not> continues (fst (tls_validator_done tight_settings (Err EPERM) (toy_contact [1]) m2))"
proof -
  let ?m = "(Map.empty, Map.empty) :: two_blocks"
  let ?m1 = "([DHCP_EB_SERVER_FINGERPRINT \<mapsto> [1]], Map.empty) :: two_blocks"
  have "awaiting (toy_contact [1])" "tc_chain (toy_contact [1]) = [\<lparr>x5_fingerprint = [1]\<rparr>]" "Err EPERM \<noteq> OK"
    "\<not> tofu_fingerprint_present tight_settings ?m" "se_find tight_settings NVO_SETTINGS_NAME ?m"
    "se_store tight_settings (Some NVO_SETTINGS_NAME) DHCP_EB_SERVER_FINGERPRINT (x5_fingerprint \<lparr>x5_fingerprint = [1]\<rparr>) ?m = (OK, ?m1)"
    "se_store tight_settings (Some NVO_SETTINGS_NAME) DHCP_EB_TRUST (x5_fingerprint \<lparr>x5_fingerprint = [1]\<rparr>) ?m1 = (Err ENOSPC, ?m1)"
    by (simp_all add: tight_settings_def toy_contact_simps)
  from tofu_partial_failure [OF tight_store.settings_laws_axioms this] \<open>awaiting (toy_contact [1])\<close>
  show ?thesis by simp
qed

end
