(* ===== verification/Devicekey.thy ===== *)
theory Devicekey
  imports Settings
begin

text \<open>
  The device key commands of \<^verbatim>\<open>hci/commands/devicekey_cmd.c\<close>: \<^verbatim>\<open>keygen\<close>, \<^verbatim>\<open>pubkey\<close>, \<^verbatim>\<open>sign\<close> and \<^verbatim>\<open>nvclear\<close>. What they
  print is left out. The random bit generator, the P-256 curve, the ASN.1 builder, SHA-256, ECDSA and
  base64 are not part of this repository and are arguments, collected in \<open>key_env\<close>.
\<close>

section \<open>Environment\<close>

abbreviation "P256_LEN \<equiv> (32 :: nat)"
abbreviation "ELLIPTIC_FORMAT_UNCOMPRESSED \<equiv> (4 :: byte)"
abbreviation "ASN1_INTEGER \<equiv> (0x02 :: byte)"
abbreviation "ASN1_BIT_STRING \<equiv> (0x03 :: byte)"
abbreviation "ASN1_OCTET_STRING \<equiv> (0x04 :: byte)"
abbreviation "ASN1_SEQUENCE \<equiv> (0x30 :: byte)"

definition ASN1_EXPLICIT_TAG :: "byte \<Rightarrow> byte" where
  "ASN1_EXPLICIT_TAG n = 0xa0 OR n"

text \<open>A call of the ASN.1 builder: prepend raw data, prepend an element, or wrap the contents in an
  element.\<close>

datatype asn1_op = PrependRaw bytes | Prepend byte bytes | Wrap byte

text \<open>\<open>ke_stack\<close> is what the buffer for the private key holds before it is written, \<open>ke_generate n\<close> what the \<open>n\<close>-th call of \<^verbatim>\<open>drbg_generate()\<close> returns; \<open>ke_asn1 n op b\<close> is the status of
  the \<open>n\<close>-th call of the builder on contents \<open>b\<close> and the new contents.\<close>

record key_env =
  ke_stack :: bytes
  ke_instantiate :: rc
  ke_generate :: "nat \<Rightarrow> errno + bytes"
  ke_multiply :: "bytes \<Rightarrow> rc \<times> bytes"
  ke_asn1 :: "nat \<Rightarrow> asn1_op \<Rightarrow> bytes \<Rightarrow> rc \<times> bytes"
  ke_sha256 :: "bytes \<Rightarrow> bytes"
  ke_sign :: "bytes \<Rightarrow> bytes \<Rightarrow> errno + bytes"
  ke_alloc :: "nat \<Rightarrow> bool"
  ke_base64_len :: "nat \<Rightarrow> nat"
  ke_base64 :: "bytes \<Rightarrow> string"

section \<open>Commands\<close>

definition devicekey_settings :: "'m settings_env \<Rightarrow> 'm \<Rightarrow> string option" where
  "devicekey_settings E m = (if se_find E NVO_SETTINGS_NAME m then Some NVO_SETTINGS_NAME else None)"

text \<open>A setting that is shorter than the buffer leaves the rest of the buffer as it was.\<close>

definition devicekey_fetch :: "'m settings_env \<Rightarrow> key_env \<Rightarrow> 'm \<Rightarrow> errno + bytes" where
  "devicekey_fetch E K m =
    (case se_fetch_raw E None DHCP_EB_DEVICE_KEY P256_LEN m of
       Inl e \<Rightarrow> Inl e
     | Inr d \<Rightarrow> Inr (put_at 0 (take P256_LEN d) (ke_stack K)))"

definition devicekey_pubkey :: "key_env \<Rightarrow> bytes \<Rightarrow> rc \<times> bytes" where
  "devicekey_pubkey K priv =
    (let (r, point) = ke_multiply K priv in (r, ELLIPTIC_FORMAT_UNCOMPRESSED # point))"

text \<open>The generation loop from the \<open>n\<close>-th call on; not returning is \<open>None\<close>.\<close>

partial_function (option) generate_loop :: "(nat \<Rightarrow> errno + bytes) \<Rightarrow> nat \<Rightarrow> (errno + bytes) option" where
  "generate_loop g n =
    (case g n of
       Inl e \<Rightarrow> Some (Inl e)
     | Inr priv \<Rightarrow> if priv = replicate P256_LEN 0 then generate_loop g (n + 1) else Some (Inr priv))"

definition keygen_exec :: "'m settings_env \<Rightarrow> key_env \<Rightarrow> 'm \<Rightarrow> (rc \<times> 'm) option" where
  "keygen_exec E K m =
    (if se_exists E None DHCP_EB_DEVICE_KEY m then Some (Err EEXIST, m)
     else case ke_instantiate K of
         OK \<Rightarrow>
           (case generate_loop (ke_generate K) 0 of
              None \<Rightarrow> None
            | Some (Inl e) \<Rightarrow> Some (Err e, m)
            | Some (Inr priv) \<Rightarrow>
                (case devicekey_settings E m of
                   None \<Rightarrow> Some (Err ENODEV, m)
                 | Some settings \<Rightarrow> Some (se_store E (Some settings) DHCP_EB_DEVICE_KEY priv m)))
       | e \<Rightarrow> Some (e, m))"

definition pubkey_exec :: "'m settings_env \<Rightarrow> key_env \<Rightarrow> 'm \<Rightarrow> rc \<times> 'm" where
  "pubkey_exec E K m =
    (case devicekey_fetch E K m of
       Inl e \<Rightarrow> (Err e, m)
     | Inr priv \<Rightarrow>
         (case devicekey_pubkey K priv of
            (OK, pub) \<Rightarrow> se_store E None DHCP_EB_PUBKEY pub m
          | (e, _) \<Rightarrow> (e, m)))"

definition oid_prime256v1 :: bytes where
  "oid_prime256v1 = [0x06, 0x08, 0x2a, 0x86, 0x48, 0xce, 0x3d, 0x03, 0x01, 0x07]"

text \<open>The ten builder calls that construct the key. The comma operator makes all of them and yields the
  status of the last.\<close>

definition construct_key :: "key_env \<Rightarrow> bytes \<Rightarrow> bytes \<Rightarrow> rc \<times> bytes" where
  "construct_key K priv pub =
    (let asn1 = (\<lambda>n op b. snd (ke_asn1 K n op b));
         pubkey = asn1 2 (Wrap (ASN1_EXPLICIT_TAG 1)) (asn1 1 (Wrap ASN1_BIT_STRING) (asn1 0 (PrependRaw (0 # pub)) []));
         params = asn1 4 (Wrap (ASN1_EXPLICIT_TAG 0)) (asn1 3 (PrependRaw oid_prime256v1) []);
         key = asn1 5 (PrependRaw pubkey) [];
         key = asn1 6 (PrependRaw params) key;
         key = asn1 7 (Prepend ASN1_OCTET_STRING priv) key;
         key = asn1 8 (Prepend ASN1_INTEGER [1]) key in
     ke_asn1 K 9 (Wrap ASN1_SEQUENCE) key)"

text \<open>\<open>args\<close> are the arguments after the command name.\<close>

definition sign_exec :: "'m settings_env \<Rightarrow> key_env \<Rightarrow> string list \<Rightarrow> 'm \<Rightarrow> rc \<times> 'm" where
  "sign_exec E K args m =
    (if args = [] then (Err EINVAL, m)
     else case devicekey_fetch E K m of
         Inl e \<Rightarrow> (Err e, m)
       | Inr priv \<Rightarrow>
           (case devicekey_pubkey K priv of
              (OK, pub) \<Rightarrow>
                (case construct_key K priv pub of
                   (OK, key) \<Rightarrow>
                     let digest_out = ke_sha256 K (concat (map str_bytes args)) in
                     (case ke_sign K key digest_out of
                        Inl e \<Rightarrow> (Err e, m)
                      | Inr signature \<Rightarrow>
                          if \<not> ke_alloc K (ke_base64_len K (length signature) + 1) then (Err ENOMEM, m)
                          else se_store E None DHCP_EB_SIG (str_bytes (ke_base64 K signature)) m)
                 | (e, _) \<Rightarrow> (e, m))
            | (e, _) \<Rightarrow> (e, m)))"

definition nvclear_settings :: "string list" where
  "nvclear_settings = [''device-key'', ''server-fingerprint'', ''trust'']"

text \<open>The loop over the settings, with the status so far. \<open>name\<close> has 32 characters, the terminator included.\<close>

fun nvclear_loop :: "'m settings_env \<Rightarrow> string list \<Rightarrow> rc \<Rightarrow> 'm \<Rightarrow> rc \<times> 'm" where
  "nvclear_loop E [] rc m = (rc, m)"
| "nvclear_loop E (n # ns) rc m =
    (case se_parse_name E (take 31 n) m of
       Inl e \<Rightarrow> nvclear_loop E ns (if rc = OK then Err e else rc) m
     | Inr tag \<Rightarrow>
         if \<not> se_exists E (Some NVO_SETTINGS_NAME) tag m then nvclear_loop E ns rc m
         else
           let (rcx, m) = se_delete E (Some NVO_SETTINGS_NAME) tag m in
           if rcx \<noteq> OK then nvclear_loop E ns (if rc = OK then rcx else rc) m
           else nvclear_loop E ns rc m)"

definition nvclear_exec :: "'m settings_env \<Rightarrow> 'm \<Rightarrow> rc \<times> 'm" where
  "nvclear_exec E m =
    (if \<not> se_find E NVO_SETTINGS_NAME m then (Err ENODEV, m) else nvclear_loop E nvclear_settings OK m)"

section \<open>Key generation\<close>

lemma generate_loop_first:
  assumes "\<And>i. i < k \<Longrightarrow> g (n + i) = Inr (replicate P256_LEN 0)" "g (n + k) \<noteq> Inr (replicate P256_LEN 0)"
  shows "generate_loop g n = Some (g (n + k))"
  using assms
proof (induction k arbitrary: n)
  case 0
  then show ?case by (subst generate_loop.simps) (auto split: sum.split)
next
  case (Suc k)
  have "generate_loop g (n + 1) = Some (g (n + 1 + k))"
    by (rule Suc.IH) (use Suc.prems(1) [of "Suc i" for i] Suc.prems(2) in auto)
  moreover have "g n = Inr (replicate P256_LEN 0)" using Suc.prems(1) [of 0] by simp
  ultimately show ?case by (subst generate_loop.simps) simp
qed

text \<open>Never anything but the zero key: the loop does not return.\<close>

lemma generate_loop_zero:
  assumes "\<And>i. g i = Inr (replicate P256_LEN 0)"
  shows "generate_loop g n = None"
proof -
  have step: "\<not> (\<forall>i. g i = Inr (replicate P256_LEN 0))" if "generate_loop g n = Some r" for r
    by (rule generate_loop.raw_induct [where P = "\<lambda>g n r. \<not> (\<forall>i. g i = Inr (replicate P256_LEN 0))", OF _ that])
       (fastforce split: if_splits sum.splits)
  with assms show ?thesis by (cases "generate_loop g n") auto
qed

text \<open>All outcomes of the loop.\<close>

lemma generate_loop_cases:
  obtains (endless) "generate_loop g 0 = None" "\<And>i. g i = Inr (replicate P256_LEN 0)"
    | (ends) k where "generate_loop g 0 = Some (g k)" "g k \<noteq> Inr (replicate P256_LEN 0)"
        "\<And>i. i < k \<Longrightarrow> g i = Inr (replicate P256_LEN 0)"
proof (cases "\<exists>k. g k \<noteq> Inr (replicate P256_LEN 0)")
  case True
  define k where "k = (LEAST k. g k \<noteq> Inr (replicate P256_LEN 0))"
  have "g k \<noteq> Inr (replicate P256_LEN 0)" using LeastI_ex [OF True] by (simp add: k_def)
  moreover have "g i = Inr (replicate P256_LEN 0)" if "i < k" for i using not_less_Least that by (auto simp: k_def)
  ultimately show thesis using generate_loop_first [of k g 0] ends by simp
next
  case False
  then show thesis using generate_loop_zero [of g 0] endless by simp
qed

text \<open>C19: Key generation. The command \<^verbatim>\<open>keygen\<close> ends unless there is no device key yet and the random bit
  generator works and returns zeros for ever. When a key exists, it refuses and changes nothing. When
  it succeeds, what it has stored is the first output that is not all zero, no other stored setting has
  changed, and a second \<^verbatim>\<open>keygen\<close> refuses.\<close>

theorem keygen_behaviour:
  assumes laws: "settings_laws E nv gen"
  shows "(keygen_exec E K m = None \<longleftrightarrow> \<not> se_exists E None DHCP_EB_DEVICE_KEY m \<and> ke_instantiate K = OK \<and>
      (\<forall>i. ke_generate K i = Inr (replicate P256_LEN 0))) \<and>
    (se_exists E None DHCP_EB_DEVICE_KEY m \<longrightarrow> keygen_exec E K m = Some (Err EEXIST, m)) \<and>
    (\<forall>m'. keygen_exec E K m = Some (OK, m') \<longrightarrow>
      (\<exists>k key. ke_generate K k = Inr key \<and> key \<noteq> replicate P256_LEN 0 \<and>
         (\<forall>i < k. ke_generate K i = Inr (replicate P256_LEN 0)) \<and> nv m' = (nv m)(DHCP_EB_DEVICE_KEY \<mapsto> key)) \<and>
      keygen_exec E K m' = Some (Err EEXIST, m'))"
proof (cases "se_exists E None DHCP_EB_DEVICE_KEY m \<or> ke_instantiate K \<noteq> OK")
  case True
  then show ?thesis by (auto simp: keygen_exec_def split: rc.splits)
next
  case False
  show ?thesis
  proof (cases rule: generate_loop_cases [of "ke_generate K"])
    case endless
    with False show ?thesis by (simp add: keygen_exec_def)
  next
    case (ends k)
    have stored: "(\<exists>k key. ke_generate K k = Inr key \<and> key \<noteq> replicate P256_LEN 0 \<and>
         (\<forall>i < k. ke_generate K i = Inr (replicate P256_LEN 0)) \<and> nv m' = (nv m)(DHCP_EB_DEVICE_KEY \<mapsto> key)) \<and>
      keygen_exec E K m' = Some (Err EEXIST, m')" if ex: "keygen_exec E K m = Some (OK, m')" for m'
    proof -
      from ex False obtain key where key: "ke_generate K k = Inr key"
        "se_store E (Some NVO_SETTINGS_NAME) DHCP_EB_DEVICE_KEY key m = (OK, m')"
        by (cases "ke_generate K k") (auto simp: keygen_exec_def ends(1) devicekey_settings_def split: if_splits)
      from settings_laws.store_ok [OF laws key(2)] have nv: "nv m' = (nv m)(DHCP_EB_DEVICE_KEY \<mapsto> key)" by simp
      then have "se_exists E None DHCP_EB_DEVICE_KEY m'" using settings_laws.exists_any [OF laws] by simp
      then show ?thesis using key(1) nv ends(2,3) by (auto simp: keygen_exec_def)
    qed
    have "keygen_exec E K m \<noteq> None"
      using False by (simp add: keygen_exec_def ends(1) split: sum.split option.split)
    with stored False ends(2) show ?thesis by blast
  qed
qed

text \<open>A generator that returns a zero key first.\<close>

definition toy_keys :: key_env where
  "toy_keys = \<lparr>ke_stack = replicate P256_LEN 0xcc, ke_instantiate = OK,
     ke_generate = (\<lambda>n. Inr (if n = 0 then replicate P256_LEN 0 else replicate P256_LEN (of_nat n))),
     ke_multiply = (\<lambda>priv. (OK, resize 64 priv)),
     ke_asn1 = (\<lambda>n op b. (OK, case op of
         PrependRaw d \<Rightarrow> d @ b | Prepend t d \<Rightarrow> [t, of_nat (length d)] @ d @ b | Wrap t \<Rightarrow> [t, of_nat (length b)] @ b)),
     ke_sha256 = resize 32, ke_sign = (\<lambda>key d. Inr (d @ key)), ke_alloc = (\<lambda>_. True),
     ke_base64_len = (\<lambda>n. 4 * n), ke_base64 = (\<lambda>b. replicate (length b) CHR ''A'')\<rparr>"

theorem keygen_behaviour_witness:
  "\<exists>m'. keygen_exec plain_settings toy_keys (Map.empty, Map.empty) = Some (OK, m') \<and>
     keygen_exec plain_settings toy_keys m' = Some (Err EEXIST, m')"
proof -
  have "generate_loop (ke_generate toy_keys) 0 = Some (ke_generate toy_keys 1)"
    using generate_loop_first [of 1 "ke_generate toy_keys" 0] by (simp add: toy_keys_def)
  then have "\<exists>m'. keygen_exec plain_settings toy_keys (Map.empty, Map.empty) = Some (OK, m')"
    by (simp add: keygen_exec_def toy_keys_def plain_settings_def devicekey_settings_def)
  with keygen_behaviour [OF plain_store.settings_laws_axioms, of toy_keys "(Map.empty, Map.empty)"]
  show ?thesis by blast
qed

section \<open>Signing\<close>

text \<open>The DER encoding of an element of at most 127 bytes.\<close>

definition der :: "byte \<Rightarrow> bytes \<Rightarrow> bytes" where
  "der tag d = tag # of_nat (length d) # d"

text \<open>The documented behaviour of the libraries when no memory is missing: P-256 points have 64 bytes, and the
  ASN.1 builder prepends and wraps with DER headers (one length byte below 128).\<close>

definition key_env_ok :: "key_env \<Rightarrow> bool" where
  "key_env_ok K \<longleftrightarrow> length (ke_stack K) = P256_LEN \<and> (\<forall>priv. length (snd (ke_multiply K priv)) = 64) \<and>
     (\<forall>n d b. ke_asn1 K n (PrependRaw d) b = (OK, d @ b)) \<and>
     (\<forall>n t d b. length d < 128 \<longrightarrow> ke_asn1 K n (Prepend t d) b = (OK, der t d @ b)) \<and>
     (\<forall>n t b. length b < 128 \<longrightarrow> ke_asn1 K n (Wrap t) b = (OK, der t b))"

lemma length_der [simp]: "length (der t d) = length d + 2"
  by (simp add: der_def)

lemma construct_key_der:
  assumes "key_env_ok K" "length priv = 32" "length pub = 65"
  shows "construct_key K priv pub = (OK, der ASN1_SEQUENCE (der ASN1_INTEGER [1] @ der ASN1_OCTET_STRING priv @
      der 0xa0 oid_prime256v1 @ der 0xa1 (der ASN1_BIT_STRING (0 # pub))))"
proof -
  have "length oid_prime256v1 = 10" by (simp add: oid_prime256v1_def)
  then show ?thesis using assms
    by (simp add: construct_key_def key_env_ok_def Let_def ASN1_EXPLICIT_TAG_def)
qed

text \<open>Signing. With a working ASN.1 builder, \<^verbatim>\<open>sign\<close> builds the SEC1 private key structure of the device key (version
  1, the key, the curve prime256v1 and the public key as an uncompressed point), signs the SHA-256 digest of the
  arguments written one after the other, and stores the base64 text of the signature as the setting
  \<open>sig\<close>; it never changes the stored settings. Arguments with the same concatenation get the same
  result.\<close>

lemma sign_behaviour:
  assumes "settings_laws E nv gen" "key_env_ok K" "sign_exec E K args m = (OK, m')"
  shows "\<exists>priv point signature. devicekey_fetch E K m = Inr priv \<and> ke_multiply K priv = (OK, point) \<and>
    ke_sign K
      (der ASN1_SEQUENCE (der ASN1_INTEGER [1] @ der ASN1_OCTET_STRING priv @ der 0xa0 oid_prime256v1 @
         der 0xa1 (der ASN1_BIT_STRING (0 # 4 # point))))
      (ke_sha256 K (concat (map str_bytes args))) = Inr signature \<and>
    gen m' = (gen m)(DHCP_EB_SIG \<mapsto> str_bytes (ke_base64 K signature)) \<and> nv m' = nv m \<and>
    (\<forall>args'. args' \<noteq> [] \<longrightarrow> concat args' = concat args \<longrightarrow> sign_exec E K args' m = (OK, m'))"
proof -
  have data: "concat (map str_bytes xs) = str_bytes (concat xs)" for xs
    by (induction xs) (simp_all add: str_bytes_def)
  from assms(3) obtain priv point where p: "args \<noteq> []" "devicekey_fetch E K m = Inr priv" "ke_multiply K priv = (OK, point)"
    by (auto simp: sign_exec_def devicekey_pubkey_def split: if_splits sum.splits prod.splits rc.splits)
  have "length priv = 32"
    using p(2) assms(2) by (auto simp: devicekey_fetch_def key_env_ok_def split: sum.splits)
  moreover have "length point = 64" using assms(2) p(3) by (metis key_env_ok_def snd_conv)
  ultimately have key: "construct_key K priv (4 # point) = (OK, der ASN1_SEQUENCE (der ASN1_INTEGER [1] @
      der ASN1_OCTET_STRING priv @ der 0xa0 oid_prime256v1 @ der 0xa1 (der ASN1_BIT_STRING (0 # 4 # point))))"
    by (intro construct_key_der assms(2)) simp_all
  from assms(3) p obtain signature where s:
    "ke_sign K (snd (construct_key K priv (4 # point))) (ke_sha256 K (concat (map str_bytes args))) = Inr signature"
    "se_store E None DHCP_EB_SIG (str_bytes (ke_base64 K signature)) m = (OK, m')"
    "ke_alloc K (ke_base64_len K (length signature) + 1)"
    by (auto simp: sign_exec_def devicekey_pubkey_def key Let_def split: if_splits sum.splits)
  have same: "sign_exec E K args' m = (OK, m')" if "args' \<noteq> []" "concat args' = concat args" for args'
    using p s that by (simp add: sign_exec_def devicekey_pubkey_def key data)
  from settings_laws.generic_store [OF assms(1) s(2)] p(2,3) s(1) same show ?thesis by (auto simp: key)
qed

lemma toy_keys_ok: "key_env_ok toy_keys"
  by (simp add: key_env_ok_def toy_keys_def der_def)

section \<open>Clearing\<close>

context settings_laws
begin

lemma nvclear_loop_ok:
  assumes "nvclear_loop E ns r m = (OK, m')"
  shows "r = OK \<and> gen m' = gen m \<and> (\<forall>t. nv m' t \<in> {nv m t, None}) \<and>
    (\<forall>n\<in>set ns. \<exists>k t. se_parse_name E (take 31 n) k = Inr t \<and> nv m' t = None)"
  using assms
proof (induction ns arbitrary: r m)
  case (Cons n ns)
  show ?case
  proof (cases "se_parse_name E (take 31 n) m")
    case (Inl e)
    with Cons.prems Cons.IH show ?thesis by (fastforce split: if_splits)
  next
    case (Inr t)
    show ?thesis
    proof (cases "nv m t = None")
      case True
      with Inr Cons.prems have l: "nvclear_loop E ns r m = (OK, m')" by (simp add: exists_nv)
      from Cons.IH [OF l] have "nv m' t = None" using True by (metis empty_iff insert_iff)
      with Cons.IH [OF l] Inr show ?thesis by auto
    next
      case False
      obtain x m1 where d: "se_delete E (Some NVO_SETTINGS_NAME) t m = (x, m1)" by fastforce
      have "x = OK" using Cons.prems Inr False d Cons.IH [of _ m1]
        by (cases x; cases r) (auto simp: exists_nv split: if_splits)
      then have l: "nvclear_loop E ns r m1 = (OK, m')" using Cons.prems Inr False d by (simp add: exists_nv)
      have n: "nv m1 = (nv m)(t := None)" "gen m1 = gen m" using delete_ok d \<open>x = OK\<close> by auto
      from Cons.IH [OF l] n have "nv m' t = None" by (metis empty_iff fun_upd_same insert_iff)
      moreover have "nv m' u \<in> {nv m u, None}" for u using Cons.IH [OF l] n by (metis fun_upd_apply insert_iff singletonI)
      ultimately show ?thesis using Cons.IH [OF l] n Inr by auto
    qed
  qed
qed simp

end

text \<open>Clearing. When \<^verbatim>\<open>nvclear\<close> reports success, none of the device key, the server fingerprint and the trusted root
  is stored any more (when their names are parsed to their tags), and nothing else was stored or changed to
  another value.\<close>

lemma nvclear_clears:
  assumes "settings_laws E nv gen" "\<And>k. map (\<lambda>n. se_parse_name E n k) nvclear_settings =
      [Inr DHCP_EB_DEVICE_KEY, Inr DHCP_EB_SERVER_FINGERPRINT, Inr DHCP_EB_TRUST]"
    "nvclear_exec E m = (OK, m')"
  shows "nv m' DHCP_EB_DEVICE_KEY = None \<and> nv m' DHCP_EB_SERVER_FINGERPRINT = None \<and> nv m' DHCP_EB_TRUST = None \<and>
    gen m' = gen m \<and> (\<forall>t. nv m' t \<in> {nv m t, None})"
proof -
  have l: "nvclear_loop E nvclear_settings OK m = (OK, m')"
    using assms(3) by (simp add: nvclear_exec_def split: if_splits)
  have n: "se_parse_name E ''device-key'' k = Inr DHCP_EB_DEVICE_KEY"
    "se_parse_name E ''server-fingerprint'' k = Inr DHCP_EB_SERVER_FINGERPRINT"
    "se_parse_name E ''trust'' k = Inr DHCP_EB_TRUST" for k
    using assms(2) [of k] by (simp_all add: nvclear_settings_def)
  from settings_laws.nvclear_loop_ok [OF assms(1) l] show ?thesis
    by (simp add: nvclear_settings_def n)
qed

end
