(* ===== verification/Realtek_Tables.thy ===== *)
theory Realtek_Tables
  imports Fw_Prelude
begin

text \<open>
  The register tables of \<^verbatim>\<open>drivers/net/realtek.c\<close>: chip versions, EPHY values and the PHY programs of
  the RTL8126A, entry by entry.
\<close>

text \<open>An EPHY register value, a chip version (its name is only printed), a PHY OCP register value.\<close>

datatype realtek_ephy_init = Ephy (ei_reg: u32) (ei_mask: u32) (ei_value: u32)

datatype realtek_chip_version = Chip (cv_mask: u32) (cv_value: u32) (cv_version: nat)

datatype realtek_phy_ocp_init = Phy (pi_reg: u32) (pi_clear: u32) (pi_set: u32) (pi_write: bool)

definition realtek_8125_versions :: "realtek_chip_version list" where
  "realtek_8125_versions = [
    Chip 0x7cf 0x681 66, Chip 0x7cf 0x708 65, Chip 0x7cf 0x68b 64, Chip 0x7cf 0x68a 64, Chip 0x7cf 0x689 64,
    Chip 0x7cf 0x688 64, Chip 0x7cf 0x641 63, Chip 0x7cf 0x609 61]"

definition realtek_8125a_ephy :: "realtek_ephy_init list" where
  "realtek_8125a_ephy = [
    Ephy 0x4 0xffff 0xd000, Ephy 0xa 0xffff 0x8653, Ephy 0x23 0xffff 0xab66, Ephy 0x20 0xffff 0x9455,
    Ephy 0x21 0xffff 0x99ff, Ephy 0x29 0xffff 0xfe04, Ephy 0x44 0xffff 0xd000, Ephy 0x4a 0xffff 0x8653,
    Ephy 0x63 0xffff 0xab66, Ephy 0x60 0xffff 0x9455, Ephy 0x61 0xffff 0x99ff, Ephy 0x69 0xffff 0xfe04]"

definition realtek_8125b_ephy :: "realtek_ephy_init list" where
  "realtek_8125b_ephy = [
    Ephy 0xb 0xffff 0xa908, Ephy 0x1e 0xffff 0x20eb, Ephy 0x4b 0xffff 0xa908, Ephy 0x5e 0xffff 0x20eb,
    Ephy 0x22 0x30 0x20, Ephy 0x62 0x30 0x20]"

definition realtek_8126a_1_phy :: "realtek_phy_ocp_init list" where
  "realtek_8126a_1_phy = [
    Phy 0xa442 0 0x800 False]"

definition realtek_8126a_2_phy :: "realtek_phy_ocp_init list" where
  "realtek_8126a_2_phy = [
    Phy 0xa442 0 0x800 False, Phy 0xa436 0 0x80bf True, Phy 0xa438 0xff00 0xed00 False,
    Phy 0xa436 0 0x80cd True, Phy 0xa438 0xff00 0x1000 False, Phy 0xa436 0 0x80d1 True,
    Phy 0xa438 0xff00 0xc800 False, Phy 0xa436 0 0x80d4 True, Phy 0xa438 0xff00 0xc800 False,
    Phy 0xa436 0 0x80e1 True, Phy 0xa438 0 0x10cc True, Phy 0xa436 0 0x80e5 True, Phy 0xa438 0 0x4f0c True,
    Phy 0xa436 0 0x8387 True, Phy 0xa438 0xff00 0x4700 False, Phy 0xa80c 0xc0 0x80 False,
    Phy 0xac90 0x10 0 False, Phy 0xad2c 0x8000 0 False, Phy 0xb87c 0 0x8321 True,
    Phy 0xb87e 0xff00 0x1100 False, Phy 0xacf8 0 0xc False, Phy 0xa436 0 0x8183 True,
    Phy 0xa438 0xff00 0x5900 False, Phy 0xad94 0 0x20 False, Phy 0xa654 0x800 0 False,
    Phy 0xb648 0 0x4000 False, Phy 0xb87c 0 0x839e True, Phy 0xb87e 0xff00 0x2f00 False,
    Phy 0xb87c 0 0x83f2 True, Phy 0xb87e 0xff00 0x800 False, Phy 0xada0 0 0x2 False,
    Phy 0xb87c 0 0x80f3 True, Phy 0xb87e 0xff00 0x9900 False, Phy 0xb87c 0 0x8126 True,
    Phy 0xb87e 0xff00 0xc100 False, Phy 0xb87c 0 0x893a True, Phy 0xb87e 0 0x8080 True,
    Phy 0xb87c 0 0x8647 True, Phy 0xb87e 0xff00 0xe600 False, Phy 0xb87c 0 0x862c True,
    Phy 0xb87e 0xff00 0x1200 False, Phy 0xb87c 0 0x864a True, Phy 0xb87e 0xff00 0xe600 False,
    Phy 0xb87c 0 0x80a0 True, Phy 0xb87e 0 0xbcbc True, Phy 0xb87c 0 0x805e True, Phy 0xb87e 0 0xbcbc True,
    Phy 0xb87c 0 0x8056 True, Phy 0xb87e 0 0x3077 True, Phy 0xb87c 0 0x8058 True,
    Phy 0xb87e 0xff00 0x5a00 False, Phy 0xb87c 0 0x8098 True, Phy 0xb87e 0 0x3077 True,
    Phy 0xb87c 0 0x809a True, Phy 0xb87e 0xff00 0x5a00 False, Phy 0xb87c 0 0x8052 True,
    Phy 0xb87e 0 0x3733 True, Phy 0xb87c 0 0x8094 True, Phy 0xb87e 0 0x3733 True, Phy 0xb87c 0 0x807f True,
    Phy 0xb87e 0 0x7c75 True, Phy 0xb87c 0 0x803d True, Phy 0xb87e 0 0x7c75 True, Phy 0xb87c 0 0x8036 True,
    Phy 0xb87e 0xff00 0x3000 False, Phy 0xb87c 0 0x8078 True, Phy 0xb87e 0xff00 0x3000 False,
    Phy 0xb87c 0 0x8031 True, Phy 0xb87e 0xff00 0x3300 False, Phy 0xb87c 0 0x8073 True,
    Phy 0xb87e 0xff00 0x3300 False, Phy 0xae06 0xfc00 0x7c00 False, Phy 0xb87c 0 0x89d1 True,
    Phy 0xb87e 0 0x4 True, Phy 0xa436 0 0x8fbd True, Phy 0xa438 0xff00 0xa00 False, Phy 0xa436 0 0x8fbe True,
    Phy 0xa438 0 0xd09 True, Phy 0xb87c 0 0x89cd True, Phy 0xb87e 0 0xf0f True, Phy 0xb87c 0 0x89cf True,
    Phy 0xb87e 0 0xf0f True, Phy 0xb87c 0 0x83a4 True, Phy 0xb87e 0 0x6600 True, Phy 0xb87c 0 0x83a6 True,
    Phy 0xb87e 0 0x6601 True, Phy 0xb87c 0 0x83c0 True, Phy 0xb87e 0 0x6600 True, Phy 0xb87c 0 0x83c2 True,
    Phy 0xb87e 0 0x6601 True, Phy 0xb87c 0 0x8414 True, Phy 0xb87e 0 0x6600 True, Phy 0xb87c 0 0x8416 True,
    Phy 0xb87e 0 0x6601 True, Phy 0xb87c 0 0x83f8 True, Phy 0xb87e 0 0x6600 True, Phy 0xb87c 0 0x83fa True,
    Phy 0xb87e 0 0x6601 True, Phy 0xbd96 0x1f00 0x1000 False, Phy 0xbf1c 0x7 0x7 False,
    Phy 0xbfbe 0x8000 0 False, Phy 0xbf40 0x380 0x280 False, Phy 0xbf90 0x80 0x60 False,
    Phy 0xbf90 0x10 0xc False, Phy 0xa436 0 0x843b True, Phy 0xa438 0xff00 0x2000 False,
    Phy 0xa436 0 0x843d True, Phy 0xa438 0xff00 0x2000 False, Phy 0xb516 0x7f 0 False,
    Phy 0xbf80 0x30 0 False, Phy 0xa436 0 0x8188 True, Phy 0xa438 0 0x44 True, Phy 0xa438 0 0xa8 True,
    Phy 0xa438 0 0xd6 True, Phy 0xa438 0 0xec True, Phy 0xa438 0 0xf6 True, Phy 0xa438 0 0xfc True,
    Phy 0xa438 0 0xfe True, Phy 0xa438 0 0xfe True, Phy 0xa438 0 0xbc True, Phy 0xa438 0 0x58 True,
    Phy 0xa438 0 0x2a True, Phy 0xb87c 0 0x8015 True, Phy 0xb87e 0xff00 0x800 False,
    Phy 0xb87c 0 0x8ffd True, Phy 0xb87e 0xff00 0 False, Phy 0xb87c 0 0x8fff True,
    Phy 0xb87e 0xff00 0x7f00 False, Phy 0xb87c 0 0x8ffb True, Phy 0xb87e 0xff00 0x100 False,
    Phy 0xb87c 0 0x8fe9 True, Phy 0xb87e 0 0x2 True, Phy 0xb87c 0 0x8fef True, Phy 0xb87e 0 0xa5 True,
    Phy 0xb87c 0 0x8ff1 True, Phy 0xb87e 0 0x106 True, Phy 0xb87c 0 0x8fe1 True, Phy 0xb87e 0 0x102 True,
    Phy 0xb87c 0 0x8fe3 True, Phy 0xb87e 0xff00 0x400 False, Phy 0xa654 0 0x800 False,
    Phy 0xa65a 0x3 0 False, Phy 0xac3a 0 0x5851 True, Phy 0xac3c 0xd000 0x2000 False,
    Phy 0xac42 0x200 0x1c0 False, Phy 0xac3e 0xe000 0 False, Phy 0xac42 0x38 0 False,
    Phy 0xac42 0x2 0x5 False, Phy 0xac1a 0 0xdb True, Phy 0xade4 0 0x1b5 True, Phy 0xad9c 0xc00 0 False,
    Phy 0xb87c 0 0x814b True, Phy 0xb87e 0xff00 0x1100 False, Phy 0xb87c 0 0x814d True,
    Phy 0xb87e 0xff00 0x1100 False, Phy 0xb87c 0 0x814f True, Phy 0xb87e 0xff00 0xb00 False,
    Phy 0xb87c 0 0x8142 True, Phy 0xb87e 0xff00 0x100 False, Phy 0xb87c 0 0x8144 True,
    Phy 0xb87e 0xff00 0x100 False, Phy 0xb87c 0 0x8150 True, Phy 0xb87e 0xff00 0x100 False,
    Phy 0xb87c 0 0x8118 True, Phy 0xb87e 0xff00 0x700 False, Phy 0xb87c 0 0x811a True,
    Phy 0xb87e 0xff00 0x700 False, Phy 0xb87c 0 0x811c True, Phy 0xb87e 0xff00 0x500 False,
    Phy 0xb87c 0 0x810f True, Phy 0xb87e 0xff00 0x100 False, Phy 0xb87c 0 0x8111 True,
    Phy 0xb87e 0xff00 0x100 False, Phy 0xb87c 0 0x811d True, Phy 0xb87e 0xff00 0x100 False,
    Phy 0xac36 0 0x1000 False, Phy 0xad1c 0x100 0 False, Phy 0xade8 0xffc0 0x1400 False,
    Phy 0xb87c 0 0x864b True, Phy 0xb87e 0xff00 0x9d00 False, Phy 0xa436 0 0x8f97 True,
    Phy 0xa438 0 0x3f True, Phy 0xa438 0 0x3f02 True, Phy 0xa438 0 0x23c True, Phy 0xa438 0 0x3b0a True,
    Phy 0xa438 0 0x1c00 True, Phy 0xa438 0 0 True, Phy 0xa438 0 0 True, Phy 0xa438 0 0 True,
    Phy 0xa438 0 0 True, Phy 0xad9c 0 0x20 False, Phy 0xb87c 0 0x8122 True, Phy 0xb87e 0xff00 0xc00 False,
    Phy 0xb87c 0 0x82c8 True, Phy 0xb87e 0 0x3ed True, Phy 0xb87e 0 0x3ff True, Phy 0xb87e 0 0x9 True,
    Phy 0xb87e 0 0x3fe True, Phy 0xb87e 0 0xb True, Phy 0xb87e 0 0x21 True, Phy 0xb87e 0 0x3f7 True,
    Phy 0xb87e 0 0x3b8 True, Phy 0xb87e 0 0x3e0 True, Phy 0xb87e 0 0x49 True, Phy 0xb87e 0 0x49 True,
    Phy 0xb87e 0 0x3e0 True, Phy 0xb87e 0 0x3b8 True, Phy 0xb87e 0 0x3f7 True, Phy 0xb87e 0 0x21 True,
    Phy 0xb87e 0 0xb True, Phy 0xb87e 0 0x3fe True, Phy 0xb87e 0 0x9 True, Phy 0xb87e 0 0x3ff True,
    Phy 0xb87e 0 0x3ed True, Phy 0xb87c 0 0x80ef True, Phy 0xb87e 0xff00 0xc00 False,
    Phy 0xb87c 0 0x82a0 True, Phy 0xb87e 0 0xe True, Phy 0xb87e 0 0x3fe True, Phy 0xb87e 0 0x3ed True,
    Phy 0xb87e 0 0x6 True, Phy 0xb87e 0 0x1a True, Phy 0xb87e 0 0x3f1 True, Phy 0xb87e 0 0x3d8 True,
    Phy 0xb87e 0 0x23 True, Phy 0xb87e 0 0x54 True, Phy 0xb87e 0 0x322 True, Phy 0xb87e 0 0xdd True,
    Phy 0xb87e 0 0x3ab True, Phy 0xb87e 0 0x3dc True, Phy 0xb87e 0 0x27 True, Phy 0xb87e 0 0xe True,
    Phy 0xb87e 0 0x3e5 True, Phy 0xb87e 0 0x3f9 True, Phy 0xb87e 0 0x12 True, Phy 0xb87e 0 1 True,
    Phy 0xb87e 0 0x3f1 True, Phy 0xa436 0 0x8018 True, Phy 0xa438 0 0x2000 False, Phy 0xb87c 0 0x8fe4 True,
    Phy 0xb87e 0xff00 0 False, Phy 0xb54c 0xffc0 0x3700 False]"

definition realtek_8126a_3_phy :: "realtek_phy_ocp_init list" where
  "realtek_8126a_3_phy = [
    Phy 0xa442 0 0x800 False, Phy 0xa436 0 0x8183 True, Phy 0xa438 0xff00 0x5900 False,
    Phy 0xa654 0 0x800 False, Phy 0xb648 0 0x4000 False, Phy 0xad2c 0 0x8000 False, Phy 0xad94 0 0x20 False,
    Phy 0xada0 0 0x2 False, Phy 0xae06 0xfc00 0x7c00 False, Phy 0xb87c 0 0x8647 True,
    Phy 0xb87e 0xff00 0xe600 False, Phy 0xb87c 0 0x8036 True, Phy 0xb87e 0xff00 0x3000 False,
    Phy 0xb87c 0 0x8078 True, Phy 0xb87e 0xff00 0x3000 False, Phy 0xb87c 0 0x89e9 True,
    Phy 0xb87e 0 0xff00 False, Phy 0xb87c 0 0x8ffd True, Phy 0xb87e 0xff00 0x100 False,
    Phy 0xb87c 0 0x8ffe True, Phy 0xb87e 0xff00 0x200 False, Phy 0xb87c 0 0x8fff True,
    Phy 0xb87e 0xff00 0x400 False, Phy 0xa436 0 0x8018 True, Phy 0xa438 0xff00 0x7700 False,
    Phy 0xa436 0 0x8f9c True, Phy 0xa438 0 0x5 True, Phy 0xa438 0 0 True, Phy 0xa438 0 0xed True,
    Phy 0xa438 0 0x502 True, Phy 0xa438 0 0xb00 True, Phy 0xa438 0 0xd401 True, Phy 0xa436 0 0x8fa8 True,
    Phy 0xa438 0xff00 0x2900 False, Phy 0xb87c 0 0x814b True, Phy 0xb87e 0xff00 0x1100 False,
    Phy 0xb87c 0 0x814d True, Phy 0xb87e 0xff00 0x1100 False, Phy 0xb87c 0 0x814f True,
    Phy 0xb87e 0xff00 0xb00 False, Phy 0xb87c 0 0x8142 True, Phy 0xb87e 0xff00 0x100 False,
    Phy 0xb87c 0 0x8144 True, Phy 0xb87e 0xff00 0x100 False, Phy 0xb87c 0 0x8150 True,
    Phy 0xb87e 0xff00 0x100 False, Phy 0xb87c 0 0x8118 True, Phy 0xb87e 0xff00 0x700 False,
    Phy 0xb87c 0 0x811a True, Phy 0xb87e 0xff00 0x700 False, Phy 0xb87c 0 0x811c True,
    Phy 0xb87e 0xff00 0x500 False, Phy 0xb87c 0 0x810f True, Phy 0xb87e 0xff00 0x100 False,
    Phy 0xb87c 0 0x8111 True, Phy 0xb87e 0xff00 0x100 False, Phy 0xb87c 0 0x811d True,
    Phy 0xb87e 0xff00 0x100 False, Phy 0xad1c 0 0x100 False, Phy 0xade8 0xffc0 0x1400 False,
    Phy 0xb87c 0 0x864b True, Phy 0xb87e 0xff00 0x9d00 False, Phy 0xb87c 0 0x862c True,
    Phy 0xb87e 0xff00 0x1200 False, Phy 0xa436 0 0x8566 True, Phy 0xa438 0 0x3f True,
    Phy 0xa438 0 0x3f02 True, Phy 0xa438 0 0x23c True, Phy 0xa438 0 0x3b0a True, Phy 0xa438 0 0x1c00 True,
    Phy 0xa438 0 0 True, Phy 0xa438 0 0 True, Phy 0xa438 0 0 True, Phy 0xa438 0 0 True,
    Phy 0xad9c 0 0x20 False, Phy 0xb87c 0 0x8122 True, Phy 0xb87e 0xff00 0xc00 False,
    Phy 0xb87c 0 0x82c8 True, Phy 0xb87e 0 0x3ed True, Phy 0xb87e 0 0x3ff True, Phy 0xb87e 0 0x9 True,
    Phy 0xb87e 0 0x3fe True, Phy 0xb87e 0 0xb True, Phy 0xb87e 0 0x21 True, Phy 0xb87e 0 0x3f7 True,
    Phy 0xb87e 0 0x3b8 True, Phy 0xb87e 0 0x3e0 True, Phy 0xb87e 0 0x49 True, Phy 0xb87e 0 0x49 True,
    Phy 0xb87e 0 0x3e0 True, Phy 0xb87e 0 0x3b8 True, Phy 0xb87e 0 0x3f7 True, Phy 0xb87e 0 0x21 True,
    Phy 0xb87e 0 0xb True, Phy 0xb87e 0 0x3fe True, Phy 0xb87e 0 0x9 True, Phy 0xb87e 0 0x3ff True,
    Phy 0xb87e 0 0x3ed True, Phy 0xb87c 0 0x80ef True, Phy 0xb87e 0xff00 0xc00 False,
    Phy 0xb87c 0 0x82a0 True, Phy 0xb87e 0 0xe True, Phy 0xb87e 0 0x3fe True, Phy 0xb87e 0 0x3ed True,
    Phy 0xb87e 0 0x6 True, Phy 0xb87e 0 0x1a True, Phy 0xb87e 0 0x3f1 True, Phy 0xb87e 0 0x3d8 True,
    Phy 0xb87e 0 0x23 True, Phy 0xb87e 0 0x54 True, Phy 0xb87e 0 0x322 True, Phy 0xb87e 0 0xdd True,
    Phy 0xb87e 0 0x3ab True, Phy 0xb87e 0 0x3dc True, Phy 0xb87e 0 0x27 True, Phy 0xb87e 0 0xe True,
    Phy 0xb87e 0 0x3e5 True, Phy 0xb87e 0 0x3f9 True, Phy 0xb87e 0 0x12 True, Phy 0xb87e 0 1 True,
    Phy 0xb87e 0 0x3f1 True, Phy 0xa430 0 0x3 False, Phy 0xb54c 0xffc0 0x3700 False, Phy 0xb648 0 0x40 False,
    Phy 0xb87c 0 0x8082 True, Phy 0xb87e 0xff00 0x5d00 False, Phy 0xb87c 0 0x807c True,
    Phy 0xb87e 0xff00 0x5000 False, Phy 0xb87c 0 0x809d True, Phy 0xb87e 0xff00 0x5000 False]"

end
