(* ===== verification/Realtek_Regs.thy ===== *)
theory Realtek_Regs
  imports Realtek_Tables
begin

text \<open>
  State and register access of the Realtek network driver (\<^verbatim>\<open>drivers/net/realtek.c\<close>,
  \<^verbatim>\<open>drivers/net/realtek.h\<close>): the device structure, the environment, the indirect register interfaces
  (OCP, GPHY OCP, CSI, EPHY, MII), the start-up programs of the RTL8125 and RTL8126, reset and PHY set-up.
  Register reads are answered by the environment; every access is recorded, as are the calls into the
  network core. Delays have no effect on the state and are left out.
\<close>

section \<open>State\<close>

abbreviation "RTL_NUM_TX_DESC \<equiv> (4 :: nat)"
abbreviation "RTL_NUM_RX_DESC \<equiv> (4 :: nat)"
abbreviation "RTL_RX_MAX_LEN \<equiv> (1526 :: nat)"
abbreviation "RTL_RXBUF_LEN \<equiv> (8192 :: nat)"
abbreviation "RTL_RXBUF_PAD \<equiv> (2038 :: nat)"
abbreviation "ETH_ZLEN \<equiv> (60 :: nat)"
abbreviation "RTL_DESC_SIZE_MASK \<equiv> (0x3fff :: u16)"
abbreviation "RTL_DESC_OWN \<equiv> (0x8000 :: u16)"
abbreviation "RTL_DESC_EOR \<equiv> (0x4000 :: u16)"
abbreviation "RTL_DESC_FS \<equiv> (0x2000 :: u16)"
abbreviation "RTL_DESC_LS \<equiv> (0x1000 :: u16)"
abbreviation "RTL_DESC_RES \<equiv> (0x0020 :: u16)"
abbreviation "RTL_STAT_ROK \<equiv> (0x0001 :: u16)"

abbreviation "RTL_MAR0 \<equiv> (0x08 :: nat)"
abbreviation "RTL_MAR4 \<equiv> (0x0c :: nat)"
abbreviation "RTL_TSD n \<equiv> (0x10 + 4 * n :: nat)"
abbreviation "RTL_TSAD n \<equiv> (0x20 + 4 * n :: nat)"
abbreviation "RTL_TSD_ERTXTH_DEFAULT \<equiv> (0x80000 :: u32)"
abbreviation "RTL_TSD_OWN \<equiv> (0x2000 :: u32)"
abbreviation "RTL_RBSTART \<equiv> (0x30 :: nat)"
abbreviation "RTL_CR \<equiv> (0x37 :: nat)"
abbreviation "RTL_CR_RST \<equiv> (0x10 :: u32)"
abbreviation "RTL_CR_RE \<equiv> (0x08 :: u32)"
abbreviation "RTL_CR_TE \<equiv> (0x04 :: u32)"
abbreviation "RTL_CR_BUFE \<equiv> (0x01 :: u32)"
abbreviation "RTL_RESET_MAX_WAIT_MS \<equiv> (100 :: nat)"
abbreviation "RTL_CAPR \<equiv> (0x38 :: nat)"
abbreviation "RTL_TPPOLL_NPQ \<equiv> (0x40 :: u32)"
abbreviation "RTL_TPPOLL_8125 \<equiv> (0x90 :: nat)"
abbreviation "RTL_TPPOLL_8125_NPQ \<equiv> (0x0001 :: u32)"
abbreviation "RTL_IMR_8125 \<equiv> (0x38 :: nat)"
abbreviation "RTL_ISR_8125 \<equiv> (0x3c :: nat)"
abbreviation "RTL_IMR \<equiv> (0x3c :: nat)"
abbreviation "RTL_ISR \<equiv> (0x3e :: nat)"
abbreviation "RTL_IRQ_PUN_LINKCHG \<equiv> (0x20 :: u32)"
abbreviation "RTL_IRQ_TER \<equiv> (0x08 :: u32)"
abbreviation "RTL_IRQ_TOK \<equiv> (0x04 :: u32)"
abbreviation "RTL_IRQ_RER \<equiv> (0x02 :: u32)"
abbreviation "RTL_IRQ_ROK \<equiv> (0x01 :: u32)"
abbreviation "RTL_TCR \<equiv> (0x40 :: nat)"
abbreviation "RTL_RCR \<equiv> (0x44 :: nat)"
abbreviation "RTL_MSR \<equiv> (0x58 :: nat)"
abbreviation "RTL_MSR_LINKB \<equiv> (0x04 :: u32)"
abbreviation "RTL_PHYSTATUS \<equiv> (0x6c :: nat)"
abbreviation "RTL_PHYSTATUS_LINKSTS \<equiv> (0x02 :: u32)"
abbreviation "RTL_BAR_SIZE \<equiv> (0x4808 :: nat)"
abbreviation (input) "RTL_IDR0 \<equiv> (0x00 :: nat)"
abbreviation "RTL_TNPDS \<equiv> (0x20 :: nat)"
abbreviation "RTL_RDSAR \<equiv> (0xe4 :: nat)"
abbreviation "RTL_TPPOLL_8169 \<equiv> (0x38 :: nat)"
abbreviation "RTL_TPPOLL_8139CP \<equiv> (0xd9 :: nat)"
abbreviation "RTL_RMS \<equiv> (0xda :: nat)"
abbreviation "RTL_CPCR \<equiv> (0xe0 :: nat)"
abbreviation "RTL_RCR_9356SEL \<equiv> (0x40 :: u32)"
abbreviation "RTL_9346CR \<equiv> (0x50 :: nat)"
abbreviation "RTL_9346CR_EEM_EEPROM \<equiv> (0x80 :: u32)"
abbreviation (input) "RTL_9346CR_EEM_NORMAL \<equiv> (0 :: u32)"
abbreviation (input) "RTL_EEPROM_ID \<equiv> (0 :: nat)"
abbreviation "RTL_EEPROM_ID_MAGIC \<equiv> (0x8129 :: u16)"
abbreviation "RTL_EEPROM_MAC \<equiv> (7 :: nat)"
abbreviation "RTL_EEPROM_VPD \<equiv> (0x20 :: nat)"
abbreviation "RTL_EEPROM_VPD_LEN \<equiv> (0x40 :: nat)"
abbreviation "RTL_CONFIG1 \<equiv> (0x52 :: nat)"
abbreviation "RTL_CONFIG1_VPD \<equiv> (0x02 :: u32)"
abbreviation "RTL_CONFIG3 \<equiv> (0x54 :: nat)"
abbreviation "RTL_CONFIG3_RDY_TO_L23 \<equiv> (0x02 :: u32)"
abbreviation "RTL_PHYAR \<equiv> (0x60 :: nat)"
abbreviation "RTL_PHYAR_FLAG \<equiv> (0x80000000 :: u32)"
abbreviation "RTL_MII_MAX_WAIT_US \<equiv> (500 :: nat)"
abbreviation "RTL_EPHYAR \<equiv> (0x80 :: nat)"
abbreviation "RTL_EPHYAR_FLAG \<equiv> (0x80000000 :: u32)"
abbreviation "RTL_EPHYAR_REG_MASK \<equiv> (0x1f :: u32)"
abbreviation "RTL_EPHYAR_DATA_MASK \<equiv> (0xffff :: u32)"
abbreviation "RTL_OCPDR \<equiv> (0xb0 :: nat)"
abbreviation "RTL_OCPAR_FLAG \<equiv> (0x80000000 :: u32)"
abbreviation "RTL_GPHY_OCP \<equiv> (0xb8 :: nat)"
abbreviation "RTL_OCP_STD_PHY_BASE \<equiv> (0xa400 :: u32)"
abbreviation "RTL_CSIDR \<equiv> (0x64 :: nat)"
abbreviation "RTL_CSIAR \<equiv> (0x68 :: nat)"
abbreviation "RTL_CSIAR_FLAG \<equiv> (0x80000000 :: u32)"
abbreviation "RTL_CSIAR_BYTE_ENABLE \<equiv> (0xf000 :: u32)"
abbreviation "RTL_CSIAR_ADDR_MASK \<equiv> (0xfff :: u32)"
abbreviation "RTL_GPHY_OCP_MAX_WAIT_US \<equiv> (20000 :: nat)"
abbreviation "RTL_MISC \<equiv> (0xf0 :: nat)"
abbreviation "RTL_MISC_RXDV_GATED_EN \<equiv> (0x80000 :: u32)"
abbreviation "RTL_RSS_CTRL_8125 \<equiv> (0x4500 :: nat)"
abbreviation "RTL_Q_NUM_CTRL_8125 \<equiv> (0x4800 :: nat)"
abbreviation "RTL_MAC0_BKP \<equiv> (0x19e0 :: nat)"
abbreviation "ETH_ALEN \<equiv> (6 :: nat)"

record realtek_descriptor =
  rd_length :: u16
  rd_flags :: u16
  rd_address :: u64

text \<open>\<open>rr_desc\<close> is \<open>None\<close> when no ring is allocated.\<close>

record realtek_ring =
  rr_desc :: "realtek_descriptor list option"
  rr_prod :: u32
  rr_cons :: u32
  rr_reg :: nat
  rr_len :: nat

text \<open>An I/O buffer: an identity and its contents (for a receive buffer, the whole area the device may write).\<close>

record io_buffer =
  ib_id :: nat
  ib_data :: bytes

text \<open>Calls into the network core and the bus code, and register accesses with their width in bytes.\<close>

datatype net_event =
    NetRx nat bytes | NetRxErr "nat option" errno | NetTxDefer io_buffer | NetTxDone nat | LinkUp | LinkDown
  | NetdevAlloc | Ioremap | NetdevRegister | NvoRegister | NvoUnregister | NetdevUnregister | Iounmap
  | NetdevNullify | NetdevPut

datatype reg_access = RegRead nat nat | RegWrite nat nat u32

datatype eeprom_type = AT93C46 | AT93C56

text \<open>The flags say which kind of device was detected; \<open>rn_bus\<close> is \<^verbatim>\<open>eeprom.bus\<close> being set, \<open>rn_nvo\<close> the place of the
  non-volatile options, \<open>rn_hw_addr\<close> the address of the network device. \<open>rn_tx_queue\<close> is the network core's queue of buffers under transmission. \<open>rn_next\<close> numbers the receive buffers that were allocated; \<open>rn_net\<close> and \<open>rn_regs\<close> are histories,
  \<open>rn_clk\<close> counts the queries to the environment.\<close>

record realtek_nic =
  rn_legacy :: bool
  rn_have_phy_regs :: bool
  rn_have_ocp :: bool
  rn_mac_ver :: nat
  rn_mcfg :: nat
  rn_tppoll :: nat
  rn_dma64 :: bool
  rn_bus :: bool
  rn_eeprom :: "eeprom_type option"
  rn_nvo :: "(nat \<times> nat) option"
  rn_hw_addr :: bytes
  rn_tx :: realtek_ring
  rn_rx :: realtek_ring
  rn_rx_iobuf :: "io_buffer option list"
  rn_rxbuf :: "bytes option"
  rn_offset :: u32
  rn_next :: nat
  rn_tx_queue :: "io_buffer list"
  rn_net :: "net_event list"
  rn_regs :: "reg_access list"
  rn_clk :: nat

text \<open>What the device does to memory: release a transmit descriptor, receive a frame (with its CRC) into a
  receive buffer, write to the legacy receive buffer.\<close>

datatype dma_action = TxRelease nat | RxFrame nat bytes bool | RxBuffer nat bytes

text \<open>The MII core (\<^verbatim>\<open>mii_read()\<close>, \<^verbatim>\<open>mii_write()\<close>, \<^verbatim>\<open>mii_reset()\<close>, \<^verbatim>\<open>mii_restart()\<close>, \<^verbatim>\<open>mii_dump()\<close>) and the code
  that reads the serial EEPROM (\<^verbatim>\<open>nvs_read()\<close> on a bit-bashing SPI bus) belong to iPXE. They reach the device
  only through the operations that the driver gives them, so each of them is a tree of calls of those
  operations, which continues with the value that the operation returned.\<close>

datatype mii_prog =
    MiiDone "errno + u32"
  | MiiRead nat "errno + u32 \<Rightarrow> mii_prog"
  | MiiWrite nat u32 "rc \<Rightarrow> mii_prog"

datatype spi_bit = SPI_BIT_SCLK | SPI_BIT_MOSI | SPI_BIT_MISO | SPI_BIT_SS0

datatype spi_prog =
    SpiDone rc bytes
  | SpiOpen spi_prog
  | SpiClose spi_prog
  | SpiReadBit spi_bit "u32 \<Rightarrow> spi_prog"
  | SpiWriteBit spi_bit u32 spi_prog

text \<open>\<open>re_dma_alloc\<close> is \<^verbatim>\<open>dma_alloc()\<close> (a device address), \<open>re_iob_dma\<close> the device address of a buffer,
  \<open>re_fresh\<close> the bytes of a new receive buffer, \<open>re_func\<close> the PCI function number.\<close>

record rtl_env =
  re_read :: "nat \<Rightarrow> nat \<Rightarrow> u32"
  re_dma :: "nat \<Rightarrow> dma_action list"
  re_dma_alloc :: "nat \<Rightarrow> nat \<Rightarrow> u64 option"
  re_alloc_iob :: "nat \<Rightarrow> nat \<Rightarrow> bool"
  re_iob_dma :: "nat \<Rightarrow> u64"
  re_map_tx :: "nat \<Rightarrow> rc"
  re_fresh :: "nat \<Rightarrow> bytes"
  re_func :: u32
  re_mii_read :: "nat \<Rightarrow> mii_prog"
  re_mii_write :: "nat \<Rightarrow> u32 \<Rightarrow> mii_prog"
  re_mii_reset :: mii_prog
  re_mii_restart :: mii_prog
  re_mii_dump :: mii_prog
  re_spi_init :: spi_prog
  re_nvs_read :: "eeprom_type \<Rightarrow> nat \<Rightarrow> nat \<Rightarrow> spi_prog"
  re_alloc_etherdev :: bool
  re_ioremap :: bool
  re_register_netdev :: rc
  re_register_nvo :: rc

definition rtl_tick :: "realtek_nic \<Rightarrow> realtek_nic" where
  "rtl_tick s = s\<lparr>rn_clk := Suc (rn_clk s)\<rparr>"

definition write_reg :: "nat \<Rightarrow> nat \<Rightarrow> u32 \<Rightarrow> realtek_nic \<Rightarrow> realtek_nic" where
  "write_reg width reg v s = s\<lparr>rn_regs := rn_regs s @ [RegWrite width reg v]\<rparr>"

text \<open>\<^verbatim>\<open>readb()\<close>, \<^verbatim>\<open>readw()\<close>, \<^verbatim>\<open>readl()\<close>: the low bytes of what the device answers.\<close>

definition read_reg :: "rtl_env \<Rightarrow> nat \<Rightarrow> nat \<Rightarrow> realtek_nic \<Rightarrow> u32 \<times> realtek_nic" where
  "read_reg E width reg s =
    (take_bit (8 * width) (re_read E (rn_clk s) reg), (rtl_tick s)\<lparr>rn_regs := rn_regs s @ [RegRead width reg]\<rparr>)"

definition net_call :: "net_event \<Rightarrow> realtek_nic \<Rightarrow> realtek_nic" where
  "net_call e s = s\<lparr>rn_net := rn_net s @ [e]\<rparr>"

text \<open>Reading a register, clearing bits and writing it back; reading it until a condition holds, at most \<open>n\<close> times.\<close>

definition clear_bits :: "rtl_env \<Rightarrow> nat \<Rightarrow> nat \<Rightarrow> u32 \<Rightarrow> realtek_nic \<Rightarrow> realtek_nic" where
  "clear_bits E width reg m s = (let (v, s) = read_reg E width reg s in write_reg width reg (v AND NOT m) s)"

fun wait_reg :: "rtl_env \<Rightarrow> nat \<Rightarrow> nat \<Rightarrow> (u32 \<Rightarrow> bool) \<Rightarrow> nat \<Rightarrow> realtek_nic \<Rightarrow> u32 option \<times> realtek_nic" where
  "wait_reg E width reg p n s =
    (if n = 0 then (None, s)
     else let (v, s) = read_reg E width reg s in
       if p v then (Some v, s) else wait_reg E width reg p (n - 1) s)"

declare wait_reg.simps [simp del]

section \<open>Indirect register interfaces\<close>

text \<open>Addresses behind OCP are even and have 16 bits.\<close>

definition realtek_gphy_ocp_read :: "rtl_env \<Rightarrow> u32 \<Rightarrow> realtek_nic \<Rightarrow> (errno + u32) \<times> realtek_nic" where
  "realtek_gphy_ocp_read E reg s =
    (if reg AND 0xffff0001 \<noteq> 0 then (Inl EINVAL, s)
     else case wait_reg E 4 RTL_GPHY_OCP (\<lambda>v. v AND RTL_OCPAR_FLAG \<noteq> 0) RTL_GPHY_OCP_MAX_WAIT_US
         (write_reg 4 RTL_GPHY_OCP (push_bit 15 reg) s) of
       (Some v, s) \<Rightarrow> (Inr (v AND RTL_EPHYAR_DATA_MASK), s)
     | (None, s) \<Rightarrow> (Inl ETIMEDOUT, s))"

definition realtek_gphy_ocp_write :: "rtl_env \<Rightarrow> u32 \<Rightarrow> u32 \<Rightarrow> realtek_nic \<Rightarrow> realtek_nic" where
  "realtek_gphy_ocp_write E reg d s =
    (if reg AND 0xffff0001 \<noteq> 0 then s
     else snd (wait_reg E 4 RTL_GPHY_OCP (\<lambda>v. v AND RTL_OCPAR_FLAG = 0) RTL_GPHY_OCP_MAX_WAIT_US
       (write_reg 4 RTL_GPHY_OCP (RTL_OCPAR_FLAG OR push_bit 15 reg OR d) s)))"

definition realtek_gphy_ocp_modify :: "rtl_env \<Rightarrow> u32 \<Rightarrow> u32 \<Rightarrow> u32 \<Rightarrow> realtek_nic \<Rightarrow> realtek_nic" where
  "realtek_gphy_ocp_modify E reg cl st s =
    (case realtek_gphy_ocp_read E reg s of
       (Inl e, s) \<Rightarrow> s
     | (Inr d, s) \<Rightarrow> realtek_gphy_ocp_write E reg (d AND NOT cl OR st) s)"

definition csi_address :: "rtl_env \<Rightarrow> u32 \<Rightarrow> u32" where
  "csi_address E addr = (addr AND RTL_CSIAR_ADDR_MASK) OR RTL_CSIAR_BYTE_ENABLE OR push_bit 16 (re_func E)"

definition realtek_csi_read :: "rtl_env \<Rightarrow> u32 \<Rightarrow> realtek_nic \<Rightarrow> u32 \<times> realtek_nic" where
  "realtek_csi_read E addr s =
    (case wait_reg E 4 RTL_CSIAR (\<lambda>v. v AND RTL_CSIAR_FLAG \<noteq> 0) RTL_MII_MAX_WAIT_US
         (write_reg 4 RTL_CSIAR (csi_address E addr) s) of
       (Some v, s) \<Rightarrow> read_reg E 4 RTL_CSIDR s
     | (None, s) \<Rightarrow> (NOT 0, s))"

definition realtek_csi_write :: "rtl_env \<Rightarrow> u32 \<Rightarrow> u32 \<Rightarrow> realtek_nic \<Rightarrow> realtek_nic" where
  "realtek_csi_write E addr v s =
    (let s = write_reg 4 RTL_CSIDR v s; s = write_reg 4 RTL_CSIAR (RTL_CSIAR_FLAG OR csi_address E addr) s in
     snd (wait_reg E 4 RTL_CSIAR (\<lambda>v. v AND RTL_CSIAR_FLAG = 0) RTL_MII_MAX_WAIT_US s))"

definition realtek_csi_modify :: "rtl_env \<Rightarrow> u32 \<Rightarrow> u32 \<Rightarrow> u32 \<Rightarrow> realtek_nic \<Rightarrow> realtek_nic" where
  "realtek_csi_modify E addr cl st s =
    (let (v, s) = realtek_csi_read E addr s in realtek_csi_write E addr (v AND NOT cl OR st) s)"

section \<open>MII\<close>

definition realtek_mii_read :: "rtl_env \<Rightarrow> nat \<Rightarrow> realtek_nic \<Rightarrow> (errno + u32) \<times> realtek_nic" where
  "realtek_mii_read E reg s =
    (if \<not> rn_have_phy_regs s then (Inl ENOTSUP, s)
     else if rn_have_ocp s then realtek_gphy_ocp_read E (RTL_OCP_STD_PHY_BASE + 2 * of_nat reg) s
     else case wait_reg E 4 RTL_PHYAR (\<lambda>v. v AND RTL_PHYAR_FLAG \<noteq> 0) RTL_MII_MAX_WAIT_US
         (write_reg 4 RTL_PHYAR (push_bit 16 (of_nat reg)) s) of
       (Some v, s) \<Rightarrow> (Inr (v AND 0xffff), s)
     | (None, s) \<Rightarrow> (Inl ETIMEDOUT, s))"

definition realtek_mii_write :: "rtl_env \<Rightarrow> nat \<Rightarrow> u32 \<Rightarrow> realtek_nic \<Rightarrow> rc \<times> realtek_nic" where
  "realtek_mii_write E reg d s =
    (if \<not> rn_have_phy_regs s then (Err ENOTSUP, s)
     else if rn_have_ocp s then (OK, realtek_gphy_ocp_write E (RTL_OCP_STD_PHY_BASE + 2 * of_nat reg) d s)
     else case wait_reg E 4 RTL_PHYAR (\<lambda>v. v AND RTL_PHYAR_FLAG = 0) RTL_MII_MAX_WAIT_US
         (write_reg 4 RTL_PHYAR (RTL_PHYAR_FLAG OR push_bit 16 (of_nat reg) OR d) s) of
       (Some v, s) \<Rightarrow> (OK, s)
     | (None, s) \<Rightarrow> (Err ETIMEDOUT, s))"

text \<open>Code of the MII core running on the driver's operations (\<^verbatim>\<open>realtek_mii_operations\<close>).\<close>

primrec run_mii :: "rtl_env \<Rightarrow> mii_prog \<Rightarrow> realtek_nic \<Rightarrow> (errno + u32) \<times> realtek_nic" where
  "run_mii E (MiiDone r) s = (r, s)"
| "run_mii E (MiiRead reg k) s =
    (case realtek_mii_read E reg s of (r, s') \<Rightarrow> run_mii E (k r) s')"
| "run_mii E (MiiWrite reg d k) s =
    (case realtek_mii_write E reg d s of (r, s') \<Rightarrow> run_mii E (k r) s')"

definition status_of :: "errno + u32 \<Rightarrow> rc" where
  "status_of r = (case r of Inl e \<Rightarrow> Err e | Inr v \<Rightarrow> OK)"

section \<open>RTL8125\<close>

fun find_chip :: "u32 \<Rightarrow> realtek_chip_version list \<Rightarrow> nat option" where
  "find_chip xid [] = None"
| "find_chip xid (c # cs) = (if xid AND cv_mask c = cv_value c then Some (cv_version c) else find_chip xid cs)"

definition realtek_detect_8125 :: "rtl_env \<Rightarrow> realtek_nic \<Rightarrow> rc \<times> realtek_nic" where
  "realtek_detect_8125 E s =
    (let (txconfig, s) = read_reg E 4 RTL_TCR s in
     if txconfig = 0xffffffff then (Err ENODEV, s)
     else case find_chip (drop_bit 20 txconfig AND 0xfcf) realtek_8125_versions of
         Some v \<Rightarrow> (OK, s\<lparr>rn_mac_ver := v\<rparr>)
       | None \<Rightarrow> (Err ENODEV, s))"

definition realtek_mac_ocp_read :: "rtl_env \<Rightarrow> u32 \<Rightarrow> realtek_nic \<Rightarrow> u32 \<times> realtek_nic" where
  "realtek_mac_ocp_read E reg s =
    (if reg AND 0xffff0001 \<noteq> 0 then (0, s)
     else read_reg E 4 RTL_OCPDR (write_reg 4 RTL_OCPDR (push_bit 15 reg) s))"

definition realtek_mac_ocp_write :: "u32 \<Rightarrow> u32 \<Rightarrow> realtek_nic \<Rightarrow> realtek_nic" where
  "realtek_mac_ocp_write reg d s =
    (if reg AND 0xffff0001 \<noteq> 0 then s
     else write_reg 4 RTL_OCPDR (RTL_OCPAR_FLAG OR push_bit 15 reg OR d) s)"

text \<open>The intermediate value has 16 bits.\<close>

definition realtek_mac_ocp_modify :: "rtl_env \<Rightarrow> u32 \<Rightarrow> u32 \<Rightarrow> u32 \<Rightarrow> realtek_nic \<Rightarrow> realtek_nic" where
  "realtek_mac_ocp_modify E reg cl st s =
    (let (v, s) = realtek_mac_ocp_read E reg s; d = (ucast v :: u16);
         d = (ucast ((ucast d :: u32) AND NOT cl) :: u16); d = (ucast ((ucast d :: u32) OR st) :: u16) in
     realtek_mac_ocp_write reg (ucast d) s)"

definition realtek_ephy_write :: "rtl_env \<Rightarrow> u32 \<Rightarrow> u32 \<Rightarrow> realtek_nic \<Rightarrow> realtek_nic" where
  "realtek_ephy_write E reg v s =
    snd (wait_reg E 4 RTL_EPHYAR (\<lambda>v. v AND RTL_EPHYAR_FLAG = 0) RTL_MII_MAX_WAIT_US
      (write_reg 4 RTL_EPHYAR
        (RTL_EPHYAR_FLAG OR (v AND RTL_EPHYAR_DATA_MASK) OR push_bit 16 (reg AND RTL_EPHYAR_REG_MASK)) s))"

definition ephy_table :: "nat \<Rightarrow> realtek_ephy_init list" where
  "ephy_table mac_ver =
    (if mac_ver = 61 then realtek_8125a_ephy else if mac_ver = 63 then realtek_8125b_ephy else [])"

text \<open>A sequence of calls of \<open>realtek_mac_ocp_modify\<close>: register, bits to clear, bits to set.\<close>

definition ocp_modify_all :: "rtl_env \<Rightarrow> (u32 \<times> u32 \<times> u32) list \<Rightarrow> realtek_nic \<Rightarrow> realtek_nic" where
  "ocp_modify_all E ms s = fold (\<lambda>(reg, cl, st). realtek_mac_ocp_modify E reg cl st) ms s"

text \<open>Waiting for the MAC to complete its initialisation.\<close>

fun mac_wait :: "rtl_env \<Rightarrow> nat \<Rightarrow> realtek_nic \<Rightarrow> realtek_nic" where
  "mac_wait E n s =
    (if n = 0 then s
     else let (v, s) = realtek_mac_ocp_read E 0xe00e s in
       if v AND push_bit 13 1 \<noteq> 0 then s else mac_wait E (n - 1) s)"

declare mac_wait.simps [simp del]

definition realtek_hw_start_8125 :: "rtl_env \<Rightarrow> realtek_nic \<Rightarrow> realtek_nic" where
  "realtek_hw_start_8125 E s =
    (let s = fold (\<lambda>e. realtek_ephy_write E (ei_reg e) (ei_value e)) (ephy_table (rn_mac_ver s)) s;
         s = clear_bits E 1 RTL_CONFIG3 RTL_CONFIG3_RDY_TO_L23 s;
         s = write_reg 2 0x382 0x221b s;
         s = write_reg 4 RTL_RSS_CTRL_8125 0 s;
         s = write_reg 2 RTL_Q_NUM_CTRL_8125 0 s;
         s = realtek_mac_ocp_modify E 0xd40a 0x0010 0 s;
         s = clear_bits E 1 RTL_CONFIG1 0x10 s;
         s = realtek_mac_ocp_write 0xc140 0xffff s;
         s = realtek_mac_ocp_write 0xc142 0xffff s;
         s = ocp_modify_all E [(0xd3e2, 0x0fff, 0x03a9), (0xd3e4, 0x00ff, 0), (0xe860, 0, 0x0080), (0xeb58, 0x0001, 0)] s;
         s = (if rn_mac_ver s = 70 then clear_bits E 1 0xd8 0x02 s else s);
         s = (if rn_mac_ver s = 70 then realtek_mac_ocp_modify E 0xe614 0x0700 0x0400 s
              else if rn_mac_ver s = 63 then ocp_modify_all E [(0xe614, 0x0700, 0x0200), (0xe63e, 0x0c30, 0)] s
              else ocp_modify_all E [(0xe614, 0x0700, 0x0300), (0xe63e, 0x0c30, 0x0020)] s);
         s = ocp_modify_all E [(0xc0b4, 0, 0x000c), (0xeb6a, 0x00ff, 0x0033), (0xeb50, 0x03e0, 0x0040),
               (0xe056, 0x00f0, 0), (0xe040, 0x1000, 0), (0xea1c, 0x0003, 0x0001)] s;
         s = (if rn_mac_ver s = 70 then realtek_mac_ocp_modify E 0xea1c 0x0300 0 s
              else realtek_mac_ocp_modify E 0xea1c 0x0004 0 s);
         s = ocp_modify_all E [(0xe0c0, 0x4f0f, 0x4403), (0xe052, 0x0080, 0x0068), (0xd430, 0x0fff, 0x047f),
               (0xea1c, 0x0004, 0), (0xeb54, 0, 0x0001), (0xeb54, 0x0001, 0)] s;
         s = clear_bits E 2 0x1880 0x0030 s;
         s = realtek_mac_ocp_write 0xe098 0xc302 s;
         s = mac_wait E 1000 s in
     clear_bits E 4 RTL_MISC RTL_MISC_RXDV_GATED_EN s)"

section \<open>RTL8126\<close>

definition mcfg_of :: "u32 \<Rightarrow> nat" where
  "mcfg_of icverid = (if icverid = 0 then 1 else if icverid = 1 then 2 else 3)"

definition realtek_detect_8126 :: "rtl_env \<Rightarrow> realtek_nic \<Rightarrow> rc \<times> realtek_nic" where
  "realtek_detect_8126 E s =
    (let (txconfig, s) = read_reg E 4 RTL_TCR s in
     if txconfig = 0xffffffff then (Err ENODEV, s)
     else if txconfig AND 0x7c800000 \<noteq> 0x64800000 then (Err ENODEV, s)
     else (OK, s\<lparr>rn_mcfg := mcfg_of (drop_bit 20 (txconfig AND 0x00700000)), rn_mac_ver := 70\<rparr>))"

definition phy_table :: "nat \<Rightarrow> realtek_phy_ocp_init list" where
  "phy_table mcfg =
    (if mcfg = 1 then realtek_8126a_1_phy else if mcfg = 2 then realtek_8126a_2_phy
     else if mcfg = 3 then realtek_8126a_3_phy else [])"

definition phy_init :: "rtl_env \<Rightarrow> realtek_phy_ocp_init \<Rightarrow> realtek_nic \<Rightarrow> realtek_nic" where
  "phy_init E p s =
    (if pi_write p then realtek_gphy_ocp_write E (pi_reg p) (pi_set p) s
     else realtek_gphy_ocp_modify E (pi_reg p) (pi_clear p) (pi_set p) s)"

text \<open>The firmware version of the PHY is read when a version is expected, and only reported.\<close>

definition realtek_hw_phy_config_8126 :: "rtl_env \<Rightarrow> realtek_nic \<Rightarrow> realtek_nic" where
  "realtek_hw_phy_config_8126 E s =
    (let s = (if rn_mcfg s \<in> {1, 2, 3}
              then snd (realtek_gphy_ocp_read E 0xa438 (realtek_gphy_ocp_write E 0xa436 0x801e s)) else s);
         s = fold (phy_init E) (phy_table (rn_mcfg s)) s;
         s = realtek_gphy_ocp_modify E 0xa5b4 0x8000 0 s in
     snd (run_mii E (re_mii_write E 0x1f 0) s))"

definition realtek_hw_start_8126 :: "rtl_env \<Rightarrow> realtek_nic \<Rightarrow> realtek_nic" where
  "realtek_hw_start_8126 E s =
    (let s = realtek_csi_modify E 0x0890 0x00000001 0 s;
         s = realtek_csi_modify E 0x070c 0xff000000 0x27000000 s;
         s = realtek_hw_start_8125 E s in
     realtek_hw_phy_config_8126 E s)"

text \<open>Starting the hardware, at probe and at every open.\<close>

definition hw_start :: "rtl_env \<Rightarrow> realtek_nic \<Rightarrow> realtek_nic" where
  "hw_start E s =
    (if rn_have_ocp s then if rn_mac_ver s = 70 then realtek_hw_start_8126 E s else realtek_hw_start_8125 E s else s)"

section \<open>Reset, PHY and link state\<close>

definition realtek_reset :: "rtl_env \<Rightarrow> realtek_nic \<Rightarrow> rc \<times> realtek_nic" where
  "realtek_reset E s =
    (case wait_reg E 1 RTL_CR (\<lambda>v. v AND RTL_CR_RST = 0) RTL_RESET_MAX_WAIT_MS (write_reg 1 RTL_CR RTL_CR_RST s) of
       (Some v, s) \<Rightarrow> (OK, s)
     | (None, s) \<Rightarrow> (Err ETIMEDOUT, s))"

text \<open>The register numbers and bits are those of the MII standard.\<close>

abbreviation "MII_CTRL1000 \<equiv> (0x09 :: nat)"
abbreviation "MII_MMD_DATA \<equiv> (0x0e :: nat)"
abbreviation "ADVERTISE_1000 \<equiv> (0x0300 :: u32)"

definition realtek_phy_speed :: "rtl_env \<Rightarrow> realtek_nic \<Rightarrow> rc \<times> realtek_nic" where
  "realtek_phy_speed E s =
    (case run_mii E (re_mii_read E MII_CTRL1000) s of
       (Inl e, s) \<Rightarrow> (Err e, s)
     | (Inr ctrl1000, s) \<Rightarrow>
         (case run_mii E (re_mii_write E MII_CTRL1000 (ctrl1000 OR ADVERTISE_1000)) s of (r, s) \<Rightarrow> (status_of r, s)))"

definition realtek_phy_reset :: "rtl_env \<Rightarrow> realtek_nic \<Rightarrow> rc \<times> realtek_nic" where
  "realtek_phy_reset E s =
    (if \<not> rn_have_phy_regs s then (OK, s)
     else case run_mii E (re_mii_reset E) s of
         (Inl e, s) \<Rightarrow> (Err e, s)
       | (Inr v, s) \<Rightarrow>
           let s = snd (realtek_phy_speed E s); s = snd (run_mii E (re_mii_write E MII_MMD_DATA 0) s) in
           (case run_mii E (re_mii_restart E) s of (r, s) \<Rightarrow> (status_of r, s)))"

definition realtek_check_link :: "rtl_env \<Rightarrow> realtek_nic \<Rightarrow> realtek_nic" where
  "realtek_check_link E s =
    (let (link_up, s) =
       (if rn_have_phy_regs s then
          let s = snd (run_mii E (re_mii_dump E) s); (phystatus, s) = read_reg E 1 RTL_PHYSTATUS s in
          (phystatus AND RTL_PHYSTATUS_LINKSTS \<noteq> 0, s)
        else let (msr, s) = read_reg E 1 RTL_MSR s in (msr AND RTL_MSR_LINKB = 0, s)) in
     net_call (if link_up then LinkUp else LinkDown) s)"

end
