(* ===== verification/Realtek.thy ===== *)
theory Realtek
  imports Realtek_Regs
begin

text \<open>
  The data path of the Realtek network driver (\<^verbatim>\<open>drivers/net/realtek.c\<close>): descriptor rings shared with the
  device, the legacy receive buffer, transmission, polling, opening and closing; detection of the device,
  its EEPROM, probing and removal. The device works on its own: whenever the driver looks at memory that the
  device writes, the actions that the environment has for that moment are applied first.
\<close>

section \<open>The device\<close>

text \<open>A device acts only on descriptors it owns. A received frame takes the length and the error flag; the
  end-of-ring flag stays.\<close>

definition owned :: "realtek_descriptor list option \<Rightarrow> nat \<Rightarrow> bool" where
  "owned ds i \<longleftrightarrow> (case ds of None \<Rightarrow> False
     | Some ds \<Rightarrow> i < length ds \<and> rd_flags (ds ! i) AND RTL_DESC_OWN \<noteq> 0)"

definition upd_desc :: "nat \<Rightarrow> (realtek_descriptor \<Rightarrow> realtek_descriptor) \<Rightarrow> realtek_ring \<Rightarrow> realtek_ring" where
  "upd_desc i f r = r\<lparr>rr_desc := map_option (\<lambda>ds. ds[i := f (ds ! i)]) (rr_desc r)\<rparr>"

fun device :: "dma_action \<Rightarrow> realtek_nic \<Rightarrow> realtek_nic" where
  "device (TxRelease i) s =
    (if owned (rr_desc (rn_tx s)) i
     then s\<lparr>rn_tx := upd_desc i (\<lambda>d. d\<lparr>rd_flags := rd_flags d AND NOT RTL_DESC_OWN\<rparr>) (rn_tx s)\<rparr>
     else s)"
| "device (RxFrame i frame err) s =
    (if owned (rr_desc (rn_rx s)) i
     then s\<lparr>
       rn_rx := upd_desc i (\<lambda>d. d\<lparr>rd_length := of_nat (length frame),
          rd_flags := rd_flags d AND RTL_DESC_EOR OR (if err then RTL_DESC_RES else 0)\<rparr>) (rn_rx s),
       rn_rx_iobuf := (rn_rx_iobuf s)[i := map_option (\<lambda>b. b\<lparr>ib_data := put_at 0 frame (ib_data b)\<rparr>) (rn_rx_iobuf s ! i)]\<rparr>
     else s)"
| "device (RxBuffer off bs) s = s\<lparr>rn_rxbuf := map_option (put_at off bs) (rn_rxbuf s)\<rparr>"

definition sync :: "rtl_env \<Rightarrow> realtek_nic \<Rightarrow> realtek_nic" where
  "sync E s = fold device (re_dma E (rn_clk s)) (rtl_tick s)"

section \<open>Buffers and rings\<close>

definition realtek_create_buffer :: "rtl_env \<Rightarrow> realtek_nic \<Rightarrow> rc \<times> realtek_nic" where
  "realtek_create_buffer E s =
    (let len = RTL_RXBUF_LEN + RTL_RXBUF_PAD in
     if \<not> rn_legacy s then (OK, s)
     else case re_dma_alloc E (rn_clk s) len of
         None \<Rightarrow> (Err ENOMEM, rtl_tick s)
       | Some addr \<Rightarrow>
           (OK, write_reg 4 RTL_RBSTART (ucast addr) ((rtl_tick s)\<lparr>rn_rxbuf := Some (resize len (re_fresh E (rn_clk s)))\<rparr>)))"

definition realtek_destroy_buffer :: "realtek_nic \<Rightarrow> realtek_nic" where
  "realtek_destroy_buffer s =
    (if \<not> rn_legacy s then s
     else (write_reg 4 RTL_RBSTART 0 s)\<lparr>rn_rxbuf := None, rn_offset := 0\<rparr>)"

datatype which = TX | RX

fun get_ring :: "which \<Rightarrow> realtek_nic \<Rightarrow> realtek_ring" where
  "get_ring TX s = rn_tx s"
| "get_ring RX s = rn_rx s"

fun set_ring :: "which \<Rightarrow> realtek_ring \<Rightarrow> realtek_nic \<Rightarrow> realtek_nic" where
  "set_ring TX r s = s\<lparr>rn_tx := r\<rparr>"
| "set_ring RX r s = s\<lparr>rn_rx := r\<rparr>"

definition realtek_init_ring :: "nat \<Rightarrow> nat \<Rightarrow> realtek_ring \<Rightarrow> realtek_ring" where
  "realtek_init_ring count reg r = r\<lparr>rr_len := count * 16, rr_reg := reg\<rparr>"

definition realtek_create_ring :: "rtl_env \<Rightarrow> which \<Rightarrow> realtek_nic \<Rightarrow> rc \<times> realtek_nic" where
  "realtek_create_ring E w s =
    (let ring = get_ring w s in
     if rn_legacy s then (OK, s)
     else case re_dma_alloc E (rn_clk s) (rr_len ring) of
         None \<Rightarrow> (Err ENOMEM, rtl_tick s)
       | Some address \<Rightarrow>
           let desc = replicate (rr_len ring div 16) \<lparr>rd_length = 0, rd_flags = 0, rd_address = 0\<rparr>;
               s = set_ring w (ring\<lparr>rr_desc := Some desc\<rparr>) (rtl_tick s);
               s = write_reg 4 (rr_reg ring + 4) (ucast (drop_bit 32 address)) s in
           (OK, write_reg 4 (rr_reg ring) (ucast address) s))"

definition realtek_destroy_ring :: "which \<Rightarrow> realtek_nic \<Rightarrow> realtek_nic" where
  "realtek_destroy_ring w s =
    (let ring = (get_ring w s)\<lparr>rr_prod := 0, rr_cons := 0\<rparr>; s = set_ring w ring s in
     if rn_legacy s then s
     else
       let s = write_reg 4 (rr_reg ring) 0 s; s = write_reg 4 (rr_reg ring + 4) 0 s in
       set_ring w (ring\<lparr>rr_desc := None\<rparr>) s)"

text \<open>The refill loop. A full ring or a failed allocation ends it; the assertion is a fault when it fails.\<close>

definition rx_descriptor :: "rtl_env \<Rightarrow> nat \<Rightarrow> nat \<Rightarrow> realtek_descriptor" where
  "rx_descriptor E idx iob =
    \<lparr>rd_length = of_nat RTL_RX_MAX_LEN,
     rd_flags = RTL_DESC_OWN OR (if idx = RTL_NUM_RX_DESC - 1 then RTL_DESC_EOR else 0),
     rd_address = re_iob_dma E iob\<rparr>"

definition refill_one :: "rtl_env \<Rightarrow> realtek_nic \<Rightarrow> realtek_nic" where
  "refill_one E s =
    (let iob = rn_next s; rx_idx = unat (rr_prod (rn_rx s)) mod RTL_NUM_RX_DESC;
         ring = upd_desc rx_idx (\<lambda>_. rx_descriptor E rx_idx iob) (rn_rx s) in
     s\<lparr>rn_next := Suc iob, rn_rx := ring\<lparr>rr_prod := rr_prod ring + 1\<rparr>,
       rn_rx_iobuf := (rn_rx_iobuf s)[rx_idx := Some \<lparr>ib_id = iob, ib_data = resize RTL_RX_MAX_LEN (re_fresh E (rn_clk s))\<rparr>]\<rparr>)"

function refill_loop :: "rtl_env \<Rightarrow> realtek_nic \<Rightarrow> rc \<times> realtek_nic" where
  "refill_loop E s =
    (if unat (rr_prod (rn_rx s) - rr_cons (rn_rx s)) < RTL_NUM_RX_DESC then
       if \<not> re_alloc_iob E (rn_clk s) RTL_RX_MAX_LEN then (OK, rtl_tick s)
       else
         let rx_idx = unat (rr_prod (rn_rx s)) mod RTL_NUM_RX_DESC in
         case rr_desc (rn_rx s) of
           None \<Rightarrow> (Fault, s)
         | Some ds \<Rightarrow>
             if length ds \<le> rx_idx \<or> length (rn_rx_iobuf s) \<le> rx_idx then (Fault, s)
             else if rn_rx_iobuf s ! rx_idx \<noteq> None then (Fault, s)
             else refill_loop E (refill_one E (rtl_tick s))
     else (OK, s))"
  by pat_completeness auto

text \<open>Each round puts one more buffer into the ring.\<close>

lemma unat_Suc_below: "unat (x :: u32) < n \<Longrightarrow> n \<le> 2 ^ 31 \<Longrightarrow> unat (x + 1) = Suc (unat x)"
  by (subst unat_add_lem [THEN iffD1]) (auto simp: unat_add_lem [symmetric])

lemma gap_Suc: "unat (p - c :: u32) < 4 \<Longrightarrow> unat (p + 1 - c) = Suc (unat (p - c))"
  using unat_Suc_below [of "p - c" 4] by (simp add: diff_add_eq)

lemma prod_refill_one [simp]: "rr_prod (rn_rx (refill_one E s)) = rr_prod (rn_rx s) + 1"
  "rr_cons (rn_rx (refill_one E s)) = rr_cons (rn_rx s)"
  by (simp_all add: refill_one_def upd_desc_def Let_def)

lemma rings_tick [simp]: "rn_rx (rtl_tick s) = rn_rx s" "rn_tx (rtl_tick s) = rn_tx s"
  by (simp_all add: rtl_tick_def)

termination refill_loop
proof (relation "measure (\<lambda>(E, s). RTL_NUM_RX_DESC - unat (rr_prod (rn_rx s) - rr_cons (rn_rx s)))", goal_cases)
  case (2 E s idx ds)
  then show ?case using gap_Suc [of "rr_prod (rn_rx s)" "rr_cons (rn_rx s)"] by simp
qed simp

declare refill_loop.simps [simp del]

definition realtek_refill_rx :: "rtl_env \<Rightarrow> realtek_nic \<Rightarrow> rc \<times> realtek_nic" where
  "realtek_refill_rx E s = (if rn_legacy s then (OK, s) else refill_loop E s)"

section \<open>Opening and closing\<close>

definition RTL_TCR_MXDMA_MASK :: u32 where "RTL_TCR_MXDMA_MASK = push_bit 8 7"
definition RTL_RCR_CLEAR :: u32 where
  "RTL_RCR_CLEAR = 0x01000000 OR push_bit 13 7 OR push_bit 11 3 OR push_bit 8 7"
definition RTL_RCR_SET :: u32 where
  "RTL_RCR_SET = push_bit 13 7 OR push_bit 8 7 OR 0x80 OR 0x08 OR 0x04 OR 0x02 OR 0x01"
definition RTL_RCR_8125 :: u32 where "RTL_RCR_8125 = push_bit 27 8 OR push_bit 11 1"

text \<open>Programming the device after the rings exist.\<close>

definition open_hardware :: "rtl_env \<Rightarrow> realtek_nic \<Rightarrow> realtek_nic" where
  "open_hardware E s =
    (let s = hw_start E s;
         s = write_reg 4 RTL_MAR4 0xffffffff (write_reg 4 RTL_MAR0 0xffffffff s);
         s = write_reg 1 RTL_CR (RTL_CR_TE OR RTL_CR_RE) s;
         (tcr, s) = read_reg E 4 RTL_TCR s;
         s = write_reg 4 RTL_TCR (tcr AND NOT RTL_TCR_MXDMA_MASK OR RTL_TCR_MXDMA_MASK) s;
         (rcr, s) = read_reg E 4 RTL_RCR s;
         rcr = rcr AND NOT RTL_RCR_CLEAR OR RTL_RCR_SET;
         rcr = (if rn_have_ocp s then rcr OR RTL_RCR_8125 else rcr) in
     write_reg 4 RTL_RCR rcr s)"

definition realtek_open :: "rtl_env \<Rightarrow> realtek_nic \<Rightarrow> rc \<times> realtek_nic" where
  "realtek_open E s =
    (case realtek_create_ring E TX s of
       (OK, s) \<Rightarrow>
         (case realtek_create_ring E RX s of
            (OK, s) \<Rightarrow>
              (case realtek_create_buffer E s of
                 (OK, s) \<Rightarrow>
                   then_ok (realtek_refill_rx E (open_hardware E s)) (\<lambda>s. (OK, realtek_check_link E s))
               | (e, s) \<Rightarrow> (e, realtek_destroy_ring TX (realtek_destroy_ring RX s)))
          | (e, s) \<Rightarrow> (e, realtek_destroy_ring TX s))
     | (e, s) \<Rightarrow> (e, s))"

definition realtek_close :: "rtl_env \<Rightarrow> realtek_nic \<Rightarrow> realtek_nic" where
  "realtek_close E s =
    (let s = write_reg 1 RTL_CR 0 s; s = realtek_destroy_buffer s; s = realtek_destroy_ring RX s;
         s = s\<lparr>rn_rx_iobuf := replicate RTL_NUM_RX_DESC None\<rparr>;
         s = realtek_destroy_ring TX s in
     if rn_legacy s then snd (realtek_reset E s) else s)"

section \<open>Transmission\<close>

definition tx_descriptor :: "rtl_env \<Rightarrow> nat \<Rightarrow> io_buffer \<Rightarrow> realtek_descriptor" where
  "tx_descriptor E idx iobuf =
    \<lparr>rd_length = of_nat (length (ib_data iobuf)),
     rd_flags = (RTL_DESC_OWN OR RTL_DESC_FS OR RTL_DESC_LS) OR (if idx = RTL_NUM_TX_DESC - 1 then RTL_DESC_EOR else 0),
     rd_address = re_iob_dma E (ib_id iobuf)\<rparr>"

definition iob_pad :: "nat \<Rightarrow> io_buffer \<Rightarrow> io_buffer" where
  "iob_pad n iobuf = iobuf\<lparr>ib_data := ib_data iobuf @ replicate (n - length (ib_data iobuf)) 0\<rparr>"

definition post_tx :: "io_buffer \<Rightarrow> realtek_nic \<Rightarrow> realtek_nic" where
  "post_tx iobuf s =
    s\<lparr>rn_tx := (rn_tx s)\<lparr>rr_prod := rr_prod (rn_tx s) + 1\<rparr>, rn_tx_queue := rn_tx_queue s @ [iobuf]\<rparr>"

definition realtek_transmit :: "rtl_env \<Rightarrow> io_buffer \<Rightarrow> realtek_nic \<Rightarrow> rc \<times> realtek_nic" where
  "realtek_transmit E iobuf s =
    (if RTL_NUM_TX_DESC \<le> unat (rr_prod (rn_tx s) - rr_cons (rn_tx s)) then (OK, net_call (NetTxDefer iobuf) s)
     else
       let tx_idx = unat (rr_prod (rn_tx s)) mod RTL_NUM_TX_DESC;
           iobuf = (if rn_legacy s then iob_pad ETH_ZLEN iobuf else iobuf) in
       then_ok (re_map_tx E (rn_clk s), rtl_tick s) (\<lambda>s.
         let s = post_tx iobuf s in
         if rn_legacy s then
           let s = write_reg 4 (RTL_TSAD tx_idx) (ucast (re_iob_dma E (ib_id iobuf))) s in
           (OK, write_reg 4 (RTL_TSD tx_idx) (RTL_TSD_ERTXTH_DEFAULT OR of_nat (length (ib_data iobuf))) s)
         else case rr_desc (rn_tx s) of
             None \<Rightarrow> (Fault, s)
           | Some ds \<Rightarrow>
               if length ds \<le> tx_idx then (Fault, s)
               else
                 let s = s\<lparr>rn_tx := upd_desc tx_idx (\<lambda>_. tx_descriptor E tx_idx iobuf) (rn_tx s)\<rparr> in
                 (OK, if rn_have_ocp s then write_reg 2 RTL_TPPOLL_8125 RTL_TPPOLL_8125_NPQ s
                      else write_reg 1 (rn_tppoll s) RTL_TPPOLL_NPQ s)))"

text \<open>Whether the oldest transmit descriptor is complete.\<close>

definition tx_complete :: "rtl_env \<Rightarrow> realtek_nic \<Rightarrow> (rc \<times> bool) \<times> realtek_nic" where
  "tx_complete E s =
    (let tx_idx = unat (rr_cons (rn_tx s)) mod RTL_NUM_TX_DESC in
     if rn_legacy s then
       let (tsd, s) = read_reg E 4 (RTL_TSD tx_idx) s in ((OK, tsd AND RTL_TSD_OWN \<noteq> 0), s)
     else
       let s = sync E s in
       case rr_desc (rn_tx s) of
         None \<Rightarrow> ((Fault, False), s)
       | Some ds \<Rightarrow>
           if length ds \<le> tx_idx then ((Fault, False), s)
           else ((OK, rd_flags (ds ! tx_idx) AND RTL_DESC_OWN = 0), s))"

text \<open>\<^verbatim>\<open>netdev_tx_complete_next()\<close> completes the oldest buffer of the network core's queue.\<close>

definition complete_next :: "realtek_nic \<Rightarrow> realtek_nic" where
  "complete_next s =
    (let s = s\<lparr>rn_tx := (rn_tx s)\<lparr>rr_cons := rr_cons (rn_tx s) + 1\<rparr>\<rparr> in
     case rn_tx_queue s of [] \<Rightarrow> s | b # bs \<Rightarrow> net_call (NetTxDone (ib_id b)) (s\<lparr>rn_tx_queue := bs\<rparr>))"

text \<open>The device changes neither the indices nor the queues.\<close>

lemma device_frame [simp]:
  "rr_prod (rn_tx (device a s)) = rr_prod (rn_tx s)" "rr_cons (rn_tx (device a s)) = rr_cons (rn_tx s)"
  "rr_prod (rn_rx (device a s)) = rr_prod (rn_rx s)" "rr_cons (rn_rx (device a s)) = rr_cons (rn_rx s)"
  "rn_legacy (device a s) = rn_legacy s" "rn_tx_queue (device a s) = rn_tx_queue s" "rn_net (device a s) = rn_net s"
  "rn_next (device a s) = rn_next s" "rn_offset (device a s) = rn_offset s"
  by (cases a; simp add: upd_desc_def)+

lemma devices_frame [simp]:
  "rr_prod (rn_tx (fold device as s)) = rr_prod (rn_tx s)" "rr_cons (rn_tx (fold device as s)) = rr_cons (rn_tx s)"
  "rr_prod (rn_rx (fold device as s)) = rr_prod (rn_rx s)" "rr_cons (rn_rx (fold device as s)) = rr_cons (rn_rx s)"
  "rn_legacy (fold device as s) = rn_legacy s" "rn_tx_queue (fold device as s) = rn_tx_queue s"
  "rn_net (fold device as s) = rn_net s" "rn_next (fold device as s) = rn_next s" "rn_offset (fold device as s) = rn_offset s"
  by (induction as arbitrary: s) simp_all

lemma tick_frame [simp]:
  "rn_legacy (rtl_tick s) = rn_legacy s" "rn_tx_queue (rtl_tick s) = rn_tx_queue s" "rn_net (rtl_tick s) = rn_net s"
  "rn_next (rtl_tick s) = rn_next s" "rn_rx_iobuf (rtl_tick s) = rn_rx_iobuf s" "rn_offset (rtl_tick s) = rn_offset s"
  "rn_rxbuf (rtl_tick s) = rn_rxbuf s"
  by (simp_all add: rtl_tick_def)

lemma sync_frame [simp]:
  "rr_prod (rn_tx (sync E s)) = rr_prod (rn_tx s)" "rr_cons (rn_tx (sync E s)) = rr_cons (rn_tx s)"
  "rr_prod (rn_rx (sync E s)) = rr_prod (rn_rx s)" "rr_cons (rn_rx (sync E s)) = rr_cons (rn_rx s)"
  "rn_legacy (sync E s) = rn_legacy s" "rn_tx_queue (sync E s) = rn_tx_queue s" "rn_net (sync E s) = rn_net s"
  "rn_next (sync E s) = rn_next s" "rn_offset (sync E s) = rn_offset s"
  by (simp_all add: sync_def)

lemma tx_complete_frame:
  assumes "tx_complete E s = (r, s')"
  shows "rr_prod (rn_tx s') = rr_prod (rn_tx s) \<and> rr_cons (rn_tx s') = rr_cons (rn_tx s) \<and> rn_tx_queue s' = rn_tx_queue s"
  using assms by (auto simp: tx_complete_def read_reg_def Let_def split: if_splits option.splits)

lemma complete_next_frame [simp]:
  "rr_prod (rn_tx (complete_next s)) = rr_prod (rn_tx s)" "rr_cons (rn_tx (complete_next s)) = rr_cons (rn_tx s) + 1"
  by (simp_all add: complete_next_def net_call_def Let_def split: list.split)

lemma gap_pred: "p \<noteq> c \<Longrightarrow> unat (p - (c + 1) :: u32) < unat (p - c)"
proof -
  assume "p \<noteq> c"
  then have "p - c \<noteq> 0" by simp
  then have "unat (p - c - 1) < unat (p - c)" by (metis diff_less unat_gt_0 unat_minus_one zero_less_one)
  then show ?thesis by (simp add: diff_diff_add)
qed

function poll_tx_loop :: "rtl_env \<Rightarrow> realtek_nic \<Rightarrow> rc \<times> realtek_nic" where
  "poll_tx_loop E s =
    (if rr_cons (rn_tx s) = rr_prod (rn_tx s) then (OK, s)
     else case tx_complete E s of
         ((OK, True), s') \<Rightarrow> poll_tx_loop E (complete_next s')
       | ((r, _), s') \<Rightarrow> (r, s'))"
  by pat_completeness auto
termination
  by (relation "measure (\<lambda>(E, s). unat (rr_prod (rn_tx s) - rr_cons (rn_tx s)))")
     (auto dest!: sym [of "((OK, True), _)"] tx_complete_frame intro!: gap_pred)

declare poll_tx_loop.simps [simp del]

definition realtek_poll_tx :: "rtl_env \<Rightarrow> realtek_nic \<Rightarrow> rc \<times> realtek_nic" where
  "realtek_poll_tx E s = poll_tx_loop E s"

section \<open>Reception\<close>

text \<open>One round of the legacy receive loop after the device reported data: \<open>None\<close> leaves the loop.\<close>

definition next_offset :: "u32 \<Rightarrow> nat \<Rightarrow> u32" where
  "next_offset offset len = ((offset + (4 + of_nat len) + 3) AND NOT 3) mod of_nat RTL_RXBUF_LEN"

definition legacy_packet :: "rtl_env \<Rightarrow> realtek_nic \<Rightarrow> (rc \<times> bool) \<times> realtek_nic" where
  "legacy_packet E s =
    (case rn_rxbuf s of
       None \<Rightarrow> ((Fault, False), s)
     | Some buf \<Rightarrow>
         let off = unat (rn_offset s) in
         if length buf < off + 4 then ((Fault, False), s)
         else
           let status = le16_to_cpu (get_at off 2 buf); len = unat (le16_to_cpu (get_at (off + 2) 2 buf));
               advance = (\<lambda>s. let s = s\<lparr>rn_offset := next_offset (rn_offset s) len\<rparr>;
                    s = write_reg 2 RTL_CAPR ((rn_offset s - 16) AND 0xffff) s in
                  snd (read_reg E 2 RTL_CAPR s)) in
           if status AND RTL_STAT_ROK \<noteq> 0 then
             if \<not> re_alloc_iob E (rn_clk s) len then ((OK, False), net_call (NetRxErr None ENOMEM) (rtl_tick s))
             else if length buf < off + 4 + len \<or> len < 4 then ((Fault, False), s)
             else ((OK, True), advance (net_call (NetRx (rn_next s) (take (len - 4) (get_at (off + 4) len buf)))
               ((rtl_tick s)\<lparr>rn_next := Suc (rn_next s)\<rparr>)))
           else ((OK, True), advance (net_call (NetRxErr None EIO) s)))"

partial_function (option) legacy_poll_loop :: "rtl_env \<Rightarrow> realtek_nic \<Rightarrow> (rc \<times> realtek_nic) option" where
  "legacy_poll_loop E s =
    (let (cr, s) = read_reg E 1 RTL_CR s in
     if cr AND RTL_CR_BUFE \<noteq> 0 then Some (OK, s)
     else case legacy_packet E (sync E s) of
         ((r, again), s) \<Rightarrow> if again then legacy_poll_loop E s else Some (r, s))"

definition realtek_legacy_poll_rx :: "rtl_env \<Rightarrow> realtek_nic \<Rightarrow> (rc \<times> realtek_nic) option" where
  "realtek_legacy_poll_rx E s = legacy_poll_loop E s"

text \<open>Taking the oldest receive descriptor: the result tells whether a buffer was handed over.\<close>

definition rx_take :: "rtl_env \<Rightarrow> realtek_nic \<Rightarrow> (rc \<times> bool) \<times> realtek_nic" where
  "rx_take E s =
    (let rx_idx = unat (rr_cons (rn_rx s)) mod RTL_NUM_RX_DESC; s = sync E s in
     case rr_desc (rn_rx s) of
       None \<Rightarrow> ((Fault, False), s)
     | Some ds \<Rightarrow>
         if length ds \<le> rx_idx \<or> length (rn_rx_iobuf s) \<le> rx_idx then ((Fault, False), s)
         else
           let rx = ds ! rx_idx in
           if rd_flags rx AND RTL_DESC_OWN \<noteq> 0 then ((OK, False), s)
           else case rn_rx_iobuf s ! rx_idx of
               None \<Rightarrow> ((Fault, False), s)
             | Some iobuf \<Rightarrow>
                 let s = s\<lparr>rn_rx_iobuf := (rn_rx_iobuf s)[rx_idx := None]\<rparr>;
                     len = unat (rd_length rx AND RTL_DESC_SIZE_MASK) in
                 if len < 4 \<or> length (ib_data iobuf) < len - 4 then ((Fault, False), s)
                 else
                   let s = net_call (if rd_flags rx AND RTL_DESC_RES \<noteq> 0 then NetRxErr (Some (ib_id iobuf)) EIO
                         else NetRx (ib_id iobuf) (take (len - 4) (ib_data iobuf))) s in
                   ((OK, True), s\<lparr>rn_rx := (rn_rx s)\<lparr>rr_cons := rr_cons (rn_rx s) + 1\<rparr>\<rparr>))"

lemma rx_take_frame:
  assumes "rx_take E s = ((OK, True), s')"
  shows "rr_prod (rn_rx s') = rr_prod (rn_rx s) \<and> rr_cons (rn_rx s') = rr_cons (rn_rx s) + 1"
  using assms by (auto simp: rx_take_def Let_def net_call_def split: if_splits option.splits)

function poll_rx_loop :: "rtl_env \<Rightarrow> realtek_nic \<Rightarrow> rc \<times> realtek_nic" where
  "poll_rx_loop E s =
    (if rr_cons (rn_rx s) = rr_prod (rn_rx s) then (OK, s)
     else case rx_take E s of
         ((OK, True), s') \<Rightarrow> poll_rx_loop E s'
       | ((r, _), s') \<Rightarrow> (r, s'))"
  by pat_completeness auto
termination
  by (relation "measure (\<lambda>(E, s). unat (rr_prod (rn_rx s) - rr_cons (rn_rx s)))")
     (auto dest!: sym [of "((OK, True), _)"] rx_take_frame intro!: gap_pred)

declare poll_rx_loop.simps [simp del]

definition realtek_poll_rx :: "rtl_env \<Rightarrow> realtek_nic \<Rightarrow> (rc \<times> realtek_nic) option" where
  "realtek_poll_rx E s = (if rn_legacy s then realtek_legacy_poll_rx E s else Some (poll_rx_loop E s))"

section \<open>Polling and interrupts\<close>

text \<open>What an acknowledged interrupt status calls for.\<close>

definition poll_events :: "rtl_env \<Rightarrow> u32 \<Rightarrow> realtek_nic \<Rightarrow> (rc \<times> realtek_nic) option" where
  "poll_events E isr s =
    (let (r, s) = (if isr AND (RTL_IRQ_TER OR RTL_IRQ_TOK) \<noteq> 0 then realtek_poll_tx E s else (OK, s)) in
     if r \<noteq> OK then Some (r, s)
     else case (if isr AND (RTL_IRQ_RER OR RTL_IRQ_ROK) \<noteq> 0 then realtek_poll_rx E s else Some (OK, s)) of
         None \<Rightarrow> None
       | Some (r, s) \<Rightarrow>
           if r \<noteq> OK then Some (r, s)
           else Some (realtek_refill_rx E (if isr AND RTL_IRQ_PUN_LINKCHG \<noteq> 0 then realtek_check_link E s else s)))"

definition realtek_poll :: "rtl_env \<Rightarrow> realtek_nic \<Rightarrow> (rc \<times> realtek_nic) option" where
  "realtek_poll E s =
    (let (isr, s) = (if rn_have_ocp s then read_reg E 4 RTL_ISR_8125 s else read_reg E 2 RTL_ISR s) in
     if isr = 0 then Some (OK, s)
     else poll_events E isr (if rn_have_ocp s then write_reg 4 RTL_ISR_8125 isr s else write_reg 2 RTL_ISR isr s))"

definition realtek_irq :: "bool \<Rightarrow> realtek_nic \<Rightarrow> realtek_nic" where
  "realtek_irq enable s =
    (let imr = (if enable then RTL_IRQ_PUN_LINKCHG OR RTL_IRQ_TER OR RTL_IRQ_TOK OR RTL_IRQ_RER OR RTL_IRQ_ROK else 0) in
     if rn_have_ocp s then write_reg 4 RTL_IMR_8125 imr s else write_reg 2 RTL_IMR imr s)"

section \<open>EEPROM\<close>

fun realtek_eeprom_bits :: "spi_bit \<Rightarrow> u32" where
  "realtek_eeprom_bits SPI_BIT_SCLK = 0x04"
| "realtek_eeprom_bits SPI_BIT_MOSI = 0x02"
| "realtek_eeprom_bits SPI_BIT_MISO = 0x01"
| "realtek_eeprom_bits SPI_BIT_SS0 = 0x08"

definition realtek_spi_open_bit :: "rtl_env \<Rightarrow> realtek_nic \<Rightarrow> realtek_nic" where
  "realtek_spi_open_bit E s = snd (read_reg E 1 RTL_9346CR (write_reg 1 RTL_9346CR RTL_9346CR_EEM_EEPROM s))"

definition realtek_spi_close_bit :: "rtl_env \<Rightarrow> realtek_nic \<Rightarrow> realtek_nic" where
  "realtek_spi_close_bit E s = snd (read_reg E 1 RTL_9346CR (write_reg 1 RTL_9346CR RTL_9346CR_EEM_NORMAL s))"

definition realtek_spi_read_bit :: "rtl_env \<Rightarrow> spi_bit \<Rightarrow> realtek_nic \<Rightarrow> u32 \<times> realtek_nic" where
  "realtek_spi_read_bit E b s = (let (reg, s) = read_reg E 1 RTL_9346CR s in (reg AND realtek_eeprom_bits b, s))"

definition realtek_spi_write_bit :: "rtl_env \<Rightarrow> spi_bit \<Rightarrow> u32 \<Rightarrow> realtek_nic \<Rightarrow> realtek_nic" where
  "realtek_spi_write_bit E b d s =
    (let m = realtek_eeprom_bits b; (reg, s) = read_reg E 1 RTL_9346CR s;
         reg = reg AND NOT m; reg = reg OR (d AND m) in
     snd (read_reg E 1 RTL_9346CR (write_reg 1 RTL_9346CR reg s)))"

text \<open>The SPI code running on the driver's operations (\<^verbatim>\<open>realtek_basher_ops\<close>).\<close>

primrec run_spi :: "rtl_env \<Rightarrow> spi_prog \<Rightarrow> realtek_nic \<Rightarrow> (rc \<times> bytes) \<times> realtek_nic" where
  "run_spi E (SpiDone r bs) s = ((r, bs), s)"
| "run_spi E (SpiOpen k) s = run_spi E k (realtek_spi_open_bit E s)"
| "run_spi E (SpiClose k) s = run_spi E k (realtek_spi_close_bit E s)"
| "run_spi E (SpiReadBit b k) s = (case realtek_spi_read_bit E b s of (v, s') \<Rightarrow> run_spi E (k v) s')"
| "run_spi E (SpiWriteBit b d k) s = run_spi E k (realtek_spi_write_bit E b d s)"

definition realtek_init_eeprom :: "rtl_env \<Rightarrow> realtek_nic \<Rightarrow> rc \<times> realtek_nic" where
  "realtek_init_eeprom E s =
    (let s = snd (run_spi E (re_spi_init E) s);
         (rcr, s) = read_reg E 4 RTL_RCR s;
         dev = (if rcr AND RTL_RCR_9356SEL \<noteq> 0 then AT93C56 else AT93C46);
         s = s\<lparr>rn_eeprom := Some dev\<rparr>;
         ((r, id), s) = run_spi E (re_nvs_read E dev RTL_EEPROM_ID 2) s in
     if r \<noteq> OK then (r, s)
     else if le16_to_cpu id \<noteq> RTL_EEPROM_ID_MAGIC then (Err ENODEV, s)
     else
       let (config1, s) = read_reg E 1 RTL_CONFIG1 s in
       if config1 AND RTL_CONFIG1_VPD \<noteq> 0 then (OK, s)
       else (OK, s\<lparr>rn_nvo := Some (RTL_EEPROM_VPD, RTL_EEPROM_VPD_LEN)\<rparr>))"

section \<open>Detection, probing and removal\<close>

text \<open>\<^verbatim>\<open>sizeof ( physaddr_t )\<close> is 8 on the platform (64-bit UEFI), so the dual address cycle bit is set.\<close>

definition RTL_CPCR_SET :: u32 where "RTL_CPCR_SET = 0x0008 OR 0x0002 OR 0x0001"
abbreviation "RTL_CPCR_DAC \<equiv> (0x0010 :: u32)"
abbreviation "RTL_CPCR_VLAN \<equiv> (0x0040 :: u32)"

definition detect_ocp :: "rtl_env \<Rightarrow> realtek_nic \<Rightarrow> rc \<times> realtek_nic" where
  "detect_ocp E s = (case realtek_detect_8126 E s of (OK, s) \<Rightarrow> (OK, s) | (e, s) \<Rightarrow> realtek_detect_8125 E s)"

definition realtek_detect :: "rtl_env \<Rightarrow> realtek_nic \<Rightarrow> realtek_nic" where
  "realtek_detect E s =
    (case detect_ocp E s of
       (OK, s) \<Rightarrow> s\<lparr>rn_have_phy_regs := True, rn_have_ocp := True, rn_tppoll := RTL_TPPOLL_8125, rn_dma64 := True\<rparr>
     | (e, s) \<Rightarrow>
         let rms = of_nat RTL_RX_MAX_LEN; s = write_reg 2 RTL_RMS rms s; (check_rms, s) = read_reg E 2 RTL_RMS s;
             (cpcr, s) = read_reg E 2 RTL_CPCR s; cpcr = cpcr OR RTL_CPCR_SET; cpcr = cpcr OR RTL_CPCR_DAC;
             cpcr = cpcr AND NOT RTL_CPCR_VLAN;
             s = write_reg 2 RTL_CPCR cpcr s; (check_cpcr, s) = read_reg E 2 RTL_CPCR s in
         if check_rms = rms then s\<lparr>rn_have_phy_regs := True, rn_tppoll := RTL_TPPOLL_8169, rn_dma64 := True\<rparr>
         else if check_cpcr = cpcr \<and> cpcr \<noteq> 0xffff then
           s\<lparr>rn_tppoll := RTL_TPPOLL_8139CP, rn_dma64 := True, rn_bus := True\<rparr>
         else s\<lparr>rn_legacy := True, rn_bus := True\<rparr>)"

text \<open>The state after \<^verbatim>\<open>memset()\<close> and the initialisation of the rings.\<close>

definition new_nic :: realtek_nic where
  "new_nic =
    (let ring = \<lparr>rr_desc = None, rr_prod = 0, rr_cons = 0, rr_reg = 0, rr_len = 0\<rparr> in
     \<lparr>rn_legacy = False, rn_have_phy_regs = False, rn_have_ocp = False, rn_mac_ver = 0, rn_mcfg = 0, rn_tppoll = 0,
      rn_dma64 = False, rn_bus = False, rn_eeprom = None, rn_nvo = None, rn_hw_addr = [],
      rn_tx = realtek_init_ring RTL_NUM_TX_DESC RTL_TNPDS ring, rn_rx = realtek_init_ring RTL_NUM_RX_DESC RTL_RDSAR ring,
      rn_rx_iobuf = replicate RTL_NUM_RX_DESC None, rn_rxbuf = None, rn_offset = 0, rn_next = 0,
      rn_tx_queue = [], rn_net = [], rn_regs = [], rn_clk = 0\<rparr>)"

fun read_bytes :: "rtl_env \<Rightarrow> nat \<Rightarrow> nat \<Rightarrow> realtek_nic \<Rightarrow> bytes \<times> realtek_nic" where
  "read_bytes E reg 0 s = ([], s)"
| "read_bytes E reg (Suc n) s =
    (let (v, s) = read_reg E 1 reg s; (vs, s) = read_bytes E (Suc reg) n s in (ucast v # vs, s))"

text \<open>The hardware address: from the EEPROM when there is one, from the ID registers otherwise.\<close>

definition read_hw_addr :: "rtl_env \<Rightarrow> realtek_nic \<Rightarrow> rc \<times> realtek_nic" where
  "read_hw_addr E s =
    (let (r, s) = (if rn_bus s then realtek_init_eeprom E s else (Err ENODEV, s)) in
     if r = OK then
       (case rn_eeprom s of
          None \<Rightarrow> (Fault, s)
        | Some dev \<Rightarrow>
            let ((r, mac), s) = run_spi E (re_nvs_read E dev RTL_EEPROM_MAC ETH_ALEN) s in
            if r \<noteq> OK then (r, s) else (OK, s\<lparr>rn_hw_addr := mac\<rparr>))
     else
       let (mac, s) = read_bytes E (if rn_have_ocp s then RTL_MAC0_BKP else RTL_IDR0) ETH_ALEN s in
       (OK, s\<lparr>rn_hw_addr := mac\<rparr>))"

text \<open>The labels at the end of \<^verbatim>\<open>realtek_probe()\<close>, each continuing with the next.\<close>

definition err_ioremap :: "realtek_nic \<Rightarrow> realtek_nic" where
  "err_ioremap s = net_call NetdevPut (net_call NetdevNullify s)"

definition err_reset :: "realtek_nic \<Rightarrow> realtek_nic" where
  "err_reset s = err_ioremap (net_call Iounmap s)"

definition err_nvs_read :: "rtl_env \<Rightarrow> realtek_nic \<Rightarrow> realtek_nic" where
  "err_nvs_read E s = err_reset (snd (realtek_reset E s))"

definition err_register_nvo :: "rtl_env \<Rightarrow> realtek_nic \<Rightarrow> realtek_nic" where
  "err_register_nvo E s = err_nvs_read E (net_call NetdevUnregister s)"

text \<open>Registration with the network core and with the settings.\<close>

definition probe_register :: "rtl_env \<Rightarrow> realtek_nic \<Rightarrow> rc \<times> realtek_nic" where
  "probe_register E s =
    (if re_register_netdev E \<noteq> OK then (re_register_netdev E, err_nvs_read E s)
     else
       let s = realtek_check_link E (net_call NetdevRegister s) in
       if rn_nvo s = None then (OK, s)
       else if re_register_nvo E \<noteq> OK then (re_register_nvo E, err_register_nvo E s)
       else (OK, net_call NvoRegister s))"

text \<open>The fix-up of the PCI device (\<^verbatim>\<open>adjust_pci_device()\<close>) acts on the configuration space only; it is in
  \<^verbatim>\<open>Pci_Realtek\<close>.\<close>

definition realtek_probe :: "rtl_env \<Rightarrow> rc \<times> realtek_nic option" where
  "realtek_probe E =
    (if \<not> re_alloc_etherdev E then (Err ENOMEM, None)
     else
       let s = net_call NetdevAlloc new_nic in
       if \<not> re_ioremap E then (Err ENODEV, Some (err_ioremap s))
       else
         let s = net_call Ioremap s; (r, s) = realtek_reset E s in
         if r \<noteq> OK then (r, Some (err_reset s))
         else
           let s = hw_start E (realtek_detect E s); (r, s) = read_hw_addr E s in
           if r \<noteq> OK then (r, Some (err_nvs_read E s))
           else
             let (r, s) = realtek_phy_reset E s in
             if r \<noteq> OK then (r, Some (err_nvs_read E s))
             else case probe_register E s of (r, s) \<Rightarrow> (r, Some s))"

definition realtek_remove :: "rtl_env \<Rightarrow> realtek_nic \<Rightarrow> realtek_nic" where
  "realtek_remove E s =
    (let s = (if rn_nvo s \<noteq> None then net_call NvoUnregister s else s);
         s = net_call NetdevUnregister s; s = snd (realtek_reset E s) in
     err_ioremap (net_call Iounmap s))"

end
