(* ===== verification/Realtek_Hw.thy ===== *)
theory Realtek_Hw
  imports Realtek
begin

text \<open>
  What register programs do to the driver's state: they append register accesses that lie inside the mapped
  window and are aligned, and change nothing else. The relation \<open>regs_step\<close> says so; it is the common
  contract of the indirect register interfaces, the start-up programs, and the code of iPXE that runs on the
  driver's MII and SPI operations.
\<close>

section \<open>Register steps\<close>

definition access_in :: "nat \<Rightarrow> nat \<Rightarrow> bool" where
  "access_in width reg \<longleftrightarrow> width \<in> {1, 2, 4} \<and> reg mod width = 0 \<and> reg + width \<le> RTL_BAR_SIZE"

fun access_ok :: "reg_access \<Rightarrow> bool" where
  "access_ok (RegRead w r) = access_in w r"
| "access_ok (RegWrite w r v) = access_in w r"

inductive regs_step :: "realtek_nic \<Rightarrow> realtek_nic \<Rightarrow> bool" where
  "list_all access_ok rs \<Longrightarrow> s' = s\<lparr>rn_regs := rn_regs s @ rs, rn_clk := c\<rparr> \<Longrightarrow> regs_step s s'"

lemma regs_refl [simp]: "regs_step s s"
  by (rule regs_step.intros [where rs = "[]" and c = "rn_clk s"]) simp_all

lemma regs_trans [trans]: "regs_step s t \<Longrightarrow> regs_step t u \<Longrightarrow> regs_step s u"
proof -
  assume "regs_step s t" "regs_step t u"
  then obtain rs c rs' c' where "list_all access_ok rs" "list_all access_ok rs'"
    "t = s\<lparr>rn_regs := rn_regs s @ rs, rn_clk := c\<rparr>" "u = t\<lparr>rn_regs := rn_regs t @ rs', rn_clk := c'\<rparr>"
    by (auto elim!: regs_step.cases)
  then show "regs_step s u" by (intro regs_step.intros [where rs = "rs @ rs'" and c = c']) simp_all
qed

text \<open>Everything but the register history and the clock is kept.\<close>

lemma regs_frame:
  assumes "regs_step s s'"
  shows "rn_legacy s' = rn_legacy s" "rn_have_phy_regs s' = rn_have_phy_regs s" "rn_have_ocp s' = rn_have_ocp s"
    "rn_mac_ver s' = rn_mac_ver s" "rn_mcfg s' = rn_mcfg s" "rn_tppoll s' = rn_tppoll s" "rn_tx s' = rn_tx s" "rn_rx s' = rn_rx s"
    "rn_rx_iobuf s' = rn_rx_iobuf s" "rn_rxbuf s' = rn_rxbuf s" "rn_offset s' = rn_offset s" "rn_next s' = rn_next s"
    "rn_tx_queue s' = rn_tx_queue s" "rn_net s' = rn_net s" "rn_bus s' = rn_bus s" "rn_eeprom s' = rn_eeprom s" "rn_nvo s' = rn_nvo s"
  using assms by (auto elim: regs_step.cases)

lemma regs_ok: "regs_step s s' \<Longrightarrow> list_all access_ok (rn_regs s) \<Longrightarrow> list_all access_ok (rn_regs s')"
  by (auto elim: regs_step.cases)

text \<open>Steps compose: the rules below are applied backwards along a program.\<close>

lemma regs_write: "regs_step s t \<Longrightarrow> access_in w r \<Longrightarrow> regs_step s (write_reg w r v t)"
proof (erule regs_trans)
  assume "access_in w r"
  then show "regs_step t (write_reg w r v t)"
    by (intro regs_step.intros [where rs = "[RegWrite w r v]" and c = "rn_clk t"]) (simp_all add: write_reg_def)
qed

lemma regs_read: "regs_step s t \<Longrightarrow> access_in w r \<Longrightarrow> regs_step s (snd (read_reg E w r t))"
proof (erule regs_trans)
  assume "access_in w r"
  then show "regs_step t (snd (read_reg E w r t))"
    by (intro regs_step.intros [where rs = "[RegRead w r]" and c = "Suc (rn_clk t)"]) (simp_all add: read_reg_def rtl_tick_def)
qed

lemma regs_clear: "regs_step s t \<Longrightarrow> access_in w r \<Longrightarrow> regs_step s (clear_bits E w r m t)"
  using regs_read [of s t w r E] by (auto simp: clear_bits_def split: prod.split intro: regs_write)

lemma regs_fold: "regs_step s t \<Longrightarrow> (\<And>x u. regs_step u (f x u)) \<Longrightarrow> regs_step s (fold f xs t)"
proof (induction xs arbitrary: t)
  case (Cons x xs)
  show ?case using Cons(1) [OF regs_trans [OF Cons(2) Cons(3)]] Cons(3) by simp
qed simp

lemma regs_let: "regs_step s t \<Longrightarrow> (\<And>u. regs_step s u \<Longrightarrow> regs_step s (k u)) \<Longrightarrow> regs_step s (let u = t in k u)"
  by simp

lemma regs_if: "(b \<Longrightarrow> regs_step s t) \<Longrightarrow> (\<not> b \<Longrightarrow> regs_step s u) \<Longrightarrow> regs_step s (if b then t else u)"
  by simp

lemma regs_wait: "access_in w r \<Longrightarrow> regs_step t (snd (wait_reg E w r p n t))"
proof (induction n arbitrary: t)
  case 0
  then show ?case by (simp add: wait_reg.simps)
next
  case (Suc n)
  have r: "regs_step t (snd (read_reg E w r t))" using Suc(2) by (rule regs_read [OF regs_refl])
  show ?case using r regs_trans [OF r Suc(1) [OF Suc(2)]]
    by (subst wait_reg.simps) (auto split: prod.split)
qed

lemma access_simps: "access_in (Suc 0) r \<longleftrightarrow> r < RTL_BAR_SIZE" "access_in 2 r \<longleftrightarrow> even r \<and> r + 2 \<le> RTL_BAR_SIZE"
  "access_in 4 r \<longleftrightarrow> r mod 4 = 0 \<and> r + 4 \<le> RTL_BAR_SIZE"
  by (auto simp: access_in_def even_iff_mod_2_eq_zero)

lemmas one_access = access_simps(1) [folded One_nat_def]

section \<open>Indirect interfaces\<close>

lemma regs_wait_write: "access_in 4 r \<Longrightarrow> regs_step s (snd (wait_reg E 4 r p n (write_reg 4 r v s)))"
  by (rule regs_trans [OF regs_write [OF regs_refl] regs_wait])

lemma regs_gphy_read: "regs_step s (snd (realtek_gphy_ocp_read E reg s))"
  using regs_wait_write [of RTL_GPHY_OCP s E]
  by (auto simp: realtek_gphy_ocp_read_def access_simps split: prod.split option.split) (metis snd_conv)+

lemma regs_gphy_write: "regs_step s (realtek_gphy_ocp_write E reg d s)"
  by (simp add: realtek_gphy_ocp_write_def regs_wait_write access_simps)

lemma regs_gphy_modify: "regs_step s (realtek_gphy_ocp_modify E reg cl st s)"
  using regs_gphy_read [of s E reg]
  by (auto simp: realtek_gphy_ocp_modify_def split: prod.split sum.split intro: regs_trans regs_gphy_write)

lemma regs_csi_read: "regs_step s (snd (realtek_csi_read E addr s))"
proof -
  obtain r t where w: "wait_reg E 4 RTL_CSIAR (\<lambda>v. v AND RTL_CSIAR_FLAG \<noteq> 0) RTL_MII_MAX_WAIT_US
         (write_reg 4 RTL_CSIAR (csi_address E addr) s) = (r, t)" by (metis surj_pair)
  then have "regs_step s t" using regs_wait_write [of RTL_CSIAR s E] by (simp add: access_simps) (metis snd_conv)
  then show ?thesis by (auto simp: realtek_csi_read_def w access_simps split: option.split intro: regs_read)
qed

lemma regs_csi_modify: "regs_step s (realtek_csi_modify E addr cl st s)"
proof -
  have "regs_step t (realtek_csi_write E addr v t)" for v t
    unfolding realtek_csi_write_def Let_def
    by (rule regs_trans [OF _ regs_wait_write]) (simp_all add: regs_write access_simps)
  then show ?thesis using regs_csi_read [of s E addr]
    by (auto simp: realtek_csi_modify_def split: prod.split intro: regs_trans)
qed

lemma regs_mii_read: "regs_step s (snd (realtek_mii_read E reg s))"
proof -
  obtain r t where w: "wait_reg E 4 RTL_PHYAR (\<lambda>v. v AND RTL_PHYAR_FLAG \<noteq> 0) RTL_MII_MAX_WAIT_US
         (write_reg 4 RTL_PHYAR (push_bit 16 (of_nat reg)) s) = (r, t)" by (metis surj_pair)
  then have "regs_step s t" using regs_wait_write [of RTL_PHYAR s E] by (simp add: access_simps) (metis snd_conv)
  then show ?thesis by (simp add: realtek_mii_read_def w regs_gphy_read split: option.split)
qed

lemma regs_mii_write: "regs_step s (snd (realtek_mii_write E reg d s))"
proof -
  obtain r t where w: "wait_reg E 4 RTL_PHYAR (\<lambda>v. v AND RTL_PHYAR_FLAG = 0) RTL_MII_MAX_WAIT_US
         (write_reg 4 RTL_PHYAR (RTL_PHYAR_FLAG OR push_bit 16 (of_nat reg) OR d) s) = (r, t)" by (metis surj_pair)
  then have "regs_step s t" using regs_wait_write [of RTL_PHYAR s E] by (simp add: access_simps) (metis snd_conv)
  then show ?thesis by (simp add: realtek_mii_write_def w regs_gphy_write split: option.split)
qed

text \<open>Whatever the MII core does, it does through these operations.\<close>

lemma regs_run_mii: "regs_step s (snd (run_mii E p s))"
proof (induction p arbitrary: s)
  case (MiiRead reg k)
  then show ?case using regs_mii_read [of s E reg] by (auto split: prod.split intro: regs_trans)
next
  case (MiiWrite reg d k)
  then show ?case using regs_mii_write [of s E reg d] by (auto split: prod.split intro: regs_trans)
qed simp

lemma regs_run_spi: "regs_step s (snd (run_spi E p s))"
proof (induction p arbitrary: s)
  case (SpiOpen p)
  then show ?case by (auto intro!: regs_trans [OF _ SpiOpen] simp: realtek_spi_open_bit_def regs_read regs_write access_simps)
next
  case (SpiClose p)
  then show ?case by (auto intro!: regs_trans [OF _ SpiClose] simp: realtek_spi_close_bit_def regs_read regs_write access_simps)
next
  case (SpiReadBit b k)
  obtain v t where r: "read_reg E (Suc 0) RTL_9346CR s = (v, t)" by (metis surj_pair)
  have "regs_step s t" using regs_read [OF regs_refl, of 1 RTL_9346CR s E] r by (simp add: access_simps)
  then show ?case using regs_trans [OF _ SpiReadBit [OF rangeI]] by (auto simp: realtek_spi_read_bit_def r)
next
  case (SpiWriteBit b d p)
  obtain v t where r: "read_reg E (Suc 0) RTL_9346CR s = (v, t)" by (metis surj_pair)
  have "regs_step s t" using regs_read [OF regs_refl, of 1 RTL_9346CR s E] r by (simp add: access_simps)
  then show ?case by (auto simp: realtek_spi_write_bit_def r Let_def regs_read regs_write access_simps intro!: regs_trans [OF _ SpiWriteBit])
qed simp

lemma regs_mac_read: "regs_step s t \<Longrightarrow> regs_step s (snd (realtek_mac_ocp_read E reg t))"
  by (simp add: realtek_mac_ocp_read_def regs_read regs_write access_simps)

lemma regs_mac_write: "regs_step s t \<Longrightarrow> regs_step s (realtek_mac_ocp_write reg d t)"
  by (simp add: realtek_mac_ocp_write_def regs_write access_simps)

lemma regs_mac_modify: "regs_step s t \<Longrightarrow> regs_step s (realtek_mac_ocp_modify E reg cl st t)"
  using regs_mac_read [of s t E reg]
  by (auto simp: realtek_mac_ocp_modify_def Let_def split: prod.split intro: regs_mac_write)

lemma regs_ocp_all: "regs_step s t \<Longrightarrow> regs_step s (ocp_modify_all E ms t)"
  unfolding ocp_modify_all_def by (erule regs_fold) (auto intro: regs_mac_modify)

lemma regs_mac_wait: "regs_step s t \<Longrightarrow> regs_step s (mac_wait E n t)"
proof (induction n arbitrary: t)
  case 0
  then show ?case by (simp add: mac_wait.simps)
next
  case (Suc n)
  have r: "regs_step s (snd (realtek_mac_ocp_read E 0xe00e t))" using Suc(2) by (rule regs_mac_read)
  then show ?case using Suc(1) [OF r] by (subst mac_wait.simps) (auto split: prod.split)
qed

section \<open>Start-up programs\<close>

lemma regs_ephy: "regs_step s (realtek_ephy_write E reg v s)"
  by (simp add: realtek_ephy_write_def regs_wait_write access_simps)

lemma regs_hw_start_8125: "regs_step s (realtek_hw_start_8125 E s)"
  unfolding realtek_hw_start_8125_def
  by (intro regs_let regs_if regs_clear regs_mac_wait regs_mac_write regs_ocp_all regs_mac_modify regs_write regs_fold regs_refl regs_ephy)
     (simp_all add: access_simps)

lemma regs_phy_init: "regs_step s (phy_init E p s)"
  by (simp add: phy_init_def regs_gphy_write regs_gphy_modify)

lemma regs_phy_config: "regs_step s (realtek_hw_phy_config_8126 E s)"
proof -
  let ?t = "if rn_mcfg s \<in> {1, 2, 3} then snd (realtek_gphy_ocp_read E 0xa438 (realtek_gphy_ocp_write E 0xa436 0x801e s)) else s"
  have "regs_step s ?t" by (intro regs_if regs_refl regs_trans [OF regs_gphy_write regs_gphy_read])
  then have "regs_step s (fold (phy_init E) (phy_table (rn_mcfg ?t)) ?t)" by (rule regs_fold [OF _ regs_phy_init])
  from regs_trans [OF regs_trans [OF this regs_gphy_modify] regs_run_mii] show ?thesis
    unfolding realtek_hw_phy_config_8126_def Let_def .
qed

lemma regs_hw_start: "regs_step s (hw_start E s)"
proof -
  have "regs_step s (realtek_hw_start_8126 E s)"
    unfolding realtek_hw_start_8126_def Let_def
    by (rule regs_trans [OF _ regs_phy_config], rule regs_trans [OF _ regs_hw_start_8125], rule regs_trans [OF _ regs_csi_modify])
       (rule regs_csi_modify)
  then show ?thesis by (simp add: hw_start_def regs_hw_start_8125)
qed

lemma regs_reset: "regs_step s (snd (realtek_reset E s))"
proof -
  have "regs_step s (snd (wait_reg E 1 RTL_CR p n (write_reg 1 RTL_CR v s)))" for p n v
    by (rule regs_trans [OF regs_write regs_wait]) (simp_all add: access_simps)
  then show ?thesis by (auto simp: realtek_reset_def split: prod.split option.split) (metis snd_conv)+
qed

lemma regs_phy_speed: "regs_step s (snd (realtek_phy_speed E s))"
  using regs_run_mii [of s E "re_mii_read E MII_CTRL1000"]
  by (auto simp: realtek_phy_speed_def split: prod.split sum.split) (metis regs_run_mii regs_trans snd_conv)

lemma regs_phy_reset: "regs_step s (snd (realtek_phy_reset E s))"
proof -
  obtain r t where r: "run_mii E (re_mii_reset E) s = (r, t)" by (metis surj_pair)
  have t: "regs_step s t" using regs_run_mii [of s E "re_mii_reset E"] r by simp
  have "regs_step t (snd (run_mii E (re_mii_restart E) (snd (run_mii E (re_mii_write E MII_MMD_DATA 0) (snd (realtek_phy_speed E t))))))"
    by (rule regs_trans [OF _ regs_run_mii], rule regs_trans [OF _ regs_run_mii], rule regs_phy_speed)
  from regs_trans [OF t this] t show ?thesis
    by (auto simp: realtek_phy_reset_def r Let_def split: sum.split prod.split)
qed

lemma regs_read_bytes: "regs_step s t \<Longrightarrow> reg + n \<le> RTL_BAR_SIZE \<Longrightarrow> regs_step s (snd (read_bytes E reg n t))"
proof (induction n arbitrary: reg t)
  case (Suc n)
  obtain v u where r: "read_reg E (Suc 0) reg t = (v, u)" by (metis surj_pair)
  have "regs_step s u" using regs_read [OF Suc(2), of 1 reg E] Suc(3) r by (simp add: access_simps)
  then show ?case using Suc(1) [of u "Suc reg"] Suc(3) by (cases "read_bytes E (Suc reg) n u") (simp add: r)
qed simp

text \<open>Reporting the link state adds one call after register accesses.\<close>

lemma regs_check_link: "\<exists>t up. regs_step s t \<and> realtek_check_link E s = net_call (if up then LinkUp else LinkDown) t"
proof (cases "rn_have_phy_regs s")
  case True
  obtain v t where r: "read_reg E 1 RTL_PHYSTATUS (snd (run_mii E (re_mii_dump E) s)) = (v, t)" by (metis surj_pair)
  have "regs_step s t" using regs_read [OF regs_run_mii, of 1 RTL_PHYSTATUS s E E "re_mii_dump E"] r by (simp add: one_access del: One_nat_def)
  then show ?thesis using True r by (auto simp: realtek_check_link_def Let_def simp del: One_nat_def)
next
  case False
  obtain v t where r: "read_reg E 1 RTL_MSR s = (v, t)" by (metis surj_pair)
  have "regs_step s t" using regs_read [OF regs_refl, of 1 RTL_MSR s E] r by (simp add: one_access del: One_nat_def)
  then show ?thesis using False r by (auto simp: realtek_check_link_def Let_def simp del: One_nat_def)
qed

end
