(* ===== verification/Realtek_Life.thy ===== *)
theory Realtek_Life
  imports Realtek_Hw
begin

text \<open>
  The life of a Realtek device: probing, opening, transmission, polling, interrupt masking, closing. Every
  register access lies in the mapped window; a probe that fails releases what it acquired.
\<close>

section \<open>What is held\<close>

text \<open>Acquiring puts an event on a stack, releasing takes it off; releasing in another order is an error.\<close>

fun acquires :: "net_event \<Rightarrow> bool" where
  "acquires e \<longleftrightarrow> e \<in> {NetdevAlloc, Ioremap, NetdevRegister, NvoRegister}"

fun undoes :: "net_event \<Rightarrow> net_event option" where
  "undoes NvoUnregister = Some NvoRegister"
| "undoes NetdevUnregister = Some NetdevRegister"
| "undoes Iounmap = Some Ioremap"
| "undoes NetdevPut = Some NetdevAlloc"
| "undoes _ = None"

fun held :: "net_event list \<Rightarrow> net_event list \<Rightarrow> net_event list option" where
  "held st [] = Some st"
| "held st (e # es) =
    (if acquires e then held (e # st) es
     else case undoes e of
         None \<Rightarrow> held st es
       | Some a \<Rightarrow> (case st of [] \<Rightarrow> None | b # st' \<Rightarrow> if a = b then held st' es else None))"

definition resource :: "net_event \<Rightarrow> bool" where
  "resource e \<longleftrightarrow> acquires e \<or> undoes e \<noteq> None"

lemma held_append: "held st (es @ fs) = (case held st es of None \<Rightarrow> None | Some st' \<Rightarrow> held st' fs)"
  by (induction st es rule: held.induct) (auto split: option.split list.split)

lemma held_filter: "held st (filter resource es) = held st es"
  by (induction st es rule: held.induct) (auto simp: resource_def split: option.split list.split)

section \<open>What no operation changes\<close>

text \<open>The kind of the device and the place of its rings are fixed by detection; the history of register accesses
  grows by accesses inside the window, that of the network core grows, and the data path acquires nothing.\<close>

definition fixed :: "realtek_nic \<Rightarrow> (bool \<times> bool \<times> bool \<times> nat \<times> nat \<times> nat \<times> nat \<times> nat) \<times> (nat \<times> nat) option \<times> net_event list" where
  "fixed s = ((rn_legacy s, rn_have_phy_regs s, rn_have_ocp s, rn_tppoll s,
     rr_reg (rn_tx s), rr_reg (rn_rx s), rr_len (rn_tx s), rr_len (rn_rx s)), rn_nvo s, filter resource (rn_net s))"

definition op_step :: "realtek_nic \<Rightarrow> realtek_nic \<Rightarrow> bool" where
  "op_step s s' \<longleftrightarrow> fixed s' = fixed s \<and> (\<exists>rs. rn_regs s' = rn_regs s @ rs \<and> list_all access_ok rs) \<and>
     (\<exists>es. rn_net s' = rn_net s @ es) \<and> rn_next s \<le> rn_next s'"

lemma op_refl [simp]: "op_step s s"
  by (simp add: op_step_def)

lemma op_trans [trans]: "op_step s t \<Longrightarrow> op_step t u \<Longrightarrow> op_step s u"
  by (auto simp: op_step_def)

lemma op_regs: "regs_step s s' \<Longrightarrow> op_step s s'"
  by (auto simp: op_step_def fixed_def elim!: regs_step.cases)

text \<open>An operation that touches neither of them, and a register write after such operations.\<close>

lemma op_keep: "fixed s' = fixed s \<Longrightarrow> rn_regs s' = rn_regs s \<Longrightarrow> \<exists>es. rn_net s' = rn_net s @ es \<Longrightarrow> rn_next s \<le> rn_next s' \<Longrightarrow> op_step s s'"
  by (simp add: op_step_def)

lemma op_write: "op_step s t \<Longrightarrow> access_in w r \<Longrightarrow> op_step s (write_reg w r v t)"
  by (erule op_trans) (rule op_regs [OF regs_write [OF regs_refl]])

lemma op_read: "op_step s t \<Longrightarrow> access_in w r \<Longrightarrow> op_step s (snd (read_reg E w r t))"
  by (erule op_trans) (rule op_regs [OF regs_read [OF regs_refl]])

lemma resource_simps [simp]:
  "\<not> resource (NetRx i bs)" "\<not> resource (NetRxErr b e)" "\<not> resource (NetTxDefer iob)" "\<not> resource (NetTxDone i)"
  "\<not> resource LinkUp" "\<not> resource LinkDown"
  by (simp_all add: resource_def)

lemma fixed_upd [simp]:
  "\<not> resource e \<Longrightarrow> fixed (net_call e s) = fixed s" "rn_regs (net_call e s) = rn_regs s" "fixed (rtl_tick s) = fixed s" "rn_regs (rtl_tick s) = rn_regs s"
  "rr_reg (upd_desc i f r) = rr_reg r" "rr_len (upd_desc i f r) = rr_len r"
  by (simp_all add: fixed_def net_call_def rtl_tick_def upd_desc_def)

lemma op_net: "op_step s t \<Longrightarrow> \<not> resource e \<Longrightarrow> op_step s (net_call e t)"
  by (erule op_trans, rule op_keep) (simp_all add: net_call_def fixed_def)

lemma op_tick: "op_step s t \<Longrightarrow> op_step s (rtl_tick t)"
  by (erule op_trans, rule op_keep) simp_all

lemma op_device: "op_step s (device a s)"
  by (rule op_keep; cases a) (simp_all add: fixed_def)

lemma op_sync: "op_step s (sync E s)"
proof -
  have "op_step t (fold device as t)" for as t
    by (induction as arbitrary: t) (auto intro: op_trans [OF op_device])
  then show ?thesis by (auto simp: sync_def intro: op_trans [OF op_tick [OF op_refl]])
qed

section \<open>The data path\<close>

lemma op_check_link: "op_step s (realtek_check_link E s)"
proof -
  from regs_check_link [of s E] obtain t up where "regs_step s t" "realtek_check_link E s = net_call (if up then LinkUp else LinkDown) t"
    by blast
  then show ?thesis by (simp add: op_net op_regs)
qed

lemma op_refill: "op_step s (snd (realtek_refill_rx E s))"
proof -
  have "op_step s (snd (refill_loop E s))"
  proof (induction E s rule: refill_loop.induct)
    case (1 E s)
    let ?i = "unat (rr_prod (rn_rx s)) mod 4"
    have one: "op_step s (refill_one E (rtl_tick s))"
      by (rule op_keep) (simp_all add: refill_one_def fixed_def Let_def rtl_tick_def)
    show ?case
    proof (cases "refill_loop E s \<in> {(OK, s), (OK, rtl_tick s), (Fault, s)}")
      case True
      then show ?thesis using op_tick [OF op_refl] by auto
    next
      case False
      then obtain ds where c: "unat (rr_prod (rn_rx s) - rr_cons (rn_rx s)) < 4" "\<not> \<not> re_alloc_iob E (rn_clk s) RTL_RX_MAX_LEN"
        "rr_desc (rn_rx s) = Some ds" "\<not> (length ds \<le> ?i \<or> length (rn_rx_iobuf s) \<le> ?i)" "\<not> rn_rx_iobuf s ! ?i \<noteq> None"
        using refill_loop.simps [of E s] by (auto simp: Let_def split: if_splits option.splits)
      then have "refill_loop E s = refill_loop E (refill_one E (rtl_tick s))"
        by (subst refill_loop.simps) (simp add: Let_def)
      with 1 [OF c(1,2) refl c(3-5)] show ?thesis by (simp add: op_trans [OF one])
    qed
  qed
  then show ?thesis by (simp add: realtek_refill_rx_def)
qed

text \<open>Register numbers of the rings and of the doorbell, as detection leaves them.\<close>

definition places_ok :: "realtek_nic \<Rightarrow> bool" where
  "places_ok s \<longleftrightarrow> rn_tppoll s < RTL_BAR_SIZE \<and> rr_reg (rn_tx s) = RTL_TNPDS \<and> rr_reg (rn_rx s) = RTL_RDSAR"

lemma op_places: "op_step s s' \<Longrightarrow> places_ok s \<Longrightarrow> places_ok s'"
  by (simp add: op_step_def fixed_def places_ok_def)

lemma tx_slot: "access_in 4 (RTL_TSD (n mod 4))" "access_in 4 (RTL_TSAD (n mod 4))"
  using mod_less_divisor [of 4 n] by (auto simp: access_simps simp del: mod_less_divisor)

lemma post_tx_frame [simp]: "rn_tppoll (post_tx b s) = rn_tppoll s" "rn_legacy (post_tx b s) = rn_legacy s"
  "rn_have_ocp (post_tx b s) = rn_have_ocp s" "rn_tppoll (rtl_tick s) = rn_tppoll s" "rn_have_ocp (rtl_tick s) = rn_have_ocp s"
  by (simp_all add: post_tx_def rtl_tick_def)

lemma op_transmit:
  assumes "places_ok s"
  shows "op_step s (snd (realtek_transmit E b s))"
proof -
  have k: "op_step s (post_tx b' (rtl_tick s))" for b'
    by (rule op_keep) (simp_all add: post_tx_def fixed_def rtl_tick_def)
  have d: "op_step s t \<Longrightarrow> op_step s (t\<lparr>rn_tx := upd_desc i f (rn_tx t)\<rparr>)" for t i f
    by (erule op_trans, rule op_keep) (simp_all add: fixed_def)
  have tp: "rn_tppoll s < RTL_BAR_SIZE" using assms by (simp add: places_ok_def)
  show ?thesis
  proof (cases "re_map_tx E (rn_clk s)")
    case OK
    then show ?thesis using tp tx_slot [of "unat (rr_prod (rn_tx s))"]
      by (cases "rn_legacy s") (auto simp: realtek_transmit_def Let_def op_net access_simps split: option.split intro!: op_write d k)
  qed (simp_all add: realtek_transmit_def Let_def op_net op_tick)
qed

lemma op_tx_complete: "op_step s (snd (tx_complete E s))"
  using op_read [OF op_refl tx_slot(1), of s E "unat (rr_cons (rn_tx s))"] op_sync [of s E]
  by (auto simp: tx_complete_def Let_def split: option.split prod.split)

lemma op_complete_next: "op_step s (complete_next s)"
  by (rule op_keep) (simp_all add: complete_next_def fixed_def net_call_def Let_def split: list.split)

lemma op_poll_tx: "op_step s (snd (poll_tx_loop E s))"
proof (induction E s rule: poll_tx_loop.induct)
  case (1 E s)
  obtain r fin s' where t: "tx_complete E s = ((r, fin), s')" by (metis surj_pair)
  have s': "op_step s s'" using op_tx_complete [of s E] t by simp
  show ?case
  proof (cases "rr_cons (rn_tx s) = rr_prod (rn_tx s) \<or> \<not> (r = OK \<and> fin)")
    case True
    then have "snd (poll_tx_loop E s) \<in> {s, s'}" using t by (subst poll_tx_loop.simps) (auto split: rc.split)
    then show ?thesis using s' by auto
  next
    case False
    then have "poll_tx_loop E s = poll_tx_loop E (complete_next s')" using t by (subst poll_tx_loop.simps) simp
    then show ?thesis using 1 False t op_trans [OF s' op_complete_next] by (auto intro: op_trans)
  qed
qed

lemma op_rx_take: "op_step s (snd (rx_take E s))"
  by (rule op_trans [OF op_sync op_keep])
     (auto simp: rx_take_def fixed_def net_call_def Let_def split: option.split)

lemma op_poll_rx_loop: "op_step s (snd (poll_rx_loop E s))"
proof (induction E s rule: poll_rx_loop.induct)
  case (1 E s)
  obtain r taken s' where t: "rx_take E s = ((r, taken), s')" by (metis surj_pair)
  have s': "op_step s s'" using op_rx_take [of s E] t by simp
  show ?case
  proof (cases "rr_cons (rn_rx s) = rr_prod (rn_rx s) \<or> \<not> (r = OK \<and> taken)")
    case True
    then have "snd (poll_rx_loop E s) \<in> {s, s'}" using t by (subst poll_rx_loop.simps) (auto split: rc.split)
    then show ?thesis using s' by auto
  next
    case False
    then have "poll_rx_loop E s = poll_rx_loop E s'" using t by (subst poll_rx_loop.simps) simp
    then show ?thesis using 1 False t s' by (auto intro: op_trans)
  qed
qed

text \<open>One packet of the legacy receive buffer, and the loop over the buffer, when it ends.\<close>

lemma op_legacy_packet: "op_step s (snd (legacy_packet E s))"
proof -
  have a: "op_step s t \<Longrightarrow> op_step s (snd (read_reg E 2 RTL_CAPR (write_reg 2 RTL_CAPR v (t\<lparr>rn_offset := off\<rparr>))))" for t v off
    by (intro op_read op_write; (erule op_trans)?) (auto intro: op_keep simp: fixed_def access_simps)
  have n: "op_step s ((rtl_tick s)\<lparr>rn_next := Suc (rn_next s)\<rparr>)"
    by (rule op_keep) (simp_all add: fixed_def rtl_tick_def)
  show ?thesis
    by (auto simp: legacy_packet_def Let_def op_net op_tick split: option.split intro!: a op_net n)
qed

lemma legacy_loop_rel:
  assumes "legacy_poll_loop E s = Some y" and trans: "\<And>s t u. R s t \<Longrightarrow> R t u \<Longrightarrow> R s u"
    and rd: "\<And>s. R s (snd (read_reg E 1 RTL_CR s))" and sy: "\<And>s. R s (sync E s)" and pk: "\<And>s. R s (snd (legacy_packet E s))"
  shows "R s (snd y)"
proof -
  have "E' = E \<longrightarrow> R s (snd y)" if "legacy_poll_loop E' s = Some y" for E'
  proof (rule legacy_poll_loop.raw_induct [where P = "\<lambda>E' s y. E' = E \<longrightarrow> R s (snd y)", OF _ that], rule impI)
    fix f E' s y
    assume IH: "\<And>E' s y. f E' s = Some y \<Longrightarrow> E' = E \<longrightarrow> R s (snd y)" and E': "E' = E"
      and eq: "(let (cr, s) = read_reg E' 1 RTL_CR s in if cr AND RTL_CR_BUFE \<noteq> 0 then Some (OK, s)
        else case legacy_packet E' (sync E' s) of ((r, again), s) \<Rightarrow> if again then f E' s else Some (r, s)) = Some y"
    obtain cr t where t: "read_reg E 1 RTL_CR s = (cr, t)" by (metis surj_pair)
    obtain r again u where u: "legacy_packet E (sync E t) = ((r, again), u)" by (metis surj_pair)
    have "R s t" using rd [of s] t by simp
    moreover have "R t u" using trans [OF sy [of t] pk [of "sync E t"]] u by simp
    ultimately have "R s t" "R s u" using trans by blast+
    then show "R s (snd y)" using eq IH [of E u y] trans [of s u "snd y"]
      by (auto simp: E' t u simp del: One_nat_def split: if_splits)
  qed
  then show ?thesis using assms(1) by blast
qed

lemma op_legacy_loop: "legacy_poll_loop E s = Some y \<Longrightarrow> op_step s (snd y)"
  by (erule legacy_loop_rel) (auto intro: op_trans op_read op_sync op_legacy_packet simp: access_simps)

lemma op_poll_events:
  assumes "poll_events E isr s = Some (r, s')"
  shows "op_step s s'"
proof -
  obtain r3 s3 where s3: "(if isr AND (RTL_IRQ_TER OR RTL_IRQ_TOK) \<noteq> 0 then realtek_poll_tx E s else (OK, s)) = (r3, s3)"
    by (metis surj_pair)
  have o3: "op_step s s3" using s3 op_poll_tx [of s E] by (auto simp: realtek_poll_tx_def split: if_splits)
  have rx: "realtek_poll_rx E s3 = Some y \<Longrightarrow> op_step s3 (snd y)" for y
    using op_poll_rx_loop [of s3 E] op_legacy_loop [of E s3 y]
    by (auto simp: realtek_poll_rx_def realtek_legacy_poll_rx_def split: if_splits)
  have fin: "op_step s t \<Longrightarrow> op_step s (snd (realtek_refill_rx E t))" "op_step s t \<Longrightarrow> op_step s (realtek_check_link E t)" for t
    using op_refill [of t E] op_check_link [of t E] by (auto intro: op_trans)
  show ?thesis
  proof (cases "r3 = OK")
    case True
    then obtain r4 s4 where s4: "(if isr AND (RTL_IRQ_RER OR RTL_IRQ_ROK) \<noteq> 0 then realtek_poll_rx E s3 else Some (OK, s3)) = Some (r4, s4)"
      using assms unfolding poll_events_def s3 by (auto split: option.splits)
    have "op_step s3 s4" using s4 rx [of "(r4, s4)"] by (auto split: if_splits)
    then have o4: "op_step s s4" by (rule op_trans [OF o3])
    show ?thesis using assms o4 fin(1) [OF o4] fin(1) [OF fin(2) [OF o4]] True
      unfolding poll_events_def s3 Let_def prod.case s4 option.case by (auto split: if_splits)
  next
    case False
    then show ?thesis using assms o3 unfolding poll_events_def s3 by simp
  qed
qed

lemma op_poll:
  assumes "realtek_poll E s = Some (r, s')"
  shows "op_step s s'"
proof -
  let ?R = "if rn_have_ocp s then read_reg E 4 RTL_ISR_8125 s else read_reg E 2 RTL_ISR s"
  have "op_step s (snd ?R)" using op_read [OF op_refl, of 4 RTL_ISR_8125 s E] op_read [OF op_refl, of 2 RTL_ISR s E]
    by (simp add: access_simps)
  then obtain isr s1 where s1: "?R = (isr, s1)" "op_step s s1" by (metis snd_conv surj_pair)
  have "op_step s (if rn_have_ocp s1 then write_reg 4 RTL_ISR_8125 isr s1 else write_reg 2 RTL_ISR isr s1)"
    using s1(2) by (simp add: op_write access_simps)
  then show ?thesis using assms s1 op_poll_events unfolding realtek_poll_def s1(1) by (auto split: if_splits intro: op_trans)
qed

lemma op_irq: "op_step s (realtek_irq enable s)"
  by (simp add: realtek_irq_def Let_def op_write access_simps)

section \<open>Opening and closing\<close>

lemma op_create_ring:
  assumes "places_ok s"
  shows "op_step s (snd (realtek_create_ring E w s))"
proof -
  define t where "t d = set_ring w ((get_ring w s)\<lparr>rr_desc := d\<rparr>) (rtl_tick s)" for d
  have t: "op_step s (t d)" for d
    unfolding t_def by (rule op_keep; cases w) (simp_all add: fixed_def rtl_tick_def)
  have "access_in 4 (rr_reg (get_ring w s))" "access_in 4 (rr_reg (get_ring w s) + 4)"
    using assms by (cases w; simp add: places_ok_def access_simps)+
  then show ?thesis using t
    by (auto simp: realtek_create_ring_def t_def [symmetric] Let_def op_tick split: option.split intro!: op_write)
qed

lemma op_destroy_ring:
  assumes "places_ok s"
  shows "op_step s (realtek_destroy_ring w s)"
proof -
  define t where "t = set_ring w ((get_ring w s)\<lparr>rr_prod := 0, rr_cons := 0\<rparr>) s"
  have t: "op_step s t" unfolding t_def by (rule op_keep; cases w) (simp_all add: fixed_def)
  have a: "access_in 4 (rr_reg (get_ring w s))" "access_in 4 (rr_reg (get_ring w s) + 4)"
    using assms by (cases w; simp add: places_ok_def access_simps)+
  let ?u = "write_reg 4 (rr_reg (get_ring w s) + 4) 0 (write_reg 4 (rr_reg (get_ring w s)) 0 t)"
  have "op_step s ?u" using t a by (intro op_write)
  moreover have "op_step ?u (set_ring w ((get_ring w s)\<lparr>rr_prod := 0, rr_cons := 0, rr_desc := None\<rparr>) ?u)"
    by (rule op_keep; cases w) (simp_all add: fixed_def t_def write_reg_def)
  ultimately show ?thesis using t by (auto simp: realtek_destroy_ring_def t_def [symmetric] Let_def intro: op_trans)
qed

lemma op_create_buffer: "op_step s (snd (realtek_create_buffer E s))"
proof -
  have "op_step s ((rtl_tick s)\<lparr>rn_rxbuf := b\<rparr>)" for b by (rule op_keep) (simp_all add: fixed_def rtl_tick_def)
  then show ?thesis
    by (auto simp: realtek_create_buffer_def Let_def op_tick access_simps split: option.split intro!: op_write)
qed

lemma op_destroy_buffer: "op_step s (realtek_destroy_buffer s)"
proof -
  have "op_step s (write_reg 4 RTL_RBSTART 0 s)" by (simp add: op_write access_simps)
  moreover have "op_step t (t\<lparr>rn_rxbuf := None, rn_offset := 0\<rparr>)" for t by (rule op_keep) (simp_all add: fixed_def)
  ultimately show ?thesis by (auto simp: realtek_destroy_buffer_def intro: op_trans)
qed

lemma op_open_hardware: "op_step s (open_hardware E s)"
proof -
  have rd: "read_reg E 4 r t = (v, u) \<Longrightarrow> op_step s t \<Longrightarrow> access_in 4 r \<Longrightarrow> op_step s u" for r t v u
    using op_read [of s t 4 r E] by simp
  show ?thesis unfolding open_hardware_def Let_def
    by (auto split: prod.split intro!: op_write op_regs [OF regs_hw_start] dest!: rd simp: access_simps)
qed

lemma op_open:
  assumes "places_ok s"
  shows "op_step s (snd (realtek_open E s))"
proof -
  obtain r1 s1 where c1: "realtek_create_ring E TX s = (r1, s1)" by (metis surj_pair)
  obtain r2 s2 where c2: "realtek_create_ring E RX s1 = (r2, s2)" by (metis surj_pair)
  obtain r3 s3 where c3: "realtek_create_buffer E s2 = (r3, s3)" by (metis surj_pair)
  have o1: "op_step s s1" using op_create_ring [OF assms, of E TX] c1 by simp
  have o2: "op_step s s2" using op_trans [OF o1 op_create_ring [OF op_places [OF o1 assms], of E RX]] c2 by simp
  have o3: "op_step s s3" using op_trans [OF o2 op_create_buffer [of s2 E]] c3 by simp
  have d2: "op_step s (realtek_destroy_ring TX s2)" by (rule op_trans [OF o2 op_destroy_ring [OF op_places [OF o2 assms]]])
  have "op_step s (realtek_destroy_ring RX s3)" by (rule op_trans [OF o3 op_destroy_ring [OF op_places [OF o3 assms]]])
  from op_trans [OF this op_destroy_ring [OF op_places [OF this assms]]] have d3: "op_step s (realtek_destroy_ring TX (realtek_destroy_ring RX s3))" .
  have f3: "op_step s (snd (realtek_refill_rx E (open_hardware E s3)))"
    by (rule op_trans [OF op_trans [OF o3 op_open_hardware] op_refill])
  have f: "op_step s (snd (then_ok (realtek_refill_rx E (open_hardware E s3)) (\<lambda>s. (OK, realtek_check_link E s))))"
  proof (rule then_ok_state [where P = "op_step s", OF f3])
    fix t assume "realtek_refill_rx E (open_hardware E s3) = (OK, t)"
    then show "op_step s (snd (OK, realtek_check_link E t))" using f3 by (auto intro: op_trans [OF _ op_check_link])
  qed
  show ?thesis using o1 d2 d3 f by (auto simp: realtek_open_def c1 c2 c3 split: rc.split)
qed

lemma op_close:
  assumes "places_ok s"
  shows "op_step s (realtek_close E s)"
proof -
  define t where "t = realtek_destroy_buffer (write_reg 1 RTL_CR 0 s)"
  have t: "op_step s t" unfolding t_def by (rule op_trans [OF op_write [OF op_refl] op_destroy_buffer]) (simp add: access_simps)
  define u where "u = (realtek_destroy_ring RX t)\<lparr>rn_rx_iobuf := replicate RTL_NUM_RX_DESC None\<rparr>"
  have "op_step (realtek_destroy_ring RX t) u" unfolding u_def by (rule op_keep) (simp_all add: fixed_def)
  then have u: "op_step s u" by (rule op_trans [OF op_trans [OF t op_destroy_ring [OF op_places [OF t assms]]]])
  have v: "op_step s (realtek_destroy_ring TX u)" by (rule op_trans [OF u op_destroy_ring [OF op_places [OF u assms]]])
  from op_trans [OF v op_regs [OF regs_reset]] v show ?thesis
    unfolding realtek_close_def Let_def t_def [symmetric] u_def [symmetric] by simp
qed

section \<open>Probing\<close>

definition nic_ok :: "realtek_nic \<Rightarrow> bool" where
  "nic_ok s \<longleftrightarrow> places_ok s \<and> list_all access_ok (rn_regs s)"

lemma nic_ok_op: "op_step s s' \<Longrightarrow> nic_ok s \<Longrightarrow> nic_ok s'"
  using op_places [of s s'] by (auto simp: nic_ok_def op_step_def)

text \<open>Detection accesses registers and sets the fields of the kind of device; the data path stays as it was.\<close>

definition datapath :: "realtek_nic \<Rightarrow> (realtek_ring \<times> realtek_ring \<times> io_buffer option list) \<times> bytes option \<times> u32 \<times> nat \<times> io_buffer list" where
  "datapath s = ((rn_tx s, rn_rx s, rn_rx_iobuf s), rn_rxbuf s, rn_offset s, rn_next s, rn_tx_queue s)"

definition probing :: "realtek_nic \<Rightarrow> realtek_nic \<Rightarrow> bool" where
  "probing s s' \<longleftrightarrow> (nic_ok s \<longrightarrow> nic_ok s') \<and> rn_net s' = rn_net s \<and> datapath s' = datapath s"

lemma probing_refl [simp]: "probing s s"
  by (simp add: probing_def)

lemma probing_trans [trans]: "probing s t \<Longrightarrow> probing t u \<Longrightarrow> probing s u"
  by (simp add: probing_def)

lemma probing_regs: "regs_step s t \<Longrightarrow> probing s t"
  using nic_ok_op [OF op_regs, of s t] by (simp add: probing_def datapath_def regs_frame)

lemma probing_read: "read_reg E w r s = (v, t) \<Longrightarrow> access_in w r \<Longrightarrow> probing s t"
  using probing_regs [OF regs_read [OF regs_refl], of w r s E] by simp

lemma probing_write: "access_in w r \<Longrightarrow> probing s (write_reg w r v s)"
  by (rule probing_regs [OF regs_write [OF regs_refl]])

lemma probing_detect_8126: "probing s (snd (realtek_detect_8126 E s))"
proof -
  obtain v t where r: "read_reg E 4 RTL_TCR s = (v, t)" by (metis surj_pair)
  have "probing s t" by (rule probing_read [OF r]) (simp add: access_simps)
  then show ?thesis by (simp add: realtek_detect_8126_def r probing_def datapath_def nic_ok_def places_ok_def)
qed

lemma probing_detect_8125: "probing s (snd (realtek_detect_8125 E s))"
proof -
  obtain v t where r: "read_reg E 4 RTL_TCR s = (v, t)" by (metis surj_pair)
  have "probing s t" by (rule probing_read [OF r]) (simp add: access_simps)
  then show ?thesis by (simp add: realtek_detect_8125_def r probing_def datapath_def nic_ok_def places_ok_def split: option.split)
qed

lemma probing_detect_ocp: "probing s (snd (detect_ocp E s))"
  using probing_detect_8126 [of s E] probing_trans [OF _ probing_detect_8125]
  by (auto simp: detect_ocp_def split: prod.split rc.split)

lemma probing_detect: "probing s (realtek_detect E s)"
proof -
  obtain r0 s0 where d: "detect_ocp E s = (r0, s0)" by (metis surj_pair)
  have p0: "probing s s0" using probing_detect_ocp [of s E] d by simp
  show ?thesis
  proof (cases "r0 = OK")
    case True
    then show ?thesis using p0 by (simp add: realtek_detect_def d probing_def datapath_def nic_ok_def places_ok_def)
  next
    case False
    obtain v1 s1 where r1: "read_reg E 2 RTL_RMS (write_reg 2 RTL_RMS (of_nat RTL_RX_MAX_LEN) s0) = (v1, s1)" by (metis surj_pair)
    obtain v2 s2 where r2: "read_reg E 2 RTL_CPCR s1 = (v2, s2)" by (metis surj_pair)
    define c where "c = (v2 OR RTL_CPCR_SET OR RTL_CPCR_DAC) AND NOT RTL_CPCR_VLAN"
    obtain v3 s3 where r3: "read_reg E 2 RTL_CPCR (write_reg 2 RTL_CPCR c s2) = (v3, s3)" by (metis surj_pair)
    note a = access_simps
    have p1: "probing s s1" by (rule probing_trans [OF p0 probing_trans [OF probing_write probing_read [OF r1]]]) (simp_all add: a)
    have p2: "probing s s2" by (rule probing_trans [OF p1 probing_read [OF r2]]) (simp add: a)
    have p3: "probing s s3" by (rule probing_trans [OF p2 probing_trans [OF probing_write probing_read [OF r3]]]) (simp_all add: a)
    have "realtek_detect E s = (if v1 = of_nat RTL_RX_MAX_LEN then s3\<lparr>rn_have_phy_regs := True, rn_tppoll := RTL_TPPOLL_8169, rn_dma64 := True\<rparr>
         else if v3 = c \<and> c \<noteq> 0xffff then s3\<lparr>rn_tppoll := RTL_TPPOLL_8139CP, rn_dma64 := True, rn_bus := True\<rparr>
         else s3\<lparr>rn_legacy := True, rn_bus := True\<rparr>)"
      using False r1 r2 r3 unfolding c_def realtek_detect_def d by (cases r0) (simp_all add: Let_def or.assoc)
    then show ?thesis using p3 by (simp add: probing_def datapath_def nic_ok_def places_ok_def)
  qed
qed

lemma probing_init_eeprom: "probing s (snd (realtek_init_eeprom E s))"
proof -
  define s1 where "s1 = snd (run_spi E (re_spi_init E) s)"
  obtain v2 s2 where r2: "read_reg E 4 RTL_RCR s1 = (v2, s2)" by (metis surj_pair)
  define dev where "dev = (if v2 AND RTL_RCR_9356SEL \<noteq> 0 then AT93C56 else AT93C46)"
  obtain r3 i3 s3 where r3: "run_spi E (re_nvs_read E dev RTL_EEPROM_ID 2) (s2\<lparr>rn_eeprom := Some dev\<rparr>) = ((r3, i3), s3)" by (metis surj_pair)
  obtain v4 s4 where r4: "read_reg E 1 RTL_CONFIG1 s3 = (v4, s4)" by (metis surj_pair)
  have "probing s s1" unfolding s1_def by (rule probing_regs [OF regs_run_spi])
  also have "probing s1 s2" by (rule probing_read [OF r2]) (simp add: access_simps)
  also have "probing s2 (s2\<lparr>rn_eeprom := Some dev\<rparr>)" by (simp add: probing_def datapath_def nic_ok_def places_ok_def)
  also have "probing \<dots> s3" using probing_regs [OF regs_run_spi] r3 by (metis snd_conv)
  finally have p3: "probing s s3" .
  have "probing s3 s4" by (rule probing_read [OF r4]) (simp add: access_simps)
  from probing_trans [OF p3 this] have p4: "probing s s4" .
  then have "probing s (s4\<lparr>rn_nvo := x\<rparr>)" for x by (simp add: probing_def datapath_def nic_ok_def places_ok_def)
  then show ?thesis using p3 p4 r3 r4
    unfolding realtek_init_eeprom_def by (simp add: s1_def [symmetric] r2 Let_def dev_def [symmetric] del: One_nat_def)
qed

lemma probing_hw_addr: "probing s (snd (read_hw_addr E s))"
proof -
  obtain r s1 where i: "(if rn_bus s then realtek_init_eeprom E s else (Err ENODEV, s)) = (r, s1)" by (metis surj_pair)
  have p1: "probing s s1" using i probing_init_eeprom [of s E] by (auto split: if_splits)
  have upd: "probing s t \<Longrightarrow> probing s (t\<lparr>rn_hw_addr := x\<rparr>)" for t x by (simp add: probing_def datapath_def nic_ok_def places_ok_def)
  have spi: "run_spi E p s1 = (x, t) \<Longrightarrow> probing s t" for p x t
    using probing_trans [OF p1 probing_regs [OF regs_run_spi, of s1 E p]] by simp
  have rb: "read_bytes E reg n s1 = (m, t) \<Longrightarrow> reg + n \<le> RTL_BAR_SIZE \<Longrightarrow> probing s t" for reg n m t
    using probing_trans [OF p1 probing_regs [OF regs_read_bytes [OF regs_refl, where reg = reg and n = n and E = E]]] by simp
  show ?thesis unfolding read_hw_addr_def i Let_def
    by (auto split: prod.split option.split intro!: upd dest: spi rb simp: p1 simp del: read_bytes.simps)
qed

lemma net_call_ok [simp]: "nic_ok (net_call e s) = nic_ok s"
  by (simp add: nic_ok_def places_ok_def net_call_def)

lemma rn_net_call [simp]: "rn_net (net_call e s) = rn_net s @ [e]"
  by (simp add: net_call_def)

lemma rn_nvo_call [simp]: "rn_nvo (net_call e s) = rn_nvo s"
  by (simp add: net_call_def)

lemma reset_frame [simp]: "rn_net (snd (realtek_reset E s)) = rn_net s" "nic_ok s \<Longrightarrow> nic_ok (snd (realtek_reset E s))"
  using regs_frame [OF regs_reset [of s E]] nic_ok_op [OF op_regs [OF regs_reset [of s E]]] by simp_all

text \<open>The rings are as after \<^verbatim>\<open>memset()\<close>, and the network core saw no traffic.\<close>

definition quiet :: "net_event \<Rightarrow> bool" where
  "quiet e \<longleftrightarrow> resource e \<or> e \<in> {LinkUp, LinkDown, NetdevNullify}"

definition fresh :: "realtek_nic \<Rightarrow> bool" where
  "fresh s \<longleftrightarrow> datapath s = datapath new_nic \<and> list_all quiet (rn_net s)"

lemma fresh_simps [simp]: "fresh (net_call e s) \<longleftrightarrow> fresh s \<and> quiet e"
  by (auto simp: fresh_def datapath_def net_call_def)

lemma quiet_simps [simp]: "quiet LinkUp" "quiet LinkDown" "quiet NetdevNullify" "quiet NetdevRegister" "quiet NetdevUnregister"
  "quiet NvoRegister" "quiet Iounmap" "quiet NetdevPut" "quiet Ioremap" "quiet NetdevAlloc"
  by (simp_all add: quiet_def resource_def)

text \<open>The state in which the device is mapped and nothing else is held.\<close>

definition mapped :: "realtek_nic \<Rightarrow> bool" where
  "mapped s \<longleftrightarrow> nic_ok s \<and> fresh s \<and> held [] (rn_net s) = Some [Ioremap, NetdevAlloc]"

lemma probing_mapped: "probing s s' \<Longrightarrow> mapped s \<Longrightarrow> mapped s'"
  by (simp add: probing_def mapped_def fresh_def)

lemma err_reset_held: "mapped s \<Longrightarrow> nic_ok (err_reset s) \<and> held [] (rn_net (err_reset s)) = Some []"
  by (simp add: mapped_def err_reset_def err_ioremap_def held_append)

lemma err_nvs_read_held: "mapped s \<Longrightarrow> nic_ok (err_nvs_read E s) \<and> held [] (rn_net (err_nvs_read E s)) = Some []"
  unfolding err_nvs_read_def by (rule err_reset_held) (rule probing_mapped [OF probing_regs [OF regs_reset]])

definition registered :: "realtek_nic \<Rightarrow> net_event list" where
  "registered s = (if rn_nvo s = None then [] else [NvoRegister]) @ [NetdevRegister, Ioremap, NetdevAlloc]"

lemma check_link_nic: "nic_ok (realtek_check_link E s) = nic_ok s" "rn_nvo (realtek_check_link E s) = rn_nvo s"
  "held st (rn_net (realtek_check_link E s)) = held st (rn_net s)" "fresh s \<Longrightarrow> fresh (realtek_check_link E s)"
proof -
  from regs_check_link [of s E] obtain t up where t: "regs_step s t" "realtek_check_link E s = net_call (if up then LinkUp else LinkDown) t"
    by blast
  then have "nic_ok t = nic_ok s" by (auto simp: nic_ok_def places_ok_def regs_frame elim!: regs_step.cases)
  then show "nic_ok (realtek_check_link E s) = nic_ok s" using t by simp
  show "rn_nvo (realtek_check_link E s) = rn_nvo s" using t by (simp add: regs_frame)
  show "held st (rn_net (realtek_check_link E s)) = held st (rn_net s)" using t
    by (simp add: regs_frame held_append split: option.split)
  show "fresh s \<Longrightarrow> fresh (realtek_check_link E s)" using t by (simp add: fresh_def datapath_def regs_frame net_call_def)
qed

lemma probe_register_held:
  assumes "mapped s" "probe_register E s = (r, s')"
  shows "nic_ok s' \<and> (r = OK \<longrightarrow> fresh s') \<and> held [] (rn_net s') = Some (if r = OK then registered s' else [])"
proof (cases "re_register_netdev E = OK")
  case True
  define t where "t = realtek_check_link E (net_call NetdevRegister s)"
  have t: "nic_ok t" "fresh t" "held [] (rn_net t) = Some [NetdevRegister, Ioremap, NetdevAlloc]"
    using assms(1) by (simp_all add: t_def check_link_nic mapped_def held_append)
  have "mapped (net_call NetdevUnregister t)" using t by (simp add: mapped_def held_append)
  from err_nvs_read_held [OF this, of E] show ?thesis using assms(2) t True
    by (auto simp: probe_register_def t_def [symmetric] err_register_nvo_def registered_def held_append split: if_splits)
next
  case False
  then show ?thesis using assms err_nvs_read_held by (auto simp: probe_register_def)
qed

lemma probe_held:
  assumes "realtek_probe E = (r, Some s)"
  shows "nic_ok s \<and> (r = OK \<longrightarrow> fresh s) \<and> held [] (rn_net s) = Some (if r = OK then registered s else [])"
proof -
  have new: "nic_ok new_nic" "rn_net new_nic = []"
    by (simp_all add: new_nic_def nic_ok_def places_ok_def realtek_init_ring_def net_call_def)
  define s1 where "s1 = net_call Ioremap (net_call NetdevAlloc new_nic)"
  have m1: "mapped s1" using new by (simp add: s1_def mapped_def held_append fresh_def [of new_nic])
  obtain r2 s2 where r2: "realtek_reset E s1 = (r2, s2)" by (metis surj_pair)
  have m2: "mapped s2" using probing_mapped [OF probing_regs [OF regs_reset] m1, of E] r2 by simp
  define s3 where "s3 = hw_start E (realtek_detect E s2)"
  have m3: "mapped s3" unfolding s3_def
    by (rule probing_mapped [OF probing_regs [OF regs_hw_start] probing_mapped [OF probing_detect m2]])
  obtain r4 s4 where r4: "read_hw_addr E s3 = (r4, s4)" by (metis surj_pair)
  have m4: "mapped s4" using probing_mapped [OF probing_hw_addr m3, of E] r4 by simp
  obtain r5 s5 where r5: "realtek_phy_reset E s4 = (r5, s5)" by (metis surj_pair)
  have m5: "mapped s5" using probing_mapped [OF probing_regs [OF regs_phy_reset] m4, of E] r5 by simp
  have "nic_ok (err_ioremap (net_call NetdevAlloc new_nic)) \<and> held [] (rn_net (err_ioremap (net_call NetdevAlloc new_nic))) = Some []"
    using new by (simp add: err_ioremap_def held_append)
  then show ?thesis
    using assms err_reset_held [OF m2] err_nvs_read_held [OF m4, of E] err_nvs_read_held [OF m5, of E] probe_register_held [OF m5]
    by (auto simp: realtek_probe_def Let_def s1_def [symmetric] s3_def [symmetric] r2 r4 r5 split: if_splits prod.splits)
qed

section \<open>The life of a device\<close>

inductive life_step :: "rtl_env \<Rightarrow> realtek_nic \<Rightarrow> realtek_nic \<Rightarrow> bool" for E where
  open_dev: "realtek_open E s = (r, s') \<Longrightarrow> life_step E s s'"
| close_dev: "life_step E s (realtek_close E s)"
| transmit: "realtek_transmit E b s = (r, s') \<Longrightarrow> life_step E s s'"
| poll: "realtek_poll E s = Some (r, s') \<Longrightarrow> life_step E s s'"
| irq: "life_step E s (realtek_irq enable s)"

inductive_cases life_stepE: "life_step E s s'"

lemma life_op: "nic_ok s \<Longrightarrow> life_step E s s' \<Longrightarrow> op_step s s'"
  by (erule life_stepE; (simp add: nic_ok_def)?)
     (metis op_open snd_conv, simp add: op_close, metis op_transmit snd_conv, simp add: op_poll, simp add: op_irq)

text \<open>Every step keeps the register numbers and stays in the window; what is held does not change.\<close>

interpretation life: invariant_machine "life_step E" "\<lambda>s. nic_ok s \<and> fixed s = fx" for E fx
proof unfold_locales
  fix s s' assume "nic_ok s \<and> fixed s = fx" "life_step E s s'"
  then show "nic_ok s' \<and> fixed s' = fx" using life_op [of s E s'] nic_ok_op [of s s'] by (simp add: op_step_def)
qed

section \<open>An example device\<close>

text \<open>A device that takes the maximum receive size (an RTL8169), with frames of 64 bytes coming in.\<close>

definition demo_env :: rtl_env where
  "demo_env = \<lparr>re_read = (\<lambda>t r. if r = RTL_RMS then 1526 else if r = RTL_PHYSTATUS then 2 else if r = RTL_ISR then 1 else 0),
    re_dma = (\<lambda>t. [RxFrame 0 (replicate 64 7) False]), re_dma_alloc = (\<lambda>t n. Some 0x1000), re_alloc_iob = (\<lambda>t n. True),
    re_iob_dma = of_nat, re_map_tx = (\<lambda>t. OK), re_fresh = (\<lambda>t. []), re_func = 0,
    re_mii_read = (\<lambda>r. MiiDone (Inr 0)), re_mii_write = (\<lambda>r d. MiiDone (Inr 0)),
    re_mii_reset = MiiDone (Inr 0), re_mii_restart = MiiDone (Inr 0), re_mii_dump = MiiDone (Inr 0),
    re_spi_init = SpiDone OK [], re_nvs_read = (\<lambda>e a n. SpiDone OK (replicate n 0)),
    re_alloc_etherdev = True, re_ioremap = True, re_register_netdev = OK, re_register_nvo = OK\<rparr>"

lemma demo_simps [simp]:
  "re_read demo_env t r = (if r = RTL_RMS then 1526 else if r = RTL_PHYSTATUS then 2 else if r = RTL_ISR then 1 else 0)"
  "re_alloc_etherdev demo_env" "re_ioremap demo_env" "re_register_netdev demo_env = OK" "re_mii_reset demo_env = MiiDone (Inr 0)"
  "re_mii_restart demo_env = MiiDone (Inr 0)" "re_mii_read demo_env r = MiiDone (Inr 0)" "re_mii_write demo_env r d = MiiDone (Inr 0)"
  "re_mii_dump demo_env = MiiDone (Inr 0)" "re_dma demo_env t = [RxFrame 0 (replicate 64 7) False]" "re_dma_alloc demo_env t n = Some 0x1000"
  "re_alloc_iob demo_env t n" "re_map_tx demo_env t = OK"
  by (simp_all add: demo_env_def)

lemmas reg_evals = wait_reg.simps read_reg_def write_reg_def net_call_def rtl_tick_def Let_def

lemma demo_reset: "realtek_reset demo_env s = (OK, snd (read_reg demo_env 1 RTL_CR (write_reg 1 RTL_CR RTL_CR_RST s)))"
  by (simp add: realtek_reset_def wait_reg.simps read_reg_def)

definition plain_8169 :: "realtek_nic \<Rightarrow> bool" where
  "plain_8169 s \<longleftrightarrow> \<not> rn_have_ocp s \<and> \<not> rn_legacy s \<and> \<not> rn_bus s \<and> rn_nvo s = None"

lemma demo_detect: "plain_8169 s \<Longrightarrow> plain_8169 (realtek_detect demo_env s)"
  by (simp add: plain_8169_def realtek_detect_def detect_ocp_def realtek_detect_8126_def realtek_detect_8125_def
    realtek_8125_versions_def reg_evals)

lemma read_bytes_state:
  "read_bytes E r n s = (v, s') \<Longrightarrow> rn_legacy s' = rn_legacy s \<and> rn_nvo s' = rn_nvo s"
  by (induction n arbitrary: r s v) (auto simp: Let_def read_reg_def rtl_tick_def split: prod.splits)

lemma demo_hw_addr: "plain_8169 s \<Longrightarrow> \<exists>s'. read_hw_addr demo_env s = (OK, s') \<and> rn_nvo s' = None \<and> \<not> rn_legacy s'"
  by (cases "read_bytes demo_env 0 6 s")
     (auto simp: plain_8169_def read_hw_addr_def dest: read_bytes_state simp del: read_bytes.simps)

lemma demo_phy: "realtek_phy_reset demo_env s = (OK, s)"
  by (simp add: realtek_phy_reset_def realtek_phy_speed_def status_of_def Let_def)

lemma demo_register:
  "rn_nvo s = None \<Longrightarrow> \<not> rn_legacy s \<Longrightarrow> \<exists>s'. probe_register demo_env s = (OK, s') \<and> \<not> rn_legacy s'"
  by (simp add: probe_register_def realtek_check_link_def reg_evals)

lemma demo_probe: "\<exists>s0. realtek_probe demo_env = (OK, Some s0) \<and> \<not> rn_legacy s0"
proof -
  let ?s = "snd (read_reg demo_env 1 RTL_CR (write_reg 1 RTL_CR RTL_CR_RST (net_call Ioremap (net_call NetdevAlloc new_nic))))"
  have "plain_8169 ?s" by (simp add: plain_8169_def new_nic_def reg_evals)
  then have d: "plain_8169 (realtek_detect demo_env ?s)" by (rule demo_detect)
  then have h: "hw_start demo_env (realtek_detect demo_env ?s) = realtek_detect demo_env ?s" by (simp add: hw_start_def plain_8169_def)
  from demo_hw_addr [OF d] obtain s1 where s1: "read_hw_addr demo_env (realtek_detect demo_env ?s) = (OK, s1)"
    "rn_nvo s1 = None" "\<not> rn_legacy s1" by blast
  from demo_register [OF s1(2,3)] obtain s2 where s2: "probe_register demo_env s1 = (OK, s2)" "\<not> rn_legacy s2" by blast
  show ?thesis unfolding realtek_probe_def demo_reset Let_def prod.case h s1(1) demo_phy s2(1) using s2(2) by simp
qed

lemma demo_step: "(life_step demo_env)\<^sup>*\<^sup>* s (realtek_irq True s)"
  by (rule r_into_rtranclp) (rule life_step.irq)

section \<open>Properties\<close>

text \<open>C26: Every register access of the driver, from the probe through any sequence of opening, closing,
  transmission, polling and interrupt masking to the removal, is aligned and lies inside the mapped window.\<close>

theorem register_window:
  assumes "realtek_probe E = (r, Some s0)" "(life_step E)\<^sup>*\<^sup>* s0 s"
  shows "list_all access_ok (rn_regs s) \<and> list_all access_ok (rn_regs (realtek_remove E s))"
proof -
  have "nic_ok s" using life.reach_inv [OF assms(2), of "fixed s0"] probe_held [OF assms(1)] by simp
  then have "nic_ok (realtek_remove E s)" by (simp add: realtek_remove_def Let_def err_ioremap_def)
  then show ?thesis using \<open>nic_ok s\<close> by (simp add: nic_ok_def)
qed

theorem register_window_witness:
  "\<exists>s0. realtek_probe demo_env = (OK, Some s0) \<and> list_all access_ok (rn_regs (realtek_irq True s0)) \<and>
     list_all access_ok (rn_regs (realtek_remove demo_env (realtek_irq True s0)))"
  using demo_probe register_window [OF _ demo_step, of OK] by blast



end
