(* ===== verification/Realtek_Inv.thy ===== *)
theory Realtek_Inv
  imports Realtek_Life
begin

text \<open>
  The descriptor rings as bounded queues. The ring seen from the consumer index on is a list whose first
  part (as long as the distance of the two indices) holds the entries in use and whose rest is free.
  Adding an entry, taking the oldest one and what the device does are updates of that list, also when
  the 32-bit indices wrap around.
\<close>

section \<open>Rings seen from the consumer index\<close>

definition ring_view :: "u32 \<Rightarrow> 'a list \<Rightarrow> 'a list" where
  "ring_view c xs = rotate (unat c) xs"

lemma length_ring_view [simp]: "length (ring_view c xs) = length xs"
  by (simp add: ring_view_def)

lemma set_ring_view [simp]: "set (ring_view c xs) = set xs"
  by (simp add: ring_view_def)

lemma unat_add_mod4: "unat (a + b :: u32) mod 4 = (unat a + unat b) mod 4"
  by (simp add: unat_word_ariths mod_mod_cancel)

text \<open>The slot of the \<open>k\<close>-th entry after the consumer index.\<close>

lemma slot_offset: "unat p mod 4 = (unat c + unat (p - c :: u32)) mod 4"
  using unat_add_mod4 [of c "p - c"] by simp

lemma nth_ring_view: "length xs = 4 \<Longrightarrow> k < 4 \<Longrightarrow> ring_view c xs ! k = xs ! ((unat c + k) mod 4)"
  by (simp add: ring_view_def nth_rotate)

lemma slot_inj: "k < 4 \<Longrightarrow> j < 4 \<Longrightarrow> (m + k) mod 4 = (m + j) mod 4 \<Longrightarrow> k = (j :: nat)"
  by presburger

lemma slot_ex: "i < 4 \<Longrightarrow> \<exists>k<4. i = (m + k) mod (4 :: nat)"
proof -
  assume i: "i < 4"
  define r where "r = m mod 4"
  have "r < 4" by (simp add: r_def)
  define k where "k = (if r \<le> i then i - r else i + 4 - r)"
  have "(m + k) mod 4 = (r + k) mod 4" by (simp add: r_def mod_simps)
  also have "\<dots> = i" using i \<open>r < 4\<close> by (simp add: k_def)
  finally show ?thesis using i \<open>r < 4\<close> by (intro exI [of _ k]) (auto simp: k_def)
qed

lemma ring_view_update:
  assumes "length xs = 4" "k < 4"
  shows "ring_view c (xs[(unat c + k) mod 4 := v]) = (ring_view c xs)[k := v]"
proof (rule nth_equalityI)
  fix j assume "j < length (ring_view c (xs[(unat c + k) mod 4 := v]))"
  then have j: "j < 4" using assms by simp
  show "ring_view c (xs[(unat c + k) mod 4 := v]) ! j = (ring_view c xs)[k := v] ! j"
    using assms j slot_inj [of k j "unat c"] by (auto simp: nth_ring_view nth_list_update)
qed simp

lemma ring_view_Suc: "length xs = 4 \<Longrightarrow> ring_view (c + 1) xs = rotate1 (ring_view c xs)"
proof -
  assume l: "length xs = 4"
  have "rotate (unat (c + 1)) xs = rotate (unat (c + 1) mod 4) xs" using rotate_conv_mod [of "unat (c + 1)" xs] l by simp
  also have "\<dots> = rotate (Suc (unat c) mod 4) xs" using unat_add_mod4 [of c 1] by simp
  also have "\<dots> = rotate (Suc (unat c)) xs" using rotate_conv_mod [of "Suc (unat c)" xs] l by simp
  finally show ?thesis by (simp add: ring_view_def)
qed

section \<open>The receive ring\<close>

definition rx_gap :: "realtek_nic \<Rightarrow> nat" where
  "rx_gap s = unat (rr_prod (rn_rx s) - rr_cons (rn_rx s))"

definition rx_view :: "realtek_nic \<Rightarrow> (realtek_descriptor \<times> io_buffer option) list" where
  "rx_view s = ring_view (rr_cons (rn_rx s)) (zip (the (rr_desc (rn_rx s))) (rn_rx_iobuf s))"

definition own :: "realtek_descriptor \<Rightarrow> bool" where
  "own d \<longleftrightarrow> rd_flags d AND RTL_DESC_OWN \<noteq> 0"

text \<open>An entry in use: it has a buffer of full size, and when the device has released it, the length is
  that of a frame. A free entry has no buffer and does not belong to the device.\<close>

definition rx_used :: "realtek_descriptor \<times> io_buffer option \<Rightarrow> bool" where
  "rx_used e \<longleftrightarrow> (case e of (d, b) \<Rightarrow> (\<exists>iob. b = Some iob \<and> length (ib_data iob) = RTL_RX_MAX_LEN) \<and>
     (\<not> own d \<longrightarrow> 4 \<le> unat (rd_length d) \<and> unat (rd_length d) \<le> RTL_RX_MAX_LEN))"

definition rx_free :: "realtek_descriptor \<times> io_buffer option \<Rightarrow> bool" where
  "rx_free e \<longleftrightarrow> (case e of (d, b) \<Rightarrow> b = None \<and> \<not> own d)"

definition rx_ok :: "realtek_nic \<Rightarrow> bool" where
  "rx_ok s \<longleftrightarrow> \<not> rn_legacy s \<and> (\<exists>ds. rr_desc (rn_rx s) = Some ds \<and> length ds = 4) \<and> length (rn_rx_iobuf s) = 4 \<and>
     rx_gap s \<le> 4 \<and> list_all rx_used (take (rx_gap s) (rx_view s)) \<and> list_all rx_free (drop (rx_gap s) (rx_view s))"

text \<open>The buffers in the ring, oldest first, and those that were handed to the network core.\<close>

definition ring_ids :: "realtek_nic \<Rightarrow> nat list" where
  "ring_ids s = map (\<lambda>(d, b). ib_id (the b)) (take (rx_gap s) (rx_view s))"

fun handed_id :: "net_event \<Rightarrow> nat list" where
  "handed_id (NetRx i data) = [i]"
| "handed_id (NetRxErr (Some i) e) = [i]"
| "handed_id _ = []"

definition handed :: "realtek_nic \<Rightarrow> nat list" where
  "handed s = concat (map handed_id (rn_net s))"

text \<open>Every buffer that was allocated was handed over once, in order, or is in the ring.\<close>

definition rx_fifo :: "realtek_nic \<Rightarrow> bool" where
  "rx_fifo s \<longleftrightarrow> handed s @ ring_ids s = [0..<rn_next s]"

lemma rx_view_length: "rx_ok s \<Longrightarrow> length (rx_view s) = 4"
  by (auto simp: rx_ok_def rx_view_def)

lemma own_rx_descriptor [simp]: "own (rx_descriptor E i b)"
  by (simp add: own_def rx_descriptor_def)

text \<open>What the device does: at most one entry changes, one that belonged to it; it keeps its buffer and gets the
  length of the frame.\<close>

definition frame_ok :: "dma_action \<Rightarrow> bool" where
  "frame_ok a \<longleftrightarrow> (case a of RxFrame i frame err \<Rightarrow> 4 \<le> length frame \<and> length frame \<le> RTL_RX_MAX_LEN | _ \<Rightarrow> True)"

definition received :: "bytes \<Rightarrow> bool \<Rightarrow> realtek_descriptor \<times> io_buffer option \<Rightarrow> realtek_descriptor \<times> io_buffer option" where
  "received frame err e = (case e of (d, b) \<Rightarrow>
     (d\<lparr>rd_length := of_nat (length frame), rd_flags := rd_flags d AND RTL_DESC_EOR OR (if err then RTL_DESC_RES else 0)\<rparr>,
      map_option (\<lambda>b. b\<lparr>ib_data := put_at 0 frame (ib_data b)\<rparr>) b))"

lemma own_received [simp]: "\<not> own (fst (received frame err e))"
  by (cases e; cases err) (simp_all add: received_def own_def bit.conj_disj_distrib2 and.assoc)

lemma device_rx_view:
  assumes "\<exists>ds. rr_desc (rn_rx s) = Some ds \<and> length ds = 4" "length (rn_rx_iobuf s) = 4"
  shows "(\<exists>ds. rr_desc (rn_rx (device a s)) = Some ds \<and> length ds = 4) \<and> length (rn_rx_iobuf (device a s)) = 4 \<and>
    (rx_view (device a s) = rx_view s \<or>
     (\<exists>i frame err k. a = RxFrame i frame err \<and> k < 4 \<and> own (fst (rx_view s ! k)) \<and>
        rx_view (device a s) = (rx_view s)[k := received frame err (rx_view s ! k)]))"
proof (cases a)
  case (RxFrame i frame err)
  from assms(1) obtain ds where ds: "rr_desc (rn_rx s) = Some ds" "length ds = 4" by blast
  show ?thesis
  proof (cases "owned (rr_desc (rn_rx s)) i")
    case True
    then have i: "i < 4" "own (ds ! i)" using ds by (auto simp: owned_def own_def)
    from slot_ex [OF i(1), of "unat (rr_cons (rn_rx s))"] obtain k where
      k: "k < 4" "i = (unat (rr_cons (rn_rx s)) + k) mod 4" by blast
    let ?z = "zip ds (rn_rx_iobuf s)"
    have z: "length ?z = 4" using ds assms(2) by simp
    have vk: "rx_view s ! k = (ds ! i, rn_rx_iobuf s ! i)"
      using k z ds assms(2) i(1) by (simp add: rx_view_def nth_ring_view)
    have "rx_view (device a s) = ring_view (rr_cons (rn_rx s)) (?z[i := received frame err (ds ! i, rn_rx_iobuf s ! i)])"
      using True RxFrame ds by (simp add: rx_view_def upd_desc_def received_def update_zip)
    then have "rx_view (device a s) = (rx_view s)[k := received frame err (rx_view s ! k)]"
      using ring_view_update [OF z k(1)] k(2) vk ds by (simp add: rx_view_def)
    then show ?thesis using RxFrame True ds assms(2) k(1) vk i(2) by (auto simp: upd_desc_def)
  qed (use RxFrame ds assms in simp)
qed (use assms in \<open>auto simp: rx_view_def\<close>)

lemma rx_gap_device [simp]: "rx_gap (device a s) = rx_gap s"
  by (simp add: rx_gap_def)

text \<open>An update of an entry in use keeps what holds of both parts.\<close>

lemma take_drop_update:
  "k < n \<Longrightarrow> take n (xs[k := v]) = (take n xs)[k := v]" "k < n \<Longrightarrow> drop n (xs[k := v]) = drop n xs"
  by (simp_all add: take_update_swap drop_update_cancel)

lemma rx_used_received:
  assumes "frame_ok (RxFrame i frame err)" "rx_used e"
  shows "rx_used (received frame err e)"
proof -
  have "4 \<le> length frame" "length frame \<le> RTL_RX_MAX_LEN" using assms(1) by (simp_all add: frame_ok_def)
  moreover from this have "unat (of_nat (length frame) :: u16) = length frame" by (simp add: unat_of_nat)
  ultimately show ?thesis using assms(2) own_received [of frame err e]
    by (cases e) (auto simp: rx_used_def received_def)
qed

lemma received_id: "rx_used e \<Longrightarrow> ib_id (the (snd (received frame err e))) = ib_id (the (snd e))"
  by (cases e) (auto simp: rx_used_def received_def)

lemma device_rx_ok:
  assumes "rx_ok s" "frame_ok a"
  shows "rx_ok (device a s) \<and> ring_ids (device a s) = ring_ids s"
proof -
  have d: "\<exists>ds. rr_desc (rn_rx s) = Some ds \<and> length ds = 4" "length (rn_rx_iobuf s) = 4" using assms(1) by (auto simp: rx_ok_def)
  note v = device_rx_view [OF d, of a]
  show ?thesis
  proof (cases "rx_view (device a s) = rx_view s")
    case True
    then show ?thesis using assms(1) v by (simp add: rx_ok_def ring_ids_def)
  next
    case False
    with v obtain i frame err k where a: "a = RxFrame i frame err" and k: "k < 4" "own (fst (rx_view s ! k))"
      and u: "rx_view (device a s) = (rx_view s)[k := received frame err (rx_view s ! k)]" by blast
    have "k < rx_gap s"
    proof (rule ccontr)
      assume "\<not> k < rx_gap s"
      then have "rx_view s ! k \<in> set (drop (rx_gap s) (rx_view s))"
        using k(1) rx_view_length [OF assms(1)] by (auto simp: in_set_conv_nth intro!: exI [of _ "k - rx_gap s"])
      then show False using assms(1) k(2) by (auto simp: rx_ok_def list_all_iff rx_free_def)
    qed
    note td = take_drop_update [OF this]
    have n: "take (rx_gap s) (rx_view s) ! k = rx_view s ! k" "k < length (take (rx_gap s) (rx_view s))"
      using \<open>k < rx_gap s\<close> k(1) rx_view_length [OF assms(1)] by simp_all
    have used: "list_all rx_used (take (rx_gap s) (rx_view s))" using assms(1) by (simp add: rx_ok_def)
    then have e: "rx_used (rx_view s ! k)" using n by (metis list_all_length)
    have "list_all rx_used ((take (rx_gap s) (rx_view s))[k := received frame err (rx_view s ! k)])"
      using used rx_used_received [of i frame err, OF _ e] assms(2) a by (auto simp: list_all_iff dest!: set_update_subset_insert [THEN subsetD])
    moreover have "map (\<lambda>(d, b). ib_id (the b)) ((take (rx_gap s) (rx_view s))[k := received frame err (rx_view s ! k)]) =
        map (\<lambda>(d, b). ib_id (the b)) (take (rx_gap s) (rx_view s))"
      using received_id [OF e] n by (simp add: map_update case_prod_beta list_update_same_conv)
    moreover have "\<exists>ds. rr_desc (rn_rx (device a s)) = Some ds \<and> length ds = 4" "length (rn_rx_iobuf (device a s)) = 4"
      using v by blast+
    ultimately show ?thesis using assms(1) by (simp add: rx_ok_def ring_ids_def u td)
  qed
qed

definition dma_ok :: "rtl_env \<Rightarrow> bool" where
  "dma_ok E \<longleftrightarrow> (\<forall>t. list_all frame_ok (re_dma E t))"

lemma devices_rx_ok:
  "rx_ok s \<Longrightarrow> list_all frame_ok as \<Longrightarrow> rx_ok (fold device as s) \<and> ring_ids (fold device as s) = ring_ids s"
  by (induction as arbitrary: s) (simp_all add: device_rx_ok)

lemma rtl_tick_rx [simp]: "rx_ok (rtl_tick s) = rx_ok s" "ring_ids (rtl_tick s) = ring_ids s" "rx_gap (rtl_tick s) = rx_gap s"
  "rx_view (rtl_tick s) = rx_view s"
  by (simp_all add: rx_ok_def ring_ids_def rx_gap_def rx_view_def)

lemma sync_rx_ok: "dma_ok E \<Longrightarrow> rx_ok s \<Longrightarrow> rx_ok (sync E s) \<and> ring_ids (sync E s) = ring_ids s \<and> handed (sync E s) = handed s"
  using devices_rx_ok [of "rtl_tick s" "re_dma E (rn_clk s)"] by (simp add: sync_def dma_ok_def handed_def)

section \<open>Refilling and taking\<close>

text \<open>Refilling puts a new buffer behind the used entries.\<close>

lemma gap_pos: "0 < unat (p - c :: u32) \<Longrightarrow> unat (p - (c + 1)) = unat (p - c) - 1"
proof -
  assume "0 < unat (p - c)"
  then have "unat (p - c - 1) = unat (p - c) - 1" by (intro unat_minus_one) auto
  then show ?thesis by (simp add: diff_diff_add)
qed

definition new_entry :: "rtl_env \<Rightarrow> nat \<Rightarrow> realtek_nic \<Rightarrow> realtek_descriptor \<times> io_buffer option" where
  "new_entry E idx s = (rx_descriptor E idx (rn_next s),
     Some \<lparr>ib_id = rn_next s, ib_data = resize RTL_RX_MAX_LEN (re_fresh E (rn_clk s))\<rparr>)"

lemma refill_one_view:
  assumes "rx_ok s" "rx_gap s < 4"
  shows "rx_gap (refill_one E s) = Suc (rx_gap s) \<and>
    (\<exists>idx. rx_view (refill_one E s) = (rx_view s)[rx_gap s := new_entry E idx s])"
proof -
  from assms(1) obtain ds where ds: "rr_desc (rn_rx s) = Some ds" "length ds = 4" "length (rn_rx_iobuf s) = 4"
    by (auto simp: rx_ok_def)
  let ?i = "unat (rr_prod (rn_rx s)) mod 4"
  have i: "?i = (unat (rr_cons (rn_rx s)) + rx_gap s) mod 4"
    unfolding rx_gap_def by (rule slot_offset)
  let ?z = "zip ds (rn_rx_iobuf s)"
  have "rx_view (refill_one E s) = ring_view (rr_cons (rn_rx s)) (?z[?i := new_entry E ?i s])"
    using ds by (simp add: rx_view_def refill_one_def upd_desc_def new_entry_def Let_def update_zip)
  also have "\<dots> = (ring_view (rr_cons (rn_rx s)) ?z)[rx_gap s := new_entry E ?i s]"
    unfolding i using ds assms(2) by (intro ring_view_update) simp_all
  finally have "rx_view (refill_one E s) = (rx_view s)[rx_gap s := new_entry E ?i s]"
    using ds by (simp add: rx_view_def)
  moreover have "rx_gap (refill_one E s) = Suc (rx_gap s)"
    using assms(2) gap_Suc [of "rr_prod (rn_rx s)" "rr_cons (rn_rx s)"] by (simp add: rx_gap_def)
  ultimately show ?thesis by blast
qed

lemma list_all_tl: "list_all P xs \<Longrightarrow> list_all P (tl xs)"
  by (cases xs) simp_all

lemma refill_one_ok:
  assumes "rx_ok s" "rx_fifo s" "rx_gap s < 4"
  shows "rx_ok (refill_one E s) \<and> rx_fifo (refill_one E s)"
proof -
  from refill_one_view [OF assms(1,3)] obtain idx where
    g: "rx_gap (refill_one E s) = Suc (rx_gap s)" and
    v: "rx_view (refill_one E s) = (rx_view s)[rx_gap s := new_entry E idx s]" by blast
  have l: "length (rx_view s) = 4" using rx_view_length [OF assms(1)] .
  have t: "take (Suc (rx_gap s)) ((rx_view s)[rx_gap s := new_entry E idx s]) = take (rx_gap s) (rx_view s) @ [new_entry E idx s]"
    using l assms(3) by (simp add: take_Suc_conv_app_nth)
  have d: "drop (Suc (rx_gap s)) ((rx_view s)[rx_gap s := new_entry E idx s]) = tl (drop (rx_gap s) (rx_view s))"
    by (subst drop_update_cancel) (simp_all add: drop_Suc drop_tl)
  have "rx_used (new_entry E idx s)" by (simp add: rx_used_def new_entry_def)
  then have "rx_ok (refill_one E s)"
    using assms(1,3) unfolding rx_ok_def g v t d
    by (auto simp: refill_one_def upd_desc_def Let_def intro: list_all_tl)
  moreover have "rx_fifo (refill_one E s)"
    using assms(2) unfolding rx_fifo_def ring_ids_def g v t
    by (simp add: handed_def refill_one_def Let_def new_entry_def)
  ultimately show ?thesis ..
qed

lemma refill_loop_ok:
  assumes "rx_ok s" "rx_fifo s"
  shows "fst (refill_loop E s) = OK \<and> rx_ok (snd (refill_loop E s)) \<and> rx_fifo (snd (refill_loop E s)) \<and>
    handed (snd (refill_loop E s)) = handed s \<and>
    ((\<forall>t. re_alloc_iob E t RTL_RX_MAX_LEN) \<longrightarrow> rx_gap (snd (refill_loop E s)) = 4)"
  using assms
proof (induction E s rule: refill_loop.induct)
  case (1 E s)
  from 1(2) obtain ds where ds: "rr_desc (rn_rx s) = Some ds" "length ds = 4" "length (rn_rx_iobuf s) = 4" "rx_gap s \<le> 4"
    by (auto simp: rx_ok_def)
  have f: "rx_fifo (rtl_tick s)" using 1(3) by (simp add: rx_fifo_def handed_def)
  show ?case
  proof (cases "rx_gap s < 4 \<and> re_alloc_iob E (rn_clk s) RTL_RX_MAX_LEN")
    case True
    let ?i = "unat (rr_prod (rn_rx s)) mod 4"
    have "?i = (unat (rr_cons (rn_rx s)) + rx_gap s) mod 4" unfolding rx_gap_def by (rule slot_offset)
    then have "rx_view s ! rx_gap s = (ds ! ?i, rn_rx_iobuf s ! ?i)"
      using ds True by (simp add: rx_view_def nth_ring_view)
    moreover have "rx_free (rx_view s ! rx_gap s)"
      using 1(2) True rx_view_length [OF 1(2)] by (auto simp: rx_ok_def list_all_length dest!: spec [of _ 0])
    ultimately have free: "rn_rx_iobuf s ! ?i = None" by (simp add: rx_free_def)
    have "\<not> 4 \<le> ?i" by (simp add: not_le)
    then have eq: "refill_loop E s = refill_loop E (refill_one E (rtl_tick s))"
      using True ds free by (subst refill_loop.simps) (simp add: rx_gap_def Let_def)
    have ok: "rx_ok (refill_one E (rtl_tick s))" "rx_fifo (refill_one E (rtl_tick s))"
      using refill_one_ok [of "rtl_tick s" E] 1(2) f True by simp_all
    have h: "handed (refill_one E (rtl_tick s)) = handed s" by (simp add: handed_def refill_one_def Let_def)
    have "?i < length ds" "?i < length (rn_rx_iobuf s)" using ds by simp_all
    with 1(1) [OF _ _ refl ds(1) _ _ ok] True free h show ?thesis
      unfolding eq by (simp add: rx_gap_def)
  next
    case False
    then have "refill_loop E s = (OK, if rx_gap s < 4 then rtl_tick s else s)"
      by (subst refill_loop.simps) (auto simp: rx_gap_def)
    then show ?thesis using False 1(2,3) f ds(4) by (auto simp: handed_def)
  qed
qed

lemma size_mask: "unat (x :: u16) \<le> 1526 \<Longrightarrow> unat (x AND RTL_DESC_SIZE_MASK) = unat x"
proof -
  assume "unat x \<le> 1526"
  have "RTL_DESC_SIZE_MASK = mask 14" by (simp add: mask_eq_exp_minus_1)
  then have "unat (x AND RTL_DESC_SIZE_MASK) = unat (take_bit 14 x)" by (simp only: take_bit_eq_mask)
  also have "\<dots> = unat x" using \<open>unat x \<le> 1526\<close> by (simp add: unsigned_take_bit_eq take_bit_nat_eq_self_iff)
  finally show ?thesis .
qed

text \<open>Taking hands the oldest buffer over and frees its entry.\<close>

lemma rx_take_ok:
  assumes "dma_ok E" "rx_ok s" "rx_fifo s" "rx_gap s \<noteq> 0" "rx_take E s = ((r, taken), s')"
  shows "r = OK \<and> rx_ok s' \<and> rx_fifo s' \<and> rx_gap s' = (if taken then rx_gap s - 1 else rx_gap s)"
proof -
  let ?u = "sync E s"
  have u: "rx_ok ?u" "ring_ids ?u = ring_ids s" "handed ?u = handed s" using sync_rx_ok [OF assms(1,2)] by simp_all
  then obtain ds where ds: "rr_desc (rn_rx ?u) = Some ds" "length ds = 4" "length (rn_rx_iobuf ?u) = 4"
    by (auto simp: rx_ok_def)
  have g: "rx_gap ?u = rx_gap s" by (simp add: rx_gap_def)
  have gap: "rx_gap s \<le> 4" using assms(2) by (simp add: rx_ok_def)
  let ?i = "unat (rr_cons (rn_rx s)) mod 4"
  have i: "?i < 4" by simp
  let ?z = "zip ds (rn_rx_iobuf ?u)"
  have v: "rx_view ?u = ring_view (rr_cons (rn_rx s)) ?z" using ds by (simp add: rx_view_def)
  have v0: "rx_view ?u ! 0 = (ds ! ?i, rn_rx_iobuf ?u ! ?i)" using ds by (simp add: v nth_ring_view)
  have "rx_used (rx_view ?u ! 0)"
    using u(1) assms(4) rx_view_length [OF u(1)] by (auto simp: rx_ok_def list_all_length g)
  then obtain iob where iob: "rn_rx_iobuf ?u ! ?i = Some iob" "length (ib_data iob) = RTL_RX_MAX_LEN"
    and len: "\<not> own (ds ! ?i) \<Longrightarrow> 4 \<le> unat (rd_length (ds ! ?i)) \<and> unat (rd_length (ds ! ?i)) \<le> RTL_RX_MAX_LEN"
    by (auto simp: v0 rx_used_def)
  show ?thesis
  proof (cases "own (ds ! ?i)")
    case True
    then have "r = OK" "\<not> taken" "s' = ?u"
      using assms(5) ds i by (auto simp: rx_take_def Let_def own_def)
    then show ?thesis using u g assms(3) by (simp add: rx_fifo_def)
  next
    case False
    let ?n = "unat (rd_length (ds ! ?i))"
    let ?e = "(ds ! ?i, None) :: realtek_descriptor \<times> io_buffer option"
    define ev where "ev = (if rd_flags (ds ! ?i) AND RTL_DESC_RES \<noteq> 0 then NetRxErr (Some (ib_id iob)) EIO
        else NetRx (ib_id iob) (take (?n - 4) (ib_data iob)))"
    have ev: "handed_id ev = [ib_id iob]" by (simp add: ev_def)
    have fits: "\<not> RTL_RX_MAX_LEN < ?n - 4" using len [OF False] by arith
    have "((r, taken), s') = ((OK, True), (net_call ev (?u\<lparr>rn_rx_iobuf := (rn_rx_iobuf ?u)[?i := None]\<rparr>))
         \<lparr>rn_rx := (rn_rx ?u)\<lparr>rr_cons := rr_cons (rn_rx s) + 1\<rparr>\<rparr>)"
      using assms(5) ds i iob False len [OF False] fits size_mask [of "rd_length (ds ! ?i)"]
      by (simp add: rx_take_def Let_def own_def net_call_def ev_def)
    then have taken: "r = OK" "taken"
      and s': "s' = (net_call ev (?u\<lparr>rn_rx_iobuf := (rn_rx_iobuf ?u)[?i := None]\<rparr>))
         \<lparr>rn_rx := (rn_rx ?u)\<lparr>rr_cons := rr_cons (rn_rx s) + 1\<rparr>\<rparr>" by simp_all
    let ?v = "rx_view ?u"
    have l: "length ?v = 4" by (rule rx_view_length [OF u(1)])
    then obtain x vs where vs: "?v = x # vs" "length vs = 3" by (cases ?v) auto
    have "rx_view s' = ring_view (rr_cons (rn_rx s) + 1) (?z[?i := ?e])"
      using ds i by (simp add: s' rx_view_def net_call_def update_zip)
    also have "\<dots> = rotate1 ((ring_view (rr_cons (rn_rx s)) ?z)[0 := ?e])"
      using ds ring_view_update [of ?z 0 "rr_cons (rn_rx s)" ?e] by (simp add: ring_view_Suc)
    finally have v': "rx_view s' = vs @ [?e]" using vs by (simp add: v [symmetric])
    have g': "rx_gap s' = rx_gap s - 1"
      using assms(4) gap_pos [of "rr_prod (rn_rx s)" "rr_cons (rn_rx s)"] by (simp add: s' rx_gap_def net_call_def)
    have td: "take (rx_gap s') (rx_view s') = take (rx_gap s - 1) vs" "drop (rx_gap s') (rx_view s') = drop (rx_gap s - 1) vs @ [?e]"
      using vs gap by (simp_all add: v' g')
    have uv: "take (rx_gap s) ?v = x # take (rx_gap s - 1) vs" "drop (rx_gap s) ?v = drop (rx_gap s - 1) vs"
      using assms(4) by (cases "rx_gap s"; simp add: vs)+
    have "rx_ok s'"
      using u(1) False ds gap unfolding rx_ok_def td unfolding g' by (auto simp: g uv s' net_call_def rx_free_def)
    moreover have "ring_ids s = ib_id iob # ring_ids s'"
      using u(2) v0 iob(1) by (simp add: ring_ids_def td g uv) (simp add: vs)
    then have "rx_fifo s'"
      using assms(3) u(3) ev by (simp add: rx_fifo_def handed_def s' net_call_def)
    ultimately show ?thesis using taken g' by simp
  qed
qed

lemma rx_gap_0: "rx_gap s = 0 \<longleftrightarrow> rr_cons (rn_rx s) = rr_prod (rn_rx s)"
  by (simp add: rx_gap_def unat_eq_0) (simp add: eq_commute)

lemma poll_rx_loop_ok:
  assumes "dma_ok E" "rx_ok s" "rx_fifo s"
  shows "fst (poll_rx_loop E s) = OK \<and> rx_ok (snd (poll_rx_loop E s)) \<and> rx_fifo (snd (poll_rx_loop E s))"
  using assms
proof (induction E s rule: poll_rx_loop.induct)
  case (1 E s)
  show ?case
  proof (cases "rr_cons (rn_rx s) = rr_prod (rn_rx s)")
    case True
    then show ?thesis using 1 by (subst (1 2 3) poll_rx_loop.simps) simp
  next
    case False
    obtain r taken s' where t: "rx_take E s = ((r, taken), s')" by (metis surj_pair)
    have "rx_gap s \<noteq> 0" using False by (simp add: rx_gap_0)
    from rx_take_ok [OF 1(2-4) this t] have ok: "r = OK" "rx_ok s'" "rx_fifo s'" by simp_all
    show ?thesis
    proof (cases taken)
      case True
      then have "poll_rx_loop E s = poll_rx_loop E s'"
        using False t ok(1) by (subst poll_rx_loop.simps) simp
      then show ?thesis using 1(1) [OF False] t ok True 1(2) by simp
    next
      case untaken: False
      then have "poll_rx_loop E s = (OK, s')" using False t ok(1) by (subst poll_rx_loop.simps) simp
      then show ?thesis using ok by simp
    qed
  qed
qed

section \<open>The transmit ring\<close>

definition tx_gap :: "realtek_nic \<Rightarrow> nat" where
  "tx_gap s = unat (rr_prod (rn_tx s) - rr_cons (rn_tx s))"

definition tx_view :: "realtek_nic \<Rightarrow> realtek_descriptor list" where
  "tx_view s = ring_view (rr_cons (rn_tx s)) (the (rr_desc (rn_tx s)))"

text \<open>The network core's queue is the used part of the ring: each entry describes the buffer at the same place
  of the queue. Free entries do not belong to the device.\<close>

definition describes :: "rtl_env \<Rightarrow> realtek_descriptor \<Rightarrow> io_buffer \<Rightarrow> bool" where
  "describes E d b \<longleftrightarrow> rd_address d = re_iob_dma E (ib_id b) \<and> rd_length d = of_nat (length (ib_data b))"

definition tx_ok :: "rtl_env \<Rightarrow> realtek_nic \<Rightarrow> bool" where
  "tx_ok E s \<longleftrightarrow> \<not> rn_legacy s \<and> (\<exists>ds. rr_desc (rn_tx s) = Some ds \<and> length ds = 4) \<and> tx_gap s \<le> 4 \<and>
     list_all2 (describes E) (take (tx_gap s) (tx_view s)) (rn_tx_queue s) \<and>
     list_all (\<lambda>d. \<not> own d) (drop (tx_gap s) (tx_view s))"

lemma device_tx_ok:
  assumes "tx_ok E s"
  shows "tx_ok E (device a s)"
proof (cases a)
  case (TxRelease i)
  from assms obtain ds where ds: "rr_desc (rn_tx s) = Some ds" "length ds = 4" by (auto simp: tx_ok_def)
  show ?thesis
  proof (cases "owned (rr_desc (rn_tx s)) i")
    case True
    define f :: "realtek_descriptor \<Rightarrow> realtek_descriptor" where "f = (\<lambda>d. d\<lparr>rd_flags := rd_flags d AND NOT RTL_DESC_OWN\<rparr>)"
    have i: "i < 4" using True ds by (auto simp: owned_def)
    from slot_ex [OF this, of "unat (rr_cons (rn_tx s))"] obtain k where
      k: "k < 4" "i = (unat (rr_cons (rn_tx s)) + k) mod 4" by blast
    have "tx_view s ! k = ds ! i" using ds k by (simp add: tx_view_def nth_ring_view)
    then have v: "tx_view (device a s) = (tx_view s)[k := f (tx_view s ! k)]"
      using True TxRelease ds ring_view_update [OF ds(2) k(1)] k(2) by (simp add: tx_view_def upd_desc_def f_def)
    have f: "describes E (f d) b = describes E d b" "\<not> own (f d)" for d b
      by (simp_all add: f_def describes_def own_def and.assoc)
    have g: "tx_gap (device a s) = tx_gap s" by (simp add: tx_gap_def)
    have l: "length (tx_view s) = 4" using ds by (simp add: tx_view_def)
    have "list_all2 (describes E) (take (tx_gap s) ((tx_view s)[k := f (tx_view s ! k)])) (rn_tx_queue s)"
      using assms l k(1) by (auto simp: tx_ok_def list_all2_conv_all_nth nth_list_update f)
    moreover have "list_all (\<lambda>d. \<not> own d) (drop (tx_gap s) ((tx_view s)[k := f (tx_view s ! k)]))"
      using assms l k(1) by (auto simp: tx_ok_def list_all_length nth_list_update f(2))
    moreover have "\<exists>ds'. rr_desc (rn_tx (device a s)) = Some ds' \<and> length ds' = 4"
      using True TxRelease ds by (simp add: upd_desc_def)
    ultimately show ?thesis using assms unfolding tx_ok_def g v by simp
  qed (use assms TxRelease in simp)
qed (use assms in \<open>auto simp: tx_ok_def tx_gap_def tx_view_def\<close>)

lemma sync_tx_ok: "tx_ok E s \<Longrightarrow> tx_ok E (sync E' s)"
proof -
  have "tx_ok E t \<Longrightarrow> tx_ok E (fold device as t)" for as t
    by (induction as arbitrary: t) (simp_all add: device_tx_ok)
  moreover assume "tx_ok E s"
  then have "tx_ok E (rtl_tick s)" by (simp add: tx_ok_def tx_gap_def tx_view_def)
  ultimately show ?thesis by (simp add: sync_def)
qed

text \<open>Transmitting adds the buffer behind the used entries; the descriptor it writes was free.\<close>

lemma own_tx_descriptor [simp]: "own (tx_descriptor E i b)" "describes E (tx_descriptor E i b) b"
  by (simp_all add: own_def tx_descriptor_def describes_def)

lemma transmit_ok:
  assumes ok: "tx_ok E s" and t: "realtek_transmit E b s = (r, s')" and map_ok: "\<And>n. re_map_tx E n \<noteq> Fault"
  shows "r \<noteq> Fault \<and> tx_ok E s' \<and> rn_rx s' = rn_rx s \<and> rn_rx_iobuf s' = rn_rx_iobuf s \<and> rn_next s' = rn_next s \<and>
    handed s' = handed s \<and>
    (if tx_gap s = 4 then r = OK \<and> s' = net_call (NetTxDefer b) s
     else r = re_map_tx E (rn_clk s) \<and> rn_tx_queue s' = (if r = OK then rn_tx_queue s @ [b] else rn_tx_queue s))"
proof (cases "tx_gap s = 4")
  case True
  then have "r = OK" "s' = net_call (NetTxDefer b) s" using t by (simp_all add: realtek_transmit_def tx_gap_def)
  then show ?thesis using True ok by (simp add: tx_ok_def tx_gap_def tx_view_def net_call_def handed_def)
next
  case False
  from ok obtain ds where ds: "rr_desc (rn_tx s) = Some ds" "length ds = 4" "tx_gap s < 4" "\<not> rn_legacy s"
    using False by (auto simp: tx_ok_def)
  show ?thesis
  proof (cases "re_map_tx E (rn_clk s)")
    case OK
    let ?i = "unat (rr_prod (rn_tx s)) mod 4"
    have i: "?i = (unat (rr_cons (rn_tx s)) + tx_gap s) mod 4" unfolding tx_gap_def by (rule slot_offset)
    have "\<not> 4 \<le> ?i" by (simp add: not_le)
    then have "r = OK \<and> rn_tx s' = (rn_tx s)\<lparr>rr_prod := rr_prod (rn_tx s) + 1, rr_desc := Some (ds[?i := tx_descriptor E ?i b])\<rparr> \<and>
        rn_tx_queue s' = rn_tx_queue s @ [b] \<and> rn_rx s' = rn_rx s \<and> rn_rx_iobuf s' = rn_rx_iobuf s \<and>
        rn_net s' = rn_net s \<and> rn_next s' = rn_next s \<and> rn_legacy s' = rn_legacy s"
      using t OK ds
      by (auto simp: realtek_transmit_def tx_gap_def Let_def post_tx_def write_reg_def upd_desc_def split: if_splits)
    then have s': "r = OK" "rn_tx s' = (rn_tx s)\<lparr>rr_prod := rr_prod (rn_tx s) + 1, rr_desc := Some (ds[?i := tx_descriptor E ?i b])\<rparr>"
      "rn_tx_queue s' = rn_tx_queue s @ [b]" "rn_rx s' = rn_rx s" "rn_rx_iobuf s' = rn_rx_iobuf s"
      "rn_net s' = rn_net s" "rn_next s' = rn_next s" "rn_legacy s' = rn_legacy s" by simp_all
    have "tx_view s' = ring_view (rr_cons (rn_tx s)) (ds[?i := tx_descriptor E ?i b])"
      using ds by (simp add: tx_view_def s')
    then have v: "tx_view s' = (tx_view s)[tx_gap s := tx_descriptor E ?i b]"
      unfolding i using ring_view_update [OF ds(2,3)] ds(1) by (simp add: tx_view_def)
    have g: "tx_gap s' = Suc (tx_gap s)"
      using ds(3) gap_Suc [of "rr_prod (rn_tx s)" "rr_cons (rn_tx s)"] by (simp add: tx_gap_def s')
    have l: "length (tx_view s) = 4" using ds by (simp add: tx_view_def)
    have tk: "take (Suc (tx_gap s)) (tx_view s') = take (tx_gap s) (tx_view s) @ [tx_descriptor E ?i b]"
      using l ds(3) by (simp add: v take_Suc_conv_app_nth)
    have dr: "drop (Suc (tx_gap s)) (tx_view s') = tl (drop (tx_gap s) (tx_view s))"
      unfolding v by (subst drop_update_cancel) (simp_all add: drop_Suc drop_tl)
    have "tx_ok E s'"
      using ok ds unfolding tx_ok_def g tk dr s'(3) by (auto simp: list_all2_appendI list_all_tl s'(2,8))
    then show ?thesis using False s' OK by (simp add: handed_def)
  next
    case (Err e)
    then have "r = Err e" "s' = rtl_tick s" using t ds(3,4) by (auto simp: realtek_transmit_def tx_gap_def Let_def)
    then show ?thesis using False Err ok by (simp add: tx_ok_def tx_gap_def tx_view_def handed_def)
  qed (use map_ok in simp)
qed

text \<open>Completing takes the oldest buffer of the queue; its descriptor must have been released.\<close>

fun done_id :: "net_event \<Rightarrow> nat list" where
  "done_id (NetTxDone i) = [i]"
| "done_id _ = []"

text \<open>The transmitted buffers in the order in which they were accepted: the completed ones, then those in the ring.\<close>

definition tx_order :: "realtek_nic \<Rightarrow> nat list" where
  "tx_order s = concat (map done_id (rn_net s)) @ map ib_id (rn_tx_queue s)"

lemma tx_gap_queue: "tx_ok E s \<Longrightarrow> tx_gap s = length (rn_tx_queue s)"
  by (auto simp: tx_ok_def tx_view_def dest!: list_all2_lengthD)

lemma complete_next_ok:
  assumes ok: "tx_ok E s" and g: "tx_gap s \<noteq> 0" and o: "\<not> own (tx_view s ! 0)"
  shows "tx_ok E (complete_next s) \<and> tx_order (complete_next s) = tx_order s \<and>
    rn_rx (complete_next s) = rn_rx s \<and> rn_rx_iobuf (complete_next s) = rn_rx_iobuf s \<and>
    rn_next (complete_next s) = rn_next s \<and> rn_legacy (complete_next s) = rn_legacy s \<and> handed (complete_next s) = handed s"
proof -
  from ok obtain ds where ds: "rr_desc (rn_tx s) = Some ds" "length ds = 4" "tx_gap s \<le> 4" by (auto simp: tx_ok_def)
  then have "length (tx_view s) = 4" by (simp add: tx_view_def)
  then obtain x vs where v: "tx_view s = x # vs" "length vs = 3"
    by (cases "tx_view s") auto
  obtain b bs where q: "rn_tx_queue s = b # bs"
    using tx_gap_queue [OF ok] g by (cases "rn_tx_queue s") auto
  let ?s = "complete_next s"
  have c: "rn_tx ?s = (rn_tx s)\<lparr>rr_cons := rr_cons (rn_tx s) + 1\<rparr>" "rn_tx_queue ?s = bs"
    "rn_net ?s = rn_net s @ [NetTxDone (ib_id b)]" "rn_rx ?s = rn_rx s" "rn_rx_iobuf ?s = rn_rx_iobuf s"
    "rn_next ?s = rn_next s" "rn_legacy ?s = rn_legacy s"
    by (simp_all add: complete_next_def q net_call_def)
  have v': "tx_view ?s = vs @ [x]"
    using ds v by (simp add: tx_view_def c ring_view_Suc)
  have g': "tx_gap ?s = tx_gap s - 1"
    using g gap_pos [of "rr_prod (rn_tx s)" "rr_cons (rn_tx s)"] by (simp add: c tx_gap_def)
  have uv: "take (tx_gap s) (tx_view s) = x # take (tx_gap s - 1) vs" "drop (tx_gap s) (tx_view s) = drop (tx_gap s - 1) vs"
    using g by (cases "tx_gap s"; simp add: v)+
  have "take (tx_gap ?s) (tx_view ?s) = take (tx_gap s - 1) vs" "drop (tx_gap ?s) (tx_view ?s) = drop (tx_gap s - 1) vs @ [x]"
    using v ds(3) by (simp_all add: v' g')
  then have "tx_ok E ?s" using ok o ds uv v by (auto simp: tx_ok_def g' c q)
  moreover have "tx_order ?s = tx_order s" by (simp add: tx_order_def c q)
  ultimately show ?thesis by (simp add: c handed_def)
qed

text \<open>What the loops need of the state, and that nothing else in the state matters.\<close>

definition ring_ok :: "rtl_env \<Rightarrow> realtek_nic \<Rightarrow> bool" where
  "ring_ok E s \<longleftrightarrow> rx_ok s \<and> rx_fifo s \<and> tx_ok E s"

lemma ring_ok_frame:
  assumes "rn_rx s' = rn_rx s" "rn_rx_iobuf s' = rn_rx_iobuf s" "rn_tx s' = rn_tx s" "rn_tx_queue s' = rn_tx_queue s"
    "rn_legacy s' = rn_legacy s" "rn_next s' = rn_next s" "handed s' = handed s"
  shows "ring_ok E s' = ring_ok E s"
  using assms by (simp add: ring_ok_def rx_ok_def rx_fifo_def tx_ok_def rx_gap_def tx_gap_def rx_view_def tx_view_def ring_ids_def)

lemma sync_ring_ok: "dma_ok E' \<Longrightarrow> ring_ok E s \<Longrightarrow> ring_ok E (sync E' s) \<and> tx_order (sync E' s) = tx_order s"
  using sync_rx_ok [of E' s] sync_tx_ok [of E s E'] by (simp add: ring_ok_def rx_fifo_def tx_order_def)

lemma tx_complete_ok:
  assumes "dma_ok E'" "ring_ok E s" "tx_gap s \<noteq> 0" "tx_complete E' s = ((r, fin), s')"
  shows "r = OK \<and> ring_ok E s' \<and> tx_order s' = tx_order s \<and> tx_gap s' = tx_gap s \<and> (fin \<longrightarrow> \<not> own (tx_view s' ! 0))"
proof -
  have u: "ring_ok E (sync E' s)" "tx_order (sync E' s) = tx_order s" using sync_ring_ok [OF assms(1,2)] by simp_all
  then obtain ds where ds: "rr_desc (rn_tx (sync E' s)) = Some ds" "length ds = 4" "\<not> rn_legacy s"
    by (auto simp: ring_ok_def tx_ok_def)
  let ?i = "unat (rr_cons (rn_tx s)) mod 4"
  have "\<not> 4 \<le> ?i" by (simp add: not_le)
  then have c: "r = OK" "s' = sync E' s" "fin = (\<not> own (ds ! ?i))"
    using assms(4) ds by (auto simp: tx_complete_def Let_def own_def)
  have "tx_view s' ! 0 = ds ! ?i" using ds by (simp add: c tx_view_def nth_ring_view)
  then show ?thesis using c u by (simp add: tx_gap_def)
qed

lemma poll_tx_loop_ok:
  assumes "dma_ok E" "ring_ok E' s"
  shows "fst (poll_tx_loop E s) = OK \<and> ring_ok E' (snd (poll_tx_loop E s)) \<and> tx_order (snd (poll_tx_loop E s)) = tx_order s"
  using assms
proof (induction E s rule: poll_tx_loop.induct)
  case (1 E s)
  show ?case
  proof (cases "rr_cons (rn_tx s) = rr_prod (rn_tx s)")
    case True
    then show ?thesis using 1 by (subst (1 2 3) poll_tx_loop.simps) simp
  next
    case False
    obtain r fin s' where t: "tx_complete E s = ((r, fin), s')" by (metis surj_pair)
    have "tx_gap s \<noteq> 0" using False by (simp add: tx_gap_def unat_eq_0)
    from tx_complete_ok [OF 1(2,3) this t] have ok: "r = OK" "ring_ok E' s'" "tx_order s' = tx_order s" "tx_gap s' \<noteq> 0"
      "fin \<Longrightarrow> \<not> own (tx_view s' ! 0)" using \<open>tx_gap s \<noteq> 0\<close> by simp_all
    show ?thesis
    proof (cases fin)
      case True
      from complete_next_ok [of E' s'] ok True have n: "ring_ok E' (complete_next s')" "tx_order (complete_next s') = tx_order s"
        by (simp_all add: ring_ok_def rx_ok_def rx_fifo_def rx_gap_def rx_view_def ring_ids_def)
      have "poll_tx_loop E s = poll_tx_loop E (complete_next s')"
        using False t ok(1) True by (subst poll_tx_loop.simps) simp
      then show ?thesis using 1(1) [OF False, of "(OK, True)" s'] t ok(1) True n 1(2) by simp
    next
      case unfinished: False
      then have "poll_tx_loop E s = (OK, s')" using False t ok(1) by (subst poll_tx_loop.simps) simp
      then show ?thesis using ok by simp
    qed
  qed
qed

end
