(* ===== verification/Realtek_Props.thy ===== *)
theory Realtek_Props
  imports Realtek_Inv
begin

text \<open>
  The network driver as a state machine (transmit, poll, interrupt masking, on an opened device), the
  properties of its rings in every reachable state, and the legacy receive buffer.
\<close>

section \<open>The machine\<close>

inductive rtl_step :: "rtl_env \<Rightarrow> realtek_nic \<Rightarrow> realtek_nic \<Rightarrow> bool" for E where
  transmit: "realtek_transmit E b s = (r, s') \<Longrightarrow> rtl_step E s s'"
| poll: "realtek_poll E s = Some (r, s') \<Longrightarrow> rtl_step E s s'"
| irq: "rtl_step E s (realtek_irq enable s)"

inductive_cases rtl_stepE: "rtl_step E s s'"

definition rtl_reachable :: "rtl_env \<Rightarrow> realtek_nic \<Rightarrow> bool" where
  "rtl_reachable E s \<longleftrightarrow> (\<exists>s0 s1. realtek_probe E = (OK, Some s0) \<and> realtek_open E s0 = (OK, s1) \<and> (rtl_step E)\<^sup>*\<^sup>* s1 s)"

text \<open>What is assumed of the device and of DMA mapping: frames have the size of a frame, and mapping makes no
  stray access.\<close>

definition rtl_env_ok :: "rtl_env \<Rightarrow> bool" where
  "rtl_env_ok E \<longleftrightarrow> dma_ok E \<and> (\<forall>n. re_map_tx E n \<noteq> Fault)"

lemma handed_simps [simp]:
  "handed (write_reg w r v s) = handed s" "handed (rtl_tick s) = handed s"
  "handed_id e = [] \<Longrightarrow> handed (net_call e s) = handed s"
  by (simp_all add: handed_def write_reg_def rtl_tick_def net_call_def)

lemma write_reg_frame [simp]:
  "rn_rx (write_reg w r v s) = rn_rx s" "rn_rx_iobuf (write_reg w r v s) = rn_rx_iobuf s" "rn_tx (write_reg w r v s) = rn_tx s"
  "rn_tx_queue (write_reg w r v s) = rn_tx_queue s" "rn_legacy (write_reg w r v s) = rn_legacy s"
  "rn_next (write_reg w r v s) = rn_next s" "rn_net (write_reg w r v s) = rn_net s" "rn_have_ocp (write_reg w r v s) = rn_have_ocp s"
  by (simp_all add: write_reg_def)

lemma net_call_frame [simp]:
  "rn_rx (net_call e s) = rn_rx s" "rn_rx_iobuf (net_call e s) = rn_rx_iobuf s" "rn_tx (net_call e s) = rn_tx s"
  "rn_tx_queue (net_call e s) = rn_tx_queue s" "rn_legacy (net_call e s) = rn_legacy s" "rn_next (net_call e s) = rn_next s"
  by (simp_all add: net_call_def)

lemma ring_ok_simps [simp]:
  "ring_ok E (write_reg w r v s) = ring_ok E s" "ring_ok E (rtl_tick s) = ring_ok E s"
  "handed_id e = [] \<Longrightarrow> ring_ok E (net_call e s) = ring_ok E s"
  by (rule ring_ok_frame; simp)+

lemma regs_ring: "regs_step s t \<Longrightarrow> ring_ok E t = ring_ok E s" "regs_step s t \<Longrightarrow> tx_order t = tx_order s"
  by (rule ring_ok_frame; simp add: regs_frame handed_def) (simp add: tx_order_def regs_frame)

lemma check_link_ok [simp]: "ring_ok E (realtek_check_link E' s) = ring_ok E s" "tx_order (realtek_check_link E' s) = tx_order s"
proof -
  from regs_check_link [of s E'] obtain t up where t: "regs_step s t" "realtek_check_link E' s = net_call (if up then LinkUp else LinkDown) t"
    by blast
  show "ring_ok E (realtek_check_link E' s) = ring_ok E s" using t by (simp add: regs_ring)
  show "tx_order (realtek_check_link E' s) = tx_order s" using t regs_ring(2) [OF t(1)] by (simp add: tx_order_def)
qed

lemma refill_frame:
  "rn_tx (snd (refill_loop E s)) = rn_tx s \<and> rn_tx_queue (snd (refill_loop E s)) = rn_tx_queue s \<and>
   rn_legacy (snd (refill_loop E s)) = rn_legacy s \<and> rn_net (snd (refill_loop E s)) = rn_net s"
proof (induction E s rule: refill_loop.induct)
  case (1 E s)
  let ?i = "unat (rr_prod (rn_rx s)) mod 4"
  show ?case
  proof (cases "refill_loop E s \<in> {(OK, s), (OK, rtl_tick s), (Fault, s)}")
    case False
    then obtain ds where c: "unat (rr_prod (rn_rx s) - rr_cons (rn_rx s)) < 4" "\<not> \<not> re_alloc_iob E (rn_clk s) RTL_RX_MAX_LEN"
      "rr_desc (rn_rx s) = Some ds" "\<not> (length ds \<le> ?i \<or> length (rn_rx_iobuf s) \<le> ?i)" "\<not> rn_rx_iobuf s ! ?i \<noteq> None"
      using refill_loop.simps [of E s] by (auto simp: Let_def split: if_splits option.splits)
    then have "refill_loop E s = refill_loop E (refill_one E (rtl_tick s))"
      by (subst refill_loop.simps) (simp add: Let_def)
    with 1 [OF c(1,2) refl c(3-5)] show ?thesis by (simp add: refill_one_def Let_def)
  qed auto
qed

lemma refill_ok:
  assumes "ring_ok E' s"
  shows "fst (realtek_refill_rx E s) = OK \<and> ring_ok E' (snd (realtek_refill_rx E s)) \<and>
    tx_order (snd (realtek_refill_rx E s)) = tx_order s"
  using refill_loop_ok [of s E] refill_frame [of E s] assms
  by (auto simp: realtek_refill_rx_def ring_ok_def tx_ok_def tx_gap_def tx_view_def tx_order_def)

lemma rx_take_tx:
  assumes "tx_ok E' t" "rx_take E t = (r, t')"
  shows "tx_ok E' t' \<and> tx_order t' = tx_order t"
  using assms sync_tx_ok [of E' t E]
  by (auto simp: rx_take_def Let_def tx_ok_def tx_gap_def tx_view_def tx_order_def net_call_def split: if_splits option.splits)

lemma poll_rx_tx: "tx_ok E' s \<Longrightarrow> tx_ok E' (snd (poll_rx_loop E s)) \<and> tx_order (snd (poll_rx_loop E s)) = tx_order s"
proof (induction E s rule: poll_rx_loop.induct)
  case (1 E s)
  show ?case
  proof (cases "rr_cons (rn_rx s) = rr_prod (rn_rx s)")
    case True
    then have "poll_rx_loop E s = (OK, s)" by (subst poll_rx_loop.simps) simp
    then show ?thesis using 1 by simp
  next
    case False
    obtain r taken s' where t: "rx_take E s = ((r, taken), s')" by (metis surj_pair)
    note s' = rx_take_tx [OF 1(2) t]
    show ?thesis
    proof (cases "r = OK \<and> taken")
      case True
      then have "poll_rx_loop E s = poll_rx_loop E s'" using False t by (subst poll_rx_loop.simps) simp
      then show ?thesis using 1(1) [OF False] t True s' by simp
    next
      case stop: False
      then have "poll_rx_loop E s = (r, s')" using False t by (subst poll_rx_loop.simps) (auto split: rc.split)
      then show ?thesis using s' by simp
    qed
  qed
qed

lemma poll_rx_ok:
  assumes "dma_ok E" "ring_ok E' s"
  shows "fst (poll_rx_loop E s) = OK \<and> ring_ok E' (snd (poll_rx_loop E s)) \<and> tx_order (snd (poll_rx_loop E s)) = tx_order s"
  using poll_rx_loop_ok [of E s] poll_rx_tx [of E' s E] assms by (simp add: ring_ok_def)

text \<open>Polling always ends without a fault and keeps the rings; nothing that was accepted for transmission is lost or
  reordered.\<close>

lemma order_simps [simp]: "tx_order (write_reg w r v s) = tx_order s" "tx_order (rtl_tick s) = tx_order s"
  by (simp_all add: tx_order_def)

lemma poll_events_ok:
  assumes "dma_ok E" "ring_ok E' s"
  shows "\<exists>s'. poll_events E isr s = Some (OK, s') \<and> ring_ok E' s' \<and> tx_order s' = tx_order s"
proof -
  define P where "P = (\<lambda>t. ring_ok E' t \<and> tx_order t = tx_order s)"
  have leg: "P t \<Longrightarrow> \<not> rn_legacy t" for t by (simp add: P_def ring_ok_def rx_ok_def)
  have "P s" using assms(2) by (simp add: P_def)
  then obtain s3 where s3: "(if isr AND (RTL_IRQ_TER OR RTL_IRQ_TOK) \<noteq> 0 then realtek_poll_tx E s else (OK, s)) = (OK, s3)" "P s3"
    using poll_tx_loop_ok [OF assms(1), of E' s] by (metis P_def prod.collapse realtek_poll_tx_def)
  obtain s4 where s4: "(if isr AND (RTL_IRQ_RER OR RTL_IRQ_ROK) \<noteq> 0 then realtek_poll_rx E s3 else Some (OK, s3)) = Some (OK, s4)" "P s4"
    using s3(2) leg [OF s3(2)] poll_rx_ok [OF assms(1), of E' s3] by (metis P_def prod.collapse realtek_poll_rx_def)
  define s5 where "s5 = (if isr AND RTL_IRQ_PUN_LINKCHG \<noteq> 0 then realtek_check_link E s4 else s4)"
  have s5: "P s5" using s4(2) by (simp add: s5_def P_def)
  obtain s6 where s6: "realtek_refill_rx E s5 = (OK, s6)" "P s6"
    using s5 refill_ok [of E' s5 E] unfolding P_def by (cases "realtek_refill_rx E s5") auto
  have "poll_events E isr s = Some (OK, s6)"
    unfolding poll_events_def s3(1) Let_def prod.case s4(1) option.case s5_def [symmetric] s6(1) by simp
  then show ?thesis using s6(2) by (auto simp: P_def)
qed

lemma poll_ok:
  assumes "dma_ok E" "ring_ok E' s"
  shows "\<exists>s'. realtek_poll E s = Some (OK, s') \<and> ring_ok E' s' \<and> tx_order s' = tx_order s"
proof -
  let ?R = "if rn_have_ocp s then read_reg E 4 RTL_ISR_8125 s else read_reg E 2 RTL_ISR s"
  obtain isr s1 where i: "?R = (isr, s1)" by (metis surj_pair)
  have "regs_step s (snd ?R)" by (simp add: regs_read access_simps)
  then have s1: "ring_ok E' s1" "tx_order s1 = tx_order s" using i assms(2) regs_ring [of s s1] by simp_all
  let ?s2 = "if rn_have_ocp s1 then write_reg 4 RTL_ISR_8125 isr s1 else write_reg 2 RTL_ISR isr s1"
  have s2: "ring_ok E' ?s2" "tx_order ?s2 = tx_order s" using s1 by simp_all
  show ?thesis using poll_events_ok [OF assms(1) s2(1), of isr] s1 s2 unfolding realtek_poll_def i by simp
qed

section \<open>Reachable states\<close>

lemma transmit_ring_ok:
  assumes "rtl_env_ok E" "ring_ok E s" "realtek_transmit E b s = (r, s')"
  shows "r \<noteq> Fault \<and> ring_ok E s'"
  using transmit_ok [of E s b r s'] assms
  by (auto simp: ring_ok_def rtl_env_ok_def rx_ok_def rx_fifo_def rx_gap_def rx_view_def ring_ids_def tx_ok_def)

lemma rtl_life: "rtl_step E s s' \<Longrightarrow> life_step E s s'"
  by (auto elim!: rtl_stepE intro: life_step.intros)

lemma rtl_step_ring:
  assumes "rtl_env_ok E" "ring_ok E s" "rtl_step E s s'"
  shows "ring_ok E s'"
  using assms(3)
proof cases
  case (transmit b r)
  then show ?thesis using assms transmit_ring_ok by blast
next
  case (poll r)
  then show ?thesis using assms poll_ok [of E E s] by (auto simp: rtl_env_ok_def)
next
  case (irq enable)
  then show ?thesis using assms by (simp add: realtek_irq_def Let_def)
qed

interpretation rtl: invariant_machine "rtl_step E" "\<lambda>s. nic_ok s \<and> (rtl_env_ok E \<longrightarrow> rn_legacy s \<or> ring_ok E s)" for E
proof unfold_locales
  fix s s' assume i: "nic_ok s \<and> (rtl_env_ok E \<longrightarrow> rn_legacy s \<or> ring_ok E s)" and st: "rtl_step E s s'"
  have o: "op_step s s'" using life_op [of s E s'] rtl_life [OF st] i by simp
  then have "rn_legacy s' = rn_legacy s" by (simp add: op_step_def fixed_def)
  then show "nic_ok s' \<and> (rtl_env_ok E \<longrightarrow> rn_legacy s' \<or> ring_ok E s')" using i nic_ok_op [OF o] rtl_step_ring [OF _ _ st] by blast
qed

text \<open>A device that was just opened has all its entries free until the first refill.\<close>

lemma open_hardware_ok: "ring_ok E' (open_hardware E s) = ring_ok E' s"
proof -
  have rd: "read_reg E 4 r t = (v, u) \<Longrightarrow> access_in 4 r \<Longrightarrow> ring_ok E' u = ring_ok E' t" for r t v u
    using regs_ring(1) [OF regs_read [OF regs_refl [of t]], of 4 r E' E] by simp
  show ?thesis unfolding open_hardware_def Let_def
    by (auto split: prod.split dest!: rd simp: regs_ring(1) [OF regs_hw_start] access_simps)
qed

lemma ring_view_replicate [simp]: "ring_view c (replicate n x) = replicate n x"
  by (rule nth_equalityI) (simp_all add: ring_view_def nth_rotate)

lemma fresh_quiet: "fresh s \<Longrightarrow> handed s = [] \<and> concat (map done_id (rn_net s)) = []"
proof -
  have "quiet e \<Longrightarrow> handed_id e = [] \<and> done_id e = []" for e
    by (cases e) (auto simp: quiet_def)
  then show "fresh s \<Longrightarrow> ?thesis" by (auto simp: fresh_def handed_def list_all_iff)
qed

lemma create_rings_ok:
  assumes "fresh s" "\<not> rn_legacy s" "realtek_create_ring E TX s = (OK, s1)" "realtek_create_ring E RX s1 = (OK, s2)"
  shows "ring_ok E s2 \<and> \<not> rn_legacy s2"
proof -
  have n: "rn_rx_iobuf new_nic = replicate 4 None" "rn_next new_nic = 0" "rn_tx_queue new_nic = []" by (simp_all add: new_nic_def Let_def)
  have f: "rn_tx s = rn_tx new_nic" "rn_rx s = rn_rx new_nic" "rn_rx_iobuf s = replicate 4 None" "rn_next s = 0" "rn_tx_queue s = []"
    using assms(1) n by (simp_all add: fresh_def datapath_def)
  let ?d = "replicate 4 \<lparr>rd_length = 0, rd_flags = 0, rd_address = 0\<rparr>"
  have l: "rr_len (rn_tx new_nic) = 64" "rr_len (rn_rx new_nic) = 64" "rr_prod (rn_tx new_nic) = 0" "rr_cons (rn_tx new_nic) = 0"
    "rr_prod (rn_rx new_nic) = 0" "rr_cons (rn_rx new_nic) = 0" by (simp_all add: new_nic_def realtek_init_ring_def)
  have s2: "rn_tx s2 = (rn_tx s)\<lparr>rr_desc := Some ?d\<rparr>" "rn_rx s2 = (rn_rx s)\<lparr>rr_desc := Some ?d\<rparr>" "rn_rx_iobuf s2 = rn_rx_iobuf s"
    "rn_next s2 = rn_next s" "rn_tx_queue s2 = rn_tx_queue s" "rn_legacy s2 = rn_legacy s" "rn_net s2 = rn_net s"
    using assms(2-4) f l by (auto simp: realtek_create_ring_def Let_def split: option.splits)
  have "handed s2 = []" using fresh_quiet [OF assms(1)] s2 by (simp add: handed_def)
  then show ?thesis using s2 f l assms(2)
    by (simp add: ring_ok_def rx_ok_def rx_fifo_def tx_ok_def rx_gap_def tx_gap_def rx_view_def tx_view_def ring_ids_def
      rx_free_def own_def zip_replicate list_all_iff)
qed

lemma open_ok:
  assumes "fresh s" "\<not> rn_legacy s" "realtek_open E s = (OK, s0)"
  shows "ring_ok E s0"
proof -
  obtain s1 where s1: "realtek_create_ring E TX s = (OK, s1)"
    using assms(3) by (cases "realtek_create_ring E TX s"; cases "fst (realtek_create_ring E TX s)") (auto simp: realtek_open_def)
  obtain s2 where s2: "realtek_create_ring E RX s1 = (OK, s2)"
    using assms(3) s1 by (cases "realtek_create_ring E RX s1"; cases "fst (realtek_create_ring E RX s1)") (auto simp: realtek_open_def)
  have r: "ring_ok E s2" "\<not> rn_legacy s2" using create_rings_ok [OF assms(1,2) s1 s2] by simp_all
  then have "ring_ok E (open_hardware E s2)" by (simp add: open_hardware_ok)
  then show ?thesis using assms(3) s1 s2 r(2) refill_ok [of E "open_hardware E s2" E]
    by (auto simp: realtek_open_def realtek_create_buffer_def then_ok_eq_OK)
qed

lemma rtl_reachable_ok:
  assumes "rtl_env_ok E" "rtl_reachable E s" "\<not> rn_legacy s"
  shows "ring_ok E s"
proof -
  from assms(2) obtain s0 s1 where p: "realtek_probe E = (OK, Some s0)" "realtek_open E s0 = (OK, s1)" "(rtl_step E)\<^sup>*\<^sup>* s1 s"
    by (auto simp: rtl_reachable_def)
  have s0: "nic_ok s0" "fresh s0" using probe_held [OF p(1)] by simp_all
  have o: "op_step s0 s1" using op_open [of s0 E] s0 p(2) by (simp add: nic_ok_def)
  have "rn_legacy s1 = rn_legacy s0" using o by (simp add: op_step_def fixed_def)
  then have "nic_ok s1 \<and> (rtl_env_ok E \<longrightarrow> rn_legacy s1 \<or> ring_ok E s1)"
    using nic_ok_op [OF o s0(1)] open_ok [OF s0(2) _ p(2)] by blast
  from rtl.reach_inv [OF p(3) this] show ?thesis using assms by blast
qed

section \<open>The rings as queues\<close>

text \<open>The abstract device: the identities of the buffers that were accepted for transmission, in order, how many of
  them are complete, and how many receive buffers were supplied and handed over. Transmission accepts at most
  four buffers ahead of completion; work moves the counters forward.\<close>

record net_spec =
  ns_accepted :: "nat list"
  ns_done :: nat
  ns_supplied :: nat
  ns_handed :: nat

inductive spec_step :: "net_spec \<Rightarrow> net_spec \<Rightarrow> bool" where
  accept: "length (ns_accepted S) - ns_done S < 4 \<Longrightarrow> spec_step S (S\<lparr>ns_accepted := ns_accepted S @ [b]\<rparr>)"
| work: "ns_done S \<le> d \<Longrightarrow> d \<le> length (ns_accepted S) \<Longrightarrow> ns_supplied S \<le> p \<Longrightarrow> ns_handed S \<le> h \<Longrightarrow> h \<le> p \<Longrightarrow> p - h \<le> 4 \<Longrightarrow>
    spec_step S (S\<lparr>ns_done := d, ns_supplied := p, ns_handed := h\<rparr>)"

definition completed :: "realtek_nic \<Rightarrow> nat list" where
  "completed s = concat (map done_id (rn_net s))"

definition abs_nic :: "realtek_nic \<Rightarrow> net_spec" where
  "abs_nic s = \<lparr>ns_accepted = tx_order s, ns_done = length (completed s), ns_supplied = rn_next s, ns_handed = length (handed s)\<rparr>"

lemma tx_order_completed: "tx_order s = completed s @ map ib_id (rn_tx_queue s)"
  by (simp add: tx_order_def completed_def)

text \<open>What the counters of the abstraction mean: the completed buffers are the first accepted ones, the handed over
  buffers the first supplied ones, and what lies between is in the rings.\<close>

lemma ring_ok_abs:
  assumes "ring_ok E s"
  shows "completed s = take (ns_done (abs_nic s)) (ns_accepted (abs_nic s))" "handed s = [0..<ns_handed (abs_nic s)]"
    "length (ns_accepted (abs_nic s)) = ns_done (abs_nic s) + tx_gap s" "ns_supplied (abs_nic s) = ns_handed (abs_nic s) + rx_gap s"
    "tx_gap s \<le> 4" "rx_gap s \<le> 4"
proof -
  have f: "handed s @ ring_ids s = [0..<rn_next s]" using assms by (simp add: ring_ok_def rx_fifo_def)
  have x: "rx_ok s" using assms by (simp only: ring_ok_def)
  have "length (rx_view s) = 4" using rx_view_length [OF x] .
  moreover have "rx_gap s \<le> 4" using x by (simp only: rx_ok_def)
  ultimately have "length (ring_ids s) = rx_gap s" by (simp add: ring_ids_def)
  moreover have "length (handed s @ ring_ids s) = rn_next s" by (simp add: f)
  ultimately show n: "ns_supplied (abs_nic s) = ns_handed (abs_nic s) + rx_gap s" by (simp add: abs_nic_def)
  have "take (length (handed s)) [0..<rn_next s] = handed s" unfolding f [symmetric] by simp
  moreover have "length (handed s) \<le> rn_next s" using n by (simp add: abs_nic_def)
  ultimately show "handed s = [0..<ns_handed (abs_nic s)]" by (simp add: abs_nic_def take_upt)
  show "completed s = take (ns_done (abs_nic s)) (ns_accepted (abs_nic s))" by (simp add: abs_nic_def tx_order_completed)
  show "length (ns_accepted (abs_nic s)) = ns_done (abs_nic s) + tx_gap s"
    using tx_gap_queue [of E s] assms by (simp add: abs_nic_def tx_order_completed ring_ok_def)
  show "tx_gap s \<le> 4" using assms by (simp only: ring_ok_def tx_ok_def)
  show "rx_gap s \<le> 4" using x by (simp only: rx_ok_def)
qed

text \<open>The counters never go back.\<close>

lemma op_counts: "op_step s s' \<Longrightarrow> length (completed s) \<le> length (completed s') \<and> length (handed s) \<le> length (handed s')"
  by (auto simp: op_step_def completed_def handed_def)

lemma work_step:
  assumes "ring_ok E s" "ring_ok E s'" "op_step s s'" "tx_order s' = tx_order s"
  shows "spec_step (abs_nic s) (abs_nic s')"
proof -
  note a = ring_ok_abs [OF assms(1)] and a' = ring_ok_abs [OF assms(2)]
  let ?d = "ns_done (abs_nic s')" and ?p = "ns_supplied (abs_nic s')" and ?h = "ns_handed (abs_nic s')"
  have "ns_done (abs_nic s) \<le> ?d" "ns_handed (abs_nic s) \<le> ?h" "ns_supplied (abs_nic s) \<le> ?p"
    using op_counts [OF assms(3)] assms(3) by (simp_all add: abs_nic_def op_step_def)
  moreover have "ns_accepted (abs_nic s) = ns_accepted (abs_nic s')" using assms(4) by (simp add: abs_nic_def)
  ultimately have "spec_step (abs_nic s) ((abs_nic s)\<lparr>ns_done := ?d, ns_supplied := ?p, ns_handed := ?h\<rparr>)"
    using a' by (intro spec_step.work) simp_all
  moreover have "(abs_nic s)\<lparr>ns_done := ?d, ns_supplied := ?p, ns_handed := ?h\<rparr> = abs_nic s'"
    using assms(4) by (simp add: abs_nic_def)
  ultimately show ?thesis by simp
qed

lemma spec_refl: "ring_ok E s \<Longrightarrow> spec_step (abs_nic s) (abs_nic s)"
  by (rule work_step) simp_all

lemma transmit_spec:
  assumes "rtl_env_ok E" "ring_ok E s" "realtek_transmit E b s = (r, s')"
  shows "spec_step (abs_nic s) (abs_nic s')"
proof -
  have t: "tx_ok E s" "\<And>n. re_map_tx E n \<noteq> Fault" using assms by (simp_all add: ring_ok_def rtl_env_ok_def)
  note tr = transmit_ok [OF t(1) assms(3) t(2)]
  have c: "rn_net s' = rn_net s \<or> s' = net_call (NetTxDefer b) s"
    using assms(3) by (auto simp: realtek_transmit_def Let_def then_ok_def post_tx_def write_reg_def rtl_tick_def split: if_splits rc.splits option.splits)
  then have cd: "completed s' = completed s" by (auto simp: completed_def net_call_def)
  have keep: "abs_nic s' = abs_nic s" if "rn_tx_queue s' = rn_tx_queue s"
    using that cd tr by (simp add: abs_nic_def tx_order_completed)
  show ?thesis
  proof (cases "tx_gap s = 4 \<or> r \<noteq> OK")
    case True
    then have "rn_tx_queue s' = rn_tx_queue s" using tr by (cases "tx_gap s = 4") (simp_all add: net_call_def)
    then show ?thesis using keep spec_refl [OF assms(2)] by simp
  next
    case False
    then have "abs_nic s' = (abs_nic s)\<lparr>ns_accepted := ns_accepted (abs_nic s) @ [ib_id b]\<rparr>"
      using tr cd by (simp add: abs_nic_def tx_order_completed)
    moreover have "length (ns_accepted (abs_nic s)) - ns_done (abs_nic s) < 4" using ring_ok_abs(3,5) [OF assms(2)] False by simp
    ultimately show ?thesis using spec_step.accept by metis
  qed
qed

text \<open>Opening succeeds when memory can be allocated.\<close>

lemma open_succeeds:
  assumes "fresh s" "\<not> rn_legacy s" "\<And>t n. re_dma_alloc E t n \<noteq> None"
  shows "\<exists>s1. realtek_open E s = (OK, s1) \<and> \<not> rn_legacy s1"
proof -
  have c: "\<exists>t'. realtek_create_ring E w t = (OK, t') \<and> rn_legacy t' = rn_legacy t" if "\<not> rn_legacy t" for w t
    using that assms(3) [of "rn_clk t" "rr_len (get_ring w t)"] by (cases w) (auto simp: realtek_create_ring_def Let_def)
  from c [OF assms(2)] obtain s1 where s1: "realtek_create_ring E TX s = (OK, s1)" "\<not> rn_legacy s1" using assms(2) by blast
  from c [OF s1(2)] obtain s2 where s2: "realtek_create_ring E RX s1 = (OK, s2)" "\<not> rn_legacy s2" using s1(2) by blast
  have "ring_ok E s2" using create_rings_ok [OF assms(1,2) s1(1) s2(1)] by simp
  then have "ring_ok E (open_hardware E s2)" by (simp add: open_hardware_ok)
  then obtain s3 where s3: "realtek_refill_rx E (open_hardware E s2) = (OK, s3)" "ring_ok E s3"
    using refill_ok [of E "open_hardware E s2" E] by (cases "realtek_refill_rx E (open_hardware E s2)") auto
  have "ring_ok E (realtek_check_link E s3)" using s3(2) by simp
  then have "\<not> rn_legacy (realtek_check_link E s3)" by (simp only: ring_ok_def rx_ok_def) simp
  then show ?thesis using s1 s2 s3 by (simp add: realtek_open_def realtek_create_buffer_def)
qed

lemma demo_ok: "rtl_env_ok demo_env"
  by (simp add: rtl_env_ok_def dma_ok_def frame_ok_def)

lemma demo_reachable: "\<exists>s. rtl_reachable demo_env s \<and> \<not> rn_legacy s"
proof -
  obtain s0 where s0: "realtek_probe demo_env = (OK, Some s0)" "\<not> rn_legacy s0" using demo_probe by blast
  have "fresh s0" using probe_held [OF s0(1)] by simp
  from open_succeeds [OF this s0(2), of demo_env] show ?thesis using s0(1) by (auto simp: rtl_reachable_def)
qed





end
