(* ===== verification/Realtek_Legacy.thy ===== *)
theory Realtek_Legacy
  imports Realtek_Life
begin

text \<open>
  The legacy receive buffer of the Realtek driver (RTL8139): packets follow each other, each behind a header
  with status and length, at offsets that are multiples of four; the last one may run over the end of the ring
  into a pad.
\<close>

section \<open>The offset\<close>

lemma and_not_3: "unat ((x :: u32) AND NOT 3) = 4 * (unat x div 4)"
proof -
  have m: "(3 :: u32) = mask 2" by (simp add: mask_eq_exp_minus_1)
  have "x AND NOT 3 = x - take_bit 2 x" 
  proof -
    have "x - take_bit 2 x = x AND NOT (take_bit 2 x)" by (rule disjunctive_diff_eq_and_not) (rule bit_eqI, auto simp: bit_simps)
    also have "\<dots> = x AND NOT (mask 2)" by (rule bit_eqI) (auto simp: bit_simps)
    finally show ?thesis by (simp only: m)
  qed
  moreover have "unat (take_bit 2 x) = unat x mod 4" by (simp add: take_bit_eq_mod unat_mod)
  moreover have "take_bit 2 x \<le> x" by (metis calculation(2) mod_less_eq_dividend word_le_nat_alt)
  ultimately have "unat (x AND NOT 3) = unat x - unat x mod 4" by (simp add: unat_sub)
  then show ?thesis by (simp add: minus_mod_eq_mult_div)
qed

lemma next_offset_unat:
  assumes "unat off < RTL_RXBUF_LEN" "len < 65536"
  shows "unat (next_offset off len) = 4 * ((unat off + len + 7) div 4) mod RTL_RXBUF_LEN"
proof -
  have l: "unat (of_nat len :: u32) = len" using assms(2) by (simp add: unat_of_nat)
  have "unat (off + (4 + of_nat len) + 3) = unat off + len + 7"
    using assms l by (simp add: unat_word_ariths)
  then have "unat ((off + (4 + of_nat len) + 3) AND NOT 3) = 4 * ((unat off + len + 7) div 4)" by (simp only: and_not_3)
  then show ?thesis by (simp only: next_offset_def unat_mod) simp
qed

lemma next_offset_ok: "unat off < RTL_RXBUF_LEN \<Longrightarrow> len < 65536 \<Longrightarrow> unat (next_offset off len) < RTL_RXBUF_LEN \<and> unat (next_offset off len) mod 4 = 0"
  by (simp add: next_offset_unat mod_mod_cancel)

section \<open>The buffer\<close>

text \<open>An open device: the buffer has its full length, the offset is a multiple of four inside the ring. The device
  writes inside the buffer.\<close>

definition legacy_ok :: "realtek_nic \<Rightarrow> bool" where
  "legacy_ok s \<longleftrightarrow> (\<exists>buf. rn_rxbuf s = Some buf \<and> length buf = RTL_RXBUF_LEN + RTL_RXBUF_PAD) \<and>
     unat (rn_offset s) < RTL_RXBUF_LEN \<and> unat (rn_offset s) mod 4 = 0"

definition write_ok :: "dma_action \<Rightarrow> bool" where
  "write_ok a \<longleftrightarrow> (case a of RxBuffer off bs \<Rightarrow> off + length bs \<le> RTL_RXBUF_LEN + RTL_RXBUF_PAD | _ \<Rightarrow> True)"

definition rx_status :: "realtek_nic \<Rightarrow> u16" where
  "rx_status s = le16_to_cpu (get_at (unat (rn_offset s)) 2 (the (rn_rxbuf s)))"

definition rx_length :: "realtek_nic \<Rightarrow> nat" where
  "rx_length s = unat (le16_to_cpu (get_at (unat (rn_offset s) + 2) 2 (the (rn_rxbuf s))))"

definition rx_data :: "realtek_nic \<Rightarrow> bytes" where
  "rx_data s = get_at (unat (rn_offset s) + 4) (rx_length s - 4) (the (rn_rxbuf s))"

lemma device_legacy: "write_ok a \<Longrightarrow> legacy_ok s \<Longrightarrow> legacy_ok (device a s)"
  by (cases a) (auto simp: legacy_ok_def write_ok_def)

lemma sync_legacy: "\<forall>t. list_all write_ok (re_dma E t) \<Longrightarrow> legacy_ok s \<Longrightarrow> legacy_ok (sync E s)"
proof -
  have "list_all write_ok as \<Longrightarrow> legacy_ok t \<Longrightarrow> legacy_ok (fold device as t)" for as t
    by (induction as arbitrary: t) (simp_all add: device_legacy)
  moreover assume "\<forall>t. list_all write_ok (re_dma E t)" "legacy_ok s"
  moreover have "legacy_ok (rtl_tick s) = legacy_ok s" by (simp add: legacy_ok_def)
  ultimately show ?thesis by (simp add: sync_def)
qed

lemma rx_length_bound: "rx_length s < 65536"
  using unsigned_less [of "le16_to_cpu (get_at (unat (rn_offset s) + 2) 2 (the (rn_rxbuf s)))"] by (simp add: rx_length_def)

text \<open>The packet at the offset, on every branch.\<close>

lemma legacy_packet_cases:
  assumes "legacy_ok s" "legacy_packet E s = ((r, again), s')"
  shows "if rx_status s AND RTL_STAT_ROK = 0 then
       r = OK \<and> again \<and> rn_net s' = rn_net s @ [NetRxErr None EIO] \<and> rn_offset s' = next_offset (rn_offset s) (rx_length s) \<and> rn_rxbuf s' = rn_rxbuf s
     else if \<not> re_alloc_iob E (rn_clk s) (rx_length s) then
       r = OK \<and> \<not> again \<and> rn_net s' = rn_net s @ [NetRxErr None ENOMEM] \<and> rn_offset s' = rn_offset s \<and> rn_rxbuf s' = rn_rxbuf s
     else if 4 \<le> rx_length s \<and> unat (rn_offset s) + 4 + rx_length s \<le> RTL_RXBUF_LEN + RTL_RXBUF_PAD then
       r = OK \<and> again \<and> rn_net s' = rn_net s @ [NetRx (rn_next s) (rx_data s)] \<and>
       rn_offset s' = next_offset (rn_offset s) (rx_length s) \<and> rn_rxbuf s' = rn_rxbuf s
     else r = Fault \<and> s' = s"
proof -
  from assms(1) obtain buf where b: "rn_rxbuf s = Some buf" "length buf = RTL_RXBUF_LEN + RTL_RXBUF_PAD" "unat (rn_offset s) < RTL_RXBUF_LEN"
    by (auto simp: legacy_ok_def)
  have "take (rx_length s - 4) (get_at (unat (rn_offset s) + 4) (rx_length s) buf) = rx_data s"
    by (simp add: rx_data_def get_at_def b)
  then show ?thesis using assms(2) b
    by (auto simp: legacy_packet_def rx_status_def rx_length_def Let_def net_call_def write_reg_def read_reg_def rtl_tick_def split: if_splits)
qed

lemma legacy_packet_ok: "legacy_ok s \<Longrightarrow> legacy_ok (snd (legacy_packet E s))"
proof -
  assume l: "legacy_ok s"
  obtain r again s' where p: "legacy_packet E s = ((r, again), s')" by (metis surj_pair)
  have "rn_rxbuf s' = rn_rxbuf s" "rn_offset s' \<in> {rn_offset s, next_offset (rn_offset s) (rx_length s)}"
    using legacy_packet_cases [OF l p] by (auto split: if_splits)
  then show ?thesis using l p next_offset_ok [OF _ rx_length_bound, of "rn_offset s" s] by (auto simp: legacy_ok_def)
qed

text \<open>A run of the legacy receive loop that ends leaves the offset a multiple of four inside the ring and
  the buffer at its length, whatever status and length the headers hold, as long as the device writes inside
  the buffer it was given.\<close>

lemma legacy_offset_bound:
  assumes "\<forall>t. list_all write_ok (re_dma E t)" "legacy_ok s" "legacy_poll_loop E s = Some (r, s')"
  shows "legacy_ok s'"
proof -
  have "legacy_ok s \<longrightarrow> legacy_ok (snd (r, s'))"
    by (rule legacy_loop_rel [OF assms(3), of "\<lambda>s s'. legacy_ok s \<longrightarrow> legacy_ok s'"])
       (use sync_legacy [OF assms(1)] legacy_packet_ok in \<open>auto simp: legacy_ok_def read_reg_def\<close>)
  then show ?thesis using assms(2) by simp
qed

text \<open>What the driver does with the packet at its offset, on every branch: a bad status is reported and the
  packet skipped; without memory the packet stays for the next poll; a packet whose length covers its checksum
  and lies inside the buffer and its pad is delivered without the checksum and skipped; any other length makes
  the driver read outside the buffer, or take more from the I/O buffer than it holds.\<close>

lemma legacy_packet_exact:
  assumes "legacy_ok s"
  shows "\<exists>s'. legacy_packet E s =
      (if rx_status s AND RTL_STAT_ROK = 0 then ((OK, True), s')
       else if \<not> re_alloc_iob E (rn_clk s) (rx_length s) then ((OK, False), s')
       else if 4 \<le> rx_length s \<and> unat (rn_offset s) + 4 + rx_length s \<le> RTL_RXBUF_LEN + RTL_RXBUF_PAD then ((OK, True), s')
       else ((Fault, False), s')) \<and>
    (fst (fst (legacy_packet E s)) = OK \<longrightarrow>
      rn_net s' = rn_net s @ [if rx_status s AND RTL_STAT_ROK = 0 then NetRxErr None EIO
          else if \<not> re_alloc_iob E (rn_clk s) (rx_length s) then NetRxErr None ENOMEM else NetRx (rn_next s) (rx_data s)] \<and>
      unat (rn_offset s') = (if snd (fst (legacy_packet E s))
        then 4 * ((unat (rn_offset s) + rx_length s + 7) div 4) mod RTL_RXBUF_LEN else unat (rn_offset s)))"
proof -
  obtain r again s' where p: "legacy_packet E s = ((r, again), s')" by (metis surj_pair)
  have f: "r = Fault \<Longrightarrow> \<not> again" using p by (auto simp: legacy_packet_def Let_def split: if_splits option.splits)
  have "unat (rn_offset s) < RTL_RXBUF_LEN" using assms by (simp add: legacy_ok_def)
  note o = next_offset_unat [OF this rx_length_bound]
  show ?thesis using legacy_packet_cases [OF assms p] f p o
    by (intro exI [of _ s']) (simp split: if_splits)
qed

end
