(* ===== verification/Realtek_Phy.thy ===== *)
theory Realtek_Phy
  imports Realtek_Hw
begin

text \<open>
  The start-up programs of the RTL8125 and RTL8126: what the indirect writes encode, and what reaches the EPHY.
\<close>

section \<open>OCP words\<close>

definition ocp_word :: "u32 \<Rightarrow> u32 \<Rightarrow> u32" where
  "ocp_word reg d = RTL_OCPAR_FLAG OR push_bit 15 reg OR d"

text \<open>How the device reads such a word: sixteen bits of data below fifteen bits of an even address.\<close>

definition ocp_reg :: "u32 \<Rightarrow> u32" where
  "ocp_reg w = drop_bit 15 (w AND 0x7fff0000)"

definition ocp_data :: "u32 \<Rightarrow> u32" where
  "ocp_data w = w AND 0xffff"

lemma bit_aligned:
  assumes "(reg :: u32) AND 0xffff0001 = 0" "bit reg n"
  shows "1 \<le> n \<and> n \<le> 15"
proof (rule ccontr)
  assume n: "\<not> (1 \<le> n \<and> n \<le> 15)"
  have m: "(0xffff0001 :: u32) = NOT (mask 16) OR 1" by (simp add: mask_eq_exp_minus_1)
  have "n < 32" using bit_imp_le_length [OF assms(2)] by simp
  then have "bit (0xffff0001 :: u32) n" using n by (auto simp: m bit_simps)
  then have "bit (reg AND 0xffff0001) n" using assms(2) by (simp add: bit_and_iff)
  then show False using assms(1) by simp
qed

lemma flag_bit: "bit RTL_OCPAR_FLAG n \<longleftrightarrow> n = 31"
proof -
  have "bit (2 ^ 31 :: u32) n \<longleftrightarrow> n = 31" by (auto simp only: bit_exp_iff possible_bit_word) simp
  then show ?thesis by simp
qed

lemma ocp_decode:
  assumes "(reg :: u32) AND 0xffff0001 = 0" "d AND 0xffff = d"
  shows "ocp_reg (ocp_word reg d) = reg" "ocp_data (ocp_word reg d) = d" "ocp_word reg d AND RTL_OCPAR_FLAG \<noteq> 0"
proof -
  have m: "(0xffff :: u32) = mask 16" "(0x7fff0000 :: u32) = push_bit 16 (mask 15)"
    by (simp_all add: mask_eq_exp_minus_1)
  have d: "bit d n \<Longrightarrow> n < 16" for n
  proof -
    assume "bit d n"
    then have "bit (d AND mask 16) n" using assms(2) by (simp only: m)
    then show "n < 16" by (simp add: bit_simps)
  qed
  note r = bit_aligned [OF assms(1)]
  define F where "F = RTL_OCPAR_FLAG"
  have F: "bit F n \<longleftrightarrow> n = 31" for n unfolding F_def by (rule flag_bit)
  show "ocp_reg (ocp_word reg d) = reg"
  proof (rule bit_eqI)
    fix n assume "possible_bit TYPE(u32) n"
    then show "bit (ocp_reg (ocp_word reg d)) n = bit reg n"
      unfolding ocp_reg_def ocp_word_def m F_def [symmetric] using r [of n] d [of "15 + n"] by (auto simp: bit_simps F)
  qed
  show "ocp_data (ocp_word reg d) = d"
  proof (rule bit_eqI)
    fix n assume "possible_bit TYPE(u32) n"
    then show "bit (ocp_data (ocp_word reg d)) n = bit d n"
      unfolding ocp_data_def ocp_word_def m F_def [symmetric] using r [of "n - 15"] d [of n] by (auto simp: bit_simps F)
  qed
  have "bit (ocp_word reg d AND RTL_OCPAR_FLAG) 31" unfolding ocp_word_def by (simp add: bit_and_iff bit_or_iff flag_bit)
  then show "ocp_word reg d AND RTL_OCPAR_FLAG \<noteq> 0" by auto
qed

section \<open>The PHY tables\<close>

text \<open>An entry that the GPHY interface can carry: an even address of sixteen bits, values of sixteen bits.\<close>

fun phy_ok :: "realtek_phy_ocp_init \<Rightarrow> bool" where
  "phy_ok (Phy reg cl st w) \<longleftrightarrow> reg AND 0xffff0001 = 0 \<and> cl AND 0xffff = cl \<and> st AND 0xffff = st"

lemma phy_table_ok: "list_all phy_ok (phy_table m)"
  by (simp add: phy_table_def realtek_8126a_1_phy_def realtek_8126a_2_phy_def realtek_8126a_3_phy_def)

lemma wait_reads: "\<exists>n. rn_regs (snd (wait_reg E w r p k s)) = rn_regs s @ replicate n (RegRead w r)"
proof (induction k arbitrary: s)
  case 0
  then show ?case by (simp add: wait_reg.simps)
next
  case (Suc k)
  obtain v t where r: "read_reg E w r s = (v, t)" by (metis surj_pair)
  have t: "rn_regs t = rn_regs s @ [RegRead w r]" using r by (auto simp: read_reg_def)
  from Suc [of t] obtain n where n: "rn_regs (snd (wait_reg E w r p k t)) = rn_regs t @ replicate n (RegRead w r)" by blast
  show ?case
  proof (cases "p v")
    case True
    then show ?thesis using r t by (subst wait_reg.simps) (auto intro: exI [of _ "Suc 0"])
  next
    case False
    then have "wait_reg E w r p (Suc k) s = wait_reg E w r p k t" using r by (subst wait_reg.simps) simp
    then show ?thesis using n t by (auto intro!: exI [of _ "Suc n"])
  qed
qed

lemma gphy_write_regs:
  assumes "reg AND 0xffff0001 = 0"
  shows "\<exists>n. rn_regs (realtek_gphy_ocp_write E reg d s) =
    rn_regs s @ RegWrite 4 RTL_GPHY_OCP (ocp_word reg d) # replicate n (RegRead 4 RTL_GPHY_OCP)"
  using wait_reads [of E 4 RTL_GPHY_OCP "\<lambda>v. v AND RTL_OCPAR_FLAG = 0" RTL_GPHY_OCP_MAX_WAIT_US
      "write_reg 4 RTL_GPHY_OCP (ocp_word reg d) s"] assms
  by (simp add: realtek_gphy_ocp_write_def write_reg_def ocp_word_def)

lemma gphy_read_16: "realtek_gphy_ocp_read E reg s = (Inr v, t) \<Longrightarrow> v AND 0xffff = v"
  by (auto simp: realtek_gphy_ocp_read_def and.assoc split: if_splits prod.splits option.splits)

lemma low_16: "a AND 0xffff = a \<Longrightarrow> c AND 0xffff = c \<Longrightarrow> (a AND NOT b OR c) AND 0xffff = (a AND NOT b OR c :: u32)"
proof -
  assume a: "a AND 0xffff = a" and c: "c AND 0xffff = c"
  have "(a AND NOT b OR c) AND 0xffff = (a AND 0xffff) AND NOT b OR c AND 0xffff"
    by (simp only: bit.conj_disj_distrib2 and.assoc and.commute [of "NOT b"])
  then show ?thesis using a c by simp
qed

text \<open>What an entry has to write, given the answer of the PHY, and the state in which it writes it.\<close>

definition phy_value :: "realtek_phy_ocp_init \<Rightarrow> errno + u32 \<Rightarrow> u32 option" where
  "phy_value p old = (if pi_write p then Some (pi_set p)
     else case old of Inl e \<Rightarrow> None | Inr v \<Rightarrow> Some (v AND NOT (pi_clear p) OR pi_set p))"

lemma phy_init_value:
  "phy_init E p s = (let (old, t) = (if pi_write p then (Inr 0, s) else realtek_gphy_ocp_read E (pi_reg p) s) in
     case phy_value p old of None \<Rightarrow> t | Some d \<Rightarrow> realtek_gphy_ocp_write E (pi_reg p) d t)"
  by (simp add: phy_init_def phy_value_def realtek_gphy_ocp_modify_def split: prod.split sum.split)

text \<open>Every entry of the PHY tables of the RTL8126 reaches the register and carries the value that it names:
  none is dropped by the address check, and no value runs into the address. A direct entry is one write; a
  modifying entry writes the value that was read, with its bits cleared and set, or nothing when the read
  timed out.\<close>

lemma phy_entry_exact:
  assumes "p \<in> set (phy_table mcfg)"
    and "(if pi_write p then (Inr 0, s) else realtek_gphy_ocp_read E (pi_reg p) s) = (old, t)"
  shows "case phy_value p old of
      None \<Rightarrow> phy_init E p s = t
    | Some d \<Rightarrow> \<exists>w n. rn_regs (phy_init E p s) = rn_regs t @ RegWrite 4 RTL_GPHY_OCP w # replicate n (RegRead 4 RTL_GPHY_OCP) \<and>
        ocp_reg w = pi_reg p \<and> ocp_data w = d"
proof -
  have "phy_ok p" using assms(1) phy_table_ok [of mcfg] by (auto simp: list_all_iff)
  then have ok: "pi_reg p AND 0xffff0001 = 0" "pi_set p AND 0xffff = pi_set p" by (cases p; simp)+
  have w: "\<exists>w n. rn_regs (realtek_gphy_ocp_write E (pi_reg p) d t) = rn_regs t @ RegWrite 4 RTL_GPHY_OCP w # replicate n (RegRead 4 RTL_GPHY_OCP) \<and>
       ocp_reg w = pi_reg p \<and> ocp_data w = d" if "d AND 0xffff = d" for d
    using gphy_write_regs [OF ok(1), of E d t] ocp_decode [OF ok(1) that] by blast
  have "d AND 0xffff = d" if "phy_value p old = Some d" for d
    using that ok(2) assms(2) gphy_read_16 [of E "pi_reg p" s _ t] low_16 [OF _ ok(2)]
    by (auto simp: phy_value_def split: if_splits sum.splits)
  then show ?thesis using w assms(2) by (auto simp: phy_init_value split: option.split)
qed

section \<open>The EPHY program\<close>

definition ephy_word :: "realtek_ephy_init \<Rightarrow> u32" where
  "ephy_word e = RTL_EPHYAR_FLAG OR (ei_value e AND RTL_EPHYAR_DATA_MASK) OR push_bit 16 (ei_reg e AND RTL_EPHYAR_REG_MASK)"

definition ephy_writes :: "realtek_nic \<Rightarrow> u32 list" where
  "ephy_writes s = concat (map (\<lambda>a. case a of RegWrite w r v \<Rightarrow> if w = 4 \<and> r = RTL_EPHYAR then [v] else [] | RegRead w r \<Rightarrow> []) (rn_regs s))"

text \<open>Register and value of an EPHY write.\<close>

definition ephy_target :: "u32 \<Rightarrow> nat \<times> nat" where
  "ephy_target w = (unat (drop_bit 16 w AND RTL_EPHYAR_REG_MASK), unat (w AND RTL_EPHYAR_DATA_MASK))"

lemma ew_write: "ephy_writes (write_reg w r v s) = ephy_writes s @ (if w = 4 \<and> r = RTL_EPHYAR then [v] else [])"
  by (simp add: ephy_writes_def write_reg_def)

lemma ew_read: "ephy_writes (snd (read_reg E w r s)) = ephy_writes s"
  by (simp add: ephy_writes_def read_reg_def)

lemma ew_wait: "ephy_writes (snd (wait_reg E w r p n s)) = ephy_writes s"
  using wait_reads [of E w r p n s] by (auto simp: ephy_writes_def)

lemma ew_clear: "r \<noteq> RTL_EPHYAR \<Longrightarrow> ephy_writes (clear_bits E w r m s) = ephy_writes s"
  using ew_read [of E w r s] by (auto simp: clear_bits_def ew_write split: prod.split)

lemma ew_mac_read: "ephy_writes (snd (realtek_mac_ocp_read E reg s)) = ephy_writes s"
  by (simp add: realtek_mac_ocp_read_def ew_read ew_write)

lemma ew_mac_write: "ephy_writes (realtek_mac_ocp_write reg d s) = ephy_writes s"
  by (simp add: realtek_mac_ocp_write_def ew_write)

lemma ew_mac_modify: "ephy_writes (realtek_mac_ocp_modify E reg cl st s) = ephy_writes s"
  using ew_mac_read [of E reg s] by (auto simp: realtek_mac_ocp_modify_def ew_mac_write Let_def split: prod.split)

lemma ew_ocp_all: "ephy_writes (ocp_modify_all E ms s) = ephy_writes s"
  by (induction ms arbitrary: s) (auto simp: ocp_modify_all_def ew_mac_modify)

lemma ew_mac_wait: "ephy_writes (mac_wait E n s) = ephy_writes s"
proof (induction n arbitrary: s)
  case 0
  then show ?case by (simp add: mac_wait.simps)
next
  case (Suc n)
  show ?case using ew_mac_read [of E "0xe00e" s] Suc.IH by (subst mac_wait.simps) (auto split: prod.split)
qed

lemma ew_ephy: "ephy_writes (realtek_ephy_write E (ei_reg e) (ei_value e) s) = ephy_writes s @ [ephy_word e]"
  by (simp add: realtek_ephy_write_def ew_wait ew_write ephy_word_def)

lemma ew_ephy_all: "ephy_writes (fold (\<lambda>e. realtek_ephy_write E (ei_reg e) (ei_value e)) es s) = ephy_writes s @ map ephy_word es"
  by (induction es arbitrary: s) (simp_all add: ew_ephy)

lemma ew_let: "ephy_writes t = x \<Longrightarrow> (\<And>u. ephy_writes u = x \<Longrightarrow> ephy_writes (k u) = x) \<Longrightarrow> ephy_writes (let u = t in k u) = x"
  by simp

lemmas ew_simps = ew_write ew_clear ew_mac_write ew_mac_modify ew_ocp_all ew_mac_wait

lemma ephy_program: "ephy_writes (realtek_hw_start_8125 E s) = ephy_writes s @ map ephy_word (ephy_table (rn_mac_ver s))"
  unfolding realtek_hw_start_8125_def by (rule ew_let, rule ew_ephy_all, intro ew_let) (simp_all add: ew_simps)

text \<open>The start-up program writes the EPHY table of the chip, each value in full and only to one of 32
  registers. On the RTL8125B the six entries, which the table has for six registers, reach three: what is
  meant for 0x4b, 0x5e and 0x62 goes where the entries for 0x0b, 0x1e and 0x22 go, and the last two, which
  the table restricts to two bits of registers 0x22 and 0x62, replace the whole of register 2.\<close>

lemma ephy_program_aliases:
  assumes "rn_mac_ver s = 63"
  shows "map (\<lambda>e. (unat (ei_reg e), unat (ei_mask e))) realtek_8125b_ephy =
      [(0x0b, 0xffff), (0x1e, 0xffff), (0x4b, 0xffff), (0x5e, 0xffff), (0x22, 0x30), (0x62, 0x30)] \<and>
    map ephy_target (drop (length (ephy_writes s)) (ephy_writes (realtek_hw_start_8125 E s))) =
      [(0x0b, 0xa908), (0x1e, 0x20eb), (0x0b, 0xa908), (0x1e, 0x20eb), (0x02, 0x20), (0x02, 0x20)]"
proof -
  have "ephy_writes (realtek_hw_start_8125 E s) = ephy_writes s @ map ephy_word realtek_8125b_ephy"
    by (simp add: ephy_program assms ephy_table_def)
  then show ?thesis by (simp add: realtek_8125b_ephy_def ephy_word_def ephy_target_def)
qed

end
