(* ===== verification/Smbios.thy ===== *)
theory Smbios
  imports Fw_Prelude
begin

text \<open>
  The settings read from SMBIOS structures (\<^verbatim>\<open>interface/smbios/smbios_settings.c\<close>, structures of
  \<^verbatim>\<open>include/ipxe/smbios.h\<close>): the tag that names a part of a structure, and the settings computed from the
  memory device structures. The functions that find structures and strings in the SMBIOS table are not in
  this repository.
\<close>

section \<open>Environment\<close>

datatype setting_type = setting_type_uuid | setting_type_guid | setting_type_string | setting_type_hex | setting_type_other nat

record setting =
  st_name :: string
  st_tag :: u64
  st_type :: "setting_type option"
  st_smbios_scope :: bool

text \<open>\<open>sb_structure type i\<close> is \<^verbatim>\<open>smbios_structure()\<close>: the bytes of the table from the structure on, \<open>None\<close> when there
  is no such instance. \<open>sb_string\<close> is \<^verbatim>\<open>smbios_string()\<close>, \<open>sb_cmp\<close> tells whether \<^verbatim>\<open>setting_cmp()\<close> returns zero.\<close>

record smbios_env =
  sb_structure :: "nat \<Rightarrow> nat \<Rightarrow> bytes option"
  sb_string :: "bytes \<Rightarrow> nat \<Rightarrow> bytes option"
  sb_version :: nat
  sb_uuid_mangle :: "bytes \<Rightarrow> bytes"
  sb_cmp :: "setting \<Rightarrow> setting \<Rightarrow> bool"

abbreviation "SMBIOS_TYPE_SYSTEM_INFORMATION \<equiv> (1 :: nat)"
abbreviation "SMBIOS_TYPE_BASE_BOARD_INFORMATION \<equiv> (2 :: nat)"
abbreviation "SMBIOS_TYPE_ENCLOSURE_INFORMATION \<equiv> (3 :: nat)"
abbreviation "SMBIOS_TYPE_MEMORY_DEVICE \<equiv> (17 :: nat)"

definition SMBIOS_VERSION :: "nat \<Rightarrow> nat \<Rightarrow> nat" where
  "SMBIOS_VERSION major minor = push_bit 8 major OR minor"

text \<open>Fields of the packed structures, by offset and size.\<close>

abbreviation (input) "header_len \<equiv> (1 :: nat, 1 :: nat)"
abbreviation (input) "memdev_size \<equiv> (0x0c :: nat, 2 :: nat)"
abbreviation (input) "memdev_memory_type \<equiv> (0x12 :: nat, 1 :: nat)"
abbreviation (input) "memdev_speed \<equiv> (0x15 :: nat, 2 :: nat)"
abbreviation (input) "memdev_extended_size \<equiv> (0x1c :: nat, 4 :: nat)"
abbreviation (input) "sysinfo_manufacturer \<equiv> (4 :: nat, 1 :: nat)"
abbreviation (input) "sysinfo_product \<equiv> (5 :: nat, 1 :: nat)"
abbreviation (input) "sysinfo_serial \<equiv> (7 :: nat, 1 :: nat)"
abbreviation (input) "sysinfo_uuid \<equiv> (8 :: nat, 16 :: nat)"
abbreviation (input) "board_serial \<equiv> (7 :: nat, 1 :: nat)"
abbreviation (input) "enclosure_asset_tag \<equiv> (8 :: nat, 1 :: nat)"

text \<open>Reading a field; \<open>None\<close> when it lies outside the table.\<close>

definition field :: "nat \<times> nat \<Rightarrow> bytes \<Rightarrow> nat option" where
  "field f bs = (case f of (off, n) \<Rightarrow> if off + n \<le> length bs then Some (of_le (get_at off n bs)) else None)"

section \<open>Tags and settings\<close>

definition SMBIOS_RAW_TAG :: "nat \<Rightarrow> nat \<times> nat \<Rightarrow> u64" where
  "SMBIOS_RAW_TAG typ f = (push_bit 16 (of_nat typ) OR push_bit 8 (of_nat (fst f)) OR of_nat (snd f))"

definition SMBIOS_STRING_TAG :: "nat \<Rightarrow> nat \<times> nat \<Rightarrow> u64" where
  "SMBIOS_STRING_TAG typ f = (push_bit 16 (of_nat typ) OR push_bit 8 (of_nat (fst f)))"

definition uuid_setting :: setting where
  "uuid_setting = \<lparr>st_name = ''uuid'', st_tag = SMBIOS_RAW_TAG SMBIOS_TYPE_SYSTEM_INFORMATION sysinfo_uuid,
     st_type = Some setting_type_uuid, st_smbios_scope = True\<rparr>"

definition manufacturer_setting :: setting where
  "manufacturer_setting = \<lparr>st_name = ''manufacturer'', st_tag = SMBIOS_STRING_TAG SMBIOS_TYPE_SYSTEM_INFORMATION sysinfo_manufacturer,
     st_type = Some setting_type_string, st_smbios_scope = True\<rparr>"

definition product_setting :: setting where
  "product_setting = \<lparr>st_name = ''product'', st_tag = SMBIOS_STRING_TAG SMBIOS_TYPE_SYSTEM_INFORMATION sysinfo_product,
     st_type = Some setting_type_string, st_smbios_scope = True\<rparr>"

definition serial_setting :: setting where
  "serial_setting = \<lparr>st_name = ''serial'', st_tag = SMBIOS_STRING_TAG SMBIOS_TYPE_SYSTEM_INFORMATION sysinfo_serial,
     st_type = Some setting_type_string, st_smbios_scope = True\<rparr>"

definition asset_setting :: setting where
  "asset_setting = \<lparr>st_name = ''asset'', st_tag = SMBIOS_STRING_TAG SMBIOS_TYPE_ENCLOSURE_INFORMATION enclosure_asset_tag,
     st_type = Some setting_type_string, st_smbios_scope = True\<rparr>"

definition board_serial_setting :: setting where
  "board_serial_setting = \<lparr>st_name = ''board-serial'', st_tag = SMBIOS_STRING_TAG SMBIOS_TYPE_BASE_BOARD_INFORMATION board_serial,
     st_type = Some setting_type_string, st_smbios_scope = True\<rparr>"

text \<open>The memory settings have no tag; their types are \<^verbatim>\<open>uint32\<close>, string and \<^verbatim>\<open>uint16\<close>.\<close>

definition mem_total_setting :: setting where
  "mem_total_setting = \<lparr>st_name = ''mem-total'', st_tag = 0, st_type = Some (setting_type_other 32), st_smbios_scope = True\<rparr>"

definition mem_type_setting :: setting where
  "mem_type_setting = \<lparr>st_name = ''mem-type'', st_tag = 0, st_type = Some setting_type_string, st_smbios_scope = True\<rparr>"

definition mem_speed_setting :: setting where
  "mem_speed_setting = \<lparr>st_name = ''mem-speed'', st_tag = 0, st_type = Some (setting_type_other 16), st_smbios_scope = True\<rparr>"

section \<open>Memory devices\<close>

definition memory_type_names :: "nat \<Rightarrow> string option" where
  "memory_type_names = [0x0f \<mapsto> ''SDRAM'', 0x11 \<mapsto> ''RDRAM'', 0x12 \<mapsto> ''DDR'', 0x13 \<mapsto> ''DDR2'', 0x14 \<mapsto> ''DDR2 FB-DIMM'',
     0x18 \<mapsto> ''DDR3'', 0x19 \<mapsto> ''FBD2'', 0x1a \<mapsto> ''DDR4'', 0x1b \<mapsto> ''LPDDR'', 0x1c \<mapsto> ''LPDDR2'', 0x1d \<mapsto> ''LPDDR3'',
     0x1e \<mapsto> ''LPDDR4'', 0x20 \<mapsto> ''HBM'', 0x21 \<mapsto> ''HBM2'', 0x22 \<mapsto> ''DDR5'', 0x23 \<mapsto> ''LPDDR5'', 0x24 \<mapsto> ''HBM3'', 0x25 \<mapsto> ''LPDDR5X'']"

text \<open>What one structure adds to the total, in MB: the body of the loop. \<open>None\<close> is a read outside the table.\<close>

definition module_size :: "bytes \<Rightarrow> nat option" where
  "module_size memdev =
    (case field header_len memdev of
       None \<Rightarrow> None
     | Some len \<Rightarrow>
         if len < 0x0e then Some 0
         else case field memdev_size memdev of
             None \<Rightarrow> None
           | Some sz \<Rightarrow>
               if sz = 0xffff then Some 0
               else if sz = 0x7fff then if len < 0x20 then Some 0 else field memdev_extended_size memdev
               else if sz AND 0x8000 \<noteq> 0 then Some ((sz AND 0x7fff) * 1024)
               else Some sz)"

partial_function (option) mem_total_loop :: "smbios_env \<Rightarrow> nat \<Rightarrow> u64 \<Rightarrow> (rc \<times> u64) option" where
  "mem_total_loop E i total_mb =
    (case sb_structure E SMBIOS_TYPE_MEMORY_DEVICE i of
       None \<Rightarrow> Some (OK, total_mb)
     | Some memdev \<Rightarrow>
         (case module_size memdev of
            None \<Rightarrow> Some (Fault, total_mb)
          | Some mb \<Rightarrow> mem_total_loop E (Suc i) (total_mb + of_nat mb)))"

text \<open>The fetch functions return the status, the length of the setting and the buffer. The buffer's length is the
  argument \<open>len\<close>; \<open>mem-total\<close> and \<open>mem-speed\<close> write a whole integer into it.\<close>

definition smbios_fetch_mem_total :: "smbios_env \<Rightarrow> bytes \<Rightarrow> (rc \<times> nat \<times> bytes) option" where
  "smbios_fetch_mem_total E buf =
    (case mem_total_loop E 0 0 of
       None \<Rightarrow> None
     | Some (r, total_mb) \<Rightarrow>
         Some (if r \<noteq> OK then (r, 0, buf)
               else if total_mb = 0 then (Err ENOENT, 0, buf)
               else if length buf < 4 then (Fault, 0, buf)
               else (OK, 4, put_at 0 (to_be 4 (unat (ucast total_mb :: u32))) buf)))"

definition smbios_fetch_mem_type :: "smbios_env \<Rightarrow> bytes \<Rightarrow> rc \<times> nat \<times> bytes" where
  "smbios_fetch_mem_type E buf =
    (case sb_structure E SMBIOS_TYPE_MEMORY_DEVICE 0 of
       None \<Rightarrow> (Err ENOENT, 0, buf)
     | Some memdev \<Rightarrow>
         (case field header_len memdev of
            None \<Rightarrow> (Fault, 0, buf)
          | Some len \<Rightarrow>
              if len < 0x13 then (Err ENOENT, 0, buf)
              else case field memdev_memory_type memdev of
                  None \<Rightarrow> (Fault, 0, buf)
                | Some mt \<Rightarrow>
                    let typ = str_bytes (case memory_type_names mt of None \<Rightarrow> ''Unknown'' | Some n \<Rightarrow> n) in
                    (OK, length typ, put_at 0 (take (length buf) typ) buf)))"

definition smbios_fetch_mem_speed :: "smbios_env \<Rightarrow> bytes \<Rightarrow> rc \<times> nat \<times> bytes" where
  "smbios_fetch_mem_speed E buf =
    (case sb_structure E SMBIOS_TYPE_MEMORY_DEVICE 0 of
       None \<Rightarrow> (Err ENOENT, 0, buf)
     | Some memdev \<Rightarrow>
         (case field header_len memdev of
            None \<Rightarrow> (Fault, 0, buf)
          | Some len \<Rightarrow>
              if len < 0x17 then (Err ENOENT, 0, buf)
              else case field memdev_speed memdev of
                  None \<Rightarrow> (Fault, 0, buf)
                | Some speed \<Rightarrow>
                    if length buf < 2 then (Fault, 0, buf) else (OK, 2, put_at 0 (to_be 2 speed) buf)))"

section \<open>Fetching\<close>

definition smbios_applies :: "setting \<Rightarrow> bool" where
  "smbios_applies s \<longleftrightarrow> st_smbios_scope s"

text \<open>The source of a setting: the string index (zero when it is not a string) and the bytes.\<close>

definition fetch_source :: "smbios_env \<Rightarrow> bytes \<Rightarrow> nat \<Rightarrow> nat \<Rightarrow> rc \<times> nat \<times> bytes" where
  "fetch_source E structure tag_offset tag_len =
    (case field header_len structure of
       None \<Rightarrow> (Fault, 0, [])
     | Some src_len \<Rightarrow>
         if length structure < src_len then (Fault, 0, [])
         else if tag_len = 0 \<and> tag_offset = 0 then (OK, 0, take src_len structure)
         else if tag_len = 0 \<or> tag_offset = 0 then
           let string = (if tag_len = 0 \<and> tag_offset < src_len then unat (structure ! tag_offset) else tag_len) in
           (case sb_string E structure string of
              None \<Rightarrow> (Err ENOENT, 0, [])
            | Some src \<Rightarrow> if string = 0 then (Fault, 0, []) else (OK, string, src))
         else if src_len < tag_offset then (OK, 0, [])
         else (OK, 0, get_at tag_offset (min tag_len (src_len - tag_offset)) structure))"

definition fetch_tag :: "smbios_env \<Rightarrow> setting \<Rightarrow> bytes \<Rightarrow> rc \<times> nat \<times> bytes \<times> setting" where
  "fetch_tag E s buf =
    (let tag_instance = unat (drop_bit 24 (st_tag s) AND 0xff); tag_type = unat (drop_bit 16 (st_tag s) AND 0xff);
         tag_offset = unat (drop_bit 8 (st_tag s) AND 0xff); tag_len = unat (st_tag s AND 0xff) in
     case sb_structure E tag_type tag_instance of
       None \<Rightarrow> (Err ENOENT, 0, buf, s)
     | Some structure \<Rightarrow>
         (case fetch_source E structure tag_offset tag_len of
            (r, string, src) \<Rightarrow>
              if r \<noteq> OK then (r, 0, buf, s)
              else
                let src_len = length src;
                    src = (if (st_type s = Some setting_type_uuid \<or> st_type s = Some setting_type_guid) \<and> src_len = 16 \<and>
                      SMBIOS_VERSION 2 6 \<le> sb_version E then sb_uuid_mangle E src else src) in
                (OK, src_len, put_at 0 (take (min (length buf) src_len) src) buf,
                 if st_type s = None then s\<lparr>st_type := Some (if string \<noteq> 0 then setting_type_string else setting_type_hex)\<rparr> else s)))"

definition smbios_fetch :: "smbios_env \<Rightarrow> setting \<Rightarrow> bytes \<Rightarrow> (rc \<times> nat \<times> bytes \<times> setting) option" where
  "smbios_fetch E s buf =
    (if sb_cmp E s mem_total_setting then map_option (\<lambda>(r, n, b). (r, n, b, s)) (smbios_fetch_mem_total E buf)
     else if sb_cmp E s mem_type_setting then Some (case smbios_fetch_mem_type E buf of (r, n, b) \<Rightarrow> (r, n, b, s))
     else if sb_cmp E s mem_speed_setting then Some (case smbios_fetch_mem_speed E buf of (r, n, b) \<Rightarrow> (r, n, b, s))
     else Some (fetch_tag E s buf))"

end
