(* ===== verification/Smbios_Props.thy ===== *)
theory Smbios_Props
  imports Smbios
begin

text \<open>
  The SMBIOS settings: no read leaves the table, a tag gives exactly the part of the structure that it names,
  and the total memory is the sum over the modules.
\<close>

section \<open>The table\<close>

text \<open>What the SMBIOS code promises: a structure lies in the table with its whole formatted part, string zero does
  not exist, and mangling keeps the length of a UUID.\<close>

definition smbios_ok :: "smbios_env \<Rightarrow> bool" where
  "smbios_ok E \<longleftrightarrow> (\<forall>t i b. sb_structure E t i = Some b \<longrightarrow> 4 \<le> length b \<and> unat (b ! 1) \<le> length b) \<and>
     (\<forall>b. sb_string E b 0 = None) \<and> (\<forall>u. length (sb_uuid_mangle E u) = length u)"

lemma field_len: "1 < length b \<Longrightarrow> field header_len b = Some (unat (b ! 1))"
proof -
  assume l: "1 < length b"
  then have "get_at 1 1 b = [b ! 1]" by (simp add: get_at_def take_Suc_conv_app_nth)
  then show ?thesis using l by (simp add: field_def)
qed

lemma field_in: "off + n \<le> length b \<Longrightarrow> field (off, n) b = Some (of_le (get_at off n b))"
  by (simp add: field_def)

section \<open>Tags\<close>

text \<open>The four bytes of a tag.\<close>

lemma byte_bits: "t < 256 \<Longrightarrow> bit (of_nat t :: u64) n \<Longrightarrow> n < 8"
proof -
  assume t: "t < 256" and b: "bit (of_nat t :: u64) n"
  have "take_bit 8 (of_nat t :: u64) = of_nat (take_bit 8 t)" by (simp add: take_bit_of_nat)
  also have "take_bit 8 t = t" using t by (simp add: take_bit_nat_eq_self)
  finally have "bit (take_bit 8 (of_nat t :: u64)) n" using b by simp
  then show "n < 8" by (simp add: bit_take_bit_iff)
qed

lemma byte_unat: "t < 256 \<Longrightarrow> unat (of_nat t :: u64) = t"
  by (simp add: unat_of_nat)

lemma tag_split:
  assumes "t < 256" "off < 256" "l < 256"
  shows "unat (drop_bit 24 (SMBIOS_RAW_TAG t (off, l)) AND 0xff) = 0"
    "unat (drop_bit 16 (SMBIOS_RAW_TAG t (off, l)) AND 0xff) = t"
    "unat (drop_bit 8 (SMBIOS_RAW_TAG t (off, l)) AND 0xff) = off"
    "unat (SMBIOS_RAW_TAG t (off, l) AND 0xff) = l"
proof -
  define T K L :: u64 where "T = of_nat t" and "K = of_nat off" and "L = of_nat l"
  note b = byte_bits [OF assms(1), folded T_def] byte_bits [OF assms(2), folded K_def] byte_bits [OF assms(3), folded L_def]
  have m: "(0xff :: u64) = mask 8" by (simp add: mask_eq_exp_minus_1)
  have x: "SMBIOS_RAW_TAG t (off, l) = push_bit 16 T OR push_bit 8 K OR L" by (simp add: SMBIOS_RAW_TAG_def T_def K_def L_def)
  have "drop_bit 24 (SMBIOS_RAW_TAG t (off, l)) AND 0xff = 0" unfolding x m
    by (rule bit_eqI) (use b in \<open>fastforce simp: bit_simps\<close>)
  then show "unat (drop_bit 24 (SMBIOS_RAW_TAG t (off, l)) AND 0xff) = 0" by simp
  have "drop_bit 16 (SMBIOS_RAW_TAG t (off, l)) AND 0xff = T" unfolding x m
    by (rule bit_eqI) (use b in \<open>fastforce simp: bit_simps\<close>)
  then show "unat (drop_bit 16 (SMBIOS_RAW_TAG t (off, l)) AND 0xff) = t" using assms by (simp add: T_def byte_unat)
  have "drop_bit 8 (SMBIOS_RAW_TAG t (off, l)) AND 0xff = K" unfolding x m
    by (rule bit_eqI) (use b in \<open>fastforce simp: bit_simps\<close>)
  then show "unat (drop_bit 8 (SMBIOS_RAW_TAG t (off, l)) AND 0xff) = off" using assms by (simp add: K_def byte_unat)
  have "SMBIOS_RAW_TAG t (off, l) AND 0xff = L" unfolding x m
    by (rule bit_eqI) (use b in \<open>fastforce simp: bit_simps\<close>)
  then show "unat (SMBIOS_RAW_TAG t (off, l) AND 0xff) = l" using assms by (simp add: L_def byte_unat)
qed

lemma string_tag: "SMBIOS_STRING_TAG t (off, n) = SMBIOS_RAW_TAG t (off, 0)"
  by (simp add: SMBIOS_STRING_TAG_def SMBIOS_RAW_TAG_def)

section \<open>Fetching\<close>

text \<open>What a buffer holds after a value was fetched into it.\<close>

definition filled :: "bytes \<Rightarrow> bytes \<Rightarrow> bytes" where
  "filled v buf = take (length buf) v @ drop (length v) buf"

lemma filled_put: "put_at 0 (take (min (length buf) (length v)) v) buf = filled v buf"
  by (cases "length v \<le> length buf") (simp_all add: filled_def)

lemma length_filled [simp]: "length (filled v buf) = length buf"
  by (simp add: filled_def)

text \<open>The part of a structure that a tag of offset and length names, clipped to the formatted part.\<close>

definition part :: "nat \<Rightarrow> nat \<Rightarrow> bytes \<Rightarrow> bytes" where
  "part off l b = take l (drop off (take (unat (b ! 1)) b))"

lemma fetch_source_raw:
  assumes "4 \<le> length b" "unat (b ! 1) \<le> length b" "off \<noteq> 0" "l \<noteq> 0"
  shows "fetch_source E b off l = (OK, 0, part off l b)"
proof -
  have "field header_len b = Some (unat (b ! 1))" using assms(1) by (intro field_len) simp
  moreover have "get_at off (min l (unat (b ! 1) - off)) b = part off l b" if "off \<le> unat (b ! 1)"
    using that by (simp add: get_at_def part_def drop_take min.commute)
  moreover have "part off l b = []" if "unat (b ! 1) < off" using that by (simp add: part_def)
  ultimately show ?thesis using assms by (simp add: fetch_source_def)
qed

lemma fetch_source_string:
  assumes "smbios_ok E" "4 \<le> length b" "unat (b ! 1) \<le> length b" "off \<noteq> 0"
  shows "fetch_source E b off 0 = (case if off < unat (b ! 1) then sb_string E b (unat (b ! off)) else None of
      None \<Rightarrow> (Err ENOENT, 0, []) | Some v \<Rightarrow> (OK, unat (b ! off), v))"
proof -
  have "field header_len b = Some (unat (b ! 1))" using assms(2) by (intro field_len) simp
  moreover have "sb_string E b 0 = None" using assms(1) by (simp add: smbios_ok_def)
  ultimately show ?thesis using assms(2-4) by (auto simp: fetch_source_def Let_def split: option.split)
qed


text \<open>A table with one system information structure: its UUID, in a buffer of 20 bytes.\<close>

definition system_info :: bytes where
  "system_info = [1, 27, 0, 1, 1, 2, 3, 4] @ map of_nat [16..<32] @ [6, 0, 0]"

definition demo_smbios :: smbios_env where
  "demo_smbios = \<lparr>sb_structure = (\<lambda>t i. if t = 1 \<and> i = 0 then Some system_info else None), sb_string = (\<lambda>b i. if i = 0 then None else Some [65, 66]),
     sb_version = 0x0300, sb_uuid_mangle = (\<lambda>u. rev (take 4 u) @ drop 4 u), sb_cmp = (\<lambda>a b. st_name a = st_name b)\<rparr>"

lemma demo_smbios_ok: "smbios_ok demo_smbios"
  by (auto simp: smbios_ok_def demo_smbios_def system_info_def split: if_splits)


section \<open>Memory\<close>

text \<open>The size of a module in MB, from the fields of its structure.\<close>

definition module_mb :: "bytes \<Rightarrow> nat" where
  "module_mb b =
    (let len = unat (b ! 1); sz = of_le (get_at 0x0c 2 b) in
     if len < 0x0e \<or> sz = 0xffff then 0
     else if sz = 0x7fff then if len < 0x20 then 0 else of_le (get_at 0x1c 4 b)
     else if sz < 0x8000 then sz else (sz - 0x8000) * 1024)"

lemma size_bits:
  fixes n :: nat
  assumes "n < 65536"
  shows "n AND 0x8000 \<noteq> 0 \<longleftrightarrow> 0x8000 \<le> n" "0x8000 \<le> n \<Longrightarrow> n AND 0x7fff = n - 0x8000"
proof -
  have "n AND 0x8000 \<noteq> 0 \<longleftrightarrow> bit n 15" using and_exp_eq_0_iff_not_bit [of n 15] by simp
  also have "\<dots> \<longleftrightarrow> odd (n div 2 ^ 15)" by (simp only: bit_iff_odd)
  also have "\<dots> \<longleftrightarrow> 0x8000 \<le> n"
  proof (cases "0x8000 \<le> n")
    case True
    then have "n div 32768 = 1" using assms by (simp add: div_nat_eqI)
    then show ?thesis using True by simp
  qed simp
  finally show "n AND 0x8000 \<noteq> 0 \<longleftrightarrow> 0x8000 \<le> n" .
  have "(0x7fff :: nat) = mask 15" by (simp add: mask_eq_exp_minus_1)
  then have "n AND 0x7fff = n mod 32768" by (simp only: take_bit_eq_mask [symmetric] take_bit_eq_mod) simp
  then show "0x8000 \<le> n \<Longrightarrow> n AND 0x7fff = n - 0x8000" using assms by (simp add: mod_if)
qed

lemma module_size_mb:
  assumes "4 \<le> length b" "unat (b ! 1) \<le> length b"
  shows "module_size b = Some (module_mb b)"
proof (cases "unat (b ! 1) < 0x0e")
  case False
  then have l: "0x0e \<le> length b" using assms by simp
  have "of_le (get_at 0x0c 2 b) < 65536" using of_le_bound [of "get_at 0x0c 2 b"] l by simp
  note bits = size_bits [OF this]
  have "field header_len b = Some (unat (b ! 1))" using assms(1) by (intro field_len) simp
  then show ?thesis using False assms l bits
    by (auto simp: module_size_def module_mb_def field_in Let_def not_less simp del: of_le.simps)
next
  case True
  then show ?thesis using assms field_len [of b] by (simp add: module_size_def module_mb_def Let_def)
qed

lemma mem_total_loop_sum:
  assumes "smbios_ok E" "\<And>j. sb_structure E SMBIOS_TYPE_MEMORY_DEVICE (i + j) = (if j < length ms then Some (ms ! j) else None)"
  shows "mem_total_loop E i acc = Some (OK, acc + of_nat (\<Sum>b\<leftarrow>ms. module_mb b))"
  using assms(2)
proof (induction ms arbitrary: i acc)
  case Nil
  then show ?case using Nil [of 0] by (subst mem_total_loop.simps) simp
next
  case (Cons m ms)
  have s: "sb_structure E SMBIOS_TYPE_MEMORY_DEVICE i = Some m" using Cons(2) [of 0] by simp
  then have "4 \<le> length m" "unat (m ! 1) \<le> length m" using assms(1) by (auto simp: smbios_ok_def)
  then have z: "module_size m = Some (module_mb m)" by (rule module_size_mb)
  have "sb_structure E SMBIOS_TYPE_MEMORY_DEVICE (Suc i + j) = (if j < length ms then Some (ms ! j) else None)" for j
    using Cons(2) [of "Suc j"] by simp
  from Cons(1) [OF this, of "acc + of_nat (module_mb m)"] show ?case
    by (subst mem_total_loop.simps) (simp add: s z add.assoc)
qed

text \<open>The two settings of the first module: their fields lie inside the structure, so only the write of the speed
  into a buffer of less than two bytes is out of bounds.\<close>

lemma mem_type_safe: "smbios_ok E \<Longrightarrow> fst (smbios_fetch_mem_type E buf) \<noteq> Fault"
proof (cases "sb_structure E SMBIOS_TYPE_MEMORY_DEVICE 0")
  case (Some m)
  assume "smbios_ok E"
  then have l: "4 \<le> length m" "unat (m ! 1) \<le> length m" using Some by (auto simp: smbios_ok_def)
  have "field header_len m = Some (unat (m ! 1))" using l by (intro field_len) simp
  then show ?thesis using Some l by (simp add: smbios_fetch_mem_type_def field_in Let_def)
qed (simp add: smbios_fetch_mem_type_def)

lemma mem_speed_fault: "smbios_ok E \<Longrightarrow> fst (smbios_fetch_mem_speed E buf) = Fault \<Longrightarrow> length buf < 2"
proof -
  assume ok: "smbios_ok E" and f: "fst (smbios_fetch_mem_speed E buf) = Fault"
  from f obtain m where m: "sb_structure E SMBIOS_TYPE_MEMORY_DEVICE 0 = Some m"
    by (auto simp: smbios_fetch_mem_speed_def split: option.splits)
  have l: "4 \<le> length m" "unat (m ! 1) \<le> length m" using ok m by (auto simp: smbios_ok_def)
  have "field header_len m = Some (unat (m ! 1))" using l by (intro field_len) simp
  then show ?thesis using f m l by (auto simp: smbios_fetch_mem_speed_def field_in split: if_splits)
qed

text \<open>The total memory. The walk over the memory devices ends at the first instance that is missing, never
  reads outside the table, and adds up the sizes of all modules. A total of zero gives no value; otherwise the
  low 32 bits of the total are written, most significant byte first, into a buffer that has to hold them
  whatever length was asked for: a shorter buffer, such as that of a query for the length alone, is overrun.\<close>

lemma mem_total_exact:
  assumes "smbios_ok E" "\<And>i. sb_structure E SMBIOS_TYPE_MEMORY_DEVICE i = (if i < length ms then Some (ms ! i) else None)"
    and "total_mb = (\<Sum>b\<leftarrow>ms. module_mb b) mod 2 ^ 64"
  shows "smbios_fetch_mem_total E buf =
    Some (if total_mb = 0 then (Err ENOENT, 0, buf)
          else if length buf < 4 then (Fault, 0, buf)
          else (OK, 4, to_be 4 (total_mb mod 2 ^ 32) @ drop 4 buf))"
proof -
  define T :: u64 where "T = of_nat (\<Sum>b\<leftarrow>ms. module_mb b)"
  have l: "mem_total_loop E 0 0 = Some (OK, T)" using mem_total_loop_sum [OF assms(1), of 0 ms 0] assms(2) by (simp add: T_def)
  have u: "unat T = total_mb" by (simp add: T_def assms(3) unat_of_nat)
  have "unat (ucast T :: u32) = total_mb mod 2 ^ 32" by (simp add: u [symmetric] unsigned_ucast_eq take_bit_eq_mod)
  moreover have "T = 0 \<longleftrightarrow> total_mb = 0" by (simp add: u [symmetric] unat_eq_0)
  ultimately show ?thesis by (simp add: smbios_fetch_mem_total_def l)
qed

end
