(* ===== verification/Pci.thy ===== *)
theory Pci
  imports Fw_Prelude
begin

text \<open>
  The PCI bus (\<^verbatim>\<open>drivers/bus/pci.c\<close>): base address registers, the configuration of a device, the scan of the bus,
  the choice of a driver, probing and removal. \<^verbatim>\<open>unsigned long\<close> has 64 bits, as on the platforms of the
  firmware. The hardware is a configuration space in which some bits can be written and the others are fixed.
\<close>

section \<open>Configuration space\<close>

abbreviation (input) "PCI_VENDOR_ID \<equiv> (0x00 :: nat)"
abbreviation (input) "PCI_COMMAND \<equiv> (0x04 :: nat)"
abbreviation (input) "PCI_COMMAND_IO \<equiv> (0x0001 :: u32)"
abbreviation (input) "PCI_COMMAND_MEM \<equiv> (0x0002 :: u32)"
abbreviation (input) "PCI_COMMAND_MASTER \<equiv> (0x0004 :: u32)"
abbreviation (input) "PCI_REVISION \<equiv> (0x08 :: nat)"
abbreviation (input) "PCI_LATENCY_TIMER \<equiv> (0x0d :: nat)"
abbreviation (input) "PCI_HEADER_TYPE \<equiv> (0x0e :: nat)"
abbreviation (input) "PCI_HEADER_TYPE_BRIDGE \<equiv> (0x01 :: u32)"
abbreviation (input) "PCI_HEADER_TYPE_MASK \<equiv> (0x7f :: u32)"
abbreviation (input) "PCI_HEADER_TYPE_MULTI \<equiv> (0x80 :: u32)"
abbreviation (input) "PCI_BASE_ADDRESS_0 \<equiv> (0x10 :: nat)"
abbreviation (input) "PCI_BASE_ADDRESS_5 \<equiv> (0x24 :: nat)"
abbreviation (input) "PCI_SUBORDINATE \<equiv> (0x1a :: nat)"
abbreviation (input) "PCI_INTERRUPT_LINE \<equiv> (0x3c :: nat)"

text \<open>The encoding of a bus:dev.fn address: segment, bus, slot and function in 16, 8, 5 and 3 bits.\<close>

abbreviation (input) "PCI_SEG b \<equiv> drop_bit 16 b AND (0xffff :: u32)"
abbreviation (input) "PCI_BUS b \<equiv> drop_bit 8 b AND (0xff :: u32)"
abbreviation (input) "PCI_SLOT b \<equiv> drop_bit 3 b AND (0x1f :: u32)"
abbreviation (input) "PCI_FUNC b \<equiv> b AND (7 :: u32)"
abbreviation (input) "PCI_FIRST_FUNC b \<equiv> b AND NOT (7 :: u32)"

text \<open>\<open>ps_cfg b i\<close> is the \<open>i\<close>-th double word of the configuration space at address \<open>b\<close>; \<open>ps_writes\<close> is the history
  of the writes (address, width, offset, value).\<close>

type_synonym pci_cfg = "u32 \<Rightarrow> nat \<Rightarrow> u32"

datatype cfg_access = CfgWrite u32 nat nat u32

record pci_state =
  ps_cfg :: pci_cfg
  ps_writes :: "cfg_access list"

record pci_range =
  pr_start :: u32
  pr_count :: u32

record pci_device_id =
  pi_vendor :: u16
  pi_device :: u16
  pi_name :: string

record pci_driver =
  dr_class :: u32
  dr_mask :: u32
  dr_ids :: "pci_device_id list"

record device_description =
  dd_location :: u32
  dd_vendor :: u16
  dd_device :: u16
  dd_class :: u32
  dd_ioaddr :: u64
  dd_irq :: byte

text \<open>The driver of a device is its position in the table of drivers.\<close>

record pci_device =
  pd_busdevfn :: u32
  pd_vendor :: u16
  pd_device :: u16
  pd_class :: u32
  pd_irq :: byte
  pd_hdrtype :: byte
  pd_membase :: u64
  pd_ioaddr :: u64
  pd_name :: string
  pd_desc :: device_description
  pd_driver :: "nat option"
  pd_id :: "pci_device_id option"
  pd_driver_name :: "string option"

text \<open>\<open>pe_writable\<close> tells which bits of a register can be written, \<open>pe_discover\<close> is \<^verbatim>\<open>pci_discover()\<close>, \<open>pe_busdevfn\<close> the
  macro \<^verbatim>\<open>PCI_BUSDEVFN()\<close>, \<open>pe_can_probe\<close> is \<^verbatim>\<open>pci_can_probe()\<close>; \<open>pe_probe\<close> and \<open>pe_remove\<close> are the operations of
  the drivers, which work on the configuration space and may see the number of devices handled so far.\<close>

record pci_env =
  pe_writable :: "u32 \<Rightarrow> nat \<Rightarrow> u32"
  pe_discover :: "u32 \<Rightarrow> pci_range"
  pe_busdevfn :: "u32 \<Rightarrow> u32 \<Rightarrow> u32 \<Rightarrow> u32 \<Rightarrow> u32"
  pe_malloc :: "nat \<Rightarrow> bool"
  pe_can_probe :: "pci_device \<Rightarrow> bool"
  pe_drivers :: "pci_driver list"
  pe_probe :: "nat \<Rightarrow> nat \<Rightarrow> pci_device \<Rightarrow> pci_state \<Rightarrow> rc \<times> pci_state"
  pe_remove :: "nat \<Rightarrow> nat \<Rightarrow> pci_device \<Rightarrow> pci_state \<Rightarrow> pci_state"

text \<open>\<^verbatim>\<open>pci_read_config_byte()\<close>, \<^verbatim>\<open>pci_read_config_word()\<close>, \<^verbatim>\<open>pci_read_config_dword()\<close> and the same for writing, by width.\<close>

definition cfg_read :: "nat \<Rightarrow> u32 \<Rightarrow> nat \<Rightarrow> pci_state \<Rightarrow> u32" where
  "cfg_read width b reg s = take_bit (8 * width) (drop_bit (8 * (reg mod 4)) (ps_cfg s b (reg div 4)))"

definition cfg_write :: "pci_env \<Rightarrow> nat \<Rightarrow> u32 \<Rightarrow> nat \<Rightarrow> u32 \<Rightarrow> pci_state \<Rightarrow> pci_state" where
  "cfg_write E width b reg v s =
    (let i = reg div 4; m = push_bit (8 * (reg mod 4)) (mask (8 * width)) AND pe_writable E b i;
         new = ps_cfg s b i AND NOT m OR (push_bit (8 * (reg mod 4)) v AND m) in
     s\<lparr>ps_cfg := (ps_cfg s)(b := (ps_cfg s b)(i := new)), ps_writes := ps_writes s @ [CfgWrite b width reg v]\<rparr>)"

section \<open>Base address registers\<close>

definition pci_bar :: "pci_device \<Rightarrow> nat \<Rightarrow> pci_state \<Rightarrow> u64" where
  "pci_bar pci reg s =
    (let low = cfg_read 4 (pd_busdevfn pci) reg s in
     if low AND (1 OR 6) = 4 then
       let high = cfg_read 4 (pd_busdevfn pci) (reg + 4) s in
       if high \<noteq> 0 then push_bit 32 (ucast high) OR ucast low else ucast low
     else ucast low)"

definition pci_bar_is_io :: "pci_device \<Rightarrow> nat \<Rightarrow> pci_state \<Rightarrow> bool" where
  "pci_bar_is_io pci reg s \<longleftrightarrow> pci_bar pci reg s AND 1 \<noteq> 0"

definition pci_bar_start :: "pci_device \<Rightarrow> nat \<Rightarrow> pci_state \<Rightarrow> u64" where
  "pci_bar_start pci reg s =
    (let bar = pci_bar pci reg s in if bar AND 1 \<noteq> 0 then bar AND NOT 3 else bar AND NOT 0xf)"

definition decoding_off :: "pci_env \<Rightarrow> u32 \<Rightarrow> u32 \<Rightarrow> pci_state \<Rightarrow> pci_state" where
  "decoding_off E b cmd s = cfg_write E 2 b PCI_COMMAND (cmd AND NOT (PCI_COMMAND_MEM OR PCI_COMMAND_IO)) s"

definition pci_bar_set :: "pci_env \<Rightarrow> pci_device \<Rightarrow> nat \<Rightarrow> u64 \<Rightarrow> pci_state \<Rightarrow> pci_state" where
  "pci_bar_set E pci reg start s =
    (let b = pd_busdevfn pci; cmd = cfg_read 2 b PCI_COMMAND s;
         s = decoding_off E b cmd s;
         type = cfg_read 4 b reg s AND (1 OR 6);
         s = cfg_write E 4 b reg (ucast start) s;
         s = (if type = 4 then cfg_write E 4 b (reg + 4) (ucast (drop_bit 32 start)) s else s) in
     cfg_write E 2 b PCI_COMMAND cmd s)"

definition pci_bar_size :: "pci_env \<Rightarrow> pci_device \<Rightarrow> nat \<Rightarrow> pci_state \<Rightarrow> u64 \<times> pci_state" where
  "pci_bar_size E pci reg s =
    (let b = pd_busdevfn pci; cmd = cfg_read 2 b PCI_COMMAND s;
         s = decoding_off E b cmd s;
         start = pci_bar_start pci reg s;
         s = pci_bar_set E pci reg (- 1) s;
         size = pci_bar_start pci reg s;
         size = size AND (- size);
         s = pci_bar_set E pci reg start s in
     (size, cfg_write E 2 b PCI_COMMAND cmd s))"

text \<open>The scan over the base address registers.\<close>

function read_bases_loop :: "nat \<Rightarrow> pci_state \<Rightarrow> pci_device \<Rightarrow> pci_device" where
  "read_bases_loop reg s pci =
    (if reg \<le> PCI_BASE_ADDRESS_5 then
       let bar = pci_bar pci reg s in
       if bar AND 1 \<noteq> 0 then
         read_bases_loop (reg + 4) s (if pd_ioaddr pci = 0 then pci\<lparr>pd_ioaddr := bar AND NOT 3\<rparr> else pci)
       else
         let pci = (if pd_membase pci = 0 then pci\<lparr>pd_membase := bar AND NOT 0xf\<rparr> else pci) in
         read_bases_loop (if bar AND 4 \<noteq> 0 then reg + 8 else reg + 4) s pci
     else pci)"
  by pat_completeness auto

termination read_bases_loop
  by (relation "measure (\<lambda>(reg, s, pci). 0x28 - reg)") auto

declare read_bases_loop.simps [simp del]

definition pci_read_bases :: "pci_state \<Rightarrow> pci_device \<Rightarrow> pci_device" where
  "pci_read_bases s pci = read_bases_loop PCI_BASE_ADDRESS_0 s (pci\<lparr>pd_ioaddr := 0, pd_membase := 0\<rparr>)"

definition adjust_pci_device :: "pci_env \<Rightarrow> pci_device \<Rightarrow> pci_state \<Rightarrow> pci_state" where
  "adjust_pci_device E pci s =
    (let b = pd_busdevfn pci; pci_command = cfg_read 2 b PCI_COMMAND s;
         new_command = pci_command OR PCI_COMMAND_MASTER OR PCI_COMMAND_MEM OR PCI_COMMAND_IO;
         s = (if pci_command \<noteq> new_command then cfg_write E 2 b PCI_COMMAND new_command s else s);
         pci_latency = cfg_read 1 b PCI_LATENCY_TIMER s in
     if pci_latency < 32 then cfg_write E 1 b PCI_LATENCY_TIMER 32 s else s)"

section \<open>Devices\<close>

text \<open>\<^verbatim>\<open>snprintf ( "%04x:%02x:%02x.%x" )\<close>: hexadecimal digits, at least \<open>n\<close> of them.\<close>

function hex_digits :: "nat \<Rightarrow> nat \<Rightarrow> string" where
  "hex_digits n v =
    (if n \<le> 1 \<and> v < 16 then [''0123456789abcdef'' ! v]
     else hex_digits (n - 1) (v div 16) @ [''0123456789abcdef'' ! (v mod 16)])"
  by pat_completeness auto

termination hex_digits
  by (relation "measure (\<lambda>(n, v). n + v)") auto

declare hex_digits.simps [simp del]

definition pci_name :: "u32 \<Rightarrow> string" where
  "pci_name b = hex_digits 4 (unat (PCI_SEG b)) @ '':'' @ hex_digits 2 (unat (PCI_BUS b)) @ '':'' @
     hex_digits 2 (unat (PCI_SLOT b)) @ ''.'' @ hex_digits 1 (unat (PCI_FUNC b))"

definition zero_pci :: pci_device where
  "zero_pci = \<lparr>pd_busdevfn = 0, pd_vendor = 0, pd_device = 0, pd_class = 0, pd_irq = 0, pd_hdrtype = 0, pd_membase = 0,
     pd_ioaddr = 0, pd_name = [], pd_desc = \<lparr>dd_location = 0, dd_vendor = 0, dd_device = 0, dd_class = 0, dd_ioaddr = 0, dd_irq = 0\<rparr>,
     pd_driver = None, pd_id = None, pd_driver_name = None\<rparr>"

text \<open>The device that a bus:dev.fn address names is present.\<close>

definition pci_read_config :: "pci_state \<Rightarrow> pci_device \<Rightarrow> rc \<times> pci_device" where
  "pci_read_config s pci =
    (let b = pd_busdevfn pci in
     if PCI_FUNC b \<noteq> 0 \<and> cfg_read 1 (PCI_FIRST_FUNC b) PCI_HEADER_TYPE s AND PCI_HEADER_TYPE_MULTI = 0 then (Err ENODEV, pci)
     else
       let tmp = cfg_read 4 b PCI_VENDOR_ID s in
       if tmp = 0xffffffff \<or> tmp = 0 then (Err ENODEV, pci)
       else
         let pci = pci\<lparr>pd_vendor := ucast (tmp AND 0xffff), pd_device := ucast (drop_bit 16 tmp),
               pd_class := drop_bit 8 (cfg_read 4 b PCI_REVISION s),
               pd_irq := ucast (cfg_read 1 b PCI_INTERRUPT_LINE s), pd_hdrtype := ucast (cfg_read 1 b PCI_HEADER_TYPE s)\<rparr>;
             pci = pci_read_bases s pci in
         (OK, pci\<lparr>pd_name := pci_name b,
            pd_desc := \<lparr>dd_location = b, dd_vendor = pd_vendor pci, dd_device = pd_device pci, dd_class = pd_class pci,
              dd_ioaddr = pd_ioaddr pci, dd_irq = pd_irq pci\<rparr>\<rparr>))"

section \<open>Scan of the bus\<close>

definition in_range :: "u32 \<Rightarrow> pci_range \<Rightarrow> bool" where
  "in_range b r \<longleftrightarrow> b - pr_start r < pr_count r"

text \<open>A bridge extends the range to the buses behind it.\<close>

definition expand_range :: "pci_env \<Rightarrow> pci_state \<Rightarrow> u32 \<Rightarrow> pci_range \<Rightarrow> pci_range" where
  "expand_range E s b r =
    (if cfg_read 1 b PCI_HEADER_TYPE s AND PCI_HEADER_TYPE_MASK = PCI_HEADER_TYPE_BRIDGE then
       let sub = cfg_read 1 b PCI_SUBORDINATE s in
       if sub \<le> PCI_BUS b then r
       else
         let count = pe_busdevfn E (PCI_SEG b) (sub + 1) 0 0 - pr_start r in
         if pr_count r < count then r\<lparr>pr_count := count\<rparr> else r
     else r)"

text \<open>Finding the range to continue in: the address at which to look, if there is one.\<close>

definition next_address :: "pci_env \<Rightarrow> u32 \<Rightarrow> pci_range \<Rightarrow> u32 \<times> pci_range" where
  "next_address E b r =
    (if \<not> in_range b r then
       let r = pe_discover E b in (if b < pr_start r then pr_start r else b, r)
     else (b, r))"

function pci_find_next :: "pci_env \<Rightarrow> pci_state \<Rightarrow> u32 \<Rightarrow> pci_range \<Rightarrow> rc \<times> pci_device \<times> u32 \<times> pci_range" where
  "pci_find_next E s b r =
    (let (b', r) = next_address E b r in
     if \<not> in_range b' r then (Err ENODEV, zero_pci, b', r)
     else
       let (rc, pci) = pci_read_config s (zero_pci\<lparr>pd_busdevfn := b'\<rparr>) in
       if rc = OK then (OK, pci, b', expand_range E s b' r)
       else if b' + 1 = 0 then (Err ENODEV, pci, 0, r)
       else pci_find_next E s (b' + 1) r)"
  by pat_completeness auto

text \<open>The address grows in every round.\<close>

lemma unat_below: "unat (b :: u32) < 0x100000000"
  using unsigned_less [of b] by simp

lemma unat_Suc_nz: "b + 1 \<noteq> (0 :: u32) \<Longrightarrow> unat (b + 1) = Suc (unat b)"
  by (simp add: unat_word_ariths unat_eq_zero [symmetric] mod_Suc [of "unat b"] mod_less [OF unat_below] split: if_splits)

lemma next_address_le: "next_address E b r = (b', r') \<Longrightarrow> unat b \<le> unat b'"
  by (auto simp: next_address_def Let_def word_less_nat_alt split: if_splits)

lemma next_round:
  assumes "(b', r') = next_address E b r" "b' + 1 \<noteq> 0"
  shows "0x100000000 - unat (b' + 1) < 0x100000000 - unat b"
  using next_address_le [of E b r b' r'] unat_Suc_nz [OF assms(2)] unat_below [of "b' + 1"] assms(1) by simp

termination pci_find_next
  by (relation "measure (\<lambda>(E, s, b, r). 0x100000000 - unat b)") (auto dest: next_round)

declare pci_find_next.simps [simp del]

text \<open>The device at an address.\<close>

definition device_at :: "pci_state \<Rightarrow> u32 \<Rightarrow> pci_device option" where
  "device_at s b = (case pci_read_config s (zero_pci\<lparr>pd_busdevfn := b\<rparr>) of (OK, pci) \<Rightarrow> Some pci | _ \<Rightarrow> None)"

lemma find_next_unfold:
  assumes "next_address E b r = (c, q)"
  shows "pci_find_next E s b r =
    (if \<not> in_range c q then (Err ENODEV, zero_pci, c, q)
     else case device_at s c of
         Some pci \<Rightarrow> (OK, pci, c, expand_range E s c q)
       | None \<Rightarrow> if c + 1 = 0 then (Err ENODEV, snd (pci_read_config s (zero_pci\<lparr>pd_busdevfn := c\<rparr>)), 0, q)
           else pci_find_next E s (c + 1) q)"
  by (auto simp: assms pci_find_next.simps [of E s b r] device_at_def split: prod.splits rc.splits)

lemma find_next_induct [case_names look]:
  assumes "\<And>E s b r c q. next_address E b r = (c, q) \<Longrightarrow>
    (in_range c q \<Longrightarrow> device_at s c = None \<Longrightarrow> c + 1 \<noteq> 0 \<Longrightarrow> P E s (c + 1) q) \<Longrightarrow> P E s b r"
  shows "P E s b r"
proof (induction E s b r rule: pci_find_next.induct)
  case (1 E s b r)
  obtain c q where c: "next_address E b r = (c, q)" by force
  obtain e d where d: "pci_read_config s (zero_pci\<lparr>pd_busdevfn := c\<rparr>) = (e, d)" by force
  show ?case using 1 [OF refl c [symmetric]] d by (intro assms [OF c]) (auto simp: device_at_def split: rc.splits)
qed

section \<open>Drivers\<close>

abbreviation (input) "PCI_ANY_ID \<equiv> (0xffff :: u16)"

definition id_matches :: "pci_device \<Rightarrow> pci_device_id \<Rightarrow> bool" where
  "id_matches pci ident \<longleftrightarrow> (pi_vendor ident = PCI_ANY_ID \<or> pi_vendor ident = pd_vendor pci) \<and>
     (pi_device ident = PCI_ANY_ID \<or> pi_device ident = pd_device pci)"

fun find_id :: "pci_device \<Rightarrow> pci_device_id list \<Rightarrow> pci_device_id option" where
  "find_id pci [] = None"
| "find_id pci (ident # ids) = (if id_matches pci ident then Some ident else find_id pci ids)"

fun find_driver_loop :: "nat \<Rightarrow> pci_driver list \<Rightarrow> pci_device \<Rightarrow> (nat \<times> pci_device_id) option" where
  "find_driver_loop i [] pci = None"
| "find_driver_loop i (d # ds) pci =
    (if (dr_class d XOR pd_class pci) AND dr_mask d \<noteq> 0 then find_driver_loop (Suc i) ds pci
     else case find_id pci (dr_ids d) of
         Some ident \<Rightarrow> Some (i, ident)
       | None \<Rightarrow> find_driver_loop (Suc i) ds pci)"

definition pci_find_driver :: "pci_env \<Rightarrow> pci_device \<Rightarrow> rc \<times> pci_device" where
  "pci_find_driver E pci =
    (case find_driver_loop 0 (pe_drivers E) pci of
       Some (i, ident) \<Rightarrow> (OK, pci\<lparr>pd_driver := Some i, pd_id := Some ident\<rparr>)
     | None \<Rightarrow> (Err ENOENT, pci))"

section \<open>The root bus\<close>

text \<open>\<open>pb_range\<close> is the static variable of \<^verbatim>\<open>pci_find_next()\<close>, \<open>pb_children\<close> the list of devices of the root device;
  \<open>pb_clk\<close> counts allocations and driver calls, \<open>pb_log\<close> is the history of the driver calls.\<close>

datatype bus_event = Probed pci_device rc | Removed pci_device

record pci_bus =
  pb_state :: pci_state
  pb_range :: pci_range
  pb_children :: "pci_device list"
  pb_clk :: nat
  pb_log :: "bus_event list"

definition pci_probe :: "pci_env \<Rightarrow> pci_device \<Rightarrow> pci_bus \<Rightarrow> rc \<times> pci_device \<times> pci_bus" where
  "pci_probe E pci b =
    (case (pd_driver pci, pd_id pci) of
       (Some i, Some ident) \<Rightarrow>
         let pci = pci\<lparr>pd_driver_name := Some (pi_name ident)\<rparr>;
             (r, ps) = pe_probe E i (pb_clk b) pci (pb_state b) in
         (r, pci, b\<lparr>pb_state := ps, pb_clk := Suc (pb_clk b), pb_log := pb_log b @ [Probed pci r]\<rparr>)
     | _ \<Rightarrow> (Fault, pci, b))"

definition pci_remove :: "pci_env \<Rightarrow> pci_device \<Rightarrow> pci_bus \<Rightarrow> pci_bus" where
  "pci_remove E pci b =
    (case pd_driver pci of
       Some i \<Rightarrow> b\<lparr>pb_state := pe_remove E i (pb_clk b) pci (pb_state b), pb_clk := Suc (pb_clk b),
         pb_log := pb_log b @ [Removed pci]\<rparr>
     | None \<Rightarrow> b)"

definition remove_first :: "pci_env \<Rightarrow> pci_device \<Rightarrow> pci_bus \<Rightarrow> pci_bus" where
  "remove_first E pci b = (let b = pci_remove E pci b in b\<lparr>pb_children := tl (pb_children b)\<rparr>)"

definition pcibus_remove :: "pci_env \<Rightarrow> pci_bus \<Rightarrow> pci_bus" where
  "pcibus_remove E b = fold (remove_first E) (pb_children b) b"

text \<open>What the scan does with one device; the result tells whether the structure can be used again. A device whose
  probe fails leaves the list.\<close>

definition handle_device :: "pci_env \<Rightarrow> pci_device \<Rightarrow> pci_bus \<Rightarrow> bool \<times> pci_bus" where
  "handle_device E pci b =
    (if \<not> pe_can_probe E pci then (True, b)
     else case pci_find_driver E pci of
         (OK, pci) \<Rightarrow>
           let (r, pci, b) = pci_probe E pci (b\<lparr>pb_children := pci # pb_children b\<rparr>) in
           if r = OK then (False, b\<lparr>pb_children := pci # tl (pb_children b)\<rparr>)
           else (True, b\<lparr>pb_children := tl (pb_children b)\<rparr>)
       | (e, pci) \<Rightarrow> (True, b))"

lemma find_next_le: "pci_find_next E s b r = (OK, pci, b', r') \<Longrightarrow> unat b \<le> unat b'"
proof (induction E s b r rule: find_next_induct)
  case (look E s b r c q)
  then show ?case using next_address_le [OF look(1)] unat_Suc_nz [of c]
    by (auto simp: find_next_unfold split: if_splits option.splits)
qed

text \<open>The scan: \<open>spare\<close> tells whether a structure from an earlier round can be used.\<close>

function pcibus_loop :: "pci_env \<Rightarrow> bool \<Rightarrow> u32 \<Rightarrow> pci_bus \<Rightarrow> rc \<times> pci_bus" where
  "pcibus_loop E spare busdevfn b =
    (if \<not> spare \<and> \<not> pe_malloc E (pb_clk b) then (Err ENOMEM, pcibus_remove E b)
     else
       let (rc, pci, busdevfn', r) = pci_find_next E (pb_state b) busdevfn (pb_range b); b = b\<lparr>pb_range := r\<rparr> in
       if rc \<noteq> OK then (OK, b)
       else
         let (spare, b) = handle_device E pci b in
         if busdevfn' + 1 = 0 then (OK, b) else pcibus_loop E spare (busdevfn' + 1) b)"
  by pat_completeness auto

lemma next_device:
  assumes "(OK, pci, c, q) = pci_find_next E s b r" "c + 1 \<noteq> 0"
  shows "0x100000000 - unat (c + 1) < 0x100000000 - unat b"
  using find_next_le [OF assms(1) [symmetric]] unat_Suc_nz [OF assms(2)] unat_below [of "c + 1"] by simp

termination pcibus_loop
  by (relation "measure (\<lambda>(E, spare, busdevfn, b). 0x100000000 - unat busdevfn)") (auto dest: next_device)

declare pcibus_loop.simps [simp del]

definition pcibus_probe :: "pci_env \<Rightarrow> pci_bus \<Rightarrow> rc \<times> pci_bus" where
  "pcibus_probe E b = pcibus_loop E False 0 b"

end
