(* ===== verification/Pci_Props.thy ===== *)
theory Pci_Props
  imports Pci
begin

text \<open>
  Theorems about the PCI bus: sizing a base address register finds its size and leaves the configuration space as
  it was, with decoding switched off meanwhile; the scan ends, visits every address that discovery reports, and
  probes each device with a driver once and in order; devices that were bound are removed when memory runs out.
\<close>

section \<open>The lowest set bit\<close>

lemma odd_and_minus: "odd y \<Longrightarrow> y AND - y = (1 :: 'a::len word)"
proof -
  assume y: "odd y"
  have "NOT y + 1 = NOT y OR 1" using y by (intro disjunctive_add) (auto simp: bit_simps bit_1_iff even_not_iff bit_0)
  then have "- y = NOT y OR 1" by (simp add: minus_eq_not_plus_1)
  then have "y AND - y = y AND 1" by (auto intro!: bit_eqI simp: bit_simps)
  then show ?thesis using y by (simp add: and_one_eq odd_iff_mod_2_eq_one)
qed

lemma lowest_bit:
  assumes "bit (x :: 'a::len word) k" "\<And>j. j < k \<Longrightarrow> \<not> bit x j"
  shows "x AND - x = 2 ^ k"
proof -
  define y where "y = drop_bit k x"
  have "k \<le> n" if "bit x n" for n using assms(2) [of n] that by (cases "k \<le> n") auto
  then have x: "x = push_bit k y" by (auto intro!: bit_eqI simp: y_def bit_simps)
  have "odd y" using assms(1) by (simp add: y_def bit_iff_odd_drop_bit)
  have "- x = push_bit k (- y)" by (simp add: x push_bit_eq_mult)
  then have "x AND - x = push_bit k (y AND - y)" by (simp add: x)
  also have "\<dots> = 2 ^ k" by (simp add: odd_and_minus [OF \<open>odd y\<close>] push_bit_eq_mult)
  finally show ?thesis .
qed

section \<open>Sizing a base address register\<close>

text \<open>What a write does to a register.\<close>

definition merge :: "u32 \<Rightarrow> u32 \<Rightarrow> u32 \<Rightarrow> u32" where
  "merge w old v = old AND NOT w OR (v AND w)"

lemma merge_same [simp]: "merge w (merge w old v) v' = merge w old v'"
  by (auto intro!: bit_eqI simp: merge_def bit_simps)

lemma merge_back: "old AND w = v AND w \<Longrightarrow> merge w old v = old"
proof (rule bit_eqI)
  fix n assume "old AND w = v AND w"
  then have "bit (old AND w) n = bit (v AND w) n" by simp
  then show "bit (merge w old v) n = bit old n" by (auto simp: merge_def bit_simps dest: bit_imp_le_length)
qed

lemma mask_32 [simp]: "mask 32 = (- 1 :: u32)" "take_bit 32 x = (x :: u32)"
  by (auto intro!: bit_eqI simp: bit_simps)

lemma write_dword [simp]:
  "reg mod 4 = 0 \<Longrightarrow> ps_cfg (cfg_write E 4 b reg v s) =
    (ps_cfg s)(b := (ps_cfg s b)(reg div 4 := merge (pe_writable E b (reg div 4)) (ps_cfg s b (reg div 4)) v))"
  by (simp add: cfg_write_def Let_def merge_def)

lemma write_command:
  "ps_cfg (cfg_write E 2 b PCI_COMMAND v s) =
    (ps_cfg s)(b := (ps_cfg s b)(1 := merge (0xffff AND pe_writable E b 1) (ps_cfg s b 1) v))"
  by (simp add: cfg_write_def Let_def merge_def mask_eq_exp_minus_1)

lemma read_dword [simp]: "reg mod 4 = 0 \<Longrightarrow> cfg_read 4 b reg s = ps_cfg s b (reg div 4)"
  by (simp add: cfg_read_def)

lemma read_command: "cfg_read 2 b PCI_COMMAND s = take_bit 16 (ps_cfg s b 1)"
  by (simp add: cfg_read_def)

lemma command_back: "merge (0xffff AND w) c (take_bit 16 c) = c"
  by (rule merge_back) (auto intro!: bit_eqI simp: bit_simps take_bit_eq_mask mask_eq_exp_minus_1)


text \<open>The registers of the base address at \<open>reg\<close>: its low word, its high word, whether it has 64 bits.\<close>

definition bar_low :: "u32 \<Rightarrow> nat \<Rightarrow> pci_state \<Rightarrow> u32" where
  "bar_low b reg s = ps_cfg s b (reg div 4)"

definition bar_high :: "u32 \<Rightarrow> nat \<Rightarrow> pci_state \<Rightarrow> u32" where
  "bar_high b reg s = ps_cfg s b (reg div 4 + 1)"

definition bar_64 :: "u32 \<Rightarrow> nat \<Rightarrow> pci_state \<Rightarrow> bool" where
  "bar_64 b reg s \<longleftrightarrow> bar_low b reg s AND 7 = 4"

definition join :: "u32 \<Rightarrow> u32 \<Rightarrow> u64" where
  "join high low = push_bit 32 (ucast high) OR ucast low"

definition bar_flags :: "u32 \<Rightarrow> u32" where
  "bar_flags low = (if low AND 1 \<noteq> 0 then 3 else 0xf)"

text \<open>The address bits that can be written: they tell the size of the region.\<close>

definition bar_bits :: "pci_env \<Rightarrow> u32 \<Rightarrow> nat \<Rightarrow> pci_state \<Rightarrow> u64" where
  "bar_bits E b reg s =
    (if bar_64 b reg s then join (pe_writable E b (reg div 4 + 1)) (pe_writable E b (reg div 4))
     else ucast (pe_writable E b (reg div 4)))"

text \<open>A base address register: it is aligned; the flags are fixed, and so are address bits that are zero. The bits
  that enable decoding can be written.\<close>

definition bar_ok :: "pci_env \<Rightarrow> u32 \<Rightarrow> nat \<Rightarrow> pci_state \<Rightarrow> bool" where
  "bar_ok E b reg s \<longleftrightarrow> reg mod 4 = 0 \<and> PCI_BASE_ADDRESS_0 \<le> reg \<and> reg \<le> PCI_BASE_ADDRESS_5 \<and>
     bar_low b reg s AND NOT (pe_writable E b (reg div 4)) = bar_low b reg s AND bar_flags (bar_low b reg s) \<and>
     pe_writable E b (reg div 4) AND bar_flags (bar_low b reg s) = 0 \<and>
     (bar_64 b reg s \<longrightarrow> bar_high b reg s AND NOT (pe_writable E b (reg div 4 + 1)) = 0) \<and>
     pe_writable E b 1 AND 3 = 3"

lemma pci_bar_join:
  assumes "reg mod 4 = 0"
  shows "pci_bar pci reg s = (if bar_64 (pd_busdevfn pci) reg s
    then join (bar_high (pd_busdevfn pci) reg s) (bar_low (pd_busdevfn pci) reg s) else ucast (bar_low (pd_busdevfn pci) reg s))"
proof -
  have "(reg + 4) mod 4 = 0" "(reg + 4) div 4 = reg div 4 + 1" using assms by auto
  then show ?thesis using assms by (simp add: pci_bar_def bar_64_def bar_low_def bar_high_def join_def Let_def)
qed

lemma bar_set_cfg:
  assumes "reg mod 4 = 0" "4 < reg" "b = pd_busdevfn pci"
  shows "ps_cfg (pci_bar_set E pci reg start s) = (ps_cfg s)(b := (ps_cfg s b)
      (reg div 4 := merge (pe_writable E b (reg div 4)) (bar_low b reg s) (ucast start),
       reg div 4 + 1 := (if bar_64 b reg s then merge (pe_writable E b (reg div 4 + 1)) (bar_high b reg s) (ucast (drop_bit 32 start))
          else bar_high b reg s)))"
proof -
  have r: "(reg + 4) mod 4 = 0" "(reg + 4) div 4 = Suc (reg div 4)" "reg div 4 \<noteq> 1" "reg div 4 \<noteq> 0" using assms by auto
  show ?thesis using assms(1) r
    by (auto simp: pci_bar_set_def decoding_off_def write_command read_command Let_def assms(3) bar_64_def bar_low_def bar_high_def
        command_back fun_eq_iff)
qed


text \<open>Numerals as masks, for reasoning on single bits.\<close>

lemma flag_masks: "(7 :: u32) = mask 3" "(4 :: u32) = 2 ^ 2" "(3 :: u32) = mask 2" "(0xf :: u32) = mask 4"
  "(0xf :: u64) = mask 4" "(3 :: u64) = mask 2"
  by (simp_all add: mask_eq_exp_minus_1)

lemma and_7_4: "x AND 7 = 4 \<longleftrightarrow> \<not> bit x 0 \<and> \<not> bit x 1 \<and> bit (x :: u32) 2"
proof
  assume a: "x AND 7 = 4"
  have "bit (x AND mask 3) n = bit (2 ^ 2 :: u32) n" for n using a by (simp only: flag_masks)
  from this [of 0] this [of 1] this [of 2] show "\<not> bit x 0 \<and> \<not> bit x 1 \<and> bit x 2" by (simp add: bit_simps)
next
  assume "\<not> bit x 0 \<and> \<not> bit x 1 \<and> bit x 2"
  then have "x AND mask 3 = 2 ^ 2" by (auto intro!: bit_eqI simp: bit_simps numeral_eq_Suc less_Suc_eq)
  then show "x AND 7 = 4" by (simp only: flag_masks)
qed

lemma and_1: "(x :: 'a::len word) AND 1 \<noteq> 0 \<longleftrightarrow> bit x 0"
  by (simp add: and_one_eq bit_0 odd_iff_mod_2_eq_one)

lemma bit_flags: "bit (bar_flags low) n \<longleftrightarrow> n < 2 \<or> (\<not> bit low 0 \<and> n < 4)"
  by (auto simp: bar_flags_def and_1 flag_masks bit_simps)

lemma bit_join: "bit (join h l) n \<longleftrightarrow> (if n < 32 then bit l n else n < 64 \<and> bit h (n - 32))"
  using bit_imp_le_length [of l n] by (auto simp: join_def bit_simps)

lemma join_parts: "ucast (join h l) = l" "ucast (drop_bit 32 (join h l)) = h" "ucast (ucast l :: u64) = (l :: u32)"
  by (auto intro!: bit_eqI simp: bit_join bit_simps)

lemma join_and_not: "join h l AND NOT 0xf = join h (l AND NOT 0xf)"
  "(ucast l AND NOT 0xf :: u64) = ucast (l AND NOT 0xf :: u32)" "(ucast l AND NOT 3 :: u64) = ucast (l AND NOT 3 :: u32)"
  unfolding flag_masks by (rule bit_eqI, auto simp: bit_join bit_simps dest: bit_imp_le_length)+

lemmas join_and_minus = join_and_not [simplified]

lemma ones: "ucast (- 1 :: u64) = (- 1 :: u32)" "ucast (drop_bit 32 (- 1 :: u64)) = (- 1 :: u32)" "ucast (mask 32 :: u64) = (- 1 :: u32)"
  by (auto intro!: bit_eqI simp: bit_simps)

lemma bar_start_join:
  assumes "reg mod 4 = 0" "b = pd_busdevfn pci"
  shows "pci_bar_start pci reg s =
    (let low = bar_low b reg s AND NOT (bar_flags (bar_low b reg s)) in if bar_64 b reg s then join (bar_high b reg s) low else ucast low)"
proof -
  have "bit (ucast (bar_low b reg s) :: u64) 0 = bit (bar_low b reg s) 0" by (simp add: bit_simps)
  then show ?thesis using assms(1)
    by (simp add: pci_bar_start_def pci_bar_join assms(2) bar_64_def and_7_4 Let_def and_1 bit_join bar_flags_def join_and_minus)
qed

text \<open>The address part of a register, before and after all its bits were set.\<close>

lemma bar_fields:
  assumes "L AND NOT w = L AND bar_flags L" "w AND bar_flags L = 0"
  shows "L AND NOT (bar_flags L) = L AND w" "bar_flags (merge w L v) = bar_flags L"
    "merge w L v AND NOT (bar_flags L) = v AND w" "merge w L v AND 7 = 4 \<longleftrightarrow> L AND 7 = 4"
proof -
  have a: "bit L n \<and> \<not> bit w n \<longleftrightarrow> bit L n \<and> bit (bar_flags L) n" for n
    using arg_cong [OF assms(1), of "\<lambda>x. bit x n"] bit_imp_le_length [of L n] by (auto simp: bit_simps)
  have w: "\<not> (bit w n \<and> bit (bar_flags L) n)" for n
    using arg_cong [OF assms(2), of "\<lambda>x. bit x n"] by (auto simp: bit_simps)
  show "L AND NOT (bar_flags L) = L AND w"
  proof (rule bit_eqI)
    fix n show "bit (L AND NOT (bar_flags L)) n = bit (L AND w) n" using a [of n] bit_imp_le_length [of L n] by (auto simp: bit_simps)
  qed
  have m: "bit (merge w L v) n \<longleftrightarrow> (if bit (bar_flags L) n then bit L n else bit v n \<and> bit w n)" for n
    using a [of n] w [of n] bit_imp_le_length [of L n] by (auto simp: merge_def bit_simps)
  have f: "bit (bar_flags L) 0" "bit (bar_flags L) 1" by (simp_all add: bit_flags)
  then show "bar_flags (merge w L v) = bar_flags L" by (simp add: bar_flags_def and_1 m)
  show "merge w L v AND NOT (bar_flags L) = v AND w"
  proof (rule bit_eqI)
    fix n show "bit (merge w L v AND NOT (bar_flags L)) n = bit (v AND w) n"
      using m [of n] w [of n] bit_imp_le_length [of w n] by (auto simp: bit_simps)
  qed
  show "merge w L v AND 7 = 4 \<longleftrightarrow> L AND 7 = 4" using f by (auto simp: and_7_4 m bit_flags)
qed


text \<open>With decoding switched off.\<close>

lemma command_off:
  assumes "w AND 3 = 3"
  shows "take_bit 16 (merge (0xffff AND w) c (take_bit 16 c AND NOT 3)) AND 3 = (0 :: u32)"
proof -
  have "(0xffff :: u32) = mask 16" by (simp add: mask_eq_exp_minus_1)
  moreover have "bit w n" if "n < 2" for n
    using arg_cong [OF assms, of "\<lambda>x. bit x n"] that by (simp add: flag_masks bit_simps)
  ultimately show ?thesis unfolding flag_masks by (auto intro!: bit_eqI simp: merge_def bit_simps)
qed

text \<open>The writes of setting a base address.\<close>

lemma writes_cfg_write [simp]: "ps_writes (cfg_write E w b reg v s) = ps_writes s @ [CfgWrite b w reg v]"
  by (simp add: cfg_write_def Let_def)

lemma bar_set_writes:
  assumes "b = pd_busdevfn pci"
  shows "\<exists>ws. ps_writes (pci_bar_set E pci reg start s) = ps_writes s @ ws \<and>
    (\<forall>v. CfgWrite b 2 PCI_COMMAND v \<in> set ws \<longrightarrow> v = cfg_read 2 b PCI_COMMAND s \<or> v AND 3 = 0)"
proof -
  have "(c AND NOT (2 OR 1)) AND 3 = (0 :: u32)" for c by (auto intro!: bit_eqI simp: bit_simps)
  then show ?thesis by (simp add: pci_bar_set_def decoding_off_def Let_def assms)
qed

text \<open>The states that sizing goes through: with decoding off, with all bits set, with the address restored.\<close>

lemma bar_sizing:
  assumes "bar_ok E b reg s" "pd_busdevfn pci = b"
    and s1_def: "s1 = decoding_off E b (take_bit 16 (ps_cfg s b 1)) s" and s2_def: "s2 = pci_bar_set E pci reg (- 1) s1"
    and start_def: "start = pci_bar_start pci reg s1" and s3_def: "s3 = pci_bar_set E pci reg start s2"
  shows "pci_bar_start pci reg s2 = bar_bits E b reg s"
    "ps_cfg (cfg_write E 2 b PCI_COMMAND (take_bit 16 (ps_cfg s b 1)) s3) = ps_cfg s"
    "take_bit 16 (ps_cfg s1 b 1) AND 3 = 0" "ps_cfg s2 b 1 = ps_cfg s1 b 1"
proof -
  let ?i = "reg div 4" and ?c = "ps_cfg s b 1" and ?w = "pe_writable E b"
  define L where "L = bar_low b reg s"
  have r: "reg mod 4 = 0" "4 < reg" "?i \<noteq> 1" "?i \<noteq> 0" using assms(1) by (auto simp: bar_ok_def)
  have f: "L AND NOT (?w ?i) = L AND bar_flags L" "?w ?i AND bar_flags L = 0" and h: "bar_64 b reg s \<Longrightarrow> bar_high b reg s AND NOT (?w (?i + 1)) = 0"
    using assms(1) by (auto simp: bar_ok_def L_def)
  note fields = bar_fields [OF f]
  have c1: "ps_cfg s1 = (ps_cfg s)(b := (ps_cfg s b)(1 := merge (0xffff AND ?w 1) ?c (take_bit 16 ?c AND NOT 3)))"
    by (simp add: s1_def decoding_off_def write_command)
  have b1: "bar_low b reg s1 = L" "bar_high b reg s1 = bar_high b reg s" "bar_64 b reg s1 = bar_64 b reg s"
    using r(3,4) by (simp_all add: bar_low_def bar_high_def bar_64_def c1 L_def)
  have st: "ucast start = L AND ?w ?i" "bar_64 b reg s \<Longrightarrow> ucast (drop_bit 32 start) = bar_high b reg s"
    using r(1) b1 by (simp_all add: start_def bar_start_join assms(2) Let_def fields(1) join_parts)
  have c2: "ps_cfg s2 = (ps_cfg s1)(b := (ps_cfg s1 b)(?i := merge (?w ?i) L (- 1), ?i + 1 :=
      (if bar_64 b reg s then merge (?w (?i + 1)) (bar_high b reg s) (- 1) else bar_high b reg s)))"
    unfolding s2_def by (subst bar_set_cfg [OF r(1,2) assms(2) [symmetric]]) (simp add: b1 ones)
  have b2: "bar_low b reg s2 = merge (?w ?i) L (- 1)" "bar_64 b reg s2 = bar_64 b reg s"
    "bar_high b reg s2 = (if bar_64 b reg s then merge (?w (?i + 1)) (bar_high b reg s) (- 1) else bar_high b reg s)"
    using fields(4) by (simp_all add: bar_low_def bar_high_def bar_64_def c2 L_def)
  have "merge (?w (?i + 1)) (bar_high b reg s) (- 1) = ?w (?i + 1)" if "bar_64 b reg s" using h [OF that] by (simp add: merge_def)
  then show "pci_bar_start pci reg s2 = bar_bits E b reg s"
    using r(1) b2 by (simp add: bar_start_join assms(2) bar_bits_def Let_def fields(2,3))
  have "ps_cfg s3 = (ps_cfg s2)(b := (ps_cfg s2 b)(?i := merge (?w ?i) L (L AND ?w ?i), ?i + 1 :=
      (if bar_64 b reg s then merge (?w (?i + 1)) (bar_high b reg s) (bar_high b reg s) else bar_high b reg s)))"
    unfolding s3_def by (subst bar_set_cfg [OF r(1,2) assms(2) [symmetric]]) (simp add: b2 st)
  then have c3: "ps_cfg s3 = ps_cfg s1"
    using r(3,4) by (simp add: c2 merge_back L_def bar_low_def bar_high_def c1 fun_eq_iff)
  have "merge (0xffff AND ?w 1) (ps_cfg s1 b 1) (take_bit 16 ?c) = ?c" by (simp add: c1 command_back)
  then show "ps_cfg (cfg_write E 2 b PCI_COMMAND (take_bit 16 ?c) s3) = ps_cfg s" by (simp add: write_command c3) (simp add: c1)
  show "take_bit 16 (ps_cfg s1 b 1) AND 3 = 0"
    using command_off [of "?w 1" ?c] assms(1) by (simp add: c1 bar_ok_def)
  show "ps_cfg s2 b 1 = ps_cfg s1 b 1" using r(3,4) by (simp add: c2)
qed

text \<open>C32: Sizing a base address register of any kind (memory with 32 or 64 bits, I/O, not implemented): the size is the
  weight of the lowest address bit that can be written, or zero. The configuration space is afterwards what it
  was. The first write switches decoding off, the last one restores the command register, and in between no write
  switches decoding on.\<close>

theorem pci_bar_size_exact:
  assumes "bar_ok E b reg s" "pd_busdevfn pci = b"
  shows "\<exists>size s' ws. pci_bar_size E pci reg s = (size, s') \<and> ps_cfg s' = ps_cfg s \<and>
    (\<forall>k. bit (bar_bits E b reg s) k \<and> (\<forall>j<k. \<not> bit (bar_bits E b reg s) j) \<longrightarrow> size = 2 ^ k) \<and>
    (bar_bits E b reg s = 0 \<longrightarrow> size = 0) \<and>
    ps_writes s' = ps_writes s @ CfgWrite b 2 PCI_COMMAND (cfg_read 2 b PCI_COMMAND s AND NOT 3) # ws @
      [CfgWrite b 2 PCI_COMMAND (cfg_read 2 b PCI_COMMAND s)] \<and>
    (\<forall>v. CfgWrite b 2 PCI_COMMAND v \<in> set ws \<longrightarrow> v AND 3 = 0)"
proof -
  define c where "c = take_bit 16 (ps_cfg s b 1)"
  define s1 where "s1 = decoding_off E b c s"
  define s2 where "s2 = pci_bar_set E pci reg (- 1) s1"
  define start where "start = pci_bar_start pci reg s1"
  define s3 where "s3 = pci_bar_set E pci reg start s2"
  note sizing = bar_sizing [OF assms s1_def [unfolded c_def] s2_def start_def s3_def, folded c_def]
  obtain w2 where w2: "ps_writes s2 = ps_writes s1 @ w2" "\<forall>v. CfgWrite b 2 PCI_COMMAND v \<in> set w2 \<longrightarrow> v AND 3 = 0"
    using bar_set_writes [OF assms(2) [symmetric], of E reg "- 1" s1] sizing(3) by (auto simp: s2_def read_command)
  obtain w3 where w3: "ps_writes s3 = ps_writes s2 @ w3" "\<forall>v. CfgWrite b 2 PCI_COMMAND v \<in> set w3 \<longrightarrow> v AND 3 = 0"
    using bar_set_writes [OF assms(2) [symmetric], of E reg start s2] sizing(3,4) by (auto simp: s3_def read_command)
  define m where "m = bar_bits E b reg s"
  have e: "pci_bar_size E pci reg s = (m AND - m, cfg_write E 2 b PCI_COMMAND c s3)"
    using sizing(1) by (simp add: pci_bar_size_def Let_def assms(2) read_command s1_def s2_def start_def s3_def m_def c_def)
  show ?thesis unfolding e m_def [symmetric]
    by (intro exI [of _ "m AND - m"] exI [of _ "cfg_write E 2 b PCI_COMMAND c s3"] exI [of _ "w2 @ w3"])
      (use sizing(2) w2 w3 lowest_bit in \<open>auto simp: read_command s1_def decoding_off_def c_def\<close>)
qed

text \<open>A device with a 64-bit register for a region of 16 kB.\<close>

definition demo_pci_env :: pci_env where
  "demo_pci_env = \<lparr>pe_writable = (\<lambda>b i. if i = 1 then 0x407 else if i = 6 then 0xffffc000 else if i = 7 then 0xffffffff else 0),
     pe_discover = (\<lambda>b. \<lparr>pr_start = 0, pr_count = 0x100\<rparr>), pe_busdevfn = (\<lambda>sg bus slot fn. push_bit 16 sg OR push_bit 8 bus OR push_bit 3 slot OR fn),
     pe_malloc = (\<lambda>n. True), pe_can_probe = (\<lambda>d. True),
     pe_drivers = [\<lparr>dr_class = 0, dr_mask = 0, dr_ids = [\<lparr>pi_vendor = 0x10ec, pi_device = 0x8125, pi_name = ''rtl8125''\<rparr>]\<rparr>],
     pe_probe = (\<lambda>i n d s. (OK, s)), pe_remove = (\<lambda>i n d s. s)\<rparr>"

definition demo_pci_state :: pci_state where
  "demo_pci_state = \<lparr>ps_cfg = (\<lambda>b i. if b \<noteq> 8 then 0xffffffff else if i = 0 then 0x812510ec else if i = 1 then 0x7
     else if i = 6 then 0xfe000004 else if i = 7 then 1 else 0), ps_writes = []\<rparr>"

theorem pci_bar_size_exact_witness:
  "\<exists>s'. pci_bar_size demo_pci_env (zero_pci\<lparr>pd_busdevfn := 8\<rparr>) 0x18 demo_pci_state = (0x4000, s') \<and> ps_cfg s' = ps_cfg demo_pci_state"
proof -
  have ok: "bar_ok demo_pci_env 8 0x18 demo_pci_state"
    by (simp add: bar_ok_def bar_low_def bar_high_def bar_64_def bar_flags_def demo_pci_env_def demo_pci_state_def)
  have b: "bar_bits demo_pci_env 8 0x18 demo_pci_state = 0xffffffffffffc000"
    by (simp add: bar_bits_def bar_64_def bar_low_def demo_pci_env_def demo_pci_state_def join_def)
  have m: "(0xffffffffffffc000 :: u64) = NOT (mask 14)" by (simp add: mask_eq_exp_minus_1)
  have k: "bit (0xffffffffffffc000 :: u64) 14 \<and> (\<forall>j<14. \<not> bit (0xffffffffffffc000 :: u64) j)" by (simp add: m bit_simps)
  obtain size s' where r: "pci_bar_size demo_pci_env (zero_pci\<lparr>pd_busdevfn := 8\<rparr>) 0x18 demo_pci_state = (size, s')"
      "ps_cfg s' = ps_cfg demo_pci_state" "\<forall>k. bit (0xffffffffffffc000 :: u64) k \<and> (\<forall>j<k. \<not> bit (0xffffffffffffc000 :: u64) j) \<longrightarrow> size = 2 ^ k"
    using pci_bar_size_exact [OF ok, of "zero_pci\<lparr>pd_busdevfn := 8\<rparr>"] unfolding b by auto
  then have "size = 2 ^ 14" using k by blast
  then show ?thesis using r by simp
qed

end
