(* ===== verification/Pci_Scan.thy ===== *)
theory Pci_Scan
  imports Pci_Props
begin

text \<open>
  The scan of the PCI bus. Discovery has to report, for each address at or above the one asked for, a range in
  which the search reaches that address. Then the scan finds every device at such an address, whatever
  bridges add to the ranges; the drivers see the devices in the order of their addresses, each at most once.
\<close>

section \<open>Finding devices\<close>

definition discover_ok :: "pci_env \<Rightarrow> u32 set \<Rightarrow> bool" where
  "discover_ok E D \<longleftrightarrow> (\<forall>b. \<forall>a \<in> D. b \<le> a \<longrightarrow>
     (let r = pe_discover E b; c = (if b < pr_start r then pr_start r else b) in in_range c r \<and> c \<le> a))"

lemma next_address_ok:
  assumes "discover_ok E D" "a \<in> D" "b \<le> a" "next_address E b r = (c, q)"
  shows "in_range c q \<and> c \<le> a"
proof (cases "in_range b r")
  case True
  then show ?thesis using assms(3,4) by (auto simp: next_address_def)
next
  case False
  have "let r = pe_discover E b; c = (if b < pr_start r then pr_start r else b) in in_range c r \<and> c \<le> a"
    using assms(1-3) by (simp add: discover_ok_def)
  then show ?thesis using False assms(4) by (simp add: next_address_def Let_def split: if_splits)
qed

lemma succ_le: "c < a \<Longrightarrow> c + 1 \<noteq> 0 \<and> c + 1 \<le> (a :: u32)"
  using unat_Suc_nz [of c] unat_below [of a] by (auto simp: word_less_nat_alt word_le_nat_alt unat_word_ariths unat_eq_zero [symmetric])

lemma find_next_complete:
  assumes "discover_ok E D" "a \<in> D" "device_at s a \<noteq> None" "b \<le> a"
  shows "\<exists>pci c q. pci_find_next E s b r = (OK, pci, c, q) \<and> c \<le> a"
  using assms
proof (induction E s b r rule: find_next_induct)
  case (look E s b r c q)
  have c: "in_range c q" "c \<le> a" using next_address_ok [OF look(3,4,6,1)] by simp_all
  show ?case
  proof (cases "device_at s c")
    case None
    then have "c < a" using c(2) look(5) by (cases "c = a") auto
    then show ?thesis using look(2) [OF c(1) None] look(3-5) succ_le [of c a] None c(1) by (simp add: find_next_unfold [OF look(1)])
  qed (use c in \<open>simp add: find_next_unfold [OF look(1)]\<close>)
qed

lemma find_next_sound: "pci_find_next E s b r = (OK, pci, c, q) \<Longrightarrow> device_at s c = Some pci"
proof (induction E s b r rule: find_next_induct)
  case (look E s b r c' q')
  then show ?case by (auto simp: find_next_unfold [OF look(1)] split: if_splits option.splits)
qed

text \<open>What identifies a device is read from registers that drivers do not change.\<close>

definition fixed_regs :: "pci_state \<Rightarrow> pci_state \<Rightarrow> bool" where
  "fixed_regs s s' \<longleftrightarrow> (\<forall>a. ps_cfg s' a 0 = ps_cfg s a 0 \<and> ps_cfg s' a 2 = ps_cfg s a 2 \<and>
     cfg_read 1 a PCI_HEADER_TYPE s' = cfg_read 1 a PCI_HEADER_TYPE s)"

definition drivers_ok :: "pci_env \<Rightarrow> bool" where
  "drivers_ok E \<longleftrightarrow> (\<forall>i n d s. fixed_regs s (snd (pe_probe E i n d s)))"

definition same_ids :: "pci_device \<Rightarrow> pci_device \<Rightarrow> bool" where
  "same_ids d d' \<longleftrightarrow> pd_vendor d' = pd_vendor d \<and> pd_device d' = pd_device d \<and> pd_class d' = pd_class d"

lemma read_bases_ids:
  "pd_vendor (read_bases_loop reg s d) = pd_vendor d \<and> pd_device (read_bases_loop reg s d) = pd_device d \<and>
   pd_class (read_bases_loop reg s d) = pd_class d \<and> pd_busdevfn (read_bases_loop reg s d) = pd_busdevfn d"
proof (induction reg s d rule: read_bases_loop.induct)
  case (1 reg s d)
  then show ?case by (subst (1 2 3 4) read_bases_loop.simps) (simp add: Let_def)
qed

lemma device_at_ids:
  "device_at s a = Some d \<longleftrightarrow> d = the (device_at s a) \<and>
     \<not> (PCI_FUNC a \<noteq> 0 \<and> cfg_read 1 (PCI_FIRST_FUNC a) PCI_HEADER_TYPE s AND PCI_HEADER_TYPE_MULTI = 0) \<and>
     ps_cfg s a 0 \<noteq> 0xffffffff \<and> ps_cfg s a 0 \<noteq> 0"
  by (auto simp: device_at_def pci_read_config_def Let_def zero_pci_def)

lemma device_at_fields:
  assumes "device_at s a = Some d"
  shows "pd_busdevfn d = a" "pd_vendor d = ucast (ps_cfg s a 0 AND 0xffff)" "pd_device d = ucast (drop_bit 16 (ps_cfg s a 0))"
    "pd_class d = drop_bit 8 (ps_cfg s a 2)"
  using assms
  by (auto simp: device_at_def pci_read_config_def Let_def pci_read_bases_def read_bases_ids split: if_splits)

lemma device_at_fixed:
  assumes "fixed_regs s s'" "device_at s a = Some d"
  shows "\<exists>d'. device_at s' a = Some d' \<and> same_ids d d'"
proof -
  have "device_at s' a = Some (the (device_at s' a))"
    using assms by (subst device_at_ids) (subst (asm) device_at_ids [of s], simp add: fixed_regs_def)
  then obtain d' where d': "device_at s' a = Some d'" by blast
  show ?thesis using device_at_fields [OF d'] device_at_fields [OF assms(2)] assms(1) d' by (simp add: same_ids_def fixed_regs_def)
qed

lemma find_id_same: "same_ids d d' \<Longrightarrow> find_id d' ids = find_id d ids"
  by (induction ids) (simp_all add: id_matches_def same_ids_def)

lemma find_driver_same: "same_ids d d' \<Longrightarrow> find_driver_loop i ds d' = find_driver_loop i ds d"
  by (induction ds arbitrary: i) (simp_all add: find_id_same, simp_all add: same_ids_def split: option.split)

section \<open>What the drivers see\<close>

fun probed :: "bus_event list \<Rightarrow> pci_device list" where
  "probed [] = []"
| "probed (Probed d r # es) = d # probed es"
| "probed (Removed d # es) = probed es"

fun bound :: "bus_event list \<Rightarrow> pci_device list" where
  "bound [] = []"
| "bound (Probed d r # es) = (if r = OK then d # bound es else bound es)"
| "bound (Removed d # es) = bound es"

lemma probed_append [simp]: "probed (es @ fs) = probed es @ probed fs"
  by (induction es rule: probed.induct) simp_all

lemma bound_append [simp]: "bound (es @ fs) = bound es @ bound fs"
  by (induction es rule: bound.induct) simp_all

definition is_probe :: "bus_event \<Rightarrow> bool" where
  "is_probe e \<longleftrightarrow> (\<exists>d r. e = Probed d r)"

text \<open>The device as its driver gets it.\<close>

definition with_driver :: "nat \<Rightarrow> pci_device_id \<Rightarrow> pci_device \<Rightarrow> pci_device" where
  "with_driver i ident d = d\<lparr>pd_driver := Some i, pd_id := Some ident, pd_driver_name := Some (pi_name ident)\<rparr>"

lemma with_driver_busdevfn [simp]: "pd_busdevfn (with_driver i ident d) = pd_busdevfn d" "pd_driver (with_driver i ident d) = Some i"
  "pd_driver_name (with_driver i ident d) = Some (pi_name ident)"
  by (simp_all add: with_driver_def)

text \<open>What is done with one device.\<close>

lemma handle_device_eq:
  "handle_device E d b =
    (case (if pe_can_probe E d then find_driver_loop 0 (pe_drivers E) d else None) of
       None \<Rightarrow> (True, b)
     | Some (i, ident) \<Rightarrow>
         (case pe_probe E i (pb_clk b) (with_driver i ident d) (pb_state b) of (r, ps) \<Rightarrow>
           (r \<noteq> OK, b\<lparr>pb_state := ps, pb_clk := Suc (pb_clk b), pb_log := pb_log b @ [Probed (with_driver i ident d) r],
              pb_children := (if r = OK then [with_driver i ident d] else []) @ pb_children b\<rparr>)))"
  by (auto simp: handle_device_def pci_find_driver_def pci_probe_def with_driver_def Let_def split: option.splits prod.splits)

lemma pcibus_loop_unfold:
  assumes "pci_find_next E (pb_state b) a (pb_range b) = (r, pci, c, q)" "handle_device E pci (b\<lparr>pb_range := q\<rparr>) = (sp, b')"
  shows "pcibus_loop E spare a b =
    (if \<not> spare \<and> \<not> pe_malloc E (pb_clk b) then (Err ENOMEM, pcibus_remove E b)
     else if r \<noteq> OK then (OK, b\<lparr>pb_range := q\<rparr>)
     else if c + 1 = 0 then (OK, b') else pcibus_loop E sp (c + 1) b')"
  by (simp add: pcibus_loop.simps [of E spare a b] assms Let_def)

lemma pcibus_induct [case_names scan]:
  assumes "\<And>spare a b. (\<And>pci c q sp b'. pci_find_next E (pb_state b) a (pb_range b) = (OK, pci, c, q) \<Longrightarrow>
      handle_device E pci (b\<lparr>pb_range := q\<rparr>) = (sp, b') \<Longrightarrow> c + 1 \<noteq> 0 \<Longrightarrow> P sp (c + 1) b') \<Longrightarrow> P spare a (b :: pci_bus)"
  shows "P spare a b"
proof (induction "0x100000000 - unat a" arbitrary: spare a b rule: less_induct)
  case less
  show ?case
    by (rule assms, rule less) (auto intro: next_device [OF sym])
qed

section \<open>Removal when memory runs out\<close>

lemma remove_all:
  "\<forall>d \<in> set ds. pd_driver d \<noteq> None \<Longrightarrow> pb_children b = ds \<Longrightarrow>
   pb_log (fold (remove_first E) ds b) = pb_log b @ map Removed ds \<and> pb_children (fold (remove_first E) ds b) = []"
  by (induction ds arbitrary: b) (auto simp: remove_first_def pci_remove_def Let_def)

text \<open>The list of devices holds those that were bound, the last one first.\<close>

definition bus_ok :: "pci_bus \<Rightarrow> bool" where
  "bus_ok b \<longleftrightarrow> list_all is_probe (pb_log b) \<and> pb_children b = rev (bound (pb_log b)) \<and> (\<forall>d \<in> set (pb_children b). pd_driver d \<noteq> None)"

lemma bus_ok_handle: "bus_ok b \<Longrightarrow> handle_device E d b = (sp, b') \<Longrightarrow> bus_ok b'"
  by (auto simp: handle_device_eq bus_ok_def is_probe_def split: option.splits prod.splits if_splits)

lemma bus_ok_range [simp]: "bus_ok (b\<lparr>pb_range := q\<rparr>) = bus_ok b"
  by (simp add: bus_ok_def)

lemma pcibus_loop_balanced:
  assumes "bus_ok b"
  shows "(\<exists>b'. pcibus_loop E spare a b = (OK, b') \<and> bus_ok b') \<or> (\<exists>b'. pcibus_loop E spare a b = (Err ENOMEM, pcibus_remove E b') \<and> bus_ok b')"
  using assms
proof (induction spare a b rule: pcibus_induct [where E = E])
  case (scan spare a b)
  obtain r pci c q where f: "pci_find_next E (pb_state b) a (pb_range b) = (r, pci, c, q)" by (metis prod_cases4)
  obtain sp b' where h: "handle_device E pci (b\<lparr>pb_range := q\<rparr>) = (sp, b')" by force
  have "bus_ok b'" using bus_ok_handle [OF _ h] scan(2) by simp
  then show ?case using scan f h by (simp add: pcibus_loop_unfold [OF f h]) blast
qed

text \<open>C31: Whatever discovery, memory and the drivers do, the scan ends. When it succeeds, the devices of the bus are
  those whose probe succeeded, the last one first. It fails only for lack of memory; then each device that was bound
  has been removed, in the reverse order of their probes, and the bus is empty.\<close>

theorem pci_bus_balanced:
  assumes "pb_children b = []" "pb_log b = []"
  shows "\<exists>ps. list_all is_probe ps \<and>
    (case pcibus_probe E b of
       (OK, b') \<Rightarrow> pb_log b' = ps \<and> pb_children b' = rev (bound ps)
     | (r, b') \<Rightarrow> r = Err ENOMEM \<and> pb_log b' = ps @ map Removed (rev (bound ps)) \<and> pb_children b' = [])"
proof -
  have "bus_ok b" using assms by (simp add: bus_ok_def)
  from pcibus_loop_balanced [OF this, of E False 0]
  consider (ok) b' where "pcibus_probe E b = (OK, b')" "bus_ok b'" | (mem) b' where "pcibus_probe E b = (Err ENOMEM, pcibus_remove E b')" "bus_ok b'"
    by (auto simp: pcibus_probe_def)
  then show ?thesis
  proof cases
    case ok
    then show ?thesis by (auto simp: bus_ok_def)
  next
    case mem
    then show ?thesis using remove_all [of "pb_children b'" b' E] by (auto simp: bus_ok_def pcibus_remove_def)
  qed
qed

definition demo_bus :: pci_bus where
  "demo_bus = \<lparr>pb_state = demo_pci_state, pb_range = \<lparr>pr_start = 0, pr_count = 0\<rparr>, pb_children = [], pb_clk = 0, pb_log = []\<rparr>"

theorem pci_bus_balanced_witness:
  "\<exists>ps. list_all is_probe ps \<and>
    (case pcibus_probe (demo_pci_env\<lparr>pe_malloc := (\<lambda>n. n = 0)\<rparr>) demo_bus of
       (OK, b') \<Rightarrow> pb_log b' = ps \<and> pb_children b' = rev (bound ps)
     | (r, b') \<Rightarrow> r = Err ENOMEM \<and> pb_log b' = ps @ map Removed (rev (bound ps)) \<and> pb_children b' = [])"
  by (rule pci_bus_balanced) (simp_all add: demo_bus_def)

section \<open>Completeness of the scan\<close>

text \<open>A device that the scan must hand to a driver.\<close>

definition wanted :: "pci_env \<Rightarrow> u32 set \<Rightarrow> pci_state \<Rightarrow> u32 \<Rightarrow> nat \<Rightarrow> pci_device_id \<Rightarrow> bool" where
  "wanted E A s a i ident \<longleftrightarrow> a \<in> A \<and> (\<exists>d. device_at s a = Some d \<and> find_driver_loop 0 (pe_drivers E) d = Some (i, ident))"

definition seen :: "pci_bus \<Rightarrow> u32 \<Rightarrow> nat \<Rightarrow> pci_device_id \<Rightarrow> bool" where
  "seen b a i ident \<longleftrightarrow> (\<exists>d \<in> set (probed (pb_log b)). pd_busdevfn d = a \<and> pd_driver d = Some i \<and> pd_driver_name d = Some (pi_name ident))"

lemma wanted_fixed: "fixed_regs s s' \<Longrightarrow> wanted E A s a i ident \<Longrightarrow> wanted E A s' a i ident"
  unfolding wanted_def by (metis device_at_fixed find_driver_same)

lemma handle_device_steps:
  assumes "drivers_ok E" "\<And>d. pe_can_probe E d \<longleftrightarrow> pd_busdevfn d \<in> A" "device_at (pb_state b) c = Some d"
    "handle_device E d b = (sp, b')"
  shows "fixed_regs (pb_state b) (pb_state b')" "\<exists>new. pb_log b' = pb_log b @ new \<and> map pd_busdevfn (probed new) \<in> {[], [c]}"
    "wanted E A (pb_state b) c i ident \<Longrightarrow> seen b' c i ident"
proof -
  have c: "pd_busdevfn d = c" using device_at_fields [OF assms(3)] by simp
  have f: "fixed_regs s s" for s by (simp add: fixed_regs_def)
  have p: "fixed_regs s ps" if "pe_probe E i n x s = (r, ps)" for i n x s r ps
    using assms(1) that unfolding drivers_ok_def by (metis snd_conv)
  show "fixed_regs (pb_state b) (pb_state b')" "\<exists>new. pb_log b' = pb_log b @ new \<and> map pd_busdevfn (probed new) \<in> {[], [c]}"
    "wanted E A (pb_state b) c i ident \<Longrightarrow> seen b' c i ident"
    using assms(2-4) c f p by (auto simp: handle_device_eq wanted_def seen_def split: option.splits prod.splits if_splits)
qed

lemma seen_append: "seen b x i ident \<Longrightarrow> pb_log b' = pb_log b @ new \<Longrightarrow> seen b' x i ident"
  by (auto simp: seen_def)

lemma wanted_reached:
  assumes "discover_ok E D" "x \<in> D" "a \<le> x" "wanted E A s x i ident" "pci_find_next E s a r = (rc, pci, c, q)"
  shows "rc = OK \<and> c \<le> x"
  using find_next_complete [OF assms(1,2) _ assms(3), of s r] assms(4,5) by (auto simp: wanted_def)

lemma max_address: "c \<le> x \<Longrightarrow> c + 1 = 0 \<Longrightarrow> x = (c :: u32)"
  using succ_le [of c x] by (cases "x = c") (auto simp: order_less_le)

text \<open>The scan from an address on.\<close>

lemma pcibus_loop_complete:
  assumes "discover_ok E D" "drivers_ok E" "\<And>d. pe_can_probe E d \<longleftrightarrow> pd_busdevfn d \<in> A" "\<And>n. pe_malloc E n"
    "sorted_wrt (<) (map pd_busdevfn (probed (pb_log b)))" "\<forall>d \<in> set (probed (pb_log b)). pd_busdevfn d < a"
  shows "\<exists>b' new. pcibus_loop E spare a b = (OK, b') \<and> pb_log b' = pb_log b @ new \<and>
    sorted_wrt (<) (map pd_busdevfn (probed (pb_log b'))) \<and>
    (\<forall>x i ident. x \<in> D \<and> a \<le> x \<and> wanted E A (pb_state b) x i ident \<longrightarrow> seen b' x i ident)"
  using assms(5,6)
proof (induction spare a b rule: pcibus_induct [where E = E])
  case (scan spare a b)
  obtain r pci c q where f: "pci_find_next E (pb_state b) a (pb_range b) = (r, pci, c, q)" by (metis prod_cases4)
  obtain sp b' where h: "handle_device E pci (b\<lparr>pb_range := q\<rparr>) = (sp, b')" by force
  note eq = pcibus_loop_unfold [OF f h, of spare]
  have reached: "r = OK \<and> c \<le> x" if "x \<in> D" "a \<le> x" "wanted E A (pb_state b) x i ident" for x i ident
    using wanted_reached [OF assms(1) that f] .
  show ?case
  proof (cases "r = OK")
    case False
    then show ?thesis using reached scan(2) assms(4) eq by auto
  next
    case True
    have le: "a \<le> c" using find_next_le [of E _ a] f True by (auto simp: word_le_nat_alt)
    have d: "device_at (pb_state (b\<lparr>pb_range := q\<rparr>)) c = Some pci" using find_next_sound f True by simp
    note steps = handle_device_steps [OF assms(2,3) d h, simplified]
    obtain new where new: "pb_log b' = pb_log b @ new" "map pd_busdevfn (probed new) \<in> {[], [c]}" using steps(2) by auto
    have sorted: "sorted_wrt (<) (map pd_busdevfn (probed (pb_log b')))" and below: "\<forall>d \<in> set (probed (pb_log b')). pd_busdevfn d \<le> c"
      using new scan(2,3) le by (auto simp: sorted_wrt_append)
    show ?thesis
    proof (cases "c + 1 = 0")
      case True
      have "seen b' x i ident" if "x \<in> D" "a \<le> x" "wanted E A (pb_state b) x i ident" for x i ident
        using steps(3) max_address [of c x] reached [OF that] True that(3) by simp
      then show ?thesis using eq True \<open>r = OK\<close> assms(4) sorted new(1) by auto
    next
      case False
      have "\<forall>d \<in> set (probed (pb_log b')). pd_busdevfn d < c + 1" using below False by (auto simp: word_le_nat_alt word_less_nat_alt unat_Suc_nz)
      from scan(1) [OF f [unfolded True] h False sorted this] obtain b'' new' where b'': "pcibus_loop E sp (c + 1) b' = (OK, b'')"
          "pb_log b'' = pb_log b' @ new'" "sorted_wrt (<) (map pd_busdevfn (probed (pb_log b'')))"
          "\<forall>x i ident. x \<in> D \<and> c + 1 \<le> x \<and> wanted E A (pb_state b') x i ident \<longrightarrow> seen b'' x i ident" by blast
      have "seen b'' x i ident" if x: "x \<in> D" "a \<le> x" "wanted E A (pb_state b) x i ident" for x i ident
      proof (cases "x = c")
        case True
        then show ?thesis using steps(3) x(3) seen_append [OF _ b''(2)] by blast
      next
        case False
        then have "c < x" using reached [OF x] by (simp add: order_less_le)
        then show ?thesis using b''(4) x succ_le wanted_fixed [OF steps(1)] by blast
      qed
      then show ?thesis using eq True False assms(4) b'' new(1) by auto
    qed
  qed
qed

text \<open>C29: With memory, the scan of the bus hands every device that discovery covers, that may be probed and that some
  driver supports to the first such driver, with the name from the driver's table, whatever the drivers of
  other devices do. The drivers see the devices in the order of their addresses, each at most once.\<close>

theorem pci_scan_complete:
  assumes "discover_ok E D" "drivers_ok E" "\<And>d. pe_can_probe E d \<longleftrightarrow> pd_busdevfn d \<in> A" "\<And>n. pe_malloc E n" "pb_log b = []"
  shows "\<exists>b'. pcibus_probe E b = (OK, b') \<and> sorted_wrt (<) (map pd_busdevfn (probed (pb_log b'))) \<and>
    (\<forall>x d i ident. x \<in> D \<inter> A \<and> device_at (pb_state b) x = Some d \<and> find_driver_loop 0 (pe_drivers E) d = Some (i, ident) \<longrightarrow>
       (\<exists>d' \<in> set (probed (pb_log b')). pd_busdevfn d' = x \<and> pd_driver d' = Some i \<and> pd_driver_name d' = Some (pi_name ident)))"
proof -
  obtain b' where b': "pcibus_loop E False 0 b = (OK, b')" "sorted_wrt (<) (map pd_busdevfn (probed (pb_log b')))"
      "\<forall>x i ident. x \<in> D \<and> 0 \<le> x \<and> wanted E A (pb_state b) x i ident \<longrightarrow> seen b' x i ident"
    using pcibus_loop_complete [OF assms(1-4), of b 0 False] assms(5) by auto
  then show ?thesis by (auto simp: pcibus_probe_def wanted_def seen_def)
qed

lemma demo_discover: "discover_ok demo_pci_env {b. b < 0x100}"
  by (auto simp: discover_ok_def demo_pci_env_def in_range_def Let_def)

lemma demo_device: "\<exists>d. device_at demo_pci_state 8 = Some d \<and> pd_vendor d = 0x10ec \<and> pd_device d = 0x8125 \<and> pd_class d = 0"
proof -
  obtain d where d: "device_at demo_pci_state 8 = Some d"
    by (simp add: device_at_def pci_read_config_def zero_pci_def demo_pci_state_def cfg_read_def Let_def)
  then show ?thesis using device_at_fields [OF d] by (simp add: demo_pci_state_def)
qed

theorem pci_scan_complete_witness:
  "\<exists>b' d'. pcibus_probe demo_pci_env demo_bus = (OK, b') \<and> d' \<in> set (probed (pb_log b')) \<and> pd_busdevfn d' = 8 \<and>
     pd_driver_name d' = Some ''rtl8125''"
proof -
  let ?id = "\<lparr>pi_vendor = 0x10ec, pi_device = 0x8125, pi_name = ''rtl8125''\<rparr>"
  have drv: "drivers_ok demo_pci_env" by (simp add: drivers_ok_def demo_pci_env_def fixed_regs_def)
  have env: "pe_can_probe demo_pci_env x \<longleftrightarrow> pd_busdevfn x \<in> UNIV" "pe_malloc demo_pci_env n" "pb_log demo_bus = []" "pb_state demo_bus = demo_pci_state" for x n
    by (simp_all add: demo_pci_env_def demo_bus_def)
  obtain d where d: "device_at demo_pci_state 8 = Some d" "pd_vendor d = 0x10ec" "pd_device d = 0x8125" using demo_device by blast
  have dr: "find_driver_loop 0 (pe_drivers demo_pci_env) d = Some (0, ?id)"
    using d by (simp add: demo_pci_env_def id_matches_def)
  have in_D: "(8 :: u32) \<in> {b. b < 0x100} \<inter> UNIV" by simp
  obtain b' where "pcibus_probe demo_pci_env demo_bus = (OK, b')" and
      "\<exists>d' \<in> set (probed (pb_log b')). pd_busdevfn d' = 8 \<and> pd_driver d' = Some 0 \<and> pd_driver_name d' = Some (pi_name ?id)"
    using pci_scan_complete [OF demo_discover drv env(1-3)] in_D d(1) dr unfolding env(4) by meson
  then show ?thesis by auto
qed

end
