(* ===== verification/Pci_Realtek.thy ===== *)
theory Pci_Realtek
  imports Pci_Scan Realtek_Life
begin

text \<open>
  The Realtek driver as a driver of the PCI bus: its table of cards, and its probe and removal on the
  configuration space of the card (\<^verbatim>\<open>drivers/net/realtek.c\<close> and \<^verbatim>\<open>drivers/bus/pci.c\<close> together).
\<close>

section \<open>The driver\<close>

definition nic_id :: "u16 \<Rightarrow> u16 \<Rightarrow> string \<Rightarrow> pci_device_id" where
  "nic_id v d name = \<lparr>pi_vendor = v, pi_device = d, pi_name = name\<rparr>"

definition realtek_nics :: "pci_device_id list" where
  "realtek_nics = [
    nic_id 0x0001 0x8168 ''clone8169'', nic_id 0x018a 0x0106 ''fpc0106tx'', nic_id 0x021b 0x8139 ''hne300'',
    nic_id 0x02ac 0x1012 ''s1012'', nic_id 0x0357 0x000a ''ttpmon'', nic_id 0x10ec 0x8126 ''rtl8126'',
    nic_id 0x10ec 0x8125 ''rtl8125'', nic_id 0x10ec 0x8129 ''rtl8129'', nic_id 0x10ec 0x8136 ''rtl8136'',
    nic_id 0x10ec 0x8138 ''rtl8138'', nic_id 0x10ec 0x8139 ''rtl8139'', nic_id 0x10ec 0x8167 ''rtl8167'',
    nic_id 0x10ec 0x8168 ''rtl8168'', nic_id 0x10ec 0x8169 ''rtl8169'', nic_id 0x1113 0x1211 ''smc1211'',
    nic_id 0x1186 0x1300 ''dfe538'', nic_id 0x1186 0x1340 ''dfe690'', nic_id 0x1186 0x4300 ''dge528t'',
    nic_id 0x11db 0x1234 ''sega8139'', nic_id 0x1259 0xa117 ''allied8139'', nic_id 0x1259 0xa11e ''allied81xx'',
    nic_id 0x1259 0xc107 ''allied8169'', nic_id 0x126c 0x1211 ''northen8139'', nic_id 0x13d1 0xab06 ''fe2000vx'',
    nic_id 0x1432 0x9130 ''edi8139'', nic_id 0x14ea 0xab06 ''fnw3603tx'', nic_id 0x14ea 0xab07 ''fnw3800tx'',
    nic_id 0x1500 0x1360 ''delta8139'', nic_id 0x16ec 0x0116 ''usr997902'', nic_id 0x1737 0x1032 ''linksys8169'',
    nic_id 0x1743 0x8139 ''rolf100'', nic_id 0x4033 0x1360 ''addron8139'', nic_id 0xffff 0x8139 ''clonse8139'']"

definition realtek_driver :: pci_driver where
  "realtek_driver = \<lparr>dr_class = 0, dr_mask = 0, dr_ids = realtek_nics\<rparr>"

text \<open>What \<open>realtek_probe\<close> does to the configuration space: it fixes up the device once the network device exists.
  \<open>R n\<close> is what the driver finds when it is called as the \<open>n\<close>-th.\<close>

definition realtek_pci_probe :: "pci_env \<Rightarrow> (nat \<Rightarrow> rtl_env) \<Rightarrow> nat \<Rightarrow> pci_device \<Rightarrow> pci_state \<Rightarrow> rc \<times> pci_state" where
  "realtek_pci_probe E R n pci s =
    (fst (realtek_probe (R n)), if re_alloc_etherdev (R n) then adjust_pci_device E pci s else s)"

text \<open>A bus on which this is the only driver.\<close>

definition realtek_bus :: "(nat \<Rightarrow> rtl_env) \<Rightarrow> pci_env \<Rightarrow> pci_env" where
  "realtek_bus R E = E\<lparr>pe_drivers := [realtek_driver], pe_probe := (\<lambda>i. realtek_pci_probe E R), pe_remove := (\<lambda>i n pci s. s)\<rparr>"

section \<open>Every card is found\<close>

text \<open>In a table without repetitions, in which only the last entry has a wild card, a card is found by its entry.\<close>

lemma find_id_unique:
  assumes "distinct (map (\<lambda>i. (pi_vendor i, pi_device i)) ids)" "\<forall>i \<in> set (butlast ids). pi_vendor i \<noteq> PCI_ANY_ID \<and> pi_device i \<noteq> PCI_ANY_ID"
    "ident \<in> set ids" "pd_vendor d = pi_vendor ident" "pd_device d = pi_device ident"
  shows "find_id d ids = Some ident"
  using assms
proof (induction ids)
  case (Cons i ids)
  show ?case
  proof (cases "i = ident")
    case True
    then show ?thesis using Cons.prems by (simp add: id_matches_def)
  next
    case False
    then have "ident \<in> set ids" using Cons.prems by simp
    moreover from this have "\<not> id_matches d i" using Cons.prems by (auto simp: id_matches_def image_iff split: if_splits)
    ultimately show ?thesis using Cons by (auto split: if_splits)
  qed
qed simp

lemma realtek_nics_find:
  assumes "ident \<in> set realtek_nics" "pd_vendor d = pi_vendor ident" "pd_device d = pi_device ident"
  shows "find_id d realtek_nics = Some ident"
  by (rule find_id_unique [OF _ _ assms]) (simp_all add: realtek_nics_def nic_id_def)

text \<open>Fixing up a device touches its command register and its latency timer.\<close>

lemma adjust_fixed_regs: "fixed_regs s (adjust_pci_device E pci s)"
proof -
  have w: "fixed_regs s (cfg_write E 2 b PCI_COMMAND v s)" for b v s
    by (simp add: fixed_regs_def write_command cfg_read_def)
  have l: "fixed_regs s (cfg_write E 1 b PCI_LATENCY_TIMER v s)" for b v s
    by (auto simp: fixed_regs_def cfg_read_def cfg_write_def Let_def bit_simps intro!: bit_eqI)
  have t: "fixed_regs s s' \<Longrightarrow> fixed_regs s' s'' \<Longrightarrow> fixed_regs s s''" "fixed_regs s s" for s s' s''
    by (simp_all add: fixed_regs_def)
  show ?thesis unfolding adjust_pci_device_def Let_def by (auto intro: t(2) w l t(1) [OF w l] simp del: One_nat_def)
qed

lemma realtek_drivers_ok: "drivers_ok (realtek_bus R E)"
  using adjust_fixed_regs by (auto simp: drivers_ok_def realtek_bus_def realtek_pci_probe_def fixed_regs_def)

text \<open>The status that the history has for a device is that of its driver's probe.\<close>

lemma log_status:
  assumes "pcibus_loop E spare a b = (OK, b')" "Probed d r \<in> set (pb_log b')"
  shows "Probed d r \<in> set (pb_log b) \<or> (\<exists>i n s. r = fst (pe_probe E i n d s))"
  using assms
proof (induction spare a b rule: pcibus_induct [where E = E])
  case (scan spare a b)
  obtain rc pci c q where f: "pci_find_next E (pb_state b) a (pb_range b) = (rc, pci, c, q)" by (metis prod_cases4)
  obtain sp b1 where h: "handle_device E pci (b\<lparr>pb_range := q\<rparr>) = (sp, b1)" by force
  have "Probed d r \<in> set (pb_log b) \<or> (\<exists>i n s. r = fst (pe_probe E i n d s))" if "Probed d r \<in> set (pb_log b1)"
    using h that by (auto simp: handle_device_eq split: option.splits prod.splits if_splits) (metis fst_conv)+
  then show ?case using scan f h by (auto simp: pcibus_loop_unfold [OF f h] split: if_splits)
qed

lemma probed_event: "d \<in> set (probed es) \<Longrightarrow> \<exists>r. Probed d r \<in> set es"
  by (induction es rule: probed.induct) auto

lemma bound_event: "Probed d OK \<in> set es \<Longrightarrow> d \<in> set (bound es)"
  by (induction es rule: bound.induct) auto



end
