(* ===== verification/Snponly.thy ===== *)
theory Snponly
  imports Fw_Prelude
begin

text \<open>
  The drivers for the device from which the firmware was loaded (\<^verbatim>\<open>drivers/net/efi/snponly.c\<close>): which EFI handle is the
  boot device, and which handles the drivers accept. The walk over the handles of the device path
  (\<^verbatim>\<open>efi_locate_device()\<close>) and the protocol database belong to iPXE and the platform and are parameters.
\<close>

section \<open>Protocols and handles\<close>

datatype efi_protocol = Simple_Network | Nii31 | Managed_Network | Wifi2

text \<open>Handles and protocol instances are addresses; zero is the null pointer.\<close>

record chained_protocol =
  cp_protocol :: efi_protocol
  cp_device :: nat
  cp_inhibit_wifi :: bool

text \<open>\<open>sn_locate d p skip\<close> is \<^verbatim>\<open>efi_locate_device()\<close>: the handle with protocol \<open>p\<close> on the way up from \<open>d\<close>, after \<open>skip\<close> others.
  \<open>sn_open\<close> is \<^verbatim>\<open>efi_open()\<close>, \<open>sn_test\<close> is \<^verbatim>\<open>efi_test()\<close>, and \<open>sn_own\<close> tells whether \<^verbatim>\<open>find_snpdev()\<close> finds a device.\<close>

record snp_env =
  sn_image_device :: nat
  sn_locate :: "nat \<Rightarrow> efi_protocol \<Rightarrow> nat \<Rightarrow> errno + nat"
  sn_open :: "nat \<Rightarrow> efi_protocol \<Rightarrow> errno + nat"
  sn_test :: "nat \<Rightarrow> efi_protocol \<Rightarrow> rc"
  sn_own :: "nat \<Rightarrow> bool"

definition chained_snp :: chained_protocol where
  "chained_snp = \<lparr>cp_protocol = Simple_Network, cp_device = 0, cp_inhibit_wifi = True\<rparr>"

definition chained_nii :: chained_protocol where
  "chained_nii = \<lparr>cp_protocol = Nii31, cp_device = 0, cp_inhibit_wifi = True\<rparr>"

definition chained_mnp :: chained_protocol where
  "chained_mnp = \<lparr>cp_protocol = Managed_Network, cp_device = 0, cp_inhibit_wifi = False\<rparr>"

text \<open>The loop goes up until no further handle is found, its protocol cannot be opened, or its instance is another one.\<close>

partial_function (option) locate_loop :: "snp_env \<Rightarrow> nat \<Rightarrow> nat \<Rightarrow> chained_protocol \<Rightarrow> chained_protocol option" where
  "locate_loop E skip match chained =
    (case sn_locate E (sn_image_device E) (cp_protocol chained) skip of
       Inl e \<Rightarrow> Some chained
     | Inr handle \<Rightarrow>
         (case sn_open E handle (cp_protocol chained) of
            Inl e \<Rightarrow> Some chained
          | Inr interface \<Rightarrow>
              if match \<noteq> 0 \<and> match \<noteq> interface then Some chained
              else locate_loop E (Suc skip) interface (chained\<lparr>cp_device := handle\<rparr>)))"

definition chained_locate :: "snp_env \<Rightarrow> chained_protocol \<Rightarrow> chained_protocol option" where
  "chained_locate E chained = locate_loop E 0 0 chained"

definition chained_supported :: "snp_env \<Rightarrow> nat \<Rightarrow> chained_protocol \<Rightarrow> rc" where
  "chained_supported E device chained =
    (case sn_open E device (cp_protocol chained) of
       Inl e \<Rightarrow> Err e
     | Inr interface \<Rightarrow>
         if sn_own E device then Err ENOTTY
         else if cp_device chained = 0 then OK
         else if device \<noteq> cp_device chained then Err ENOTTY
         else if cp_inhibit_wifi chained \<and> sn_test E device Wifi2 = OK then Err ENOTTY
         else OK)"

text \<open>The three static variables, and the drivers on them.\<close>

record chained_state =
  cs_snp :: chained_protocol
  cs_nii :: chained_protocol
  cs_mnp :: chained_protocol

definition snponly_supported :: "snp_env \<Rightarrow> chained_state \<Rightarrow> nat \<Rightarrow> rc" where
  "snponly_supported E st device = chained_supported E device (cs_snp st)"

definition niionly_supported :: "snp_env \<Rightarrow> chained_state \<Rightarrow> nat \<Rightarrow> rc" where
  "niionly_supported E st device = chained_supported E device (cs_nii st)"

definition mnponly_supported :: "snp_env \<Rightarrow> chained_state \<Rightarrow> nat \<Rightarrow> rc" where
  "mnponly_supported E st device = chained_supported E device (cs_mnp st)"

definition chained_init :: "snp_env \<Rightarrow> chained_state \<Rightarrow> chained_state option" where
  "chained_init E st =
    (case chained_locate E (cs_snp st) of
       None \<Rightarrow> None
     | Some snp \<Rightarrow>
         (case chained_locate E (cs_nii st) of
            None \<Rightarrow> None
          | Some nii \<Rightarrow> map_option (\<lambda>mnp. st\<lparr>cs_snp := snp, cs_nii := nii, cs_mnp := mnp\<rparr>) (chained_locate E (cs_mnp st))))"

definition initial_chained :: chained_state where
  "initial_chained = \<lparr>cs_snp = chained_snp, cs_nii = chained_nii, cs_mnp = chained_mnp\<rparr>"

section \<open>Which handles are accepted\<close>

text \<open>The handles with a protocol on the way up from the boot device are a finite list.\<close>

definition path_ok :: "snp_env \<Rightarrow> (efi_protocol \<Rightarrow> nat list) \<Rightarrow> bool" where
  "path_ok E hs \<longleftrightarrow> (\<forall>p. 0 \<notin> set (hs p) \<and> (\<forall>h \<in> set (hs p). sn_open E h p \<noteq> Inr 0) \<and>
     (\<forall>skip. sn_locate E (sn_image_device E) p skip = (if skip < length (hs p) then Inr (hs p ! skip) else Inl ENOENT)))"

text \<open>The handles from the first one on that carry the same protocol instance.\<close>

definition same_instance :: "snp_env \<Rightarrow> efi_protocol \<Rightarrow> nat list \<Rightarrow> nat list" where
  "same_instance E p hs = (case hs of [] \<Rightarrow> [] | h # _ \<Rightarrow>
     (case sn_open E h p of Inl e \<Rightarrow> [] | Inr i \<Rightarrow> takeWhile (\<lambda>h. sn_open E h p = Inr i) hs))"

lemma locate_loop_path:
  assumes "path_ok E hs" "i \<noteq> 0" "skip \<le> length (hs p)" "cp_protocol c = p"
  shows "locate_loop E skip i c =
    Some (case takeWhile (\<lambda>h. sn_open E h p = Inr i) (drop skip (hs p)) of [] \<Rightarrow> c | h # hs \<Rightarrow> c\<lparr>cp_device := last (h # hs)\<rparr>)"
  using assms(3,4)
proof (induction "length (hs p) - skip" arbitrary: skip c)
  case 0
  then show ?case using assms(1) by (subst locate_loop.simps) (simp add: path_ok_def)
next
  case (Suc n)
  then have lt: "skip < length (hs p)" by simp
  then have l: "sn_locate E (sn_image_device E) p skip = Inr (hs p ! skip)" using assms(1) by (simp add: path_ok_def)
  have d: "drop skip (hs p) = hs p ! skip # drop (Suc skip) (hs p)" using lt by (rule Cons_nth_drop_Suc [symmetric])
  show ?case
  proof (cases "sn_open E (hs p ! skip) p = Inr i")
    case True
    have "locate_loop E skip i c = locate_loop E (Suc skip) i (c\<lparr>cp_device := hs p ! skip\<rparr>)"
      using True l Suc.prems(2) by (subst locate_loop.simps) simp
    also have "\<dots> = Some (case takeWhile (\<lambda>h. sn_open E h p = Inr i) (drop (Suc skip) (hs p)) of [] \<Rightarrow> c\<lparr>cp_device := hs p ! skip\<rparr>
        | h # hs \<Rightarrow> c\<lparr>cp_device := last (h # hs)\<rparr>)"
      using Suc.hyps(1) [of "Suc skip" "c\<lparr>cp_device := hs p ! skip\<rparr>"] Suc.hyps(2) Suc.prems lt by (simp split: list.splits)
    finally show ?thesis using True by (simp add: d split: list.splits)
  next
    case False
    then show ?thesis using l Suc.prems(2) assms(2) by (subst locate_loop.simps) (auto simp: d split: sum.splits)
  qed
qed

lemma chained_locate_path:
  assumes "path_ok E hs" "cp_protocol c = p" "cp_device c = 0"
  shows "chained_locate E c = Some (c\<lparr>cp_device := (if same_instance E p (hs p) = [] then 0 else last (same_instance E p (hs p)))\<rparr>)"
proof (cases "hs p")
  case Nil
  then have "sn_locate E (sn_image_device E) p 0 = Inl ENOENT" using assms(1) by (simp add: path_ok_def)
  then show ?thesis using assms(2,3) Nil by (simp add: chained_locate_def locate_loop.simps [of E 0] same_instance_def)
next
  case (Cons h t)
  then have l: "sn_locate E (sn_image_device E) p 0 = Inr h" "sn_open E h p \<noteq> Inr 0" using assms(1) by (auto simp: path_ok_def)
  show ?thesis
  proof (cases "sn_open E h p")
    case (Inl e)
    then show ?thesis using assms(2,3) Cons l by (simp add: chained_locate_def locate_loop.simps [of E 0] same_instance_def)
  next
    case (Inr i)
    then have "i \<noteq> 0" using l by auto
    have "chained_locate E c = locate_loop E (Suc 0) i (c\<lparr>cp_device := h\<rparr>)"
      using assms(2) l Inr by (simp add: chained_locate_def locate_loop.simps [of E 0])
    also have "\<dots> = Some (c\<lparr>cp_device := last (same_instance E p (hs p))\<rparr>)"
      using locate_loop_path [OF assms(1) \<open>i \<noteq> 0\<close>, of "Suc 0" p "c\<lparr>cp_device := h\<rparr>"] assms(2) Cons Inr
      by (auto simp: same_instance_def split: list.splits)
    finally show ?thesis using Cons Inr by (simp add: same_instance_def)
  qed
qed

text \<open>The answer for a handle: its own error, or a refusal, or acceptance.\<close>

definition verdict :: "snp_env \<Rightarrow> efi_protocol \<Rightarrow> bool \<Rightarrow> nat list \<Rightarrow> nat \<Rightarrow> rc" where
  "verdict E p wifi hs d =
    (case sn_open E d p of
       Inl e \<Rightarrow> Err e
     | Inr i \<Rightarrow> if \<not> sn_own E d \<and> (same_instance E p hs = [] \<or> d = last (same_instance E p hs) \<and> \<not> (wifi \<and> sn_test E d Wifi2 = OK))
         then OK else Err ENOTTY)"

lemma last_same_instance: "path_ok E hs \<Longrightarrow> same_instance E p (hs p) \<noteq> [] \<Longrightarrow> last (same_instance E p (hs p)) \<noteq> 0"
proof -
  assume a: "path_ok E hs" "same_instance E p (hs p) \<noteq> []"
  have "set (same_instance E p (hs p)) \<subseteq> set (hs p)"
    by (auto simp: same_instance_def dest: set_takeWhileD split: list.splits sum.splits if_splits)
  then show ?thesis using a last_in_set [OF a(2)] by (metis path_ok_def subsetD)
qed

lemma located_verdict:
  assumes "path_ok E hs" "cp_device c = 0"
  shows "\<exists>c'. chained_locate E c = Some c' \<and>
    (\<forall>d. chained_supported E d c' = verdict E (cp_protocol c) (cp_inhibit_wifi c) (hs (cp_protocol c)) d)"
  using last_same_instance [OF assms(1), of "cp_protocol c"] chained_locate_path [OF assms(1) refl assms(2)]
  by (auto simp: chained_supported_def verdict_def split: sum.splits)

text \<open>C33: Initialisation ends, and the three drivers then answer as follows. A handle without the protocol gives its
  error, and a device of this binary is refused. When the firmware was loaded from a device with the protocol, only
  the uppermost handle that carries the same instance is accepted, and not for SNP and NII if it is wireless.
  Otherwise every other handle with the protocol is accepted, wireless ones too.\<close>

theorem chained_accepts:
  assumes "path_ok E hs"
  shows "\<exists>st. chained_init E initial_chained = Some st \<and>
    (\<forall>d. snponly_supported E st d = verdict E Simple_Network True (hs Simple_Network) d \<and>
       niionly_supported E st d = verdict E Nii31 True (hs Nii31) d \<and>
       mnponly_supported E st d = verdict E Managed_Network False (hs Managed_Network) d)"
proof -
  have z: "cp_device chained_snp = 0" "cp_device chained_nii = 0" "cp_device chained_mnp = 0"
    by (simp_all add: chained_snp_def chained_nii_def chained_mnp_def)
  obtain a b c where "chained_locate E chained_snp = Some a" "\<forall>d. chained_supported E d a = verdict E Simple_Network True (hs Simple_Network) d"
      "chained_locate E chained_nii = Some b" "\<forall>d. chained_supported E d b = verdict E Nii31 True (hs Nii31) d"
      "chained_locate E chained_mnp = Some c" "\<forall>d. chained_supported E d c = verdict E Managed_Network False (hs Managed_Network) d"
    using z [THEN located_verdict [OF assms]] by (auto simp: chained_snp_def chained_nii_def chained_mnp_def)
  then show ?thesis
    by (simp add: chained_init_def initial_chained_def snponly_supported_def niionly_supported_def mnponly_supported_def)
qed

text \<open>The device 5 was booted from, through its child 7; 6 is another network card, and all have SNP.\<close>

definition demo_snp :: snp_env where
  "demo_snp = \<lparr>sn_image_device = 7,
     sn_locate = (\<lambda>d p skip. if p = Simple_Network \<and> skip < 2 then Inr ([7, 5] ! skip) else Inl ENOENT),
     sn_open = (\<lambda>h p. if p = Simple_Network then Inr (if h = 6 then 200 else 100) else Inl ENOENT),
     sn_test = (\<lambda>h p. Err ENOENT), sn_own = (\<lambda>h. False)\<rparr>"

theorem chained_accepts_witness:
  "\<exists>st. chained_init demo_snp initial_chained = Some st \<and> snponly_supported demo_snp st 5 = OK \<and>
     snponly_supported demo_snp st 6 = Err ENOTTY \<and> snponly_supported demo_snp st 7 = Err ENOTTY \<and> niionly_supported demo_snp st 5 = Err ENOENT"
proof -
  let ?hs = "\<lambda>p. if p = Simple_Network then [7, 5] else []"
  have ok: "path_ok demo_snp ?hs" by (auto simp: path_ok_def demo_snp_def)
  have "verdict demo_snp Simple_Network True (?hs Simple_Network) 5 = OK" "verdict demo_snp Simple_Network True (?hs Simple_Network) 6 = Err ENOTTY"
    "verdict demo_snp Simple_Network True (?hs Simple_Network) 7 = Err ENOTTY" "verdict demo_snp Nii31 True (?hs Nii31) 5 = Err ENOENT"
    by (simp_all add: verdict_def same_instance_def demo_snp_def)
  then show ?thesis using chained_accepts [OF ok] by metis
qed

end
