(* ===== verification/Tls12_Record.thy ===== *)
theory Tls12_Record
  imports Fw_Prelude
begin

text \<open>
  The record layer of TLS 1.2 (\<^verbatim>\<open>net/tls.c\<close> from line 1060 on): protection of records in the buffer that holds the
  plaintext, reception in a list of buffers, padding, MAC and authentication tag, alerts, the change of the
  cipher, and the split of the handshake stream into messages. Cipher, HMAC and HKDF are parameters, and so are
  the handlers of the handshake messages other than the Hello Request.
\<close>

section \<open>Ciphers and state\<close>

text \<open>A digest: \<open>dg_key\<close> turns a secret into an HMAC key of \<open>dg_keysize\<close> bytes, \<open>dg_hmac\<close> is HMAC with such a key.\<close>

record digest_algorithm =
  dg_size :: nat
  dg_ctxsize :: nat
  dg_keysize :: nat
  dg_hash :: "bytes \<Rightarrow> bytes"
  dg_key :: "bytes \<Rightarrow> bytes"
  dg_hmac :: "bytes \<Rightarrow> bytes \<Rightarrow> bytes"

text \<open>A cipher works on a context of type \<open>'c\<close>, \<open>ca_ctx0\<close> when its memory is zero. \<open>ca_aad_encrypt\<close> and \<open>ca_aad_decrypt\<close> stand for calls without a
  destination, which process additional data. \<open>su_hmac\<close> is HMAC with the digest of the suite (key, data).\<close>

record 'c cipher_algorithm =
  ca_blocksize :: nat
  ca_alignsize :: nat
  ca_authsize :: nat
  ca_is_block :: bool
  ca_is_auth :: bool
  ca_ctxsize :: nat
  ca_ctx0 :: 'c
  ca_setkey :: "'c \<Rightarrow> bytes \<Rightarrow> rc \<times> 'c"
  ca_setiv :: "'c \<Rightarrow> bytes \<Rightarrow> rc \<times> 'c"
  ca_encrypt :: "'c \<Rightarrow> bytes \<Rightarrow> bytes \<times> 'c"
  ca_decrypt :: "'c \<Rightarrow> bytes \<Rightarrow> bytes \<times> 'c"
  ca_aad_encrypt :: "'c \<Rightarrow> bytes \<Rightarrow> 'c"
  ca_aad_decrypt :: "'c \<Rightarrow> bytes \<Rightarrow> 'c"
  ca_auth :: "'c \<Rightarrow> bytes"

record 'c tls_cipher_suite =
  su_null :: bool
  su_cipher :: "'c cipher_algorithm"
  su_hmac :: "bytes \<Rightarrow> bytes \<Rightarrow> bytes"
  su_handshake :: digest_algorithm
  su_code :: u16
  su_key_len :: nat
  su_fixed_iv_len :: nat
  su_record_iv_len :: nat
  su_mac_len :: nat

record 'c tls_cipherspec =
  sp_suite :: "'c tls_cipher_suite"
  sp_ctx :: 'c
  sp_mac_secret :: bytes
  sp_fixed_iv :: bytes

datatype tls_rx_state = TLS_RX_HEADER | TLS_RX_DATA

text \<open>A receive buffer: its size and the bytes in it.\<close>

record rx_buffer =
  rb_size :: nat
  rb_data :: bytes

text \<open>\<open>v_next_tx\<close> and \<open>v_next_rx\<close> are the pending cipher specifications, \<open>v_header\<close> is the static buffer for the record
  header, \<open>v_handshake\<close> the received handshake fragment, \<open>v_transcript\<close> the input of the handshake digest. The pending
  operations are flags. \<open>v_wire\<close> and \<open>v_plain\<close> are the histories of what was handed to the two streams.\<close>

record 'c tls12 =
  v_version :: u16
  v_tx :: "'c tls_cipherspec"
  v_next_tx :: "'c tls_cipherspec"
  v_tx_seq :: u64
  v_tx_pending :: u32
  v_rx :: "'c tls_cipherspec"
  v_next_rx :: "'c tls_cipherspec"
  v_rx_seq :: u64
  v_state :: tls_rx_state
  v_header :: bytes
  v_data :: "rx_buffer list"
  v_handshake :: "bytes option"
  v_client_negotiation :: bool
  v_server_negotiation :: bool
  v_validation :: bool
  v_secure_renegotiation :: bool
  v_extended_master_secret :: bool
  v_ephemeral :: bytes
  v_client_random :: bytes
  v_transcript :: bytes
  v_process :: bool
  v_closed :: "rc option"
  v_wire :: "bytes list"
  v_plain :: "bytes list"
  v_clk :: nat

text \<open>\<open>w_hkdf\<close> is \<^verbatim>\<open>hkdf_expand()\<close> (key, info, length), \<open>w_alloc\<close> tells whether an allocation succeeds, \<open>w_cipher_deliver\<close> and
  \<open>w_plain_deliver\<close> are the answers of the two streams, \<open>w_message\<close> handles the other handshake messages.\<close>

record 'c tls12_env =
  w_hkdf :: "bytes \<Rightarrow> bytes \<Rightarrow> nat \<Rightarrow> bytes"
  w_alloc :: "nat \<Rightarrow> nat \<Rightarrow> bool"
  w_cipher_deliver :: "nat \<Rightarrow> rc"
  w_plain_deliver :: "nat \<Rightarrow> rc"
  w_cipher_window :: "nat \<Rightarrow> nat"
  w_plain_window :: "nat \<Rightarrow> nat"
  w_message :: "nat \<Rightarrow> bytes \<Rightarrow> 'c tls12 \<Rightarrow> rc \<times> 'c tls12"
  w_null_spec :: "'c tls_cipherspec"

abbreviation (input) "TLS_TX_BUFSIZE \<equiv> (4096 :: nat)"
abbreviation (input) "TLS_RX_BUFSIZE \<equiv> (4096 :: nat)"
abbreviation (input) "TLS_RX_MIN_BUFSIZE \<equiv> (512 :: nat)"
abbreviation (input) "TLS_TYPE_CHANGE_CIPHER \<equiv> (20 :: nat)"
abbreviation (input) "TLS_TYPE_ALERT \<equiv> (21 :: nat)"
abbreviation (input) "TLS_TYPE_HANDSHAKE \<equiv> (22 :: nat)"
abbreviation (input) "TLS_TYPE_DATA \<equiv> (23 :: nat)"
abbreviation (input) "TLS_ALERT_WARNING \<equiv> (1 :: nat)"
abbreviation (input) "TLS_ALERT_FATAL \<equiv> (2 :: nat)"
abbreviation (input) "TLS_ALERT_CLOSE_NOTIFY \<equiv> (0 :: nat)"
abbreviation (input) "TLS_CHANGE_CIPHER_SPEC \<equiv> (1 :: nat)"
abbreviation (input) "TLS_HELLO_REQUEST \<equiv> (0 :: nat)"
abbreviation (input) "TLS_TX_CLIENT_HELLO \<equiv> (1 :: u32)"

definition v_tick :: "'c tls12 \<Rightarrow> 'c tls12" where
  "v_tick s = s\<lparr>v_clk := Suc (v_clk s)\<rparr>"

definition tls_uint24 :: "bytes \<Rightarrow> nat" where
  "tls_uint24 field24 = unat (field24 ! 0) * 65536 + of_be (get_at 1 2 field24)"

definition tls_set_uint24 :: "nat \<Rightarrow> bytes" where
  "tls_set_uint24 v = of_nat (v div 65536) # to_be 2 v"

definition tls_add_handshake :: "bytes \<Rightarrow> 'c tls12 \<Rightarrow> 'c tls12" where
  "tls_add_handshake data s = s\<lparr>v_transcript := v_transcript s @ data\<rparr>"

definition tls_ready :: "'c tls12 \<Rightarrow> bool" where
  "tls_ready s \<longleftrightarrow> \<not> v_client_negotiation s \<and> \<not> v_server_negotiation s"

section \<open>Ephemeral secrets and cipher specifications\<close>

definition tls_ephemeral :: "'c tls12_env \<Rightarrow> bytes \<Rightarrow> nat \<Rightarrow> 'c tls12 \<Rightarrow> bytes" where
  "tls_ephemeral E info len s = w_hkdf E (v_ephemeral s) info len"

definition tls_ephemeral_label :: "'c tls12_env \<Rightarrow> string \<Rightarrow> nat \<Rightarrow> 'c tls12 \<Rightarrow> bytes" where
  "tls_ephemeral_label E label len s = tls_ephemeral E (map (of_nat \<circ> of_char) label) len s"

definition tls_regenerate_ephemeral_master :: "'c tls12_env \<Rightarrow> 'c tls12 \<Rightarrow> 'c tls12" where
  "tls_regenerate_ephemeral_master E s =
    (let s = s\<lparr>v_ephemeral := tls_ephemeral_label E ''key reset'' 32 s\<rparr> in
     s\<lparr>v_client_random := tls_ephemeral_label E ''client random'' 32 s\<rparr>)"

text \<open>The pending specification becomes active, and the cleared one pending.\<close>

definition tls_clear_cipher :: "'c tls12_env \<Rightarrow> 'c tls_cipherspec" where
  "tls_clear_cipher E = w_null_spec E"

definition tls_change_cipher :: "'c tls12_env \<Rightarrow> 'c tls_cipherspec \<times> 'c tls_cipherspec \<Rightarrow> rc \<times> 'c tls_cipherspec \<times> 'c tls_cipherspec" where
  "tls_change_cipher E pair =
    (case pair of (act, pend) \<Rightarrow>
       if su_null (sp_suite pend) then (Err ENOTSUP_NULL, act, pend)
       else (OK, pend, tls_clear_cipher E))"

section \<open>Message authentication\<close>

text \<open>\<open>auth_header\<close> is \<^verbatim>\<open>struct tls_auth_header\<close>, \<open>tls12_header\<close> is \<^verbatim>\<open>struct tls_header\<close>. Updating an HMAC
  piece by piece is taking it of the concatenation.\<close>

definition tls12_header :: "nat \<Rightarrow> u16 \<Rightarrow> nat \<Rightarrow> bytes" where
  "tls12_header type version len = of_nat type # to_be 2 (unat version) @ to_be 2 len"

definition auth_header :: "u64 \<Rightarrow> bytes \<Rightarrow> bytes" where
  "auth_header seq header = to_be 8 (unat seq) @ header"

definition tls_hmac :: "'c tls_cipherspec \<Rightarrow> bytes \<Rightarrow> bytes \<Rightarrow> bytes" where
  "tls_hmac spec authhdr data = su_hmac (sp_suite spec) (sp_mac_secret spec) (authhdr @ data)"

definition tls_hmac_list :: "'c tls_cipherspec \<Rightarrow> bytes \<Rightarrow> bytes list \<Rightarrow> bytes" where
  "tls_hmac_list spec authhdr datas = tls_hmac spec authhdr (concat datas)"

section \<open>Transmission\<close>

text \<open>The length of the padding, in the arithmetic of \<^verbatim>\<open>size_t\<close>.\<close>

definition padding_len :: "nat \<Rightarrow> nat \<Rightarrow> nat" where
  "padding_len blocksize encrypt_len = unat (((of_nat blocksize - 1) AND (- (of_nat encrypt_len + 1))) + 1 :: u64)"

definition tls_iob_reserved :: "'c tls12 \<Rightarrow> nat \<Rightarrow> nat" where
  "tls_iob_reserved s len =
    (let suite = sp_suite (v_tx s); cipher = su_cipher suite;
         count = (if len \<noteq> 0 then (len + TLS_TX_BUFSIZE - 1) div TLS_TX_BUFSIZE else 1);
         each = 5 + su_record_iv_len suite + su_mac_len suite + (if ca_is_block cipher then ca_blocksize cipher else 0) + ca_authsize cipher in
     count * each)"

text \<open>The writes of one round of the loop of \<^verbatim>\<open>tls_send_record()\<close> before the encryption: header and initialisation vector, the
  plaintext if something follows it, MAC and padding. The first result is where the input of the cipher starts.\<close>

definition lay_out :: "nat \<Rightarrow> bytes \<Rightarrow> bytes \<Rightarrow> nat \<Rightarrow> nat \<Rightarrow> bytes \<Rightarrow> bytes \<Rightarrow> bytes \<Rightarrow> nat \<times> bytes" where
  "lay_out tail header iv_rec pt record_len mac pad buf =
    (let buf = put_at (tail + 5) iv_rec (put_at tail header buf);
         ct = tail + 5 + length iv_rec;
         (encrypt, buf) = (if 0 < length mac + length pad then (ct, put_at ct (get_at pt record_len buf) buf) else (pt, buf));
         buf = put_at (ct + record_len) mac buf in
     (encrypt, put_at (ct + record_len + length mac) pad buf))"

text \<open>One round of the loop of \<^verbatim>\<open>tls_send_record()\<close>: \<open>buf\<close> is the whole I/O buffer, in which records are put together from
  \<open>tail\<close> on while the plaintext that is left starts at \<open>pt\<close>. The assertion that the ciphertext does not start
  behind the plaintext, and a write behind the end of the buffer, are faults. A cipher reads its whole input before the output
  is written, also where the two overlap.\<close>

definition construct_record :: "'c tls12_env \<Rightarrow> nat \<Rightarrow> bytes \<Rightarrow> nat \<Rightarrow> nat \<Rightarrow> nat \<Rightarrow> 'c tls12 \<Rightarrow> rc \<times> (bytes \<times> nat) \<times> 'c tls12" where
  "construct_record E type buf tail pt record_len s =
    (let spec = v_tx s; suite = sp_suite spec; cipher = su_cipher suite;
         authhdr = auth_header (v_tx_seq s) (tls12_header type (v_version s) record_len);
         iv_rec = tls_ephemeral E authhdr (su_record_iv_len suite) s;
         (r, ctx) = ca_setiv cipher (sp_ctx spec) (sp_fixed_iv spec @ iv_rec) in
     if r \<noteq> OK then (r, (buf, tail), s\<lparr>v_tx := spec\<lparr>sp_ctx := ctx\<rparr>\<rparr>)
     else
       let plaintext = get_at pt record_len buf;
           mac = take (su_mac_len suite) (tls_hmac spec authhdr plaintext);
           ctx = (if ca_is_auth cipher then ca_aad_encrypt cipher ctx authhdr else ctx);
           encrypt_len = record_len + su_mac_len suite;
           pad_len = (if ca_is_block cipher then padding_len (ca_blocksize cipher) encrypt_len else 0);
           encrypt_len = encrypt_len + pad_len;
           header = tls12_header type (v_version s) (su_record_iv_len suite + encrypt_len + ca_authsize cipher);
           ct = tail + 5 + su_record_iv_len suite;
           end_rec = ct + encrypt_len + ca_authsize cipher in
       if length buf < end_rec \<or> length buf < pt + record_len \<or> pt < ct then (Fault, (buf, tail), s)
       else
         let (encrypt, buf) = lay_out tail header iv_rec pt record_len mac (replicate pad_len (of_nat (pad_len - 1))) buf;
             (out, ctx) = ca_encrypt cipher ctx (get_at encrypt encrypt_len buf);
             buf = put_at (ct + encrypt_len) (ca_auth cipher ctx) (put_at ct out buf) in
         (OK, (buf, end_rec), s\<lparr>v_tx := spec\<lparr>sp_ctx := ctx\<rparr>, v_tx_seq := v_tx_seq s + 1\<rparr>))"

fun construct_records :: "'c tls12_env \<Rightarrow> nat \<Rightarrow> bytes \<Rightarrow> nat \<Rightarrow> nat \<Rightarrow> nat \<Rightarrow> 'c tls12 \<Rightarrow> rc \<times> (bytes \<times> nat) \<times> 'c tls12" where
  "construct_records E type buf tail pt len s =
    (let record_len = min len TLS_TX_BUFSIZE in
     case construct_record E type buf tail pt record_len s of
       (OK, (buf, tail), s) \<Rightarrow>
         if len - record_len = 0 then (OK, (buf, tail), s)
         else construct_records E type buf tail (pt + record_len) (len - record_len) s
     | (r, bt, s) \<Rightarrow> (r, bt, s))"

declare construct_records.simps [simp del]

text \<open>The I/O buffer holds the plaintext behind the reserved space.\<close>

definition tls_send_record :: "'c tls12_env \<Rightarrow> nat \<Rightarrow> bytes \<Rightarrow> nat \<Rightarrow> 'c tls12 \<Rightarrow> rc \<times> 'c tls12" where
  "tls_send_record E type buf off s =
    (let len = length buf - off;
         s = (if type = TLS_TYPE_HANDSHAKE then tls_add_handshake (drop off buf) s else s) in
     if off < tls_iob_reserved s len then (Fault, s)
     else
       let start = off - tls_iob_reserved s len in
       case construct_records E type (drop start buf) 0 (tls_iob_reserved s len) len s of
         (OK, (buf, tail), s) \<Rightarrow>
           let r = w_cipher_deliver E (v_clk s) in
           (r, (v_tick s)\<lparr>v_wire := v_wire s @ [take tail buf]\<rparr>)
       | (r, _, s) \<Rightarrow> (r, s))"

text \<open>A buffer for data of the given length: how much of it is reserved in front of the data.\<close>

definition tls_alloc_iob :: "'c tls12_env \<Rightarrow> nat \<Rightarrow> 'c tls12 \<Rightarrow> nat option \<times> 'c tls12" where
  "tls_alloc_iob E len s =
    (let reserve = tls_iob_reserved s len in
     (if w_alloc E (v_clk s) (reserve + len) then Some reserve else None, v_tick s))"

definition tls_send_plaintext :: "'c tls12_env \<Rightarrow> nat \<Rightarrow> bytes \<Rightarrow> 'c tls12 \<Rightarrow> rc \<times> 'c tls12" where
  "tls_send_plaintext E type data s =
    (case tls_alloc_iob E (length data) s of
       (None, s) \<Rightarrow> (Err ENOMEM_TX_PLAINTEXT, s)
     | (Some reserve, s) \<Rightarrow> tls_send_record E type (replicate reserve 0 @ data) reserve s)"

definition tls_send_handshake :: "'c tls12_env \<Rightarrow> bytes \<Rightarrow> 'c tls12 \<Rightarrow> rc \<times> 'c tls12" where
  "tls_send_handshake E data s = tls_send_plaintext E TLS_TYPE_HANDSHAKE data s"

definition tls_send_change_cipher :: "'c tls12_env \<Rightarrow> 'c tls12 \<Rightarrow> rc \<times> 'c tls12" where
  "tls_send_change_cipher E s = tls_send_plaintext E TLS_TYPE_CHANGE_CIPHER [of_nat TLS_CHANGE_CIPHER_SPEC] s"

definition tls_send_alert :: "'c tls12_env \<Rightarrow> nat \<Rightarrow> nat \<Rightarrow> 'c tls12 \<Rightarrow> rc \<times> 'c tls12" where
  "tls_send_alert E level description s = tls_send_plaintext E TLS_TYPE_ALERT [of_nat level, of_nat description] s"

definition tls_plainstream_window :: "'c tls12_env \<Rightarrow> 'c tls12 \<Rightarrow> nat" where
  "tls_plainstream_window E s = (if \<not> tls_ready s then 0 else w_cipher_window E (v_clk s))"

text \<open>The sender fills a buffer from \<open>tls_alloc_iob\<close>, which has the space for the records in front of the data.\<close>

definition tls_plainstream_deliver :: "'c tls12_env \<Rightarrow> bytes \<Rightarrow> nat \<Rightarrow> 'c tls12 \<Rightarrow> rc \<times> 'c tls12" where
  "tls_plainstream_deliver E buf off s =
    (if \<not> tls_ready s then (Err ENOTCONN, s) else tls_send_record E TLS_TYPE_DATA buf off s)"

section \<open>Closing\<close>

text \<open>Closing removes the pending operations and shuts the interfaces down. The other connections of the session, which are
  resumed, are not part of the state.\<close>

definition tls12_close :: "'c tls12_env \<Rightarrow> rc \<Rightarrow> 'c tls12 \<Rightarrow> 'c tls12" where
  "tls12_close E r s = tls_regenerate_ephemeral_master E
     (s\<lparr>v_client_negotiation := False, v_server_negotiation := False, v_validation := False, v_process := False,
        v_closed := (case v_closed s of None \<Rightarrow> Some r | c \<Rightarrow> c)\<rparr>)"

definition tls12_close_alert :: "'c tls12_env \<Rightarrow> rc \<Rightarrow> 'c tls12 \<Rightarrow> 'c tls12" where
  "tls12_close_alert E r s = tls12_close E r (snd (tls_send_alert E TLS_ALERT_WARNING TLS_ALERT_CLOSE_NOTIFY s))"

section \<open>Handlers of record types\<close>

text \<open>A handler gets the bytes of the record and returns those that are left.\<close>

definition tls_restart :: "'c tls12_env \<Rightarrow> 'c tls12 \<Rightarrow> 'c tls12" where
  "tls_restart E s = (tls_regenerate_ephemeral_master E s)
     \<lparr>v_tx_pending := TLS_TX_CLIENT_HELLO, v_process := True, v_client_negotiation := True, v_server_negotiation := True\<rparr>"

definition tls_new_hello_request :: "'c tls12_env \<Rightarrow> 'c tls12 \<Rightarrow> rc \<times> 'c tls12" where
  "tls_new_hello_request E s =
    (if \<not> tls_ready s then (OK, s)
     else if \<not> (v_secure_renegotiation s \<and> v_extended_master_secret s) then (Err EPERM_RENEG_INSECURE, s)
     else (OK, tls_restart E s))"

definition tls_new_change_cipher :: "'c tls12_env \<Rightarrow> bytes \<Rightarrow> 'c tls12 \<Rightarrow> rc \<times> bytes \<times> 'c tls12" where
  "tls_new_change_cipher E bs s =
    (if bs \<noteq> [of_nat TLS_CHANGE_CIPHER_SPEC] then (Err EINVAL_CHANGE_CIPHER, bs, s)
     else case tls_change_cipher E (v_rx s, v_next_rx s) of
         (OK, act, pend) \<Rightarrow> (OK, [], s\<lparr>v_rx := act, v_next_rx := pend, v_rx_seq := - 1\<rparr>)
       | (r, _) \<Rightarrow> (r, [], s))"

definition tls_new_alert :: "'c tls12_env \<Rightarrow> bytes \<Rightarrow> 'c tls12 \<Rightarrow> rc \<times> bytes \<times> 'c tls12" where
  "tls_new_alert E bs s =
    (if length bs \<noteq> 2 then (Err EINVAL_ALERT, bs, s)
     else if bs ! 0 = of_nat TLS_ALERT_WARNING then
       (OK, [], if bs ! 1 = of_nat TLS_ALERT_CLOSE_NOTIFY then tls12_close E OK s else s)
     else if bs ! 0 = of_nat TLS_ALERT_FATAL then (Err EPERM_ALERT, [], s)
     else (Err EIO_ALERT, [], s))"

definition tls_new_unknown :: "bytes \<Rightarrow> 'c tls12 \<Rightarrow> rc \<times> bytes \<times> 'c tls12" where
  "tls_new_unknown bs s = (OK, [], s)"

text \<open>One handshake message: its handler, then the handshake digest.\<close>

definition tls12_message :: "'c tls12_env \<Rightarrow> bytes \<Rightarrow> 'c tls12 \<Rightarrow> rc \<times> 'c tls12" where
  "tls12_message E msg s =
    (let type = unat (msg ! 0) in
     if type = TLS_HELLO_REQUEST then tls_new_hello_request E s
     else case w_message E type (drop 4 msg) s of (r, s) \<Rightarrow> (r, tls_add_handshake msg s))"

function tls_new_handshake :: "'c tls12_env \<Rightarrow> bytes \<Rightarrow> 'c tls12 \<Rightarrow> rc \<times> bytes \<times> 'c tls12" where
  "tls_new_handshake E bs s =
    (if length bs < 4 then (OK, bs, s)
     else
       let payload_len = tls_uint24 (get_at 1 3 bs) in
       if length bs - 4 < payload_len then (OK, bs, s)
       else
         let (r, s) = tls12_message E (take (4 + payload_len) bs) s in
         if r \<noteq> OK then (r, bs, s) else tls_new_handshake E (drop (4 + payload_len) bs) s)"
  by pat_completeness auto

termination tls_new_handshake
  by (relation "measure (\<lambda>(E, bs, s). length bs)") auto

declare tls_new_handshake.simps [simp del]

text \<open>Data goes to the plaintext stream buffer by buffer.\<close>

definition full_buffers :: "bytes list \<Rightarrow> rx_buffer list" where
  "full_buffers = map (\<lambda>d. \<lparr>rb_size = length d, rb_data = d\<rparr>)"

fun deliver_buffers :: "'c tls12_env \<Rightarrow> bytes list \<Rightarrow> 'c tls12 \<Rightarrow> rc \<times> 'c tls12" where
  "deliver_buffers E [] s = (OK, s\<lparr>v_data := []\<rparr>)"
| "deliver_buffers E (d # ds) s =
    (let r = w_plain_deliver E (v_clk s); s = (v_tick s)\<lparr>v_plain := v_plain s @ [d], v_data := full_buffers ds\<rparr> in
     if r \<noteq> OK then (r, s) else deliver_buffers E ds s)"

definition tls_new_data :: "'c tls12_env \<Rightarrow> bytes list \<Rightarrow> 'c tls12 \<Rightarrow> rc \<times> 'c tls12" where
  "tls_new_data E ds s = (if \<not> tls_ready s then (Err ENOTCONN, s) else deliver_buffers E ds s)"

definition tls_new_record :: "'c tls12_env \<Rightarrow> nat \<Rightarrow> bytes list \<Rightarrow> 'c tls12 \<Rightarrow> rc \<times> 'c tls12" where
  "tls_new_record E type ds s =
    (if type = TLS_TYPE_DATA then tls_new_data E ds s
     else
       let is_hs = (type = TLS_TYPE_HANDSHAKE);
           bs = (if is_hs then case v_handshake s of None \<Rightarrow> [] | Some f \<Rightarrow> f else []) @ concat ds;
           s' = (v_tick s)\<lparr>v_data := []\<rparr> in
       if \<not> w_alloc E (v_clk s) (length bs) then (Err ENOMEM_RX_CONCAT, if is_hs then s'\<lparr>v_handshake := None\<rparr> else s')
       else
         let (r, rest, s) = (if type = TLS_TYPE_CHANGE_CIPHER then tls_new_change_cipher E bs s'
               else if type = TLS_TYPE_ALERT then tls_new_alert E bs s'
               else if is_hs then tls_new_handshake E bs s' else tls_new_unknown bs s') in
         (r, if is_hs then s\<lparr>v_handshake := (if r = OK \<and> rest \<noteq> [] then Some rest else None)\<rparr> else s))"

section \<open>Reception\<close>

text \<open>The length of the padding. For an empty buffer the code reads the byte in front of the data, which is inside
  the allocation; whatever it is, the padding is rejected.\<close>

definition tls_verify_padding :: "bytes \<Rightarrow> nat option" where
  "tls_verify_padding bs =
    (if bs = [] then None
     else
       let pad = unat (last bs) in
       if length bs < pad + 1 then None
       else if \<exists>b \<in> set (get_at (length bs - pad - 1) pad bs). b \<noteq> of_nat pad then None
       else Some (pad + 1))"

fun decrypt_buffers :: "'c cipher_algorithm \<Rightarrow> 'c \<Rightarrow> bytes list \<Rightarrow> bytes list \<times> 'c" where
  "decrypt_buffers cipher ctx [] = ([], ctx)"
| "decrypt_buffers cipher ctx (d # ds) =
    (let (d, ctx) = ca_decrypt cipher ctx d; (ds, ctx) = decrypt_buffers cipher ctx ds in (d # ds, ctx))"

text \<open>Removing bytes from the end of the last buffer: what is left, and the bytes.\<close>

definition iob_unput_last :: "nat \<Rightarrow> bytes list \<Rightarrow> bytes list \<times> bytes" where
  "iob_unput_last n ds =
    (let l = last ds in (butlast ds @ [take (length l - n) l], drop (length l - n) l))"

text \<open>The part of the function after the initialisation vector and the tag were taken off. After an error the connection is
  closed and the buffers are only freed, so what is then in \<open>v_data\<close> is not kept up to date.\<close>

definition check_ciphertext :: "'c tls12_env \<Rightarrow> 'c \<Rightarrow> bytes \<Rightarrow> nat \<Rightarrow> bytes list \<Rightarrow> 'c tls12 \<Rightarrow> rc \<times> 'c tls12" where
  "check_ciphertext E ctx auth len ds s =
    (let spec = v_rx s; suite = sp_suite spec; cipher = su_cipher suite; header = v_header s;
         authhdr = auth_header (v_rx_seq s) (take 3 header @ to_be 2 len);
         ctx = (if ca_is_auth cipher then ca_aad_decrypt cipher ctx authhdr else ctx);
         (ds, ctx) = decrypt_buffers cipher ctx ds;
         pad_len = (if ca_is_block cipher then case tls_verify_padding (last ds) of None \<Rightarrow> 0 | Some n \<Rightarrow> n else 0);
         (ds, _) = iob_unput_last pad_len ds;
         len = len - pad_len;
         s = s\<lparr>v_rx := spec\<lparr>sp_ctx := ctx\<rparr>\<rparr> in
     if length (last ds) < su_mac_len suite then (Err EINVAL_MAC, s)
     else
       let (ds, mac) = iob_unput_last (su_mac_len suite) ds;
           len = len - su_mac_len suite;
           authhdr = auth_header (v_rx_seq s) (take 3 header @ to_be 2 len);
           verify_mac = tls_hmac_list spec authhdr ds;
           verify_auth = ca_auth cipher ctx in
       if mac \<noteq> take (su_mac_len suite) verify_mac then (Err EINVAL_MAC, s)
       else if auth \<noteq> verify_auth then (Err EINVAL_MAC, s)
       else tls_new_record E (unat (header ! 0)) ds s)"

definition tls_new_ciphertext :: "'c tls12_env \<Rightarrow> 'c tls12 \<Rightarrow> rc \<times> 'c tls12" where
  "tls_new_ciphertext E s =
    (let spec = v_rx s; suite = sp_suite spec; cipher = su_cipher suite;
         len = of_be (get_at 3 2 (v_header s)); ds = map rb_data (v_data s) in
     case ds of
       [] \<Rightarrow> (Fault, s)
     | first # rest \<Rightarrow>
         if length first < su_record_iv_len suite then (Err EINVAL_IV, s)
         else
           let ds = drop (su_record_iv_len suite) first # rest;
               len = len - su_record_iv_len suite in
           if length (last ds) < ca_authsize cipher then (Err EINVAL_MAC, s)
           else
             let (ds, auth) = iob_unput_last (ca_authsize cipher) ds;
                 (r, ctx) = ca_setiv cipher (sp_ctx spec) (sp_fixed_iv spec @ take (su_record_iv_len suite) first) in
             if r \<noteq> OK then (r, s\<lparr>v_rx := spec\<lparr>sp_ctx := ctx\<rparr>\<rparr>)
             else check_ciphertext E ctx auth (len - ca_authsize cipher) ds s)"

text \<open>The buffers for a record: none is smaller than \<^verbatim>\<open>TLS_RX_MIN_BUFSIZE\<close> unless the record is. The first one reserves
  space in front, so that its data is aligned once the initialisation vector is taken off.\<close>

function alloc_buffers :: "'c tls12_env \<Rightarrow> nat \<Rightarrow> nat \<Rightarrow> nat \<Rightarrow> rx_buffer list option \<times> nat" where
  "alloc_buffers E remaining reserve clk =
    (if remaining = 0 then (Some [], clk)
     else
       let frag_len = min remaining TLS_RX_BUFSIZE; rem = remaining - frag_len;
           (frag_len, rem) = (if rem < TLS_RX_MIN_BUFSIZE then (frag_len + rem, 0) else (frag_len, rem)) in
       if \<not> w_alloc E clk frag_len then (None, Suc clk)
       else case alloc_buffers E rem 0 (Suc clk) of
           (Some bs, clk) \<Rightarrow> (Some (\<lparr>rb_size = frag_len - reserve, rb_data = []\<rparr> # bs), clk)
         | (None, clk) \<Rightarrow> (None, clk))"
  by pat_completeness auto

termination alloc_buffers
  by (relation "measure (\<lambda>(E, remaining, reserve, clk). remaining)") (auto split: if_splits)

declare alloc_buffers.simps [simp del]

definition tls_newdata_process_header :: "'c tls12_env \<Rightarrow> 'c tls12 \<Rightarrow> rc \<times> 'c tls12" where
  "tls_newdata_process_header E s =
    (let suite = sp_suite (v_rx s); data_len = of_be (get_at 3 2 (v_header s));
         reserve = unat ((- of_nat (su_record_iv_len suite)) AND (of_nat (ca_alignsize (su_cipher suite)) - 1) :: u64) in
     case alloc_buffers E (data_len + reserve) reserve (v_clk s) of
       (Some bs, clk) \<Rightarrow> (OK, s\<lparr>v_clk := clk, v_data := bs, v_state := TLS_RX_DATA\<rparr>)
     | (None, clk) \<Rightarrow> (Err ENOMEM_RX_DATA, s\<lparr>v_clk := clk, v_data := []\<rparr>))"

definition iob_tailroom :: "rx_buffer \<Rightarrow> nat" where
  "iob_tailroom b = rb_size b - length (rb_data b)"

definition tls_newdata_process_data :: "'c tls12_env \<Rightarrow> 'c tls12 \<Rightarrow> rc \<times> 'c tls12" where
  "tls_newdata_process_data E s =
    (let s = s\<lparr>v_data := rotate1 (v_data s)\<rparr> in
     case v_data s of
       [] \<Rightarrow> (Fault, s)
     | b # _ \<Rightarrow>
         if iob_tailroom b \<noteq> 0 then (OK, s)
         else then_ok (tls_new_ciphertext E s)
           (\<lambda>s. (OK, s\<lparr>v_rx_seq := v_rx_seq s + 1, v_state := TLS_RX_HEADER, v_header := []\<rparr>)))"

definition tls_cipherstream_window :: "'c tls12_env \<Rightarrow> 'c tls12 \<Rightarrow> nat" where
  "tls_cipherstream_window E s = (if \<not> tls_ready s then 2 ^ 64 - 1 else w_plain_window E (v_clk s))"

text \<open>One round of the receive loop: copying into the current buffer, and processing it when it is full. The first
  buffer of an empty list is the null pointer.\<close>

definition receive_step :: "'c tls12_env \<Rightarrow> bytes \<Rightarrow> 'c tls12 \<Rightarrow> rc \<times> bytes \<times> 'c tls12" where
  "receive_step E bs s =
    (case v_state s of
       TLS_RX_HEADER \<Rightarrow>
         let n = min (length bs) (5 - length (v_header s)); s = s\<lparr>v_header := v_header s @ take n bs\<rparr> in
         (case (if 5 - length (v_header s) = 0 then tls_newdata_process_header E s else (OK, s)) of (r, s) \<Rightarrow> (r, drop n bs, s))
     | TLS_RX_DATA \<Rightarrow>
         (case v_data s of
            [] \<Rightarrow> (Fault, bs, s)
          | b # rest \<Rightarrow>
              let n = min (length bs) (iob_tailroom b); b = b\<lparr>rb_data := rb_data b @ take n bs\<rparr>; s = s\<lparr>v_data := b # rest\<rparr> in
              (case (if iob_tailroom b = 0 then tls_newdata_process_data E s else (OK, s)) of (r, s) \<Rightarrow> (r, drop n bs, s))))"

partial_function (option) tls_cipherstream_deliver :: "'c tls12_env \<Rightarrow> bytes \<Rightarrow> 'c tls12 \<Rightarrow> (rc \<times> 'c tls12) option" where
  "tls_cipherstream_deliver E bs s =
    (if bs = [] then Some (OK, s)
     else case receive_step E bs s of
         (OK, bs, s) \<Rightarrow> tls_cipherstream_deliver E bs s
       | (Fault, bs, s) \<Rightarrow> Some (Fault, s)
       | (r, bs, s) \<Rightarrow> Some (r, tls12_close_alert E r s))"

end
