(* ===== verification/Tls12_Keys.thy ===== *)
theory Tls12_Keys
  imports Tls12_Record "HOL-Library.Monad_Syntax"
begin

text \<open>
  The key schedule of TLS 1.2 and the handshake messages that drive it (\<^verbatim>\<open>net/tls.c\<close> lines 1263 to 2152 and 2815
  to 3971): pseudo-random function, master secret, key block, session resumption, choice of the cipher suite, Client Hello
  and Server Hello, session ticket and the two Finished messages. The messages of the key exchange are not
  modelled; agreeing on a secret with the partner's public value is. Digests, ciphers, key exchange groups,
  certificate checks, random bits and allocation are parameters.
\<close>

section \<open>State\<close>

record tls_named_group =
  gr_name :: string
  gr_privsize :: nat
  gr_pubsize :: nat
  gr_sharedsize :: nat
  gr_share :: "bytes \<Rightarrow> rc \<times> bytes"
  gr_agree :: "bytes \<Rightarrow> bytes \<Rightarrow> rc \<times> bytes"

text \<open>The session. Buffers with a length are the bytes in use.\<close>

record tls_session =
  z_name :: bytes
  z_cert :: "bytes option"
  z_id :: bytes
  z_ticket :: bytes
  z_secret :: bytes
  z_ems :: bool

text \<open>The connection of the record layer with the key schedule, the session and the values of the handshake. \<open>y_kdf\<close> is the
  memory of the key derivation keys: one HMAC key, or one for MD5 followed by one for SHA-1. \<open>v_transcript\<close> is the input of
  the handshake digest.\<close>

record 'c tls_hs =
  y_conn :: "'c tls12"
  y_digest :: digest_algorithm
  y_group :: tls_named_group
  y_keyed :: bool
  y_bound :: "bytes option"
  y_kdf :: bytes
  y_server_random :: bytes
  y_verify_client :: bytes
  y_verify_server :: bytes
  y_session_id :: bytes
  y_new_ticket :: bytes
  y_session :: tls_session

record 'c hs_env =
  x_tls :: "'c tls12_env"
  x_rbg :: "nat \<Rightarrow> nat \<Rightarrow> rc \<times> bytes"
  x_hkdf_extract :: "bytes \<Rightarrow> bytes \<Rightarrow> bytes"
  x_min_version :: u16
  x_max_version :: u16
  x_null_digest :: digest_algorithm
  x_md5 :: digest_algorithm
  x_sha1 :: digest_algorithm
  x_md5_sha1 :: digest_algorithm
  x_suites :: "'c tls_cipher_suite list"
  x_sig_hash_codes :: "u16 list"
  x_group_codes :: "u16 list"
  x_valid :: "bytes \<Rightarrow> bool"

abbreviation (input) "TLS_VERSION_TLS_1_2 \<equiv> (0x0303 :: u16)"
abbreviation (input) "TLS_CLIENT_HELLO \<equiv> (1 :: nat)"
abbreviation (input) "TLS_FINISHED \<equiv> (20 :: nat)"
abbreviation (input) "TLS_TX_CHANGE_CIPHER \<equiv> (0x10 :: u32)"
abbreviation (input) "TLS_TX_FINISHED \<equiv> (0x20 :: u32)"
abbreviation (input) "TLS_SERVER_NAME \<equiv> (0 :: nat)"
abbreviation (input) "TLS_MAX_FRAGMENT_LENGTH \<equiv> (1 :: nat)"
abbreviation (input) "TLS_MAX_FRAGMENT_LENGTH_4096 \<equiv> (4 :: nat)"
abbreviation (input) "TLS_NAMED_GROUP \<equiv> (10 :: nat)"
abbreviation (input) "TLS_SIGNATURE_ALGORITHMS \<equiv> (13 :: nat)"
abbreviation (input) "TLS_EXTENDED_MASTER_SECRET \<equiv> (23 :: nat)"
abbreviation (input) "TLS_SESSION_TICKET \<equiv> (35 :: nat)"
abbreviation (input) "TLS_RENEGOTIATION_INFO \<equiv> (0xff01 :: nat)"

definition upd_conn :: "('c tls12 \<Rightarrow> 'c tls12) \<Rightarrow> 'c tls_hs \<Rightarrow> 'c tls_hs" where
  "upd_conn f s = s\<lparr>y_conn := f (y_conn s)\<rparr>"

text \<open>Allocation asks the environment of the record layer.\<close>

definition hs_alloc :: "'c hs_env \<Rightarrow> nat \<Rightarrow> 'c tls_hs \<Rightarrow> bool" where
  "hs_alloc E n s = w_alloc (x_tls E) (v_clk (y_conn s)) n"

definition tls_version :: "'c hs_env \<Rightarrow> u16 \<Rightarrow> 'c tls_hs \<Rightarrow> bool" where
  "tls_version E version s \<longleftrightarrow> version \<le> x_min_version E \<or> version \<le> v_version (y_conn s)"

section \<open>Key schedule\<close>

definition tls_generate_ephemeral_master :: "'c hs_env \<Rightarrow> 'c tls_hs \<Rightarrow> rc \<times> 'c tls_hs" where
  "tls_generate_ephemeral_master E s =
    (case x_rbg E (v_clk (y_conn s)) 32 of (r, bits) \<Rightarrow>
       let s = upd_conn v_tick s in
       if r \<noteq> OK then (r, upd_conn (v_ephemeral_update (\<lambda>_. bits)) s)
       else (OK, upd_conn (v_ephemeral_update (\<lambda>_. x_hkdf_extract E (str_bytes ''ephemeral master'') bits)) s))"

definition tls_clear_binding :: "'c tls_hs \<Rightarrow> 'c tls_hs" where
  "tls_clear_binding s = s\<lparr>y_bound := None\<rparr>"

definition tls_set_binding :: "bytes option \<Rightarrow> 'c tls_hs \<Rightarrow> 'c tls_hs" where
  "tls_set_binding cert s =
    (let s = tls_clear_binding s in
     if \<not> y_keyed s then s else s\<lparr>y_bound := cert\<rparr>)"

definition tls_clear_digest :: "'c hs_env \<Rightarrow> 'c tls_hs \<Rightarrow> 'c tls_hs" where
  "tls_clear_digest E s =
    (let s = upd_conn (v_transcript_update (\<lambda>_. [])) (s\<lparr>y_digest := x_null_digest E, y_kdf := []\<rparr>) in
     (tls_clear_binding s)\<lparr>y_keyed := False\<rparr>)"

definition tls_set_digest :: "'c hs_env \<Rightarrow> digest_algorithm \<Rightarrow> 'c tls_hs \<Rightarrow> rc \<times> 'c tls_hs" where
  "tls_set_digest E digest s =
    (let s = tls_clear_digest E s;
         kdfsize = (if tls_version E TLS_VERSION_TLS_1_2 s then dg_keysize digest else dg_keysize (x_md5 E) + dg_keysize (x_sha1 E)) in
     if \<not> hs_alloc E (dg_ctxsize digest + kdfsize) s then (Err ENOMEM, upd_conn v_tick s)
     else
       let s = upd_conn v_tick s in
       (OK, s\<lparr>y_digest := digest, y_kdf := tls_ephemeral_label (x_tls E) ''kdf poison'' kdfsize (y_conn s)\<rparr>))"

text \<open>The loop of the pseudo-random function. A digest without output, such as the null digest, never makes progress.\<close>

partial_function (option) p_hash_loop :: "digest_algorithm \<Rightarrow> bytes \<Rightarrow> bytes \<Rightarrow> bytes \<Rightarrow> nat \<Rightarrow> bytes option" where
  "p_hash_loop digest hkey seed a out_len =
    (if out_len = 0 then Some []
     else
       let out_tmp = dg_hmac digest hkey (a @ seed); frag_len = min (dg_size digest) out_len in
       do { out \<leftarrow> p_hash_loop digest hkey seed (dg_hmac digest hkey a) (out_len - frag_len);
            Some (take frag_len out_tmp @ out) })"

definition tls_p_hash_va :: "digest_algorithm \<Rightarrow> bytes \<Rightarrow> nat \<Rightarrow> bytes list \<Rightarrow> bytes option" where
  "tls_p_hash_va digest hkey out_len seeds =
    (let seed = concat seeds in p_hash_loop digest hkey seed (dg_hmac digest hkey seed) out_len)"

definition tls_prf :: "'c hs_env \<Rightarrow> nat \<Rightarrow> bytes list \<Rightarrow> 'c tls_hs \<Rightarrow> bytes option" where
  "tls_prf E out_len seeds s =
    (if tls_version E TLS_VERSION_TLS_1_2 s then tls_p_hash_va (y_digest s) (y_kdf s) out_len seeds
     else do {
       out \<leftarrow> tls_p_hash_va (x_md5 E) (take (dg_keysize (x_md5 E)) (y_kdf s)) out_len seeds;
       buf \<leftarrow> tls_p_hash_va (x_sha1 E) (drop (dg_keysize (x_md5 E)) (y_kdf s)) out_len seeds;
       Some (map2 (XOR) out buf) })"

definition tls_prf_label :: "'c hs_env \<Rightarrow> nat \<Rightarrow> string \<Rightarrow> bytes list \<Rightarrow> 'c tls_hs \<Rightarrow> bytes option" where
  "tls_prf_label E out_len label seeds s = tls_prf E out_len (str_bytes label # seeds) s"

definition tls_set_kdf_master :: "'c hs_env \<Rightarrow> bytes \<Rightarrow> 'c tls_hs \<Rightarrow> 'c tls_hs" where
  "tls_set_kdf_master E secret s =
    (if tls_version E TLS_VERSION_TLS_1_2 s then s\<lparr>y_kdf := dg_key (y_digest s) secret\<rparr>
     else
       let subsecret_len = (length secret + 1) div 2 in
       s\<lparr>y_kdf := dg_key (x_md5 E) (take subsecret_len secret) @ dg_key (x_sha1 E) (drop (length secret - subsecret_len) secret)\<rparr>)"

definition tls_share_ephemeral :: "'c hs_env \<Rightarrow> 'c tls_hs \<Rightarrow> rc \<times> bytes" where
  "tls_share_ephemeral E s = gr_share (y_group s) (tls_ephemeral_label (x_tls E) (gr_name (y_group s)) (gr_privsize (y_group s)) (y_conn s))"

definition tls_agree_ephemeral :: "'c hs_env \<Rightarrow> bytes \<Rightarrow> bool \<Rightarrow> 'c tls_hs \<Rightarrow> rc \<times> 'c tls_hs" where
  "tls_agree_ephemeral E partner strip s =
    (let group = y_group s; s' = upd_conn v_tick s in
     if \<not> hs_alloc E (gr_privsize group + gr_pubsize group + gr_sharedsize group) s then (Err ENOMEM, s')
     else
       let private = tls_ephemeral_label (x_tls E) (gr_name group) (gr_privsize group) (y_conn s);
           pad_len = gr_pubsize group - length partner in
       if gr_pubsize group < length partner then (Err EINVAL_KEY_EXCHANGE, s')
       else if pad_len \<noteq> 0 \<and> \<not> strip then (Err EINVAL_KEY_EXCHANGE, s')
       else case gr_agree group private (replicate pad_len 0 @ partner) of (r, shared) \<Rightarrow>
         if r \<noteq> OK then (r, s')
         else (OK, (tls_clear_binding (tls_set_kdf_master E (if strip then dropWhile ((=) 0) shared else shared) s'))\<lparr>y_keyed := True\<rparr>))"

definition tls_verify_handshake :: "'c tls_hs \<Rightarrow> bytes" where
  "tls_verify_handshake s = dg_hash (y_digest s) (v_transcript (y_conn s))"

definition tls_generate_master_secret :: "'c hs_env \<Rightarrow> 'c tls_hs \<Rightarrow> 'c tls_hs option" where
  "tls_generate_master_secret E s = do {
     master_secret \<leftarrow>
       (if v_extended_master_secret (y_conn s) then tls_prf_label E 48 ''extended master secret'' [tls_verify_handshake s] s
        else tls_prf_label E 48 ''master secret'' [v_client_random (y_conn s), y_server_random s] s);
     Some (tls_set_kdf_master E master_secret s) }"

text \<open>The key block is split in order; setting a key may fail between.\<close>

definition split_keys :: "bytes \<Rightarrow> 'c tls_hs \<Rightarrow> rc \<times> 'c tls_hs" where
  "split_keys key_block s =
    (let tx = v_next_tx (y_conn s); rx = v_next_rx (y_conn s); suite = sp_suite tx;
         hash_size = su_mac_len suite; key_size = su_key_len suite; iv_size = su_fixed_iv_len suite;
         tx = tx\<lparr>sp_mac_secret := get_at 0 hash_size key_block\<rparr>;
         rx = rx\<lparr>sp_mac_secret := get_at hash_size hash_size key_block\<rparr>;
         key = 2 * hash_size;
         (r, ctx) = ca_setkey (su_cipher suite) (sp_ctx tx) (get_at key key_size key_block);
         tx = tx\<lparr>sp_ctx := ctx\<rparr> in
     if r \<noteq> OK then (r, upd_conn (\<lambda>v. v\<lparr>v_next_tx := tx, v_next_rx := rx\<rparr>) s)
     else
       let key = key + key_size;
           (r, ctx) = ca_setkey (su_cipher (sp_suite rx)) (sp_ctx rx) (get_at key key_size key_block);
           rx = rx\<lparr>sp_ctx := ctx\<rparr> in
       if r \<noteq> OK then (r, upd_conn (\<lambda>v. v\<lparr>v_next_tx := tx, v_next_rx := rx\<rparr>) s)
       else
         let key = key + key_size;
             tx = tx\<lparr>sp_fixed_iv := get_at key iv_size key_block\<rparr>;
             rx = rx\<lparr>sp_fixed_iv := get_at (key + iv_size) iv_size key_block\<rparr> in
         (OK, upd_conn (\<lambda>v. v\<lparr>v_next_tx := tx, v_next_rx := rx\<rparr>) s))"

definition tls_generate_keys :: "'c hs_env \<Rightarrow> 'c tls_hs \<Rightarrow> (rc \<times> 'c tls_hs) option" where
  "tls_generate_keys E s =
    (let suite = sp_suite (v_next_tx (y_conn s)); total = 2 * (su_mac_len suite + su_key_len suite + su_fixed_iv_len suite) in
     do { key_block \<leftarrow> tls_prf_label E total ''key expansion'' [y_server_random s, v_client_random (y_conn s)] s;
          Some (split_keys key_block s) })"

text \<open>Only the first bytes of the key derivation keys are kept with the session.\<close>

definition tls_generate_resumption_master :: "'c hs_env \<Rightarrow> 'c tls_hs \<Rightarrow> 'c tls_hs" where
  "tls_generate_resumption_master E s =
    (let secret = (if tls_version E TLS_VERSION_TLS_1_2 s then take 48 (y_kdf s)
           else take 24 (take (dg_keysize (x_md5 E)) (y_kdf s)) @ take 24 (drop (dg_keysize (x_md5 E)) (y_kdf s))) in
     s\<lparr>y_session := (y_session s)\<lparr>z_secret := secret\<rparr>\<rparr>)"

definition tls_resume_secret :: "'c hs_env \<Rightarrow> 'c tls_hs \<Rightarrow> 'c tls_hs" where
  "tls_resume_secret E s =
    (let secret = z_secret (y_session s); s = (tls_set_kdf_master E secret s)\<lparr>y_keyed := (secret \<noteq> [])\<rparr> in
     tls_set_binding (z_cert (y_session s)) s)"

section \<open>Cipher suites\<close>

definition tls_find_cipher_suite :: "'c hs_env \<Rightarrow> u16 \<Rightarrow> 'c tls_cipher_suite option" where
  "tls_find_cipher_suite E code = find (\<lambda>suite. su_code suite = code) (x_suites E)"

definition tls_set_cipher :: "'c hs_env \<Rightarrow> 'c tls_cipher_suite \<Rightarrow> 'c tls_hs \<Rightarrow> rc \<times> 'c tls_cipherspec" where
  "tls_set_cipher E suite s =
    (if \<not> hs_alloc E (ca_ctxsize (su_cipher suite) + su_mac_len suite + su_fixed_iv_len suite) s then (Err ENOMEM_CONTEXT, tls_clear_cipher (x_tls E))
     else (OK, \<lparr>sp_suite = suite, sp_ctx = ca_ctx0 (su_cipher suite), sp_mac_secret = replicate (su_mac_len suite) 0,
                sp_fixed_iv = replicate (su_fixed_iv_len suite) 0\<rparr>))"

definition tls_select_cipher :: "'c hs_env \<Rightarrow> u16 \<Rightarrow> 'c tls_hs \<Rightarrow> rc \<times> 'c tls_hs" where
  "tls_select_cipher E code s =
    (case tls_find_cipher_suite E code of
       None \<Rightarrow> (Err ENOTSUP_CIPHER, s)
     | Some suite \<Rightarrow>
         then_ok (tls_set_digest E (if tls_version E TLS_VERSION_TLS_1_2 s then su_handshake suite else x_md5_sha1 E) s) (\<lambda>s.
         let (r, tx) = tls_set_cipher E suite s; s = upd_conn (v_tick \<circ> v_next_tx_update (\<lambda>_. tx)) s in
         if r \<noteq> OK then (r, s)
         else let (r, rx) = tls_set_cipher E suite s in (r, upd_conn (v_tick \<circ> v_next_rx_update (\<lambda>_. rx)) s)))"

section \<open>Hello messages\<close>

text \<open>The Client Hello. Each extension is its type, the length of its data, and the data.\<close>

definition hello_ext :: "nat \<Rightarrow> bytes \<Rightarrow> bytes" where
  "hello_ext type data = to_be 2 type @ to_be 2 (length data) @ data"

definition code_list :: "u16 list \<Rightarrow> bytes" where
  "code_list codes = concat (map (to_be 2 \<circ> unat) codes)"

definition hello_extensions :: "'c hs_env \<Rightarrow> 'c tls_hs \<Rightarrow> bytes" where
  "hello_extensions E s =
    (let name = z_name (y_session s); sigs = code_list (x_sig_hash_codes E); groups = code_list (x_group_codes E);
         verify = (if v_secure_renegotiation (y_conn s) then y_verify_client s else []) in
     hello_ext TLS_SERVER_NAME (to_be 2 (3 + length name) @ [0] @ to_be 2 (length name) @ name) @
     hello_ext TLS_MAX_FRAGMENT_LENGTH [of_nat TLS_MAX_FRAGMENT_LENGTH_4096] @
     hello_ext TLS_SIGNATURE_ALGORITHMS (to_be 2 (length sigs) @ sigs) @
     hello_ext TLS_RENEGOTIATION_INFO (of_nat (length verify) # verify) @
     hello_ext TLS_SESSION_TICKET (z_ticket (y_session s)) @
     hello_ext TLS_EXTENDED_MASTER_SECRET [] @
     (if x_group_codes E = [] then [] else hello_ext TLS_NAMED_GROUP (to_be 2 (length groups) @ groups)))"

definition client_hello :: "'c hs_env \<Rightarrow> 'c tls_hs \<Rightarrow> bytes" where
  "client_hello E s =
    (let suites = code_list (map su_code (x_suites E)); exts = hello_extensions E s;
         body = to_be 2 (unat (x_max_version E)) @ v_client_random (y_conn s) @ [of_nat (length (y_session_id s))] @ y_session_id s @
           to_be 2 (length suites) @ suites @ [1, 0] @ to_be 2 (length exts) @ exts in
     of_nat TLS_CLIENT_HELLO # to_be 3 (length body) @ body)"

definition tls_send_client_hello :: "'c hs_env \<Rightarrow> 'c tls_hs \<Rightarrow> rc \<times> 'c tls_hs" where
  "tls_send_client_hello E s = (case tls_send_handshake (x_tls E) (client_hello E s) (y_conn s) of (r, v) \<Rightarrow> (r, s\<lparr>y_conn := v\<rparr>))"

text \<open>Reading a field of the message; \<open>None\<close> is a read behind its end.\<close>

definition hello_field :: "nat \<Rightarrow> nat \<Rightarrow> bytes \<Rightarrow> nat option" where
  "hello_field off n msg = (if off + n \<le> length msg then Some (of_be (get_at off n msg)) else None)"

text \<open>The loop over the extensions: the offset of the renegotiation information, if any, and whether there is an extended
  master secret.\<close>

function hello_exts :: "bytes \<Rightarrow> nat \<Rightarrow> nat \<Rightarrow> nat option \<Rightarrow> bool \<Rightarrow> rc + (nat option \<times> bool)" where
  "hello_exts msg ext remaining reneg ems =
    (if remaining = 0 then Inr (reneg, ems)
     else if remaining < 4 then Inl (Err EINVAL_HELLO)
     else case hello_field (ext + 2) 2 msg of
         None \<Rightarrow> Inl Fault
       | Some ext_len \<Rightarrow>
           if remaining - 4 < ext_len then Inl (Err EINVAL_HELLO)
           else case hello_field ext 2 msg of
               None \<Rightarrow> Inl Fault
             | Some type \<Rightarrow>
                 if type = TLS_RENEGOTIATION_INFO then
                   if ext_len < 1 then Inl (Err EINVAL_HELLO)
                   else case hello_field (ext + 4) 1 msg of
                       None \<Rightarrow> Inl Fault
                     | Some len \<Rightarrow>
                         if ext_len - 1 < len then Inl (Err EINVAL_HELLO)
                         else hello_exts msg (ext + 4 + ext_len) (remaining - (4 + ext_len)) (Some (ext + 4)) ems
                 else hello_exts msg (ext + 4 + ext_len) (remaining - (4 + ext_len)) reneg (ems \<or> type = TLS_EXTENDED_MASTER_SECRET))"
  by pat_completeness auto

termination hello_exts
  by (relation "measure (\<lambda>(msg, ext, remaining, reneg, ems). remaining)") auto

declare hello_exts.simps [simp del]

definition hello_ext_block :: "bytes \<Rightarrow> nat \<Rightarrow> nat \<Rightarrow> rc + (nat option \<times> bool)" where
  "hello_ext_block msg exts remaining =
    (if remaining = 0 then Inr (None, False)
     else if remaining < 2 then Inl (Err EINVAL_HELLO)
     else case hello_field exts 2 msg of
         None \<Rightarrow> Inl Fault
       | Some exts_len \<Rightarrow>
           if remaining - 2 < exts_len then Inl (Err EINVAL_HELLO)
           else hello_exts msg (exts + 2) exts_len None False)"

record server_hello =
  sh_version :: u16
  sh_random :: bytes
  sh_session_id :: bytes
  sh_cipher_suite :: u16
  sh_reneg :: "nat option"
  sh_ems :: bool

definition parse_hello :: "bytes \<Rightarrow> rc + server_hello" where
  "parse_hello msg =
    (let len = length msg in
     if len < 35 then Inl (Err EINVAL_HELLO)
     else case hello_field 34 1 msg of
         None \<Rightarrow> Inl Fault
       | Some id_len \<Rightarrow>
           if len - 35 < id_len \<or> len - 35 - id_len < 3 then Inl (Err EINVAL_HELLO)
           else case (hello_ext_block msg (35 + id_len + 3) (len - 35 - id_len - 3), hello_field 0 2 msg, hello_field (35 + id_len) 2 msg) of
               (Inl e, _, _) \<Rightarrow> Inl e
             | (Inr (reneg, ems), Some version, Some suite) \<Rightarrow>
                 Inr \<lparr>sh_version = of_nat version, sh_random = get_at 2 32 msg, sh_session_id = get_at 35 id_len msg,
                      sh_cipher_suite = of_nat suite, sh_reneg = reneg, sh_ems = ems\<rparr>
             | (Inr _, _, _) \<Rightarrow> Inl Fault)"

text \<open>The last part of the function: verification of a renegotiation.\<close>

definition check_reneg :: "bytes \<Rightarrow> nat option \<Rightarrow> 'c tls_hs \<Rightarrow> rc \<times> 'c tls_hs" where
  "check_reneg msg reneg s =
    (if v_secure_renegotiation (y_conn s) then
       case reneg of
         None \<Rightarrow> (Err EPERM_RENEG_VERIFY, s)
       | Some off \<Rightarrow>
           (case hello_field off 1 msg of
              None \<Rightarrow> (Fault, s)
            | Some len \<Rightarrow>
                if len \<noteq> 24 then (Err EPERM_RENEG_VERIFY, s)
                else if length msg < off + 1 + 24 then (Fault, s)
                else if get_at (off + 1) 24 msg \<noteq> y_verify_client s @ y_verify_server s then (Err EPERM_RENEG_VERIFY, s)
                else (OK, s))
     else case reneg of
         None \<Rightarrow> (OK, s)
       | Some off \<Rightarrow>
           (case hello_field off 1 msg of
              None \<Rightarrow> (Fault, s)
            | Some len \<Rightarrow>
                if len \<noteq> 0 then (Err EPERM_RENEG_VERIFY, s)
                else (OK, upd_conn (v_secure_renegotiation_update (\<lambda>_. True)) s)))"

text \<open>The Server Hello. The Client Hello goes to the new handshake digest first.\<close>

definition tls_new_server_hello :: "'c hs_env \<Rightarrow> bytes \<Rightarrow> 'c tls_hs \<Rightarrow> (rc \<times> 'c tls_hs) option" where
  "tls_new_server_hello E msg s =
    (case parse_hello msg of
       Inl e \<Rightarrow> Some (e, s)
     | Inr h \<Rightarrow>
         if sh_version h < x_min_version E then Some (Err ENOTSUP_VERSION, s)
         else if v_version (y_conn s) < sh_version h then Some (Err EPROTO_VERSION, s)
         else
           let s = upd_conn (v_version_update (\<lambda>_. sh_version h)) s;
               (r, s) = tls_select_cipher E (sh_cipher_suite h) s in
           if r \<noteq> OK then Some (r, s)
           else
             let s = upd_conn (tls_add_handshake (client_hello E s)) s;
                 s = upd_conn (v_extended_master_secret_update (\<lambda>_. sh_ems h)) (s\<lparr>y_server_random := sh_random h\<rparr>);
                 id = sh_session_id h in
             if id \<noteq> [] \<and> id = y_session_id s then do {
               (r, s) \<leftarrow> tls_generate_keys E (tls_resume_secret E s);
               Some (if r \<noteq> OK then (r, s)
                     else if sh_ems h \<noteq> z_ems (y_session s) then (Err EPERM_EMS, s)
                     else check_reneg msg (sh_reneg h) s) }
             else Some (check_reneg msg (sh_reneg h) (if id \<noteq> [] \<and> length id \<le> 32 then s\<lparr>y_session_id := id\<rparr> else s)))"

definition tls_new_session_ticket :: "'c hs_env \<Rightarrow> bytes \<Rightarrow> 'c tls_hs \<Rightarrow> rc \<times> 'c tls_hs" where
  "tls_new_session_ticket E msg s =
    (if length msg < 6 then (Err EINVAL_TICKET, s)
     else
       let ticket_len = of_be (get_at 4 2 msg) in
       if length msg - 6 < ticket_len then (Err EINVAL_TICKET, s)
       else if \<not> hs_alloc E ticket_len s then (Err ENOMEM, upd_conn v_tick (s\<lparr>y_new_ticket := []\<rparr>))
       else (OK, upd_conn v_tick (s\<lparr>y_new_ticket := get_at 6 ticket_len msg\<rparr>)))"

section \<open>Finished\<close>

definition tls_send_finished :: "'c hs_env \<Rightarrow> 'c tls_hs \<Rightarrow> (rc \<times> 'c tls_hs) option" where
  "tls_send_finished E s =
    (if \<not> (case y_bound s of None \<Rightarrow> False | Some cert \<Rightarrow> x_valid E cert) then Some (Err EPERM_BOUND, s)
     else do {
       verify \<leftarrow> tls_prf_label E 12 ''client finished'' [tls_verify_handshake s] s;
       let s = s\<lparr>y_verify_client := verify\<rparr>;
           (r, v) = tls_send_handshake (x_tls E) (of_nat TLS_FINISHED # to_be 3 12 @ verify) (y_conn s);
           s = s\<lparr>y_conn := v\<rparr> in
       Some (if r \<noteq> OK then (r, s) else (OK, upd_conn (v_client_negotiation_update (\<lambda>_. False)) s)) })"

text \<open>What the server's Finished records with the session.\<close>

definition record_session :: "'c hs_env \<Rightarrow> 'c tls_hs \<Rightarrow> 'c tls_hs" where
  "record_session E s =
    (if (case y_bound s of None \<Rightarrow> False | Some cert \<Rightarrow> x_valid E cert) \<and> (y_session_id s \<noteq> [] \<or> y_new_ticket s \<noteq> []) then
       let s = tls_generate_resumption_master E s;
           z = (y_session s)\<lparr>z_ems := v_extended_master_secret (y_conn s), z_cert := y_bound s\<rparr>;
           z = (if y_session_id s \<noteq> [] then z\<lparr>z_id := y_session_id s\<rparr> else z);
           z = (if y_new_ticket s \<noteq> [] then z\<lparr>z_ticket := y_new_ticket s\<rparr> else z) in
       s\<lparr>y_session := z, y_new_ticket := []\<rparr>
     else s)"

text \<open>At the end the transmit process of every connection of the session is resumed, this one's included.\<close>

definition tls_new_finished :: "'c hs_env \<Rightarrow> bytes \<Rightarrow> 'c tls_hs \<Rightarrow> (rc \<times> 'c tls_hs) option" where
  "tls_new_finished E msg s =
    (if \<not> (dg_size (y_digest s) \<noteq> 0 \<and> y_keyed s \<and> y_bound s \<noteq> None) then Some (Err EINVAL_FINISHED, s)
     else if length msg \<noteq> 12 then Some (Err EINVAL_FINISHED, s)
     else do {
       verify \<leftarrow> tls_prf_label E 12 ''server finished'' [tls_verify_handshake s] s;
       let s = s\<lparr>y_verify_server := verify\<rparr> in
       Some (if verify \<noteq> msg then (Err EPERM_VERIFY, s)
             else
               let s = upd_conn (v_server_negotiation_update (\<lambda>_. False)) s;
                   s = (if v_client_negotiation (y_conn s)
                        then upd_conn (\<lambda>v. v\<lparr>v_tx_pending := v_tx_pending v OR TLS_TX_CHANGE_CIPHER OR TLS_TX_FINISHED, v_process := True\<rparr>) s else s) in
               (OK, upd_conn (v_process_update (\<lambda>_. True)) (record_session E s))) })"

end
