(* ===== verification/Tls12_Props.thy ===== *)
theory Tls12_Props
  imports Tls12_Record
begin

text \<open>
  Transmission of TLS 1.2 records. The routine that builds records in the space in front of the plaintext is equal to a
  reference that puts each record together from its parts, for every number of records.
\<close>

section \<open>Padding\<close>

lemma mask_neg_Suc: "unat ((mask k AND - (of_nat n + 1)) + 1 :: u64) = 2 ^ k - n mod 2 ^ k" if "k < 64"
proof -
  have "(- (of_nat n + 1) :: u64) = NOT (of_nat n)"
    by (simp add: not_eq_complement)
  then have *: "(mask k AND - (of_nat n + 1) :: u64) = mask k - take_bit k (of_nat n)"
    by (metis and.commute take_bit_eq_mask take_bit_not_eq_mask_diff)
  have le: "n mod 2 ^ k \<le> 2 ^ k - 1"
    using mod_less_divisor [of "2 ^ k" n] by (metis Suc_pred' less_Suc_eq_le zero_less_numeral zero_less_power)
  have t: "unat (take_bit k (of_nat n) :: u64) = n mod 2 ^ k"
    using that by (simp add: unsigned_take_bit_eq unsigned_of_nat) (simp add: take_bit_eq_mod)
  have m: "unat (mask k :: u64) = 2 ^ k - 1"
  proof -
    have "unat (of_nat (mask k) :: u64) = take_bit 64 (mask k)" by (simp only: unsigned_of_nat, simp)
    also have "\<dots> = 2 ^ k - 1" using that by (simp only: take_bit_of_mask min_absorb2) (simp add: min_def mask_eq_exp_minus_1)
    finally show ?thesis by (simp only: of_nat_mask_eq)
  qed
  have d: "unat (mask k - take_bit k (of_nat n) :: u64) = 2 ^ k - 1 - n mod 2 ^ k"
    using le by (simp add: unat_sub word_le_nat_alt t m)
  have "(2::nat) ^ k \<le> 2 ^ 63" using that by (intro power_increasing) auto
  then have lt: "2 ^ k - n mod 2 ^ k < 2 ^ 64" by simp
  have "unat ((mask k AND - (of_nat n + 1)) + 1 :: u64) = (unat (mask k AND - (of_nat n + 1) :: u64) + 1) mod 2 ^ 64"
    by (simp only: unat_word_ariths) simp
  also have "\<dots> = (2 ^ k - n mod 2 ^ k) mod 2 ^ 64"
    using le by (simp only: * d) (simp add: Suc_diff_Suc)
  finally show ?thesis using lt by (simp only: mod_less)
qed

lemma padding_len_eq: "k < 64 \<Longrightarrow> padding_len (2 ^ k) n = 2 ^ k - n mod 2 ^ k"
  using mask_neg_Suc [of k n] by (simp add: padding_len_def mask_eq_exp_minus_1)

lemma padding_len_bounds: "k < 64 \<Longrightarrow> 1 \<le> padding_len (2 ^ k) n \<and> padding_len (2 ^ k) n \<le> 2 ^ k"
  by (simp add: padding_len_eq Suc_leI)

section \<open>The reference\<close>

text \<open>What a cipher suite promises: it takes every initialisation vector, encryption keeps the length of whole blocks, tag, MAC and
  key material have the lengths the suite states, and the block size is a power of two.\<close>

definition whole :: "'c cipher_algorithm \<Rightarrow> bytes \<Rightarrow> bool" where
  "whole cipher xs \<longleftrightarrow> (ca_is_block cipher \<longrightarrow> ca_blocksize cipher dvd length xs)"

definition suite_ok :: "'c tls12_env \<Rightarrow> 'c tls_cipher_suite \<Rightarrow> bool" where
  "suite_ok E suite \<longleftrightarrow>
    (\<forall>c iv. fst (ca_setiv (su_cipher suite) c iv) = OK) \<and>
    (\<forall>c xs. whole (su_cipher suite) xs \<longrightarrow> length (fst (ca_encrypt (su_cipher suite) c xs)) = length xs) \<and>
    (\<forall>c. length (ca_auth (su_cipher suite) c) = ca_authsize (su_cipher suite)) \<and>
    (\<forall>key xs. su_mac_len suite \<le> length (su_hmac suite key xs)) \<and>
    (\<forall>key info n. length (w_hkdf E key info n) = n) \<and>
    (\<exists>k < 64. ca_blocksize (su_cipher suite) = 2 ^ k)"

definition padding :: "'c cipher_algorithm \<Rightarrow> nat \<Rightarrow> bytes" where
  "padding cipher n =
    (if ca_is_block cipher then let p = ca_blocksize cipher - n mod ca_blocksize cipher in replicate p (of_nat (p - 1)) else [])"

text \<open>The parts of one record with the data: additional data, initialisation vector, MAC, what is encrypted, the context it is
  encrypted in, and the encryption with the context after it.\<close>

definition seal_auth :: "nat \<Rightarrow> bytes \<Rightarrow> 'c tls12 \<Rightarrow> bytes" where
  "seal_auth type data s = auth_header (v_tx_seq s) (tls12_header type (v_version s) (length data))"

definition seal_iv :: "'c tls12_env \<Rightarrow> nat \<Rightarrow> bytes \<Rightarrow> 'c tls12 \<Rightarrow> bytes" where
  "seal_iv E type data s = tls_ephemeral E (seal_auth type data s) (su_record_iv_len (sp_suite (v_tx s))) s"

definition seal_mac :: "nat \<Rightarrow> bytes \<Rightarrow> 'c tls12 \<Rightarrow> bytes" where
  "seal_mac type data s = take (su_mac_len (sp_suite (v_tx s))) (tls_hmac (v_tx s) (seal_auth type data s) data)"

definition seal_pad :: "bytes \<Rightarrow> 'c tls12 \<Rightarrow> bytes" where
  "seal_pad data s = padding (su_cipher (sp_suite (v_tx s))) (length data + su_mac_len (sp_suite (v_tx s)))"

definition seal_start :: "'c tls12_env \<Rightarrow> nat \<Rightarrow> bytes \<Rightarrow> 'c tls12 \<Rightarrow> 'c" where
  "seal_start E type data s = snd (ca_setiv (su_cipher (sp_suite (v_tx s))) (sp_ctx (v_tx s)) (sp_fixed_iv (v_tx s) @ seal_iv E type data s))"

definition seal_ctx :: "'c cipher_algorithm \<Rightarrow> bytes \<Rightarrow> 'c \<Rightarrow> 'c" where
  "seal_ctx cipher authhdr c = (if ca_is_auth cipher then ca_aad_encrypt cipher c authhdr else c)"

definition seal_ct :: "'c tls12_env \<Rightarrow> nat \<Rightarrow> bytes \<Rightarrow> 'c tls12 \<Rightarrow> bytes \<times> 'c" where
  "seal_ct E type data s =
    (let cipher = su_cipher (sp_suite (v_tx s)) in
     ca_encrypt cipher (seal_ctx cipher (seal_auth type data s) (seal_start E type data s)) (data @ seal_mac type data s @ seal_pad data s))"

definition seal :: "'c tls12_env \<Rightarrow> nat \<Rightarrow> bytes \<Rightarrow> 'c tls12 \<Rightarrow> bytes \<times> 'c tls12" where
  "seal E type data s =
    (let iv = seal_iv E type data s; (ct, ctx) = seal_ct E type data s; tag = ca_auth (su_cipher (sp_suite (v_tx s))) ctx in
     (tls12_header type (v_version s) (length iv + length ct + length tag) @ iv @ ct @ tag,
      s\<lparr>v_tx := (v_tx s)\<lparr>sp_ctx := ctx\<rparr>, v_tx_seq := v_tx_seq s + 1\<rparr>))"

fun seal_all :: "'c tls12_env \<Rightarrow> nat \<Rightarrow> bytes \<Rightarrow> 'c tls12 \<Rightarrow> bytes \<times> 'c tls12" where
  "seal_all E type data s =
    (let (rec, s) = seal E type (take TLS_TX_BUFSIZE data) s in
     if length data \<le> TLS_TX_BUFSIZE then (rec, s)
     else let (recs, s) = seal_all E type (drop TLS_TX_BUFSIZE data) s in (rec @ recs, s))"

declare seal_all.simps [simp del]

lemma length_tls12_header [simp]: "length (tls12_header type ver n) = 5"
  by (simp add: tls12_header_def)

lemma put_at_over:
  "length ys = length zs \<Longrightarrow> off + length xs + length ys \<le> length buf \<Longrightarrow>
   put_at (off + length xs) zs (put_at off (xs @ ys) buf) = put_at off (xs @ zs) buf"
  by (simp add: put_at_def ac_simps)

lemma drop_put_at: "off + length bs \<le> m \<Longrightarrow> off \<le> length buf \<Longrightarrow> drop m (put_at off bs buf) = drop m buf"
  by (simp add: put_at_def)

lemma get_at_put_within:
  "off + length xs + length ys \<le> length buf \<Longrightarrow>
   get_at (off + length xs) (length ys) (put_at off (xs @ ys) buf) = ys"
  by (simp add: put_at_def get_at_def)

lemma fill_block: "b dvd n + b - n mod b" for n b :: nat
proof -
  have "n = b * (n div b) + n mod b" by simp
  then have "n + b - n mod b = b * (n div b) + b" by linarith
  then show ?thesis by simp
qed

lemma whole_padding: "length xs = n \<Longrightarrow> 0 < ca_blocksize cipher \<Longrightarrow> whole cipher (xs @ padding cipher n)"
  by (simp add: whole_def padding_def Let_def fill_block)

lemma padding_replicate:
  assumes "suite_ok E suite"
  shows "(if ca_is_block (su_cipher suite) then padding_len (ca_blocksize (su_cipher suite)) n else 0) = length (padding (su_cipher suite) n)"
    and "replicate (length (padding (su_cipher suite) n)) (of_nat (length (padding (su_cipher suite) n) - 1)) = padding (su_cipher suite) n"
    and "length (padding (su_cipher suite) n) \<le> (if ca_is_block (su_cipher suite) then ca_blocksize (su_cipher suite) else 0)"
  using assms by (auto simp: suite_ok_def padding_def padding_len_eq Let_def)

section \<open>Records in place\<close>

text \<open>What one record adds to its data at most.\<close>

definition overhead :: "'c tls_cipher_suite \<Rightarrow> nat" where
  "overhead suite = 5 + su_record_iv_len suite + su_mac_len suite +
     (if ca_is_block (su_cipher suite) then ca_blocksize (su_cipher suite) else 0) + ca_authsize (su_cipher suite)"

text \<open>The writes of one round put the parts of the record next to each other, although the plaintext lies in the same buffer.\<close>

lemma lay_out_record:
  assumes "lay_out t hdr iv pt (length data) mac pad buf = (src, buf')" and "length hdr = 5" "t + 5 + length iv \<le> pt"
    and "pt + length data \<le> length buf" "get_at pt (length data) buf = data" "length ct = length data + length mac + length pad"
    and "t + 5 + length iv + length ct + length tag \<le> length buf"
  shows "get_at src (length ct) buf' = data @ mac @ pad"
    and "put_at (t + 5 + length iv + length ct) tag (put_at (t + 5 + length iv) ct buf') = put_at t (hdr @ iv @ ct @ tag) buf"
proof -
  have b1: "put_at (t + 5) iv (put_at t hdr buf) = put_at t (hdr @ iv) buf"
    using assms(2-4) put_at_append [of t hdr iv buf] by simp
  have get: "get_at pt (length data) (put_at t (hdr @ iv) buf) = data"
    using assms(2-5) by (subst get_put_after) simp_all
  have join: "put_at (t + 5 + length iv + length data + length mac) pad (put_at (t + 5 + length iv + length data) mac
      (put_at (t + 5 + length iv) data (put_at t (hdr @ iv) buf))) = put_at t ((hdr @ iv) @ data @ mac @ pad) buf"
    using assms(2,6,7) by (simp add: put_at_def ac_simps)
  note lay = assms(1) [unfolded lay_out_def Let_def b1 get]
  show "get_at src (length ct) buf' = data @ mac @ pad"
    using lay get join assms(2,6,7) get_at_put_within [of t "hdr @ iv" "data @ mac @ pad" buf]
    by (auto split: if_splits simp: add.assoc)
  show "put_at (t + 5 + length iv + length ct) tag (put_at (t + 5 + length iv) ct buf') = put_at t (hdr @ iv @ ct @ tag) buf"
    using lay join assms(2,6,7) by (auto split: if_splits) (simp_all add: put_at_def ac_simps)
qed

lemma seal_part_facts:
  assumes ok: "suite_ok E (sp_suite (v_tx s))"
  shows length_seal_iv: "length (seal_iv E type data s) = su_record_iv_len (sp_suite (v_tx s))"
    and length_seal_mac: "length (seal_mac type data s) = su_mac_len (sp_suite (v_tx s))"
    and length_seal_pad: "length (seal_pad data s) \<le> (if ca_is_block (su_cipher (sp_suite (v_tx s))) then ca_blocksize (su_cipher (sp_suite (v_tx s))) else 0)"
    and length_seal_ct: "length (fst (seal_ct E type data s)) = length data + length (seal_mac type data s) + length (seal_pad data s)"
    and length_seal_tag: "length (ca_auth (su_cipher (sp_suite (v_tx s))) c) = ca_authsize (su_cipher (sp_suite (v_tx s)))"
    and seal_setiv: "ca_setiv (su_cipher (sp_suite (v_tx s))) (sp_ctx (v_tx s)) (sp_fixed_iv (v_tx s) @ seal_iv E type data s) = (OK, seal_start E type data s)"
proof -
  let ?cipher = "su_cipher (sp_suite (v_tx s))"
  show "length (seal_iv E type data s) = su_record_iv_len (sp_suite (v_tx s))"
    using ok by (simp add: suite_ok_def seal_iv_def tls_ephemeral_def)
  show mac: "length (seal_mac type data s) = su_mac_len (sp_suite (v_tx s))"
    using ok by (simp add: suite_ok_def seal_mac_def tls_hmac_def min_absorb2)
  show "length (seal_pad data s) \<le> (if ca_is_block ?cipher then ca_blocksize ?cipher else 0)"
    using padding_replicate(3) [OF ok] by (simp only: seal_pad_def)
  have "0 < ca_blocksize ?cipher" using ok by (auto simp: suite_ok_def)
  then have "whole ?cipher (data @ seal_mac type data s @ seal_pad data s)"
    using whole_padding [of "data @ seal_mac type data s" _ ?cipher] mac by (simp add: seal_pad_def)
  then show "length (fst (seal_ct E type data s)) = length data + length (seal_mac type data s) + length (seal_pad data s)"
    using ok by (simp add: suite_ok_def seal_ct_def Let_def)
  show "length (ca_auth ?cipher c) = ca_authsize ?cipher" using ok by (simp add: suite_ok_def)
  show "ca_setiv ?cipher (sp_ctx (v_tx s)) (sp_fixed_iv (v_tx s) @ seal_iv E type data s) = (OK, seal_start E type data s)"
    using ok by (simp add: suite_ok_def seal_start_def prod_eq_iff)
qed

lemmas seal_lengths = length_seal_iv length_seal_mac length_seal_ct length_seal_tag

lemma seal_keeps:
  assumes "seal E type data s = (rec, s')"
  shows "sp_suite (v_tx s') = sp_suite (v_tx s)" "v_version s' = v_version s" "v_clk s' = v_clk s" "v_wire s' = v_wire s" "v_tx_seq s' = v_tx_seq s + 1"
  using assms by (auto simp: seal_def Let_def split_beta)

lemma length_seal:
  assumes "suite_ok E (sp_suite (v_tx s))" "seal E type data s = (rec, s')"
  shows "length rec \<le> overhead (sp_suite (v_tx s)) + length data"
  using assms length_seal_pad [OF assms(1), of data]
  by (auto simp: seal_def Let_def split_beta overhead_def seal_lengths [OF assms(1)] split: if_splits)

lemma construct_record_seal:
  assumes ok: "suite_ok E (sp_suite (v_tx s))"
    and room: "tail + overhead (sp_suite (v_tx s)) \<le> pt" "pt + length data \<le> length buf"
    and data: "get_at pt (length data) buf = data"
    and seal: "seal E type data s = (rec, s')"
  shows "construct_record E type buf tail pt (length data) s = (OK, (put_at tail rec buf, tail + length rec), s')"
proof -
  let ?suite = "sp_suite (v_tx s)" and ?cipher = "su_cipher (sp_suite (v_tx s))" and ?n = "length data"
  define iv mac pad where parts: "iv = seal_iv E type data s" "mac = seal_mac type data s" "pad = seal_pad data s"
  obtain ct c3 where ct: "seal_ct E type data s = (ct, c3)" by fastforce
  define tag where "tag = ca_auth ?cipher c3"
  define hdr where "hdr = tls12_header type (v_version s) (length iv + length ct + length tag)"
  note lens = length_seal_iv [OF ok, of type data, symmetric, folded parts] length_seal_mac [OF ok, of type data, symmetric, folded parts]
    length_seal_ct [OF ok, of type data, symmetric, folded parts] length_seal_tag [OF ok]
    and pad_le = length_seal_pad [OF ok, of data, folded parts]
  have ct_len: "?n + length mac + length pad = length ct"
    using lens(3) by (simp add: ct)
  have tag_len: "ca_authsize ?cipher = length tag" by (simp add: tag_def lens)
  have pads: "(if ca_is_block ?cipher then padding_len (ca_blocksize ?cipher) (?n + length mac) else 0) = length pad"
    "replicate (length pad) (of_nat (length pad - 1)) = pad"
    using padding_replicate [OF ok, of "?n + su_mac_len ?suite"] by (simp_all only: parts(3) seal_pad_def lens)
  have rec: "rec = hdr @ iv @ ct @ tag" and s': "s' = s\<lparr>v_tx := (v_tx s)\<lparr>sp_ctx := c3\<rparr>, v_tx_seq := v_tx_seq s + 1\<rparr>"
    using seal by (simp_all add: seal_def ct hdr_def tag_def parts Let_def)
  have fits: "\<not> (length buf < tail + 5 + length iv + length ct + length tag \<or> length buf < pt + ?n \<or> pt < tail + 5 + length iv)"
    using room pad_le by (simp add: overhead_def lens(1,2) tag_len flip: ct_len split: if_splits)
  obtain src buf' where lay: "lay_out tail hdr iv pt ?n mac pad buf = (src, buf')" by fastforce
  have out: "get_at src (length ct) buf' = data @ mac @ pad"
    "put_at (tail + 5 + length iv + length ct) tag (put_at (tail + 5 + length iv) ct buf') = put_at tail rec buf"
    using lay_out_record [OF lay _ _ _ data ct_len [symmetric], of tag] fits by (simp_all add: rec hdr_def not_less)
  have names: "tls_ephemeral E (seal_auth type data s) (length iv) s = iv" "take (length mac) (tls_hmac (v_tx s) (seal_auth type data s) data) = mac"
    using parts lens(1,2) by (simp_all add: seal_iv_def seal_mac_def)
  show ?thesis
    unfolding construct_record_def Let_def
    by (simp add: seal_auth_def [symmetric] names seal_setiv [OF ok, of type data, folded parts] data lens(1,2) pads(1) pads(2) [unfolded One_nat_def]
        ct_len tag_len fits hdr_def [symmetric] lay out(1) ct [unfolded seal_ct_def Let_def seal_ctx_def, folded parts] tag_def [symmetric]
        out(2) s' [symmetric] split del: if_split cong: if_cong)
      (simp add: rec hdr_def)
qed

definition record_count :: "nat \<Rightarrow> nat" where
  "record_count len = (if len \<noteq> 0 then (len + TLS_TX_BUFSIZE - 1) div TLS_TX_BUFSIZE else 1)"

lemma record_count_step: "TLS_TX_BUFSIZE < len \<Longrightarrow> record_count len = Suc (record_count (len - TLS_TX_BUFSIZE))"
  by (simp add: record_count_def)

lemma record_count_pos: "1 \<le> record_count len"
  by (simp add: record_count_def Suc_le_eq div_greater_zero_iff)

lemma tls_iob_reserved_eq: "tls_iob_reserved s len = record_count len * overhead (sp_suite (v_tx s))"
  by (simp add: tls_iob_reserved_def record_count_def overhead_def Let_def)

lemma construct_records_seal:
  assumes "suite_ok E (sp_suite (v_tx s))" "tail + record_count (length data) * overhead (sp_suite (v_tx s)) \<le> pt"
    and "length buf = pt + length data" "drop pt buf = data" "seal_all E type data s = (recs, s')"
  shows "\<exists>buf'. construct_records E type buf tail pt (length data) s = (OK, (buf', tail + length recs), s') \<and>
           take (tail + length recs) buf' = take tail buf @ recs"
  using assms
proof (induction E type data s arbitrary: buf tail pt recs rule: seal_all.induct)
  case (1 E type data s)
  let ?n = "min (length data) TLS_TX_BUFSIZE" and ?o = "overhead (sp_suite (v_tx s))"
  obtain rec s1 where seal: "seal E type (take TLS_TX_BUFSIZE data) s = (rec, s1)" by fastforce
  note shape = length_seal [OF "1.prems"(1) seal] seal_keeps [OF seal]
  have chunk: "get_at pt ?n buf = take TLS_TX_BUFSIZE data"
    using "1.prems"(4) by (simp add: get_at_def min_def)
  have "?o \<le> record_count (length data) * ?o" using record_count_pos [of "length data"] by simp
  then have room: "tail + ?o \<le> pt" using "1.prems"(2) by linarith
  have one: "construct_record E type buf tail pt ?n s = (OK, (put_at tail rec buf, tail + length rec), s1)"
    using construct_record_seal [OF "1.prems"(1) room _ _ seal, of buf] "1.prems"(3) chunk by (simp add: min.commute)
  have inside: "tail + length rec \<le> pt + ?n" using room shape(1) by simp
  show ?case
  proof (cases "length data \<le> TLS_TX_BUFSIZE")
    case True
    then show ?thesis
      using "1.prems" seal one by (auto simp: seal_all.simps [of _ _ data] construct_records.simps [of _ _ _ _ _ "length data"] put_at_def)
  next
    case False
    then have n: "?n = TLS_TX_BUFSIZE" by simp
    obtain recs2 where all: "seal_all E type (drop TLS_TX_BUFSIZE data) s1 = (recs2, s')" "recs = rec @ recs2"
      using "1.prems"(5) seal False by (auto simp: seal_all.simps [of _ _ data] split_beta prod_eq_iff Let_def)
    have "\<exists>buf'. construct_records E type (put_at tail rec buf) (tail + length rec) (pt + TLS_TX_BUFSIZE) (length (drop TLS_TX_BUFSIZE data)) s1 =
        (OK, (buf', tail + length rec + length recs2), s') \<and> take (tail + length rec + length recs2) buf' = take (tail + length rec) (put_at tail rec buf) @ recs2"
    proof (rule "1.IH" [OF seal [symmetric] refl False])
      show "suite_ok E (sp_suite (v_tx s1))" using "1.prems"(1) shape(2) by simp
      show "tail + length rec + record_count (length (drop TLS_TX_BUFSIZE data)) * overhead (sp_suite (v_tx s1)) \<le> pt + TLS_TX_BUFSIZE"
        using "1.prems"(2) shape(1,2) False record_count_step [of "length data"] by simp
      show "length (put_at tail rec buf) = pt + TLS_TX_BUFSIZE + length (drop TLS_TX_BUFSIZE data)"
        using inside "1.prems"(3) False by simp
      show "drop (pt + TLS_TX_BUFSIZE) (put_at tail rec buf) = drop TLS_TX_BUFSIZE data"
      proof -
        have "drop (pt + TLS_TX_BUFSIZE) (put_at tail rec buf) = drop (pt + TLS_TX_BUFSIZE) buf"
          using inside n room "1.prems"(3) by (intro drop_put_at) simp_all
        also have "\<dots> = drop TLS_TX_BUFSIZE (drop pt buf)" by (simp add: add.commute)
        finally show ?thesis by (simp only: "1.prems"(4))
      qed
    qed (rule all)
    then show ?thesis
      using False all one n room "1.prems"(3) by (simp add: construct_records.simps [of _ _ _ _ _ "length data"] put_at_def add.assoc)
  qed
qed

definition hashed :: "nat \<Rightarrow> bytes \<Rightarrow> 'c tls12 \<Rightarrow> 'c tls12" where
  "hashed type data s = (if type = TLS_TYPE_HANDSHAKE then tls_add_handshake data s else s)"

lemma hashed_sel [simp]: "v_tx (hashed type data s) = v_tx s" "v_clk (hashed type data s) = v_clk s" "v_wire (hashed type data s) = v_wire s"
  by (simp_all add: hashed_def tls_add_handshake_def)

lemma send_record_seal:
  assumes "suite_ok E (sp_suite (v_tx s))" "off \<le> length buf" "tls_iob_reserved s (length buf - off) \<le> off"
  shows "tls_send_record E type buf off s =
    (case seal_all E type (drop off buf) (hashed type (drop off buf) s) of (recs, s') \<Rightarrow>
       (w_cipher_deliver E (v_clk s'), (v_tick s')\<lparr>v_wire := v_wire s' @ [recs]\<rparr>))"
proof -
  let ?len = "length buf - off"
  define s0 where "s0 = hashed type (drop off buf) s"
  have same: "v_tx s0 = v_tx s" by (simp add: s0_def)
  define r where "r = tls_iob_reserved s0 ?len"
  have r: "r \<le> off" "r = record_count (length (drop off buf)) * overhead (sp_suite (v_tx s0))"
    using assms(3) by (simp_all add: r_def tls_iob_reserved_eq same)
  obtain recs s' where all: "seal_all E type (drop off buf) s0 = (recs, s')" by fastforce
  obtain buf' where "construct_records E type (drop (off - r) buf) 0 r (length (drop off buf)) s0 = (OK, (buf', 0 + length recs), s')"
    "take (0 + length recs) buf' = take 0 (drop (off - r) buf) @ recs"
    using construct_records_seal [OF _ _ _ _ all, of 0 r "drop (off - r) buf"] assms(1,2) r by (auto simp: same add.commute)
  then show ?thesis
    using r(1) all by (simp add: tls_send_record_def Let_def flip: hashed_def s0_def r_def)
qed

lemma send_plaintext_seal:
  assumes "suite_ok E (sp_suite (v_tx s))"
  shows "tls_send_plaintext E type data s =
    (if \<not> w_alloc E (v_clk s) (tls_iob_reserved s (length data) + length data) then (Err ENOMEM_TX_PLAINTEXT, v_tick s)
     else case seal_all E type data (hashed type data (v_tick s)) of (recs, s') \<Rightarrow>
       (w_cipher_deliver E (v_clk s'), (v_tick s')\<lparr>v_wire := v_wire s' @ [recs]\<rparr>))"
proof -
  have tick: "tls_iob_reserved (v_tick s) n = tls_iob_reserved s n" "v_tx (v_tick s) = v_tx s" for n
    by (simp_all add: tls_iob_reserved_def v_tick_def)
  let ?r = "tls_iob_reserved s (length data)"
  have "tls_send_record E type (replicate ?r 0 @ data) ?r (v_tick s) =
    (case seal_all E type data (hashed type data (v_tick s)) of (recs, s') \<Rightarrow>
       (w_cipher_deliver E (v_clk s'), (v_tick s')\<lparr>v_wire := v_wire s' @ [recs]\<rparr>))"
    using send_record_seal [of E "v_tick s" ?r "replicate ?r 0 @ data" type] assms by (simp add: tick)
  then show ?thesis by (simp add: tls_send_plaintext_def tls_alloc_iob_def Let_def)
qed

lemma seal_all_keeps:
  "seal_all E type data s = (recs, s') \<Longrightarrow>
   v_wire s' = v_wire s \<and> v_clk s' = v_clk s \<and> v_tx_seq s' = v_tx_seq s + of_nat (record_count (length data))"
proof (induction E type data s arbitrary: recs rule: seal_all.induct)
  case (1 E type data s)
  obtain rec s1 where seal: "seal E type (take TLS_TX_BUFSIZE data) s = (rec, s1)" by fastforce
  show ?case
  proof (cases "length data \<le> TLS_TX_BUFSIZE")
    case True
    then have "record_count (length data) = 1" by (cases data) (simp_all add: record_count_def)
    then show ?thesis using "1.prems" seal seal_keeps [OF seal] True by (simp add: seal_all.simps [of _ _ data])
  next
    case False
    obtain recs2 where "seal_all E type (drop TLS_TX_BUFSIZE data) s1 = (recs2, s')"
      using "1.prems" seal False by (auto simp: seal_all.simps [of _ _ data] split_beta prod_eq_iff Let_def)
    from "1.IH" [OF seal [symmetric] refl False this] show ?thesis
      using False record_count_step [of "length data"] by (simp add: seal_keeps [OF seal] ac_simps)
  qed
qed

section \<open>Properties\<close>

text \<open>A suite with a block cipher that adds its context to each byte, with blocks of four bytes, an initialisation vector of
  two bytes and a MAC of three bytes.\<close>

definition demo_digest :: digest_algorithm where
  "demo_digest = \<lparr>dg_size = 3, dg_ctxsize = 8, dg_keysize = 64, dg_hash = (\<lambda>xs. [sum_list xs, of_nat (length xs), 1]), dg_key = resize 64,
     dg_hmac = (\<lambda>key xs. [sum_list key, sum_list xs, of_nat (length xs)])\<rparr>"

definition demo_suite :: "byte tls_cipher_suite" where
  "demo_suite = \<lparr>su_null = False,
     su_cipher = \<lparr>ca_blocksize = 4, ca_alignsize = 4, ca_authsize = 0, ca_is_block = True, ca_is_auth = False,
       ca_ctxsize = 1, ca_ctx0 = 0, ca_setkey = (\<lambda>c key. (OK, 0)), ca_setiv = (\<lambda>c iv. (OK, sum_list iv)), ca_encrypt = (\<lambda>c xs. (map ((+) c) xs, c)), ca_decrypt = (\<lambda>c xs. (map (\<lambda>x. x - c) xs, c)),
       ca_aad_encrypt = (\<lambda>c xs. c + last xs), ca_aad_decrypt = (\<lambda>c xs. c + last xs), ca_auth = (\<lambda>c. [])\<rparr>,
     su_hmac = (\<lambda>key xs. [sum_list key, sum_list xs, of_nat (length xs), 0]), su_handshake = demo_digest, su_code = 0xc027, su_key_len = 2,
     su_fixed_iv_len = 1, su_record_iv_len = 2, su_mac_len = 3\<rparr>"

definition demo_spec :: "byte tls_cipherspec" where
  "demo_spec = \<lparr>sp_suite = demo_suite, sp_ctx = 0, sp_mac_secret = [1, 2, 3], sp_fixed_iv = [9]\<rparr>"

definition demo_tls12 :: "byte tls12" where
  "demo_tls12 = \<lparr>v_version = 0x0303, v_tx = demo_spec, v_next_tx = demo_spec, v_tx_seq = 7, v_tx_pending = 0, v_rx = demo_spec, v_next_rx = demo_spec,
     v_rx_seq = 7, v_state = TLS_RX_HEADER, v_header = [], v_data = [], v_handshake = None, v_client_negotiation = False,
     v_server_negotiation = False, v_validation = False, v_secure_renegotiation = False, v_extended_master_secret = False, v_ephemeral = [5],
     v_client_random = [], v_transcript = [], v_process = False, v_closed = None, v_wire = [], v_plain = [], v_clk = 0\<rparr>"

definition demo_tls12_env :: "byte tls12_env" where
  "demo_tls12_env = \<lparr>w_hkdf = (\<lambda>key info n. replicate n (hd key)), w_alloc = (\<lambda>_ _. True), w_cipher_deliver = (\<lambda>_. OK), w_plain_deliver = (\<lambda>_. OK),
     w_cipher_window = (\<lambda>_. 0), w_plain_window = (\<lambda>_. 0), w_message = (\<lambda>_ _ s. (OK, s)), w_null_spec = demo_spec\<rparr>"

lemma demo_suite_ok: "suite_ok demo_tls12_env demo_suite"
proof -
  have "\<exists>k < 64. (4 :: nat) = 2 ^ k" by (rule exI [of _ 2]) simp
  then show ?thesis by (simp add: suite_ok_def demo_suite_def demo_tls12_env_def)
qed

text \<open>C35: Sending data as TLS 1.2 records builds them in the buffer that holds the plaintext; for every length of the data
  and every suite that keeps its lengths the result is the concatenation of the reference records of at most 4096 bytes
  each: the reserved space is enough, no record overwrites plaintext that is not yet encrypted, and nothing is written outside
  the buffer. The sequence number grows by one for each record.\<close>

theorem send_record_reference:
  assumes "suite_ok E (sp_suite (v_tx s))" "off \<le> length buf" "tls_iob_reserved s (length buf - off) \<le> off"
  shows "\<exists>recs s'. seal_all E type (drop off buf) (hashed type (drop off buf) s) = (recs, s') \<and>
    tls_send_record E type buf off s = (w_cipher_deliver E (v_clk s), (v_tick s')\<lparr>v_wire := v_wire s @ [recs]\<rparr>) \<and>
    v_tx_seq s' = v_tx_seq s + of_nat (record_count (length buf - off))"
proof -
  obtain recs s' where all: "seal_all E type (drop off buf) (hashed type (drop off buf) s) = (recs, s')" by fastforce
  then show ?thesis
    using send_record_seal [OF assms, of type] seal_all_keeps [OF all] by (simp add: hashed_def tls_add_handshake_def)
qed

text \<open>Three bytes make one record of five bytes of header, two of initialisation vector and two blocks.\<close>

lemma send_record_reference_witness:
  "suite_ok demo_tls12_env (sp_suite (v_tx demo_tls12)) \<and> tls_iob_reserved demo_tls12 3 = 14 \<and>
   v_wire (snd (tls_send_record demo_tls12_env TLS_TYPE_DATA (replicate 14 0 @ [1, 2, 3]) 14 demo_tls12)) =
     [[23, 3, 3, 0, 10, 5, 5, 20, 21, 22, 25, 64, 35, 20, 20]]"
proof -
  have ok: "suite_ok demo_tls12_env (sp_suite (v_tx demo_tls12))"
    using demo_suite_ok by (simp add: demo_tls12_def demo_spec_def)
  have room: "tls_iob_reserved demo_tls12 3 = 14" by code_simp
  have recs: "fst (seal_all demo_tls12_env TLS_TYPE_DATA [1, 2, 3] demo_tls12) = [23, 3, 3, 0, 10, 5, 5, 20, 21, 22, 25, 64, 35, 20, 20]"
    by code_simp
  have wire: "v_wire demo_tls12 = []" by (simp add: demo_tls12_def)
  show ?thesis
    using send_record_reference [OF ok, of 14 "replicate 14 0 @ [1, 2, 3]" TLS_TYPE_DATA] ok room recs wire
    by (auto simp: hashed_def)
qed

end
