(* ===== verification/Tls12_Receive.thy ===== *)
theory Tls12_Receive
  imports Tls12_Props
begin

text \<open>
  Reception of TLS 1.2 records. A record that the peer sealed is spread over several buffers, decrypted buffer by buffer,
  and delivered with its padding, MAC and tag removed; together with transmission this is a round trip for data of
  any length. A record without payload is the case that the receive loop does not handle.
\<close>

section \<open>Buffers for a record\<close>

text \<open>The sizes of the buffers: all but the last are full, and the last is not short.\<close>

fun frags :: "nat \<Rightarrow> nat list" where
  "frags n = (if n = 0 then [] else if n < TLS_RX_BUFSIZE + TLS_RX_MIN_BUFSIZE then [n] else TLS_RX_BUFSIZE # frags (n - TLS_RX_BUFSIZE))"

declare frags.simps [simp del]

lemma frags_0 [simp]: "frags 0 = []"
  by (simp add: frags.simps)

definition empty_buffer :: "nat \<Rightarrow> rx_buffer" where
  "empty_buffer n = \<lparr>rb_size = n, rb_data = []\<rparr>"

lemma alloc_buffers_cases:
  assumes "\<And>clk n. w_alloc E clk n"
  shows alloc_none: "alloc_buffers E 0 r clk = (Some [], clk)"
    and alloc_last: "0 < n \<Longrightarrow> n < TLS_RX_BUFSIZE + TLS_RX_MIN_BUFSIZE \<Longrightarrow> alloc_buffers E n r clk = (Some [empty_buffer (n - r)], Suc clk)"
    and alloc_more: "TLS_RX_BUFSIZE + TLS_RX_MIN_BUFSIZE \<le> n \<Longrightarrow> alloc_buffers E n r clk =
      (case alloc_buffers E (n - TLS_RX_BUFSIZE) 0 (Suc clk) of
         (Some bs, clk) \<Rightarrow> (Some (empty_buffer (TLS_RX_BUFSIZE - r) # bs), clk) | (None, clk) \<Rightarrow> (None, clk))"
proof -
  show "alloc_buffers E 0 r clk = (Some [], clk)" for r clk by (simp add: alloc_buffers.simps)
  note none = this
  show "alloc_buffers E n r clk = (Some [empty_buffer (n - r)], Suc clk)" if "0 < n" "n < TLS_RX_BUFSIZE + TLS_RX_MIN_BUFSIZE"
    using that assms none by (simp add: alloc_buffers.simps [of E n] empty_buffer_def Let_def min_def)
  assume n: "TLS_RX_BUFSIZE + TLS_RX_MIN_BUFSIZE \<le> n"
  then have "\<not> n - TLS_RX_BUFSIZE < TLS_RX_MIN_BUFSIZE" by linarith
  with n show "alloc_buffers E n r clk = (case alloc_buffers E (n - TLS_RX_BUFSIZE) 0 (Suc clk) of
         (Some bs, clk) \<Rightarrow> (Some (empty_buffer (TLS_RX_BUFSIZE - r) # bs), clk) | (None, clk) \<Rightarrow> (None, clk))"
    using assms by (simp add: alloc_buffers.simps [of E n] empty_buffer_def Let_def split: prod.splits option.splits)
qed

lemma alloc_buffers_frags:
  assumes "\<And>clk n. w_alloc E clk n"
  shows "alloc_buffers E n 0 clk = (Some (map empty_buffer (frags n)), clk + length (frags n))"
proof (induction n arbitrary: clk rule: frags.induct)
  case (1 n)
  consider "n = 0" | "0 < n" "n < TLS_RX_BUFSIZE + TLS_RX_MIN_BUFSIZE" | "TLS_RX_BUFSIZE + TLS_RX_MIN_BUFSIZE \<le> n" by linarith
  then show ?case
    by cases (use 1 in \<open>simp_all add: alloc_none alloc_last alloc_more assms frags.simps [of n] del: One_nat_def\<close>)
qed

text \<open>The first buffer loses the bytes reserved for its alignment.\<close>

definition first_frags :: "nat \<Rightarrow> nat \<Rightarrow> nat list" where
  "first_frags r n = (case frags n of [] \<Rightarrow> [] | k # ks \<Rightarrow> (k - r) # ks)"

lemma alloc_buffers_first:
  assumes "\<And>clk n. w_alloc E clk n"
  shows "alloc_buffers E n r clk = (Some (map empty_buffer (first_frags r n)), clk + length (first_frags r n))"
proof -
  consider "n = 0" | "0 < n" "n < TLS_RX_BUFSIZE + TLS_RX_MIN_BUFSIZE" | "TLS_RX_BUFSIZE + TLS_RX_MIN_BUFSIZE \<le> n" by linarith
  then show ?thesis
    by cases (simp_all add: alloc_none alloc_last alloc_more alloc_buffers_frags assms first_frags_def frags.simps [of n])
qed

lemma sum_frags: "sum_list (frags n) = n"
proof (induction n rule: frags.induct)
  case (1 n)
  then show ?case by (cases "n = 0 \<or> n < TLS_RX_BUFSIZE + TLS_RX_MIN_BUFSIZE") (auto simp: frags.simps [of n])
qed

lemma last_frags: "TLS_RX_MIN_BUFSIZE \<le> n \<Longrightarrow> frags n \<noteq> [] \<and> TLS_RX_MIN_BUFSIZE \<le> last (frags n)"
proof (induction n rule: frags.induct)
  case (1 n)
  then show ?case by (cases "n < TLS_RX_BUFSIZE + TLS_RX_MIN_BUFSIZE") (auto simp: frags.simps [of n])
qed

lemma butlast_frags: "k \<in> set (butlast (frags n)) \<Longrightarrow> k = TLS_RX_BUFSIZE"
proof (induction n rule: frags.induct)
  case (1 n)
  then show ?case by (cases "n = 0 \<or> n < TLS_RX_BUFSIZE + TLS_RX_MIN_BUFSIZE") (auto simp: frags.simps [of n] split: if_splits)
qed

lemma frags_pos: "k \<in> set (frags n) \<Longrightarrow> 0 < k"
proof (induction n rule: frags.induct)
  case (1 n)
  then show ?case by (cases "n = 0 \<or> n < TLS_RX_BUFSIZE + TLS_RX_MIN_BUFSIZE") (auto simp: frags.simps [of n] split: if_splits)
qed

section \<open>Filling the buffers\<close>

abbreviation (input) "full_buffer d \<equiv> \<lparr>rb_size = length d, rb_data = d\<rparr>"

lemma tailroom_simps [simp]: "iob_tailroom (full_buffer d) = 0" "iob_tailroom (empty_buffer n) = n"
  by (simp_all add: iob_tailroom_def empty_buffer_def)

lemma deliver_step: "bs \<noteq> [] \<Longrightarrow> receive_step E bs s = (OK, bs', s') \<Longrightarrow> tls_cipherstream_deliver E bs s = tls_cipherstream_deliver E bs' s'"
  by (simp add: tls_cipherstream_deliver.simps [of E bs s])

lemma receive_fill:
  assumes "v_state s = TLS_RX_DATA" "v_data s = empty_buffer (length d) # rest"
  shows "receive_step E (d @ bs) s = (case tls_newdata_process_data E (s\<lparr>v_data := full_buffer d # rest\<rparr>) of (r, s) \<Rightarrow> (r, bs, s))"
  using assms by (simp add: receive_step_def iob_tailroom_def empty_buffer_def Let_def)

text \<open>Each buffer is filled and moved to the end of the list; after the last one the list is in order again and the record is processed.\<close>

lemma deliver_buffers_filled:
  assumes "v_state s = TLS_RX_DATA" "v_data s = map (empty_buffer \<circ> length) ds @ full_buffers prev" "ds \<noteq> []" "[] \<notin> set ds"
    and "tls_new_ciphertext E (s\<lparr>v_data := full_buffers (prev @ ds)\<rparr>) = (OK, s')"
  shows "tls_cipherstream_deliver E (concat ds @ bs) s =
    tls_cipherstream_deliver E bs (s'\<lparr>v_rx_seq := v_rx_seq s' + 1, v_state := TLS_RX_HEADER, v_header := []\<rparr>)"
  using assms
proof (induction ds arbitrary: prev s)
  case (Cons d ds)
  let ?s = "s\<lparr>v_data := map (empty_buffer \<circ> length) ds @ full_buffers (prev @ [d])\<rparr>"
  have d: "d \<noteq> []" using Cons.prems(4) by auto
  have step: "receive_step E (d @ concat ds @ bs) s = (case tls_newdata_process_data E (s\<lparr>v_data := full_buffer d # map (empty_buffer \<circ> length) ds @ full_buffers prev\<rparr>) of (r, s) \<Rightarrow> (r, concat ds @ bs, s))"
    using Cons.prems(1,2) by (intro receive_fill) simp_all
  show ?case
  proof (cases ds)
    case Nil
    have "\<exists>b bs. full_buffers (prev @ [d]) = b # bs \<and> iob_tailroom b = 0"
      by (cases prev) (simp_all add: full_buffers_def)
    then have "tls_newdata_process_data E (s\<lparr>v_data := full_buffer d # full_buffers prev\<rparr>) = (OK, s'\<lparr>v_rx_seq := v_rx_seq s' + 1, v_state := TLS_RX_HEADER, v_header := []\<rparr>)"
      using Cons.prems(5) Nil by (auto simp: tls_newdata_process_data_def full_buffers_def Let_def)
    with step Nil d show ?thesis by (simp add: deliver_step)
  next
    case (Cons e es)
    then have "e \<noteq> []" using Cons.prems(4) by auto
    then have "tls_newdata_process_data E (s\<lparr>v_data := full_buffer d # map (empty_buffer \<circ> length) ds @ full_buffers prev\<rparr>) = (OK, ?s)"
      using Cons by (simp add: tls_newdata_process_data_def full_buffers_def Let_def)
    with step d have "tls_cipherstream_deliver E (d @ concat ds @ bs) s = tls_cipherstream_deliver E (concat ds @ bs) ?s"
      by (simp add: deliver_step)
    also have "\<dots> = tls_cipherstream_deliver E bs (s'\<lparr>v_rx_seq := v_rx_seq s' + 1, v_state := TLS_RX_HEADER, v_header := []\<rparr>)"
    proof (rule Cons.IH)
      have "prev @ d # ds = (prev @ [d]) @ ds" by simp
      with Cons.prems(5) show "tls_new_ciphertext E (?s\<lparr>v_data := full_buffers ((prev @ [d]) @ ds)\<rparr>) = (OK, s')"
        by (simp del: append_assoc)
    qed (use Cons.prems Cons in auto)
    finally show ?thesis by simp
  qed
qed simp

section \<open>The receive loop returns\<close>

text \<open>Each round takes a byte, or moves on from a buffer that was full from the start.\<close>

definition rx_framed :: "'c tls12 \<Rightarrow> bool" where
  "rx_framed s \<longleftrightarrow> (v_state s = TLS_RX_HEADER \<longrightarrow> length (v_header s) < 5)"

definition rx_stalled :: "'c tls12 \<Rightarrow> bool" where
  "rx_stalled s \<longleftrightarrow> v_state s = TLS_RX_DATA \<and> (case v_data s of [] \<Rightarrow> False | b # _ \<Rightarrow> iob_tailroom b = 0)"

lemma process_data_framed:
  assumes "tls_newdata_process_data E s = (OK, s')" "v_state s = TLS_RX_DATA"
  shows "rx_framed s' \<and> \<not> rx_stalled s'"
  using assms by (auto simp: tls_newdata_process_data_def rx_framed_def rx_stalled_def then_ok_eq_OK Let_def split: list.splits if_splits)

lemma receive_step_progress:
  assumes "receive_step E bs s = (OK, bs', s')" "bs \<noteq> []" "rx_framed s"
  shows "rx_framed s' \<and> 2 * length bs' + of_bool (rx_stalled s') < 2 * length bs + of_bool (rx_stalled s)"
proof (cases "v_state s")
  case TLS_RX_HEADER
  then show ?thesis
    using assms by (auto simp: receive_step_def rx_framed_def rx_stalled_def tls_newdata_process_header_def Let_def split: if_splits prod.splits option.splits list.splits)
next
  case TLS_RX_DATA
  then obtain b rest where b: "v_data s = b # rest" using assms(1) by (cases "v_data s") (auto simp: receive_step_def)
  let ?n = "min (length bs) (iob_tailroom b)"
  let ?b = "b\<lparr>rb_data := rb_data b @ take ?n bs\<rparr>"
  have bs': "bs' = drop ?n bs"
    and step: "(if iob_tailroom ?b = 0 then tls_newdata_process_data E (s\<lparr>v_data := ?b # rest\<rparr>) else (OK, s\<lparr>v_data := ?b # rest\<rparr>)) = (OK, s')"
    using assms(1) TLS_RX_DATA b by (auto simp: receive_step_def Let_def split: prod.splits)
  show ?thesis
  proof (cases "iob_tailroom ?b = 0")
    case True
    then have "tls_newdata_process_data E (s\<lparr>v_data := ?b # rest\<rparr>) = (OK, s')" using step by simp
    from process_data_framed [OF this] have "rx_framed s' \<and> \<not> rx_stalled s'" using TLS_RX_DATA by simp
    moreover have "0 < ?n \<or> rx_stalled s" using assms(2) TLS_RX_DATA b by (auto simp: rx_stalled_def)
    ultimately show ?thesis using assms(2) by (auto simp: bs')
  next
    case False
    then have "s' = s\<lparr>v_data := ?b # rest\<rparr>" using step by simp
    moreover have "0 < iob_tailroom b" using False by (auto simp: iob_tailroom_def)
    ultimately show ?thesis using assms(2) False TLS_RX_DATA by (auto simp: bs' rx_framed_def rx_stalled_def)
  qed
qed

lemma receive_returns: "rx_framed s \<Longrightarrow> \<exists>y. tls_cipherstream_deliver E bs s = Some y"
proof (induction "2 * length bs + of_bool (rx_stalled s)" arbitrary: bs s rule: less_induct)
  case less
  obtain r bs' s' where step: "receive_step E bs s = (r, bs', s')" by (cases "receive_step E bs s") auto
  show ?case
  proof (cases "bs \<noteq> [] \<and> r = OK")
    case True
    then have "rx_framed s' \<and> 2 * length bs' + of_bool (rx_stalled s') < 2 * length bs + of_bool (rx_stalled s)"
      using receive_step_progress step less.prems by blast
    then have "\<exists>y. tls_cipherstream_deliver E bs' s' = Some y" using less.hyps by blast
    with True step show ?thesis by (simp add: deliver_step)
  next
    case False
    then show ?thesis using step by (subst tls_cipherstream_deliver.simps) (auto split: rc.split)
  qed
qed

section \<open>Decryption\<close>

text \<open>What a cipher suite promises to a receiver: decryption undoes encryption and leaves the same context, whole aligned
  pieces can be decrypted one after the other, and a cipher with a tag needs neither MAC nor padding. The sizes are those that the
  receive buffers are made for: the last 512 bytes of a record hold tag, MAC and padding, and the alignment divides the
  size of a buffer.\<close>

definition suite_inverse :: "'c tls_cipher_suite \<Rightarrow> bool" where
  "suite_inverse suite \<longleftrightarrow>
    (let cipher = su_cipher suite in
     (\<forall>c xs. whole cipher xs \<longrightarrow> ca_decrypt cipher c (fst (ca_encrypt cipher c xs)) = (xs, snd (ca_encrypt cipher c xs))) \<and>
     (\<forall>c xs. whole cipher xs \<longrightarrow> length (fst (ca_decrypt cipher c xs)) = length xs) \<and>
     (\<forall>c xs ys. whole cipher xs \<and> whole cipher ys \<and> ca_alignsize cipher dvd length xs \<longrightarrow>
        ca_decrypt cipher c (xs @ ys) = (let (as, c) = ca_decrypt cipher c xs; (bs, c) = ca_decrypt cipher c ys in (as @ bs, c))) \<and>
     (\<forall>c xs. ca_aad_decrypt cipher c xs = ca_aad_encrypt cipher c xs) \<and>
     (ca_is_auth cipher \<longrightarrow> \<not> ca_is_block cipher \<and> su_mac_len suite = 0) \<and>
     (ca_is_block cipher \<longrightarrow> ca_blocksize cipher dvd ca_alignsize cipher \<and> ca_blocksize cipher \<le> 256))"

definition suite_sizes :: "'c tls_cipher_suite \<Rightarrow> bool" where
  "suite_sizes suite \<longleftrightarrow>
    (let cipher = su_cipher suite in
     0 < su_mac_len suite + ca_authsize cipher \<and>
     su_mac_len suite + (if ca_is_block cipher then ca_blocksize cipher else 0) + ca_authsize cipher \<le> TLS_RX_MIN_BUFSIZE \<and>
     su_record_iv_len suite + ca_alignsize cipher \<le> TLS_RX_BUFSIZE \<and>
     (\<exists>a \<le> 12. ca_alignsize cipher = 2 ^ a))"

lemma whole_append: "whole cipher xs \<Longrightarrow> whole cipher (xs @ ys) \<longleftrightarrow> whole cipher ys"
  by (auto simp: whole_def dvd_add_right_iff)

lemma decrypt_buffers_concat:
  assumes "suite_inverse suite" "whole (su_cipher suite) (concat ds)" "\<And>d. d \<in> set (butlast ds) \<Longrightarrow> ca_alignsize (su_cipher suite) dvd length d" "ds \<noteq> []"
  shows "\<exists>ds'. decrypt_buffers (su_cipher suite) c ds = (ds', snd (ca_decrypt (su_cipher suite) c (concat ds))) \<and>
    concat ds' = fst (ca_decrypt (su_cipher suite) c (concat ds)) \<and> map length ds' = map length ds"
  using assms(2-4)
proof (induction ds arbitrary: c)
  case (Cons d ds)
  let ?cipher = "su_cipher suite"
  note inv = assms(1) [unfolded suite_inverse_def Let_def]
  show ?case
  proof (cases "ds = []")
    case True
    with Cons.prems inv show ?thesis by (simp add: split_beta Let_def)
  next
    case False
    have al: "ca_alignsize ?cipher dvd length d" using Cons.prems(2) False by simp
    then have d: "whole ?cipher d" using inv dvd_trans by (auto simp: whole_def)
    with Cons.prems(1) have ds: "whole ?cipher (concat ds)" by (simp add: whole_append)
    obtain e c1 where e: "ca_decrypt ?cipher c d = (e, c1)" by fastforce
    obtain es where es: "decrypt_buffers ?cipher c1 ds = (es, snd (ca_decrypt ?cipher c1 (concat ds)))"
      "concat es = fst (ca_decrypt ?cipher c1 (concat ds))" "map length es = map length ds"
      using Cons.IH [OF ds, of c1] Cons.prems(2) False by auto
    have "ca_decrypt ?cipher c (d @ concat ds) = (let (as, c) = ca_decrypt ?cipher c d; (bs, c) = ca_decrypt ?cipher c (concat ds) in (as @ bs, c))"
      unfolding Let_def using inv d ds al by blast
    moreover have "length e = length d" using inv d e by (metis fst_conv)
    ultimately show ?thesis using e es by (simp add: split_beta Let_def)
  qed
qed simp

lemma iob_unput_last_concat:
  assumes "ds \<noteq> []" "concat ds = xs @ ys" "length ys \<le> length (last ds)"
  shows "\<exists>l. iob_unput_last (length ys) ds = (butlast ds @ [l], ys) \<and> last ds = l @ ys \<and> concat (butlast ds @ [l]) = xs"
proof -
  have "concat (butlast ds @ [last ds]) = xs @ ys" using assms(1,2) by (simp del: concat_append)
  then have "concat (butlast ds) @ last ds = xs @ ys" by simp
  then obtain l where "last ds = l @ ys" "xs = concat (butlast ds) @ l"
    using assms(3) by (auto simp: append_eq_append_conv2)
  then show ?thesis by (intro exI [of _ l]) (simp add: iob_unput_last_def Let_def)
qed

lemma verify_padding_replicate:
  assumes "0 < p" "p \<le> 256"
  shows "tls_verify_padding (xs @ replicate p (of_nat (p - 1))) = Some p"
proof -
  obtain q where q: "p = Suc q" "q < 256" using assms by (cases p) auto
  then have "unat (of_nat q :: byte) = q" by (simp add: unat_of_nat)
  moreover have "set (get_at (length xs) q (xs @ of_nat q # replicate q (of_nat q :: byte))) \<subseteq> {of_nat q}"
    by (auto simp: get_at_def dest!: in_set_takeD)
  ultimately show ?thesis by (auto simp: tls_verify_padding_def Let_def q)
qed

lemma header_fields:
  assumes "type < 256"
  shows "take 3 (tls12_header type ver n) @ to_be 2 m = tls12_header type ver m"
    and "get_at 3 2 (tls12_header type ver n) = to_be 2 n" "unat (tls12_header type ver n ! 0) = type"
  using assms by (simp_all add: tls12_header_def get_at_def unat_of_nat)

lemma strip_padding:
  assumes ok: "suite_ok E (sp_suite (v_tx p))" and inv: "suite_inverse (sp_suite (v_tx p))"
    and ds: "ds \<noteq> []" "concat ds = xs @ seal_pad data p" "length (seal_pad data p) \<le> length (last ds)"
  defines "n \<equiv> (if ca_is_block (su_cipher (sp_suite (v_tx p))) then case tls_verify_padding (last ds) of None \<Rightarrow> 0 | Some n \<Rightarrow> n else 0)"
  shows "n = length (seal_pad data p)"
proof (cases "ca_is_block (su_cipher (sp_suite (v_tx p)))")
  case True
  obtain l where l: "last ds = l @ seal_pad data p" using iob_unput_last_concat [OF ds] by auto
  have "0 < ca_blocksize (su_cipher (sp_suite (v_tx p)))" using ok by (auto simp: suite_ok_def)
  then have pos: "0 < length (seal_pad data p)" using True by (simp add: seal_pad_def padding_def Let_def)
  have "length (seal_pad data p) \<le> 256"
    using length_seal_pad [OF ok, of data] inv True by (simp add: suite_inverse_def Let_def)
  from verify_padding_replicate [OF pos this, of l] True l padding_replicate(2) [OF ok, folded seal_pad_def]
  show ?thesis by (simp add: n_def seal_pad_def)
qed (simp add: n_def seal_pad_def padding_def)

lemma seal_ct_decrypt:
  fixes type :: nat and data :: bytes
  assumes ok: "suite_ok E (sp_suite (v_tx p))" and inv: "suite_inverse (sp_suite (v_tx p))"
  defines "cipher \<equiv> su_cipher (sp_suite (v_tx p))"
  defines "authhdr \<equiv> auth_header (v_tx_seq p) (tls12_header type (v_version p) (length (fst (seal_ct E type data p))))"
  shows "ca_decrypt cipher (if ca_is_auth cipher then ca_aad_decrypt cipher (seal_start E type data p) authhdr else seal_start E type data p) (fst (seal_ct E type data p)) =
    (data @ seal_mac type data p @ seal_pad data p, snd (seal_ct E type data p))" and "whole cipher (fst (seal_ct E type data p))"
proof -
  note inv' = inv [unfolded suite_inverse_def Let_def, folded cipher_def]
  have body: "whole cipher (data @ seal_mac type data p @ seal_pad data p)"
    using whole_padding [of "data @ seal_mac type data p" _ cipher] length_seal_mac [OF ok, of type data] ok
    by (auto simp: seal_pad_def cipher_def suite_ok_def)
  then show "whole cipher (fst (seal_ct E type data p))"
    using length_seal_ct [OF ok, of type data] by (simp add: whole_def add.assoc)
  have "authhdr = seal_auth type data p" if "ca_is_auth cipher"
  proof -
    have "\<not> ca_is_block cipher" "su_mac_len (sp_suite (v_tx p)) = 0" using inv' that by auto
    then have "length (seal_mac type data p) = 0" "seal_pad data p = []"
      using length_seal_mac [OF ok, of type data] by (simp_all add: seal_pad_def padding_def cipher_def)
    then show ?thesis using length_seal_ct [OF ok, of type data] by (simp add: authhdr_def seal_auth_def)
  qed
  then have "(if ca_is_auth cipher then ca_aad_decrypt cipher (seal_start E type data p) authhdr else seal_start E type data p) =
    seal_ctx cipher (seal_auth type data p) (seal_start E type data p)"
    using inv' by (simp add: seal_ctx_def)
  then show "ca_decrypt cipher (if ca_is_auth cipher then ca_aad_decrypt cipher (seal_start E type data p) authhdr else seal_start E type data p) (fst (seal_ct E type data p)) =
    (data @ seal_mac type data p @ seal_pad data p, snd (seal_ct E type data p))"
    using inv' body by (simp only: seal_ct_def Let_def flip: cipher_def)
qed

lemma check_ciphertext_sealed:
  assumes ok: "suite_ok E' (sp_suite (v_tx p))" and inv: "suite_inverse (sp_suite (v_tx p))" and type: "type < 256"
    and s: "v_rx s = v_tx p" "v_rx_seq s = v_tx_seq p" "v_header s = tls12_header type (v_version p) m"
    and ds: "ds \<noteq> []" "concat ds = fst (seal_ct E' type data p)" "\<And>d. d \<in> set (butlast ds) \<Longrightarrow> ca_alignsize (su_cipher (sp_suite (v_tx p))) dvd length d"
      "length (seal_mac type data p) + length (seal_pad data p) \<le> length (last ds)"
  shows "\<exists>ds'. ds' \<noteq> [] \<and> concat ds' = data \<and>
    check_ciphertext E (seal_start E' type data p) (ca_auth (su_cipher (sp_suite (v_tx p))) (snd (seal_ct E' type data p))) (length (fst (seal_ct E' type data p))) ds s =
    tls_new_record E type ds' (s\<lparr>v_rx := (v_tx p)\<lparr>sp_ctx := snd (seal_ct E' type data p)\<rparr>\<rparr>)"
proof -
  let ?cipher = "su_cipher (sp_suite (v_tx p))" and ?mac = "seal_mac type data p" and ?pad = "seal_pad data p"
  define ctx where "ctx = (if ca_is_auth ?cipher then ca_aad_decrypt ?cipher (seal_start E' type data p)
    (auth_header (v_tx_seq p) (tls12_header type (v_version p) (length (fst (seal_ct E' type data p))))) else seal_start E' type data p)"
  note dec = seal_ct_decrypt [OF ok inv, of type data, folded ctx_def]
  obtain ds1 where ds1: "decrypt_buffers ?cipher ctx ds = (ds1, snd (seal_ct E' type data p))" "concat ds1 = (data @ ?mac) @ ?pad" "map length ds1 = map length ds"
    using decrypt_buffers_concat [OF inv, of ds ctx] dec ds by auto
  have last1: "length (last ds1) = length (last ds)" and ne: "ds1 \<noteq> []"
    using ds1(3) ds(1) by (metis last_map map_is_Nil_conv)+
  have pad: "(if ca_is_block ?cipher then case tls_verify_padding (last ds1) of None \<Rightarrow> 0 | Some n \<Rightarrow> n else 0) = length ?pad"
    using strip_padding [OF ok inv ne ds1(2)] ds(4) last1 by simp
  obtain l where l: "iob_unput_last (length ?pad) ds1 = (butlast ds1 @ [l], ?pad)" "last ds1 = l @ ?pad" "concat (butlast ds1 @ [l]) = data @ ?mac"
    using iob_unput_last_concat [OF ne ds1(2)] ds(4) last1 by auto
  have l_len: "length ?mac \<le> length l" using l(2) ds(4) last1 by simp
  obtain l2 where l2: "iob_unput_last (length ?mac) (butlast ds1 @ [l]) = (butlast ds1 @ [l2], ?mac)" "concat (butlast ds1 @ [l2]) = data"
    using iob_unput_last_concat [OF _ l(3)] l_len by auto
  note lens = length_seal_ct [OF ok, of type data] length_seal_mac [OF ok, of type data, symmetric]
  have "tls_hmac_list (v_tx p) (auth_header (v_tx_seq p) (tls12_header type (v_version p) (length data))) (butlast ds1 @ [l2]) = tls_hmac (v_tx p) (seal_auth type data p) data"
    by (simp only: tls_hmac_list_def seal_auth_def l2(2))
  then have hmac: "take (length ?mac) (tls_hmac_list (v_tx p) (auth_header (v_tx_seq p) (tls12_header type (v_version p) (length data))) (butlast ds1 @ [l2])) = ?mac"
    by (metis lens(2) seal_mac_def)
  have len: "length (fst (seal_ct E' type data p)) - (length ?pad + length ?mac) = length data" by (simp add: lens(1))
  have "check_ciphertext E (seal_start E' type data p) (ca_auth ?cipher (snd (seal_ct E' type data p))) (length (fst (seal_ct E' type data p))) ds s =
      tls_new_record E type (butlast ds1 @ [l2]) (s\<lparr>v_rx := (v_tx p)\<lparr>sp_ctx := snd (seal_ct E' type data p)\<rparr>\<rparr>)"
    unfolding check_ciphertext_def Let_def
    by (simp add: s header_fields [OF type] ctx_def [symmetric] ds1(1) pad l(1) leD [OF l_len] lens(2) l2(1) len hmac split del: if_split cong: if_cong)
  then show ?thesis using l2(2) by (intro exI [of _ "butlast ds1 @ [l2]"]) simp
qed

lemma new_ciphertext_sealed:
  fixes type :: nat and data :: bytes
  assumes ok: "suite_ok E' (sp_suite (v_tx p))" and inv: "suite_inverse (sp_suite (v_tx p))" and type: "type < 256"
  defines "iv \<equiv> seal_iv E' type data p" and "ct \<equiv> fst (seal_ct E' type data p)" and "c \<equiv> snd (seal_ct E' type data p)"
  defines "tag \<equiv> ca_auth (su_cipher (sp_suite (v_tx p))) c"
  assumes s: "v_rx s = v_tx p" "v_rx_seq s = v_tx_seq p" "v_header s = tls12_header type (v_version p) (length iv + length ct + length tag)"
    and small: "length iv + length ct + length tag < 65536" and es: "v_data s = full_buffers (e # es)" "concat (e # es) = iv @ ct @ tag" "length iv \<le> length e"
    and al: "\<And>d. d \<in> set (butlast (drop (length iv) e # es)) \<Longrightarrow> ca_alignsize (su_cipher (sp_suite (v_tx p))) dvd length d"
    and room: "length (seal_mac type data p) + length (seal_pad data p) + length tag \<le> length (last (drop (length iv) e # es))"
  shows "\<exists>ds'. ds' \<noteq> [] \<and> concat ds' = data \<and> tls_new_ciphertext E s = tls_new_record E type ds' (s\<lparr>v_rx := (v_tx p)\<lparr>sp_ctx := c\<rparr>\<rparr>)"
proof -
  let ?cipher = "su_cipher (sp_suite (v_tx p))" and ?ds = "drop (length iv) e # es"
  note lens = length_seal_iv [OF ok, of type data, folded iv_def] length_seal_tag [OF ok, of c, folded tag_def]
  have e: "take (length iv) e = iv" and cat: "concat ?ds = ct @ tag"
    using es(2,3) by (auto simp: append_eq_append_conv2)
  have tag_last: "length tag \<le> length (last ?ds)" using room by simp
  obtain l where l: "iob_unput_last (length tag) ?ds = (butlast ?ds @ [l], tag)" "last ?ds = l @ tag" "concat (butlast ?ds @ [l]) = ct"
    using iob_unput_last_concat [OF _ cat tag_last] by auto
  have "length (seal_mac type data p) + length (seal_pad data p) \<le> length l" using room l(2) by simp
  then obtain ds' where ds': "ds' \<noteq> []" "concat ds' = data"
    "check_ciphertext E (seal_start E' type data p) tag (length ct) (butlast ?ds @ [l]) s = tls_new_record E type ds' (s\<lparr>v_rx := (v_tx p)\<lparr>sp_ctx := c\<rparr>\<rparr>)"
    using check_ciphertext_sealed [OF ok inv type s, of "butlast ?ds @ [l]" data E] l(3) al unfolding ct_def c_def tag_def by auto
  have m: "of_be (get_at 3 2 (v_header s)) = length iv + length ct + length tag"
    using small by (simp add: s(3) header_fields [OF type] of_be_to_be)
  have data: "map rb_data (v_data s) = e # es" by (simp add: es(1) full_buffers_def comp_def)
  have "tls_new_ciphertext E s = check_ciphertext E (seal_start E' type data p) tag (length ct) (butlast ?ds @ [l]) s"
    unfolding tls_new_ciphertext_def Let_def data m list.case s(1) lens(1) [symmetric] lens(2) [symmetric]
    using leD [OF es(3)] leD [OF tag_last] seal_setiv [OF ok, of type data, folded iv_def] by (simp add: e l(1) del: last.simps butlast.simps)
  with ds' show ?thesis by auto
qed

section \<open>One record\<close>

text \<open>The reserved bytes align what follows the initialisation vector.\<close>

definition align_reserve :: "'c tls_cipher_suite \<Rightarrow> nat" where
  "align_reserve suite = unat ((- of_nat (su_record_iv_len suite)) AND (of_nat (ca_alignsize (su_cipher suite)) - 1) :: u64)"

lemma align_word: "2 ^ a dvd n + unat (take_bit a (- of_nat n) :: u64)" if "a \<le> 12"
proof -
  define u where "u = unat (- of_nat n :: u64)"
  have "unat (of_nat n + - of_nat n :: u64) = (unat (of_nat n :: u64) + u) mod 2 ^ 64"
    by (simp only: unat_word_ariths u_def) simp
  then have "(n mod 2 ^ 64 + u) mod 2 ^ 64 = 0" by (simp add: unat_of_nat)
  then have "2 ^ 64 dvd n + u" by (simp only: mod_add_left_eq dvd_eq_mod_eq_0)
  moreover have "(2 :: nat) ^ a dvd 2 ^ 64" using that by (intro le_imp_power_dvd) simp
  ultimately have "2 ^ a dvd n + u" by (rule dvd_trans [rotated])
  then have "2 ^ a dvd n + u mod 2 ^ a" by (simp only: dvd_eq_mod_eq_0 mod_add_right_eq)
  then show ?thesis by (simp only: unsigned_take_bit_eq u_def flip: take_bit_eq_mod)
qed

lemma align_reserve:
  assumes "suite_sizes suite"
  shows "ca_alignsize (su_cipher suite) dvd su_record_iv_len suite + align_reserve suite" and "align_reserve suite < ca_alignsize (su_cipher suite)"
    and "ca_alignsize (su_cipher suite) dvd TLS_RX_BUFSIZE"
proof -
  obtain a where a: "a \<le> 12" "ca_alignsize (su_cipher suite) = 2 ^ a" using assms by (auto simp: suite_sizes_def Let_def)
  have r: "align_reserve suite = unat (take_bit a (- of_nat (su_record_iv_len suite)) :: u64)"
    by (simp add: align_reserve_def a(2) take_bit_eq_mask mask_eq_exp_minus_1)
  show "ca_alignsize (su_cipher suite) dvd su_record_iv_len suite + align_reserve suite"
    using align_word [OF a(1)] by (simp add: r a(2))
  have "align_reserve suite = take_bit a (unat (- of_nat (su_record_iv_len suite) :: u64))"
    by (simp only: r unsigned_take_bit_eq)
  then show "align_reserve suite < ca_alignsize (su_cipher suite)" by (simp add: a(2))
  have "(2 :: nat) ^ a dvd 2 ^ 12" using a(1) by (simp only: le_imp_power_dvd)
  then show "ca_alignsize (su_cipher suite) dvd TLS_RX_BUFSIZE" by (simp add: a(2))
qed

lemma split_sizes: "length xs = sum_list ns \<Longrightarrow> \<exists>es. map length es = ns \<and> concat es = xs" for xs :: "'a list"
proof (induction ns arbitrary: xs)
  case (Cons n ns)
  then have "length (drop n xs) = sum_list ns" by simp
  with Cons.IH obtain es where "map length es = ns" "concat es = drop n xs" by blast
  with Cons.prems show ?case by (intro exI [of _ "take n xs # es"]) simp
qed simp

text \<open>The buffers of a record that is not empty: either one, or full ones and a last one that is long enough.\<close>

lemma first_frags_cases:
  assumes "0 < n" "r < TLS_RX_BUFSIZE"
  shows "(n + r < TLS_RX_BUFSIZE + TLS_RX_MIN_BUFSIZE \<and> first_frags r (n + r) = [n]) \<or>
    (\<exists>ks k. first_frags r (n + r) = (TLS_RX_BUFSIZE - r) # ks @ [k] \<and> (\<forall>x \<in> set ks. x = TLS_RX_BUFSIZE) \<and> TLS_RX_MIN_BUFSIZE \<le> k \<and>
       sum_list (first_frags r (n + r)) = n)"
proof (cases "n + r < TLS_RX_BUFSIZE + TLS_RX_MIN_BUFSIZE")
  case False
  let ?m = "n + r - TLS_RX_BUFSIZE"
  have f: "frags (n + r) = TLS_RX_BUFSIZE # frags ?m" using False assms by (simp add: frags.simps [of "n + r"])
  have "TLS_RX_MIN_BUFSIZE \<le> ?m" using False by linarith
  from last_frags [OF this] have l: "frags ?m = butlast (frags ?m) @ [last (frags ?m)]" "TLS_RX_MIN_BUFSIZE \<le> last (frags ?m)" by simp_all
  have "\<forall>x \<in> set (butlast (frags ?m)). x = TLS_RX_BUFSIZE" using butlast_frags by blast
  moreover have "sum_list (first_frags r (n + r)) = n" using False assms by (simp add: first_frags_def f sum_frags)
  ultimately show ?thesis using l f by (intro disjI2 exI [of _ "butlast (frags ?m)"] exI [of _ "last (frags ?m)"]) (simp add: first_frags_def)
qed (use assms in \<open>simp add: first_frags_def frags.simps [of "n + r"]\<close>)

lemma process_header_ok:
  assumes "\<And>clk n. w_alloc E clk n" "type < 256" "m < 65536"
    and "v_state s = TLS_RX_HEADER" "v_header s = []"
  defines "ks \<equiv> first_frags (align_reserve (sp_suite (v_rx s))) (m + align_reserve (sp_suite (v_rx s)))"
  shows "tls_cipherstream_deliver E (tls12_header type ver m @ bs) s =
    tls_cipherstream_deliver E bs (s\<lparr>v_header := tls12_header type ver m, v_clk := v_clk s + length ks, v_data := map empty_buffer ks, v_state := TLS_RX_DATA\<rparr>)"
proof (rule deliver_step)
  show "tls12_header type ver m @ bs \<noteq> []" by (simp add: tls12_header_def)
  have "of_be (to_be 2 m) = m" using assms(3) by (simp add: of_be_to_be)
  then show "receive_step E (tls12_header type ver m @ bs) s =
    (OK, bs, s\<lparr>v_header := tls12_header type ver m, v_clk := v_clk s + length ks, v_data := map empty_buffer ks, v_state := TLS_RX_DATA\<rparr>)"
    using assms(1-5) by (simp add: receive_step_def tls_newdata_process_header_def header_fields [OF assms(2)] alloc_buffers_first ks_def Let_def flip: align_reserve_def)
qed

lemma deliver_buffers_ok:
  "(\<And>clk. w_plain_deliver E clk = OK) \<Longrightarrow>
   deliver_buffers E ds s = (OK, s\<lparr>v_plain := v_plain s @ ds, v_data := [], v_clk := v_clk s + length ds\<rparr>)"
  by (induction ds arbitrary: s) (simp_all add: v_tick_def Let_def)

text \<open>How the buffers split a sealed record: each requirement of decryption holds.\<close>

lemma split_record:
  assumes sizes: "suite_sizes suite" and n: "n = length iv + length ct + length tag" "length iv = su_record_iv_len suite" "length tag = ca_authsize (su_cipher suite)" "0 < n"
    and tail: "length mac + length pad \<le> length ct" "length mac = su_mac_len suite" "length pad \<le> (if ca_is_block (su_cipher suite) then ca_blocksize (su_cipher suite) else 0)"
  shows "\<exists>e es. map length (e # es) = first_frags (align_reserve suite) (n + align_reserve suite) \<and> concat (e # es) = iv @ ct @ tag \<and> [] \<notin> set (e # es) \<and>
    length iv \<le> length e \<and> (\<forall>d \<in> set (butlast (drop (length iv) e # es)). ca_alignsize (su_cipher suite) dvd length d) \<and>
    length mac + length pad + length tag \<le> length (last (drop (length iv) e # es))"
proof -
  let ?r = "align_reserve suite" and ?al = "ca_alignsize (su_cipher suite)"
  note sz = sizes [unfolded suite_sizes_def Let_def] and al = align_reserve [OF sizes]
  have r: "?r < TLS_RX_BUFSIZE" "su_record_iv_len suite + ?r \<le> TLS_RX_BUFSIZE" using sz al(2) by linarith+
  from first_frags_cases [OF n(4) r(1)] show ?thesis
  proof (elim disjE exE conjE)
    assume "first_frags ?r (n + ?r) = [n]"
    then show ?thesis using n tail by (intro exI [of _ "iv @ ct @ tag"] exI [of _ "[]"]) auto
  next
    fix ks k
    assume ks: "first_frags ?r (n + ?r) = (TLS_RX_BUFSIZE - ?r) # ks @ [k]" "\<forall>x \<in> set ks. x = TLS_RX_BUFSIZE" "TLS_RX_MIN_BUFSIZE \<le> k"
      "sum_list (first_frags ?r (n + ?r)) = n"
    have "length (iv @ ct @ tag) = sum_list (first_frags ?r (n + ?r))" by (simp only: ks(4)) (simp add: n(1))
    from split_sizes [OF this, unfolded ks(1)] obtain ds where ds: "map length ds = (TLS_RX_BUFSIZE - ?r) # ks @ [k]" "concat ds = iv @ ct @ tag" by metis
    then obtain e es l where e: "ds = e # es @ [l]" "length e = TLS_RX_BUFSIZE - ?r" "map length es = ks" "length l = k"
      by (auto simp: map_eq_Cons_conv map_eq_append_conv)
    have es: "length d = TLS_RX_BUFSIZE" if "d \<in> set es" for d using that ks(2) e(3) by auto
    have "?al dvd TLS_RX_BUFSIZE - (su_record_iv_len suite + ?r)" using al(1,3) by (intro dvd_diff_nat)
    then have "?al dvd length e - length iv" by (simp add: e(2) n(2) add.commute)
    moreover have "length mac + length pad + length tag \<le> k" using sz tail n(3) ks(3) by (auto split: if_splits)
    moreover have "[] \<notin> set ds" using e r(1) es [of "[]"] ks(3) by auto
    ultimately show ?thesis
      using ds e r es al(3) n(2) ks(1) by (intro exI [of _ e] exI [of _ "es @ [l]"]) (auto simp: butlast_append split: if_splits)
  qed
qed

text \<open>The receiver expects the next record of the peer.\<close>

definition in_step :: "'c tls12 \<Rightarrow> 'c tls12 \<Rightarrow> bool" where
  "in_step p s \<longleftrightarrow> v_rx s = v_tx p \<and> v_rx_seq s = v_tx_seq p \<and> v_state s = TLS_RX_HEADER \<and> v_header s = [] \<and> v_data s = [] \<and> tls_ready s"

lemma receive_sealed:
  assumes ok: "suite_ok E' (sp_suite (v_tx p))" and inv: "suite_inverse (sp_suite (v_tx p))" and sizes: "suite_sizes (sp_suite (v_tx p))"
    and env: "\<And>clk n. w_alloc E clk n" "\<And>clk. w_plain_deliver E clk = OK" and step: "in_step p s"
    and seal: "seal E' TLS_TYPE_DATA data p = (rec, p')" and small: "overhead (sp_suite (v_tx p)) + length data < 65536"
  shows "\<exists>s' ds. (\<forall>bs. tls_cipherstream_deliver E (rec @ bs) s = tls_cipherstream_deliver E bs s') \<and> in_step p' s' \<and>
    v_plain s' = v_plain s @ ds \<and> concat ds = data"
proof -
  let ?suite = "sp_suite (v_tx p)" and ?cipher = "su_cipher (sp_suite (v_tx p))"
  define iv ct c where parts: "iv = seal_iv E' TLS_TYPE_DATA data p" "ct = fst (seal_ct E' TLS_TYPE_DATA data p)" "c = snd (seal_ct E' TLS_TYPE_DATA data p)"
  define tag n where tag: "tag = ca_auth ?cipher c" "n = length iv + length ct + length tag"
  define hdr where "hdr = tls12_header TLS_TYPE_DATA (v_version p) n"
  have rec: "rec = hdr @ iv @ ct @ tag" and p': "p' = p\<lparr>v_tx := (v_tx p)\<lparr>sp_ctx := c\<rparr>, v_tx_seq := v_tx_seq p + 1\<rparr>"
    using seal by (simp_all add: seal_def Let_def split_beta hdr_def tag parts)
  have "length rec < 65536" using length_seal [OF ok seal] small by simp
  then have n: "n < 65536" by (simp add: rec tag hdr_def)
  note lens = length_seal_iv [OF ok, of TLS_TYPE_DATA data, folded parts] length_seal_ct [OF ok, of TLS_TYPE_DATA data, folded parts]
    length_seal_mac [OF ok, of TLS_TYPE_DATA data] length_seal_tag [OF ok, of c, folded tag]
  have pos: "0 < n" using sizes lens by (simp add: tag suite_sizes_def Let_def)
  have "length (seal_mac TLS_TYPE_DATA data p) + length (seal_pad data p) \<le> length ct" using lens(2) by simp
  from split_record [OF sizes tag(2) lens(1,4) pos this lens(3) length_seal_pad [OF ok]]
  obtain e es where es: "map length (e # es) = first_frags (align_reserve ?suite) (n + align_reserve ?suite)" "concat (e # es) = iv @ ct @ tag" "[] \<notin> set (e # es)"
    "length iv \<le> length e" "\<And>d. d \<in> set (butlast (drop (length iv) e # es)) \<Longrightarrow> ca_alignsize ?cipher dvd length d"
    "length (seal_mac TLS_TYPE_DATA data p) + length (seal_pad data p) + length tag \<le> length (last (drop (length iv) e # es))"
    by blast
  define ks where "ks = first_frags (align_reserve ?suite) (n + align_reserve ?suite)"
  have ks: "map empty_buffer ks = map (empty_buffer \<circ> length) (e # es)" by (simp only: ks_def es(1) [symmetric] map_map)
  define s1 where "s1 = s\<lparr>v_header := hdr, v_clk := v_clk s + length ks, v_data := map empty_buffer ks, v_state := TLS_RX_DATA\<rparr>"
  define s2 where "s2 = s1\<lparr>v_data := full_buffers ([] @ e # es)\<rparr>"
  have header: "tls_cipherstream_deliver E (hdr @ bs) s = tls_cipherstream_deliver E bs s1" for bs
    using process_header_ok [OF env(1), of TLS_TYPE_DATA n s "v_version p" bs] step n by (simp add: in_step_def hdr_def s1_def ks_def)
  obtain ds where ds: "concat ds = data" "tls_new_ciphertext E s2 = tls_new_record E TLS_TYPE_DATA ds (s2\<lparr>v_rx := (v_tx p)\<lparr>sp_ctx := c\<rparr>\<rparr>)"
    using new_ciphertext_sealed [OF ok inv, of TLS_TYPE_DATA s2 data e es E, folded parts, folded tag] step n es(2-6)
    by (auto simp: s2_def s1_def in_step_def hdr_def tag)
  define s3 where "s3 = s2\<lparr>v_rx := (v_tx p)\<lparr>sp_ctx := c\<rparr>, v_plain := v_plain s @ ds, v_data := [], v_clk := v_clk s2 + length ds\<rparr>"
  have "tls_new_ciphertext E s2 = (OK, s3)"
    unfolding ds(2) using step by (simp add: tls_new_record_def tls_new_data_def tls_ready_def in_step_def deliver_buffers_ok [OF env(2)] s3_def s2_def s1_def)
  then have "tls_cipherstream_deliver E (concat (e # es) @ bs) s1 = tls_cipherstream_deliver E bs (s3\<lparr>v_rx_seq := v_rx_seq s3 + 1, v_state := TLS_RX_HEADER, v_header := []\<rparr>)" for bs
    using es(3) ks by (intro deliver_buffers_filled [where prev = "[]"]) (simp_all add: s1_def s2_def full_buffers_def)
  with es(2) header have "tls_cipherstream_deliver E (rec @ bs) s = tls_cipherstream_deliver E bs (s3\<lparr>v_rx_seq := v_rx_seq s3 + 1, v_state := TLS_RX_HEADER, v_header := []\<rparr>)" for bs
    by (simp add: rec)
  moreover have "in_step p' (s3\<lparr>v_rx_seq := v_rx_seq s3 + 1, v_state := TLS_RX_HEADER, v_header := []\<rparr>)"
    using step by (simp add: in_step_def p' s3_def s2_def s1_def tls_ready_def)
  ultimately show ?thesis using ds(1) by (intro exI [of _ "s3\<lparr>v_rx_seq := v_rx_seq s3 + 1, v_state := TLS_RX_HEADER, v_header := []\<rparr>"] exI [of _ ds]) (simp add: s3_def)
qed

section \<open>Streams of records\<close>

text \<open>The records that a peer makes of the given fragments.\<close>

primrec seal_list :: "'c tls12_env \<Rightarrow> nat \<Rightarrow> bytes list \<Rightarrow> 'c tls12 \<Rightarrow> bytes \<times> 'c tls12" where
  "seal_list E type [] s = ([], s)"
| "seal_list E type (d # ds) s = (let (rec, s) = seal E type d s; (recs, s) = seal_list E type ds s in (rec @ recs, s))"

fun fragments :: "bytes \<Rightarrow> bytes list" where
  "fragments data = take TLS_TX_BUFSIZE data # (if length data \<le> TLS_TX_BUFSIZE then [] else fragments (drop TLS_TX_BUFSIZE data))"

declare fragments.simps [simp del]

lemma seal_all_list: "seal_all E type data s = seal_list E type (fragments data) s"
proof (induction E type data s rule: seal_all.induct)
  case (1 E type data s)
  obtain rec s1 where seal: "seal E type (take TLS_TX_BUFSIZE data) s = (rec, s1)" by fastforce
  then show ?case
    using 1 [OF seal [symmetric] refl] by (simp add: seal_all.simps [of _ _ data] fragments.simps [of data] split_beta Let_def)
qed

lemma concat_fragments: "concat (fragments data) = data \<and> (\<forall>d \<in> set (fragments data). length d \<le> TLS_TX_BUFSIZE)"
proof (induction data rule: fragments.induct)
  case (1 data)
  then show ?case by (cases "length data \<le> TLS_TX_BUFSIZE") (simp_all add: fragments.simps [of data])
qed

lemma receive_list:
  assumes "suite_ok E' (sp_suite (v_tx p))" "suite_inverse (sp_suite (v_tx p))" "suite_sizes (sp_suite (v_tx p))"
    and env: "\<And>clk n. w_alloc E clk n" "\<And>clk. w_plain_deliver E clk = OK"
    and "in_step p s" "seal_list E' TLS_TYPE_DATA datas p = (recs, p')" "\<forall>d \<in> set datas. length d \<le> 2 ^ 14"
  shows "\<exists>s' ds. tls_cipherstream_deliver E recs s = Some (OK, s') \<and> in_step p' s' \<and> v_plain s' = v_plain s @ ds \<and> concat ds = concat datas"
  using assms(1-3,6-)
proof (induction datas arbitrary: p s recs)
  case Nil
  then show ?case by (auto simp: tls_cipherstream_deliver.simps)
next
  case (Cons d datas)
  obtain rec p1 where seal: "seal E' TLS_TYPE_DATA d p = (rec, p1)" by fastforce
  obtain recs1 where list: "seal_list E' TLS_TYPE_DATA datas p1 = (recs1, p')" "recs = rec @ recs1"
    using Cons.prems(5) seal by (auto simp: Let_def split: prod.splits)
  have small: "overhead (sp_suite (v_tx p)) + length d < 65536"
    using Cons.prems(3,6) by (auto simp: overhead_def suite_sizes_def Let_def split: if_splits)
  obtain s1 ds1 where one: "\<And>bs. tls_cipherstream_deliver E (rec @ bs) s = tls_cipherstream_deliver E bs s1" "in_step p1 s1" "v_plain s1 = v_plain s @ ds1" "concat ds1 = d"
    using receive_sealed [OF Cons.prems(1-3) env Cons.prems(4) seal small] by blast
  have suite: "sp_suite (v_tx p1) = sp_suite (v_tx p)" using seal_keeps [OF seal] by simp
  obtain s' ds where "tls_cipherstream_deliver E recs1 s1 = Some (OK, s')" "in_step p' s'" "v_plain s' = v_plain s1 @ ds" "concat ds = concat datas"
    using Cons.IH [of p1 s1 recs1] Cons.prems(1-3,6) one(2) list(1) unfolding suite by auto
  with one list(2) show ?case by (intro exI [of _ s'] exI [of _ "ds1 @ ds"]) simp
qed

lemma align_reserve_0: "su_record_iv_len suite = 0 \<Longrightarrow> align_reserve suite = 0"
  by (simp add: align_reserve_def)

section \<open>Properties\<close>

lemma demo_in_step:
  "suite_ok demo_tls12_env (sp_suite (v_tx demo_tls12))" "suite_inverse (sp_suite (v_tx demo_tls12))" "suite_sizes (sp_suite (v_tx demo_tls12))"
  "in_step demo_tls12 demo_tls12"
proof -
  have suite: "sp_suite (v_tx demo_tls12) = demo_suite" by (simp add: demo_tls12_def demo_spec_def)
  show "suite_ok demo_tls12_env (sp_suite (v_tx demo_tls12))" by (simp only: suite demo_suite_ok)
  show "suite_inverse (sp_suite (v_tx demo_tls12))" by (simp add: suite suite_inverse_def demo_suite_def comp_def)
  have "\<exists>a \<le> 12. (4 :: nat) = 2 ^ a" by (rule exI [of _ 2]) simp
  then show "suite_sizes (sp_suite (v_tx demo_tls12))" by (simp add: suite suite_sizes_def demo_suite_def)
  show "in_step demo_tls12 demo_tls12" by (simp add: in_step_def demo_tls12_def tls_ready_def)
qed

text \<open>A TLS 1.2 receiver in step with its peer accepts every sequence of data records of up to 16384 bytes each, whatever the
  fragmentation: it spreads a record over buffers, decrypts them one by one, removes padding, MAC and tag from the last one, and the
  plaintext stream gets exactly the data, in order; afterwards it is in step again.\<close>

lemma records_received:
  assumes "suite_ok E' (sp_suite (v_tx p))" "suite_inverse (sp_suite (v_tx p))" "suite_sizes (sp_suite (v_tx p))"
    and "\<And>clk n. w_alloc E clk n" "\<And>clk. w_plain_deliver E clk = OK" "in_step p s" "\<forall>d \<in> set datas. length d \<le> 2 ^ 14"
  shows "\<exists>recs p' s' ds. seal_list E' TLS_TYPE_DATA datas p = (recs, p') \<and> tls_cipherstream_deliver E recs s = Some (OK, s') \<and>
    v_plain s' = v_plain s @ ds \<and> concat ds = concat datas \<and> in_step p' s'"
proof -
  obtain recs p' where "seal_list E' TLS_TYPE_DATA datas p = (recs, p')" by fastforce
  then show ?thesis using receive_list [OF assms(1-6) _ assms(7)] by blast
qed

text \<open>Two records of three bytes and of one byte.\<close>

text \<open>C34: What one TLS 1.2 connection takes from its plaintext stream, and sends as one buffer of records, the other one delivers to its
  plaintext stream: the same bytes, for data of any length.\<close>

theorem tls12_roundtrip:
  assumes "suite_ok E' (sp_suite (v_tx p))" "suite_inverse (sp_suite (v_tx p))" "suite_sizes (sp_suite (v_tx p))"
    and "\<And>clk n. w_alloc E clk n" "\<And>clk. w_plain_deliver E clk = OK" "in_step p s" "tls_ready p"
    and "off \<le> length buf" "tls_iob_reserved p (length buf - off) \<le> off"
  shows "\<exists>p' wire s'. tls_plainstream_deliver E' buf off p = (w_cipher_deliver E' (v_clk p), p') \<and> v_wire p' = v_wire p @ [wire] \<and>
    tls_cipherstream_deliver E wire s = Some (OK, s') \<and> concat (v_plain s') = concat (v_plain s) @ drop off buf \<and> in_step p' s'"
proof -
  obtain recs p1 where all: "seal_all E' TLS_TYPE_DATA (drop off buf) p = (recs, p1)" by fastforce
  have "\<forall>d \<in> set (fragments (drop off buf)). length d \<le> 2 ^ 14" "concat (fragments (drop off buf)) = drop off buf"
    using concat_fragments [of "drop off buf"] by auto
  with receive_list [OF assms(1-6) all [unfolded seal_all_list]]
  obtain s' ds where rx: "tls_cipherstream_deliver E recs s = Some (OK, s')" "in_step p1 s'" "v_plain s' = v_plain s @ ds" "concat ds = drop off buf"
    by auto
  have "tls_plainstream_deliver E' buf off p = (w_cipher_deliver E' (v_clk p), (v_tick p1)\<lparr>v_wire := v_wire p @ [recs]\<rparr>)"
    using send_record_seal [OF assms(1,8,9), of TLS_TYPE_DATA] all seal_all_keeps [OF all] assms(7) by (simp add: tls_plainstream_deliver_def hashed_def)
  with rx show ?thesis by (auto simp: in_step_def v_tick_def)
qed

lemma tls12_roundtrip_witness:
  "suite_ok demo_tls12_env (sp_suite (v_tx demo_tls12)) \<and> in_step demo_tls12 demo_tls12 \<and> tls_ready demo_tls12 \<and> tls_iob_reserved demo_tls12 3 = 14 \<and>
   (\<exists>p' wire s'. tls_plainstream_deliver demo_tls12_env (replicate 14 0 @ [1, 2, 3]) 14 demo_tls12 = (OK, p') \<and> v_wire p' = [wire] \<and>
      tls_cipherstream_deliver demo_tls12_env wire demo_tls12 = Some (OK, s') \<and> concat (v_plain s') = [1, 2, 3])"
proof -
  have room: "tls_iob_reserved demo_tls12 3 = 14" by code_simp
  have ready: "tls_ready demo_tls12" and empty: "v_plain demo_tls12 = []" "v_wire demo_tls12 = []"
    by (simp_all add: tls_ready_def demo_tls12_def)
  have rc: "w_cipher_deliver demo_tls12_env n = OK" "w_alloc demo_tls12_env n m" "w_plain_deliver demo_tls12_env n = OK" for n m
    by (simp_all add: demo_tls12_env_def)
  show ?thesis
    using tls12_roundtrip [OF demo_in_step(1-3) rc(2,3) demo_in_step(4) ready, of 14 "replicate 14 0 @ [1, 2, 3]"] room ready demo_in_step
    by (auto simp: rc empty)
qed

text \<open>C36: A record without payload that arrives while the cipher has no initialisation vector, as before the first change of the
  cipher, leaves the receiver in its data state with no buffer; whatever byte comes next, the receive loop takes the null pointer for the
  current buffer.\<close>

theorem empty_record_faults:
  assumes "v_state s = TLS_RX_HEADER" "v_header s = []" "su_record_iv_len (sp_suite (v_rx s)) = 0" "type < 256"
  shows "tls_cipherstream_deliver E (tls12_header type ver 0 @ b # bs) s =
    Some (Fault, s\<lparr>v_header := tls12_header type ver 0, v_data := [], v_state := TLS_RX_DATA\<rparr>)"
proof -
  let ?s = "s\<lparr>v_header := tls12_header type ver 0, v_data := [], v_state := TLS_RX_DATA\<rparr>"
  have "receive_step E (tls12_header type ver 0 @ b # bs) s = (OK, b # bs, ?s)"
    using assms by (simp add: receive_step_def tls_newdata_process_header_def header_fields [OF assms(4)] of_be_to_be alloc_buffers.simps Let_def)
  moreover have "receive_step E (b # bs) ?s = (Fault, b # bs, ?s)" by (simp add: receive_step_def)
  ultimately show ?thesis by (simp add: deliver_step tls_cipherstream_deliver.simps [of E "b # bs"])
qed

definition demo_null_tls12 :: "byte tls12" where
  "demo_null_tls12 = demo_tls12\<lparr>v_rx := demo_spec\<lparr>sp_suite := demo_suite\<lparr>su_record_iv_len := 0\<rparr>\<rparr>\<rparr>"

lemma empty_record_faults_witness:
  "\<exists>s'. tls_cipherstream_deliver demo_tls12_env [22, 3, 3, 0, 0, 22] demo_null_tls12 = Some (Fault, s')"
proof -
  have hdr: "tls12_header TLS_TYPE_HANDSHAKE 0x0303 0 = [22, 3, 3, 0, 0]" by code_simp
  show ?thesis
    using empty_record_faults [of demo_null_tls12 TLS_TYPE_HANDSHAKE demo_tls12_env "0x0303" 22 "[]"] hdr
    by (auto simp: demo_null_tls12_def demo_tls12_def)
qed

end
