(* ===== verification/Tls12_Keys_Props.thy ===== *)
theory Tls12_Keys_Props
  imports Tls12_Keys Tls12_Receive "HOL-Library.Sublist"
begin

text \<open>
  Theorems about the key schedule of TLS 1.2: the key block is that of the specification and is split in its order, a resumed
  session has the keys it was recorded with, the Server Hello is read inside the message and always answered, and
  the binding of the schedule to a server follows its key.
\<close>

section \<open>The pseudo-random function\<close>

text \<open>The function of the specification: \<open>A(0)\<close> is the seed, \<open>A(i + 1)\<close> the HMAC of \<open>A(i)\<close>, and the output is the HMACs of \<open>A(i)\<close>
  followed by the seed, for \<open>i\<close> from one on.\<close>

primrec prf_a :: "digest_algorithm \<Rightarrow> bytes \<Rightarrow> bytes \<Rightarrow> nat \<Rightarrow> bytes" where
  "prf_a digest hkey seed 0 = seed"
| "prf_a digest hkey seed (Suc i) = dg_hmac digest hkey (prf_a digest hkey seed i)"

definition p_hash :: "digest_algorithm \<Rightarrow> bytes \<Rightarrow> bytes \<Rightarrow> nat \<Rightarrow> nat \<Rightarrow> bytes" where
  "p_hash digest hkey seed i n = concat (map (\<lambda>j. dg_hmac digest hkey (prf_a digest hkey seed j @ seed)) [i..<n])"

definition hash_ok :: "digest_algorithm \<Rightarrow> bool" where
  "hash_ok digest \<longleftrightarrow> 0 < dg_size digest \<and> (\<forall>key xs. length (dg_hmac digest key xs) = dg_size digest)"

lemma length_p_hash: "hash_ok digest \<Longrightarrow> length (p_hash digest hkey seed i n) = (n - i) * dg_size digest"
  by (simp add: p_hash_def hash_ok_def length_concat comp_def sum_list_triv)

lemma p_hash_loop_eq:
  assumes "hash_ok digest" "out_len \<le> (n - i) * dg_size digest"
  shows "p_hash_loop digest hkey seed (prf_a digest hkey seed i) out_len = Some (take out_len (p_hash digest hkey seed i n))"
  using assms(2)
proof (induction "n - i" arbitrary: i out_len)
  case 0
  then show ?case by (simp add: p_hash_loop.simps)
next
  case (Suc k)
  have i: "i < n" using Suc.hyps(2) by simp
  have size: "length (dg_hmac digest hkey xs) = dg_size digest" for xs using assms(1) by (simp add: hash_ok_def)
  have split: "p_hash digest hkey seed i n = dg_hmac digest hkey (prf_a digest hkey seed i @ seed) @ p_hash digest hkey seed (Suc i) n"
    using i by (simp add: p_hash_def upt_conv_Cons)
  show ?case
  proof (cases "out_len = 0")
    case False
    have "out_len \<le> dg_size digest + k * dg_size digest" using Suc.prems by (simp add: Suc.hyps(2) [symmetric])
    moreover have "n - Suc i = k" using Suc.hyps(2) by simp
    ultimately have "out_len - min (dg_size digest) out_len \<le> (n - Suc i) * dg_size digest" by (auto simp: min_def)
    from Suc.hyps(1) [OF _ this] Suc.hyps(2)
    have "p_hash_loop digest hkey seed (prf_a digest hkey seed (Suc i)) (out_len - min (dg_size digest) out_len) =
      Some (take (out_len - min (dg_size digest) out_len) (p_hash digest hkey seed (Suc i) n))" by simp
    then show ?thesis using False by (simp add: p_hash_loop.simps [of _ _ _ _ out_len] split size Let_def min_def)
  qed (simp add: p_hash_loop.simps)
qed

lemma tls_p_hash_eq:
  assumes "hash_ok digest" "out_len \<le> n * dg_size digest"
  shows "tls_p_hash_va digest hkey out_len seeds = Some (take out_len (p_hash digest hkey (concat seeds) 1 (Suc n)))"
  using p_hash_loop_eq [OF assms(1), of out_len "Suc n" 1 hkey "concat seeds"] assms(2) by (simp add: tls_p_hash_va_def)

text \<open>A digest without output makes the loop run for ever: no finite number of rounds is enough.\<close>

lemma p_hash_ends:
  assumes "p_hash_loop digest hkey seed a out_len = Some y"
  shows "dg_size digest = 0 \<longrightarrow> out_len = 0"
proof (rule p_hash_loop.raw_induct [OF _ assms])
  fix f digest hkey seed a out_len y
  assume hyp: "\<And>d k s a n y. f d k s a n = Some y \<Longrightarrow> dg_size d = 0 \<longrightarrow> n = 0"
    and ret: "(if out_len = 0 then Some []
      else let out_tmp = dg_hmac digest hkey (a @ seed); frag_len = min (dg_size digest) out_len
        in f digest hkey seed (dg_hmac digest hkey a) (out_len - frag_len) \<bind> (\<lambda>out. Some (take frag_len out_tmp @ out))) = Some y"
  show "dg_size digest = 0 \<longrightarrow> out_len = 0"
  proof (rule impI, rule ccontr)
    assume "dg_size digest = 0" "out_len \<noteq> 0"
    with ret obtain out where "f digest hkey seed (dg_hmac digest hkey a) out_len = Some out"
      by (auto simp: Let_def bind_eq_Some_conv)
    from hyp [OF this] \<open>dg_size digest = 0\<close> \<open>out_len \<noteq> 0\<close> show False by simp
  qed
qed

lemma p_hash_null: "dg_size digest = 0 \<Longrightarrow> 0 < out_len \<Longrightarrow> p_hash_loop digest hkey seed a out_len = None"
  using p_hash_ends [of digest hkey seed a out_len] by (cases "p_hash_loop digest hkey seed a out_len") auto

text \<open>The first bytes of the function, and the pseudo-random function of either version with what it needs of the digests.\<close>

definition p_out :: "digest_algorithm \<Rightarrow> bytes \<Rightarrow> bytes \<Rightarrow> nat \<Rightarrow> bytes" where
  "p_out digest hkey seed n = take n (p_hash digest hkey seed 1 (Suc n))"

definition prf_ref :: "'c hs_env \<Rightarrow> 'c tls_hs \<Rightarrow> bytes \<Rightarrow> nat \<Rightarrow> bytes" where
  "prf_ref E s seed n =
    (if tls_version E TLS_VERSION_TLS_1_2 s then p_out (y_digest s) (y_kdf s) seed n
     else map2 (XOR) (p_out (x_md5 E) (take (dg_keysize (x_md5 E)) (y_kdf s)) seed n) (p_out (x_sha1 E) (drop (dg_keysize (x_md5 E)) (y_kdf s)) seed n))"

definition prf_ok :: "'c hs_env \<Rightarrow> 'c tls_hs \<Rightarrow> bool" where
  "prf_ok E s \<longleftrightarrow> (if tls_version E TLS_VERSION_TLS_1_2 s then hash_ok (y_digest s) else hash_ok (x_md5 E) \<and> hash_ok (x_sha1 E))"

lemma rounds_enough: "hash_ok digest \<Longrightarrow> n \<le> n * dg_size digest"
  by (simp add: hash_ok_def)

lemma tls_p_hash_ref: "hash_ok digest \<Longrightarrow> tls_p_hash_va digest hkey n seeds = Some (p_out digest hkey (concat seeds) n)"
  unfolding p_out_def by (rule tls_p_hash_eq) (simp_all add: rounds_enough)

lemma length_p_out: "hash_ok digest \<Longrightarrow> length (p_out digest hkey seed n) = n"
  by (simp add: p_out_def length_p_hash rounds_enough min_absorb2)

lemma tls_prf_ref: "prf_ok E s \<Longrightarrow> tls_prf E n seeds s = Some (prf_ref E s (concat seeds) n)"
  by (auto simp: tls_prf_def prf_ref_def prf_ok_def tls_p_hash_ref split: if_splits)

lemma length_prf_ref [simp]: "prf_ok E s \<Longrightarrow> length (prf_ref E s seed n) = n"
  by (auto simp: prf_ref_def prf_ok_def length_p_out split: if_splits)

lemma tls_prf_label_ref: "prf_ok E s \<Longrightarrow> tls_prf_label E n label seeds s = Some (prf_ref E s (str_bytes label @ concat seeds) n)"
  by (simp add: tls_prf_label_def tls_prf_ref)

section \<open>The key block\<close>

definition accepts_keys :: "'c tls_cipher_suite \<Rightarrow> bool" where
  "accepts_keys suite \<longleftrightarrow> (\<forall>ctx key. length key = su_key_len suite \<longrightarrow> fst (ca_setkey (su_cipher suite) ctx key) = OK)"

lemma split_keys_parts:
  fixes s :: "'c tls_hs"
  defines "tx \<equiv> v_next_tx (y_conn s)" and "rx \<equiv> v_next_rx (y_conn s)"
  assumes "sp_suite rx = sp_suite tx" "accepts_keys (sp_suite tx)"
    and block: "block = tm @ rm @ tk @ rk @ ti @ ri"
    and len: "length tm = su_mac_len (sp_suite tx)" "length rm = su_mac_len (sp_suite tx)" "length tk = su_key_len (sp_suite tx)"
      "length rk = su_key_len (sp_suite tx)" "length ti = su_fixed_iv_len (sp_suite tx)" "length ri = su_fixed_iv_len (sp_suite tx)"
  shows "split_keys block s = (OK, upd_conn (\<lambda>v. v
    \<lparr>v_next_tx := tx\<lparr>sp_mac_secret := tm, sp_ctx := snd (ca_setkey (su_cipher (sp_suite tx)) (sp_ctx tx) tk), sp_fixed_iv := ti\<rparr>,
     v_next_rx := rx\<lparr>sp_mac_secret := rm, sp_ctx := snd (ca_setkey (su_cipher (sp_suite tx)) (sp_ctx rx) rk), sp_fixed_iv := ri\<rparr>\<rparr>) s)"
proof -
  have at: "get_at 0 (su_mac_len (sp_suite tx)) block = tm" "get_at (su_mac_len (sp_suite tx)) (su_mac_len (sp_suite tx)) block = rm"
    "get_at (2 * su_mac_len (sp_suite tx)) (su_key_len (sp_suite tx)) block = tk"
    "get_at (2 * su_mac_len (sp_suite tx) + su_key_len (sp_suite tx)) (su_key_len (sp_suite tx)) block = rk"
    "get_at (2 * su_mac_len (sp_suite tx) + su_key_len (sp_suite tx) + su_key_len (sp_suite tx)) (su_fixed_iv_len (sp_suite tx)) block = ti"
    "get_at (2 * su_mac_len (sp_suite tx) + su_key_len (sp_suite tx) + su_key_len (sp_suite tx) + su_fixed_iv_len (sp_suite tx)) (su_fixed_iv_len (sp_suite tx)) block = ri"
    using len by (simp_all add: block get_at_def)
  have "fst (ca_setkey (su_cipher (sp_suite tx)) ctx tk) = OK" "fst (ca_setkey (su_cipher (sp_suite tx)) ctx rk) = OK" for ctx
    using assms(4) len by (simp_all add: accepts_keys_def)
  then show ?thesis
    using at assms(3) by (simp add: split_keys_def Let_def split_beta tx_def rx_def)
qed

lemma two_parts:
  assumes "length xs = n + m"
  obtains us vs where "xs = us @ vs" "length us = n" "length vs = m"
  using that [of "take n xs" "drop n xs"] assms by simp

lemma six_parts:
  assumes "length xs = 2 * (a + b + c)"
  obtains tm rm tk rk ti ri where "xs = tm @ rm @ tk @ rk @ ti @ ri" "length tm = a" "length rm = a" "length tk = b" "length rk = b"
    "length ti = c" "length ri = c"
proof -
  have "length xs = a + (a + (b + (b + (c + c))))" using assms by simp
  then show thesis using that by (elim two_parts) blast
qed

definition keys_set :: "bytes \<Rightarrow> 'c tls12 \<Rightarrow> 'c tls12 \<Rightarrow> bool" where
  "keys_set block v v' \<longleftrightarrow> sp_suite (v_next_tx v') = sp_suite (v_next_tx v) \<and> sp_suite (v_next_rx v') = sp_suite (v_next_tx v) \<and>
    (\<exists>tk rk. length tk = su_key_len (sp_suite (v_next_tx v)) \<and> length rk = length tk \<and>
      sp_mac_secret (v_next_tx v') @ sp_mac_secret (v_next_rx v') @ tk @ rk @ sp_fixed_iv (v_next_tx v') @ sp_fixed_iv (v_next_rx v') = block \<and>
      length (sp_mac_secret (v_next_tx v')) = su_mac_len (sp_suite (v_next_tx v)) \<and>
      length (sp_mac_secret (v_next_rx v')) = su_mac_len (sp_suite (v_next_tx v)) \<and>
      length (sp_fixed_iv (v_next_tx v')) = su_fixed_iv_len (sp_suite (v_next_tx v)) \<and>
      length (sp_fixed_iv (v_next_rx v')) = su_fixed_iv_len (sp_suite (v_next_tx v)) \<and>
      sp_ctx (v_next_tx v') = snd (ca_setkey (su_cipher (sp_suite (v_next_tx v))) (sp_ctx (v_next_tx v)) tk) \<and>
      sp_ctx (v_next_rx v') = snd (ca_setkey (su_cipher (sp_suite (v_next_tx v))) (sp_ctx (v_next_rx v)) rk))"

definition key_block_len :: "'c tls_hs \<Rightarrow> nat" where
  "key_block_len s = (let suite = sp_suite (v_next_tx (y_conn s)) in 2 * (su_mac_len suite + su_key_len suite + su_fixed_iv_len suite))"

definition key_block :: "'c hs_env \<Rightarrow> 'c tls_hs \<Rightarrow> bytes" where
  "key_block E s = prf_ref E s (str_bytes ''key expansion'' @ y_server_random s @ v_client_random (y_conn s)) (key_block_len s)"

lemma split_keys_set:
  assumes "sp_suite (v_next_rx (y_conn s)) = sp_suite (v_next_tx (y_conn s))" "accepts_keys (sp_suite (v_next_tx (y_conn s)))"
    "length block = key_block_len s"
  obtains tx rx where "split_keys block s = (OK, upd_conn (\<lambda>v. v\<lparr>v_next_tx := tx, v_next_rx := rx\<rparr>) s)"
    "keys_set block (y_conn s) ((y_conn s)\<lparr>v_next_tx := tx, v_next_rx := rx\<rparr>)"
proof -
  obtain tm rm tk rk ti ri where parts: "block = tm @ rm @ tk @ rk @ ti @ ri" "length tm = su_mac_len (sp_suite (v_next_tx (y_conn s)))"
    "length rm = su_mac_len (sp_suite (v_next_tx (y_conn s)))" "length tk = su_key_len (sp_suite (v_next_tx (y_conn s)))"
    "length rk = su_key_len (sp_suite (v_next_tx (y_conn s)))" "length ti = su_fixed_iv_len (sp_suite (v_next_tx (y_conn s)))"
    "length ri = su_fixed_iv_len (sp_suite (v_next_tx (y_conn s)))"
    using assms(3) unfolding key_block_len_def Let_def by (rule six_parts)
  show thesis
    by (rule that [OF split_keys_parts [OF assms(1,2) parts]]) (use parts assms(1) in \<open>auto simp: keys_set_def\<close>)
qed

lemma generate_keys_set:
  assumes "prf_ok E s" "sp_suite (v_next_rx (y_conn s)) = sp_suite (v_next_tx (y_conn s))" "accepts_keys (sp_suite (v_next_tx (y_conn s)))"
  obtains tx rx where "tls_generate_keys E s = Some (OK, upd_conn (\<lambda>v. v\<lparr>v_next_tx := tx, v_next_rx := rx\<rparr>) s)"
    "keys_set (key_block E s) (y_conn s) ((y_conn s)\<lparr>v_next_tx := tx, v_next_rx := rx\<rparr>)"
proof -
  have gen: "tls_generate_keys E s = Some (split_keys (key_block E s) s)"
    by (simp add: tls_generate_keys_def tls_prf_label_ref [OF assms(1)] key_block_def key_block_len_def Let_def)
  have "length (key_block E s) = key_block_len s" using assms(1) by (simp add: key_block_def)
  from split_keys_set [OF assms(2,3) this] show thesis using gen that by metis
qed

section \<open>Resumption\<close>

text \<open>The key of an HMAC for a secret that is not longer than a block is the secret, padded.\<close>

definition hmac_pads :: "digest_algorithm \<Rightarrow> bool" where
  "hmac_pads digest \<longleftrightarrow>
    (\<forall>secret. length secret \<le> 48 \<longrightarrow> length (dg_key digest secret) = dg_keysize digest \<and> take (length secret) (dg_key digest secret) = secret)"

definition schedule_of :: "'c tls_hs \<Rightarrow> digest_algorithm \<times> bytes \<times> u16" where
  "schedule_of s = (y_digest s, y_kdf s, v_version (y_conn s))"

lemma tls_version_cong: "v_version (y_conn s) = v_version (y_conn t) \<Longrightarrow> tls_version E version s = tls_version E version t"
  by (simp add: tls_version_def)

lemma kdf_master_frame [simp]:
  "y_digest (tls_set_kdf_master E secret s) = y_digest s" "y_conn (tls_set_kdf_master E secret s) = y_conn s"
  "y_session (tls_set_kdf_master E secret s) = y_session s" "y_bound (tls_set_kdf_master E secret s) = y_bound s"
  "y_keyed (tls_set_kdf_master E secret s) = y_keyed s" "y_server_random (tls_set_kdf_master E secret s) = y_server_random s"
  "y_session_id (tls_set_kdf_master E secret s) = y_session_id s" "y_new_ticket (tls_set_kdf_master E secret s) = y_new_ticket s"
  "y_verify_client (tls_set_kdf_master E secret s) = y_verify_client s" "y_verify_server (tls_set_kdf_master E secret s) = y_verify_server s"
  by (simp_all add: tls_set_kdf_master_def Let_def)

lemma kdf_master_cong:
  "y_digest s = y_digest t \<Longrightarrow> v_version (y_conn s) = v_version (y_conn t) \<Longrightarrow>
   y_kdf (tls_set_kdf_master E secret s) = y_kdf (tls_set_kdf_master E secret t)"
  using tls_version_cong [of s t E TLS_VERSION_TLS_1_2] by (simp add: tls_set_kdf_master_def Let_def)

lemma resumption_secret:
  assumes "hmac_pads (y_digest s)" "hmac_pads (x_md5 E)" "hmac_pads (x_sha1 E)" "length secret = 48"
    and "schedule_of t = schedule_of (tls_set_kdf_master E secret s)"
  shows "z_secret (y_session (tls_generate_resumption_master E t)) = secret"
proof -
  have kdf: "y_kdf t = y_kdf (tls_set_kdf_master E secret s)" and ver: "tls_version E version t = tls_version E version s" for version
    using assms(5) by (auto simp: schedule_of_def tls_version_def)
  have md5: "length (dg_key (x_md5 E) (take 24 secret)) = dg_keysize (x_md5 E)" "take 24 (dg_key (x_md5 E) (take 24 secret)) = take 24 secret"
    using assms(2,4) by (auto simp: hmac_pads_def dest!: spec [of _ "take 24 secret"])
  have sha1: "take 24 (dg_key (x_sha1 E) (drop 24 secret)) = drop 24 secret"
    using assms(3,4) by (auto simp: hmac_pads_def dest!: spec [of _ "drop 24 secret"])
  have "take 48 (dg_key (y_digest s) secret) = secret"
    using assms(1,4) by (auto simp: hmac_pads_def dest!: spec [of _ secret])
  then show ?thesis
    using md5 sha1 assms(4) by (simp add: tls_generate_resumption_master_def kdf ver tls_set_kdf_master_def Let_def)
qed

lemma resume_secret_state:
  assumes "z_secret (y_session u) = secret" "secret \<noteq> []" "y_digest u = y_digest s" "v_version (y_conn u) = v_version (y_conn s)"
  shows "y_kdf (tls_resume_secret E u) = y_kdf (tls_set_kdf_master E secret s)" "y_keyed (tls_resume_secret E u)"
    "y_bound (tls_resume_secret E u) = z_cert (y_session u)"
  using assms kdf_master_cong [of u s E secret]
  by (simp_all add: tls_resume_secret_def tls_set_binding_def tls_clear_binding_def Let_def)

lemma master_secret_set:
  assumes "prf_ok E s"
  obtains secret where "tls_generate_master_secret E s = Some (tls_set_kdf_master E secret s)" "length secret = 48"
  using that assms
  by (cases "v_extended_master_secret (y_conn s)") (simp_all add: tls_generate_master_secret_def tls_prf_label_ref)

text \<open>What an accepted Finished says, and what it records.\<close>

lemma new_finished_ok:
  assumes "tls_new_finished E msg t = Some (OK, t')"
  shows "tls_prf_label E 12 ''server finished'' [tls_verify_handshake t] t = Some msg" "y_keyed t" "y_bound t \<noteq> None" "dg_size (y_digest t) \<noteq> 0"
    "\<exists>u. y_session t' = y_session (record_session E u) \<and> schedule_of u = schedule_of t \<and> y_bound u = y_bound t \<and>
       y_session_id u = y_session_id t \<and> y_new_ticket u = y_new_ticket t \<and> y_session u = y_session t"
  using assms
  by (auto simp: tls_new_finished_def Let_def bind_eq_Some_conv upd_conn_def schedule_of_def split: if_splits)

lemma record_session_frame: "schedule_of (record_session E u) = schedule_of u"
  by (simp add: record_session_def schedule_of_def tls_generate_resumption_master_def Let_def)

lemma record_session_valid:
  assumes "y_bound u = Some cert" "x_valid E cert" "y_session_id u \<noteq> [] \<or> y_new_ticket u \<noteq> []"
  shows "z_secret (y_session (record_session E u)) = z_secret (y_session (tls_generate_resumption_master E u))"
    "z_cert (y_session (record_session E u)) = Some cert"
  using assms by (simp_all add: record_session_def tls_generate_resumption_master_def Let_def)

lemma record_session_invalid: "(\<And>cert. y_bound u = Some cert \<Longrightarrow> \<not> x_valid E cert) \<Longrightarrow> record_session E u = u"
  by (auto simp: record_session_def split: option.splits)

section \<open>The Server Hello\<close>

text \<open>The renegotiation information that the loop over the extensions reports lies inside the message.\<close>

definition reneg_in :: "bytes \<Rightarrow> nat option \<Rightarrow> bool" where
  "reneg_in msg reneg \<longleftrightarrow> (\<forall>off. reneg = Some off \<longrightarrow> (\<exists>len. hello_field off 1 msg = Some len \<and> off + 1 + len \<le> length msg))"

lemma hello_field_in: "off + n \<le> length msg \<Longrightarrow> hello_field off n msg = Some (of_be (get_at off n msg))"
  by (simp add: hello_field_def)

lemma hello_exts_safe:
  assumes "ext + remaining \<le> length msg" "reneg_in msg reneg"
  shows "hello_exts msg ext remaining reneg ems = Inl (Err EINVAL_HELLO) \<or>
    (\<exists>reneg' ems'. hello_exts msg ext remaining reneg ems = Inr (reneg', ems') \<and> reneg_in msg reneg')"
  using assms
proof (induction msg ext remaining reneg ems rule: hello_exts.induct)
  case (1 msg ext remaining reneg ems)
  show ?case
  proof (cases "remaining = 0 \<or> remaining < 4")
    case True
    then show ?thesis using "1.prems" by (auto simp: hello_exts.simps [of msg ext remaining])
  next
    case False
    define ext_len where "ext_len = of_be (get_at (ext + 2) 2 msg)"
    define type where "type = of_be (get_at ext 2 msg)"
    have fields: "hello_field (ext + 2) 2 msg = Some ext_len" "hello_field ext 2 msg = Some type"
      using False "1.prems" by (simp_all add: hello_field_def ext_len_def type_def)
    show ?thesis
    proof (cases "remaining - 4 < ext_len")
      case True
      then show ?thesis using False fields by (simp add: hello_exts.simps [of msg ext remaining])
    next
      case room: False
      have more: "ext + 4 + ext_len + (remaining - (4 + ext_len)) \<le> length msg" using room False "1.prems" by linarith
      show ?thesis
      proof (cases "type = TLS_RENEGOTIATION_INFO")
        case other: False
        show ?thesis
          using "1.IH"(2) [OF _ _ fields(1) room fields(2) other more] False room fields other "1.prems"(2)
          by (simp add: hello_exts.simps [of msg ext remaining])
      next
        case reneg: True
        define len where "len = of_be (get_at (ext + 4) 1 msg)"
        show ?thesis
        proof (cases "ext_len < 1 \<or> ext_len - 1 < len")
          case True
          have "0 < ext_len \<Longrightarrow> hello_field (ext + 4) 1 msg = Some len" using room False "1.prems" by (simp add: hello_field_def len_def)
          then show ?thesis using True False room fields reneg by (auto simp: hello_exts.simps [of msg ext remaining])
        next
          case fits: False
          have "ext + 4 + 1 \<le> length msg" using fits room False "1.prems" by linarith
          then have field: "hello_field (ext + 4) 1 msg = Some len" by (simp add: hello_field_def len_def)
          have "reneg_in msg (Some (ext + 4))" using field fits room False "1.prems" by (auto simp: reneg_in_def)
          from "1.IH"(1) [OF _ _ fields(1) room fields(2) reneg _ field _ more this] False room fields reneg field fits
          show ?thesis by (simp add: hello_exts.simps [of msg ext remaining])
        qed
      qed
    qed
  qed
qed

lemma hello_ext_block_safe:
  assumes "exts + remaining \<le> length msg"
  shows "hello_ext_block msg exts remaining = Inl (Err EINVAL_HELLO) \<or>
    (\<exists>reneg ems. hello_ext_block msg exts remaining = Inr (reneg, ems) \<and> reneg_in msg reneg)"
proof (cases "remaining < 2 \<or> remaining - 2 < of_be (get_at exts 2 msg)")
  case True
  have none: "reneg_in msg None" by (simp add: reneg_in_def)
  show ?thesis using True assms none by (cases "remaining = 0") (auto simp: hello_ext_block_def hello_field_def)
next
  case False
  then have eq: "hello_ext_block msg exts remaining = hello_exts msg (exts + 2) (of_be (get_at exts 2 msg)) None False"
    using assms by (simp add: hello_ext_block_def hello_field_def)
  show ?thesis unfolding eq by (rule hello_exts_safe) (use assms False in \<open>auto simp: reneg_in_def\<close>)
qed

lemma parse_hello_safe:
  "parse_hello msg = Inl (Err EINVAL_HELLO) \<or>
   (\<exists>h. parse_hello msg = Inr h \<and> reneg_in msg (sh_reneg h) \<and> sh_random h = get_at 2 32 msg)"
proof (cases "length msg < 35 \<or> length msg - 35 < of_be (get_at 34 1 msg) \<or> length msg - 35 - of_be (get_at 34 1 msg) < 3")
  case True
  then show ?thesis by (auto simp: parse_hello_def hello_field_def Let_def)
next
  case False
  define id_len where "id_len = of_be (get_at 34 1 msg)"
  define remaining where "remaining = length msg - 35 - id_len - 3"
  have bound: "35 + id_len + 3 + remaining = length msg" using False unfolding remaining_def id_len_def by linarith
  have fields: "hello_field 34 1 msg = Some id_len" "hello_field 0 2 msg = Some (of_be (get_at 0 2 msg))"
    "hello_field (35 + id_len) 2 msg = Some (of_be (get_at (35 + id_len) 2 msg))"
    using bound by (simp_all add: hello_field_def id_len_def)
  have "\<not> length msg < 35" "\<not> (length msg - 35 < id_len \<or> length msg - 35 - id_len < 3)" using False by (simp_all add: id_len_def)
  moreover have rest: "length msg - (38 + id_len) = remaining" using bound by simp
  ultimately show ?thesis
    using hello_ext_block_safe [of "35 + id_len + 3" remaining msg] bound
    unfolding parse_hello_def Let_def fields by (auto simp: fields(3) rest)
qed

lemma check_reneg_safe:
  assumes "reneg_in msg reneg" "check_reneg msg reneg s = (r, s')"
  shows "r \<noteq> Fault" "\<exists>b. s' = upd_conn (v_secure_renegotiation_update (\<lambda>_. b)) s"
    "r = OK \<Longrightarrow> v_secure_renegotiation (y_conn s) \<Longrightarrow> sublist (y_verify_client s @ y_verify_server s) msg"
proof -
  have id: "upd_conn (v_secure_renegotiation_update (\<lambda>_. v_secure_renegotiation (y_conn s))) s = s" by (simp add: upd_conn_def)
  show "\<exists>b. s' = upd_conn (v_secure_renegotiation_update (\<lambda>_. b)) s"
    using assms(2) id [symmetric] by (auto simp: check_reneg_def split: if_splits option.splits)
  show "r \<noteq> Fault" using assms by (cases reneg) (auto simp: check_reneg_def reneg_in_def split: if_splits)
  have sub: "sublist (get_at off n msg) msg" for off n
    unfolding get_at_def by (meson sublist_take sublist_drop sublist_order.order_trans)
  show "sublist (y_verify_client s @ y_verify_server s) msg" if "r = OK" "v_secure_renegotiation (y_conn s)"
    using assms(2) that sub by (auto simp: check_reneg_def split: if_splits option.splits) metis
qed

text \<open>What selecting a cipher suite leaves alone.\<close>

definition hello_kept :: "'c tls_hs \<Rightarrow> 'c tls_hs \<Rightarrow> bool" where
  "hello_kept s s' \<longleftrightarrow> y_session s' = y_session s \<and> y_session_id s' = y_session_id s \<and> y_verify_client s' = y_verify_client s \<and>
    y_verify_server s' = y_verify_server s \<and> v_version (y_conn s') = v_version (y_conn s) \<and>
    v_secure_renegotiation (y_conn s') = v_secure_renegotiation (y_conn s) \<and> v_client_random (y_conn s') = v_client_random (y_conn s)"

lemma set_digest_state:
  assumes "tls_set_digest E digest s = (r, s')"
  shows "r \<noteq> Fault" "hello_kept s s'" "\<not> y_keyed s'" "y_bound s' = None" "r = OK \<Longrightarrow> y_digest s' = digest"
  using assms
  by (auto simp: tls_set_digest_def tls_clear_digest_def tls_clear_binding_def upd_conn_def v_tick_def hello_kept_def Let_def split: if_splits)

lemma set_cipher_state:
  "fst (tls_set_cipher E suite s) \<noteq> Fault" "fst (tls_set_cipher E suite s) = OK \<Longrightarrow> sp_suite (snd (tls_set_cipher E suite s)) = suite"
  by (auto simp: tls_set_cipher_def split: if_splits)

definition suites_ok :: "'c hs_env \<Rightarrow> bool" where
  "suites_ok E \<longleftrightarrow> hash_ok (x_md5 E) \<and> hash_ok (x_sha1 E) \<and> (\<forall>suite \<in> set (x_suites E). hash_ok (su_handshake suite) \<and> accepts_keys suite)"

lemma select_cipher_state:
  assumes "tls_select_cipher E code s = (r, s')"
  shows "r \<noteq> Fault" "hello_kept s s'"
    "r = OK \<Longrightarrow> \<exists>suite \<in> set (x_suites E). su_code suite = code \<and> sp_suite (v_next_tx (y_conn s')) = suite \<and> sp_suite (v_next_rx (y_conn s')) = suite \<and>
      y_digest s' = (if tls_version E TLS_VERSION_TLS_1_2 s then su_handshake suite else x_md5_sha1 E) \<and> \<not> y_keyed s' \<and> y_bound s' = None"
proof -
  consider (none) "tls_find_cipher_suite E code = None" | (some) suite where "tls_find_cipher_suite E code = Some suite" by fastforce
  then have "r \<noteq> Fault \<and> hello_kept s s' \<and> (r = OK \<longrightarrow> (\<exists>suite \<in> set (x_suites E). su_code suite = code \<and> sp_suite (v_next_tx (y_conn s')) = suite \<and> sp_suite (v_next_rx (y_conn s')) = suite \<and>
      y_digest s' = (if tls_version E TLS_VERSION_TLS_1_2 s then su_handshake suite else x_md5_sha1 E) \<and> \<not> y_keyed s' \<and> y_bound s' = None))"
  proof cases
    case none
    then show ?thesis using assms by (auto simp: tls_select_cipher_def hello_kept_def)
  next
    case some
    define digest where "digest = (if tls_version E TLS_VERSION_TLS_1_2 s then su_handshake suite else x_md5_sha1 E)"
    obtain q t where dig: "tls_set_digest E digest s = (q, t)" by fastforce
    have suite: "suite \<in> set (x_suites E)" "su_code suite = code"
      using some by (auto simp: tls_find_cipher_suite_def find_Some_iff)
    note dig' = set_digest_state [OF dig]
    have "r \<noteq> Fault \<and> hello_kept s s' \<and> (r = OK \<longrightarrow> sp_suite (v_next_tx (y_conn s')) = suite \<and> sp_suite (v_next_rx (y_conn s')) = suite \<and>
        y_digest s' = digest \<and> \<not> y_keyed s' \<and> y_bound s' = None)"
      using assms dig' set_cipher_state [of E suite]
      by (cases q) (auto simp: tls_select_cipher_def some digest_def [symmetric] dig hello_kept_def upd_conn_def v_tick_def Let_def split_beta split: if_splits)
    then show ?thesis using suite unfolding digest_def by metis
  qed
  then show "r \<noteq> Fault" "hello_kept s s'"
    "r = OK \<Longrightarrow> \<exists>suite \<in> set (x_suites E). su_code suite = code \<and> sp_suite (v_next_tx (y_conn s')) = suite \<and> sp_suite (v_next_rx (y_conn s')) = suite \<and>
      y_digest s' = (if tls_version E TLS_VERSION_TLS_1_2 s then su_handshake suite else x_md5_sha1 E) \<and> \<not> y_keyed s' \<and> y_bound s' = None"
    by blast+
qed

lemma resume_secret_frame [simp]:
  "y_digest (tls_resume_secret E s) = y_digest s" "y_conn (tls_resume_secret E s) = y_conn s" "y_session (tls_resume_secret E s) = y_session s"
  "y_server_random (tls_resume_secret E s) = y_server_random s" "y_session_id (tls_resume_secret E s) = y_session_id s"
  "y_verify_client (tls_resume_secret E s) = y_verify_client s" "y_verify_server (tls_resume_secret E s) = y_verify_server s"
  by (simp_all add: tls_resume_secret_def tls_set_binding_def tls_clear_binding_def Let_def)

lemma resume_secret_bound: "y_bound (tls_resume_secret E s) \<noteq> None \<Longrightarrow> y_bound (tls_resume_secret E s) = z_cert (y_session s) \<and> z_secret (y_session s) \<noteq> []"
  by (auto simp: tls_resume_secret_def tls_set_binding_def tls_clear_binding_def Let_def split: if_splits)

lemma generate_keys_returns:
  assumes "suites_ok E" "sp_suite (v_next_tx (y_conn s)) \<in> set (x_suites E)" "sp_suite (v_next_rx (y_conn s)) = sp_suite (v_next_tx (y_conn s))"
    "tls_version E TLS_VERSION_TLS_1_2 s \<Longrightarrow> y_digest s = su_handshake (sp_suite (v_next_tx (y_conn s)))"
  obtains tx rx where "tls_generate_keys E s = Some (OK, upd_conn (\<lambda>v. v\<lparr>v_next_tx := tx, v_next_rx := rx\<rparr>) s)"
    "sp_suite tx = sp_suite (v_next_tx (y_conn s))" "sp_suite rx = sp_suite (v_next_tx (y_conn s))"
proof -
  have "prf_ok E s" "accepts_keys (sp_suite (v_next_tx (y_conn s)))"
    using assms by (auto simp: prf_ok_def suites_ok_def)
  from generate_keys_set [OF this(1) assms(3) this(2)] show thesis using that by (auto simp: keys_set_def)
qed

definition hello_accepted :: "'c hs_env \<Rightarrow> bytes \<Rightarrow> 'c tls_hs \<Rightarrow> 'c tls_hs \<Rightarrow> bool" where
  "hello_accepted E msg s s' \<longleftrightarrow>
    x_min_version E \<le> v_version (y_conn s') \<and> v_version (y_conn s') \<le> v_version (y_conn s) \<and>
    sp_suite (v_next_tx (y_conn s')) \<in> set (x_suites E) \<and> sp_suite (v_next_rx (y_conn s')) = sp_suite (v_next_tx (y_conn s')) \<and>
    y_server_random s' = get_at 2 32 msg \<and>
    (v_secure_renegotiation (y_conn s) \<longrightarrow> sublist (y_verify_client s @ y_verify_server s) msg) \<and>
    (y_bound s' \<noteq> None \<longrightarrow> y_bound s' = z_cert (y_session s) \<and> z_secret (y_session s) \<noteq> [] \<and>
       y_session_id s \<noteq> [] \<and> y_session_id s' = y_session_id s \<and> v_extended_master_secret (y_conn s') = z_ems (y_session s))"

text \<open>The state after an accepted choice of the suite, and the rest of the function from there.\<close>

definition hello_state :: "'c hs_env \<Rightarrow> server_hello \<Rightarrow> 'c tls_hs \<Rightarrow> 'c tls_hs" where
  "hello_state E h t = upd_conn (v_extended_master_secret_update (\<lambda>_. sh_ems h)) ((upd_conn (tls_add_handshake (client_hello E t)) t)\<lparr>y_server_random := sh_random h\<rparr>)"

lemma server_hello_rest:
  assumes "parse_hello msg = Inr h" "x_min_version E \<le> sh_version h" "sh_version h \<le> v_version (y_conn s)"
    and "tls_select_cipher E (sh_cipher_suite h) (upd_conn (v_version_update (\<lambda>_. sh_version h)) s) = (OK, t)" and "u = hello_state E h t"
  shows "tls_new_server_hello E msg s =
    (let id = sh_session_id h in
     if id \<noteq> [] \<and> id = y_session_id u then do {
       (r, s) \<leftarrow> tls_generate_keys E (tls_resume_secret E u);
       Some (if r \<noteq> OK then (r, s) else if sh_ems h \<noteq> z_ems (y_session s) then (Err EPERM_EMS, s) else check_reneg msg (sh_reneg h) s) }
     else Some (check_reneg msg (sh_reneg h) (if id \<noteq> [] \<and> length id \<le> 32 then u\<lparr>y_session_id := id\<rparr> else u)))"
  using assms by (simp add: tls_new_server_hello_def hello_state_def Let_def not_less [symmetric])

lemma hello_selected:
  assumes E: "suites_ok E" and reneg: "reneg_in msg (sh_reneg h)" "sh_random h = get_at 2 32 msg" "x_min_version E \<le> sh_version h"
    "sh_version h \<le> v_version (y_conn s)" "parse_hello msg = Inr h"
    and sel: "tls_select_cipher E (sh_cipher_suite h) (upd_conn (v_version_update (\<lambda>_. sh_version h)) s) = (OK, t)"
  shows "\<exists>r s'. tls_new_server_hello E msg s = Some (r, s') \<and> r \<noteq> Fault \<and> (r = OK \<longrightarrow> hello_accepted E msg s s')"
proof -
  define u where "u = hello_state E h t"
  have kept: "hello_kept (upd_conn (v_version_update (\<lambda>_. sh_version h)) s) u"
    using select_cipher_state(2) [OF sel] by (simp add: u_def hello_state_def hello_kept_def upd_conn_def tls_add_handshake_def)
  have ver: "v_version (y_conn u) = sh_version h" "v_secure_renegotiation (y_conn u) = v_secure_renegotiation (y_conn s)"
    "y_session u = y_session s" "y_session_id u = y_session_id s" "y_verify_client u = y_verify_client s" "y_verify_server u = y_verify_server s"
    using kept by (simp_all add: hello_kept_def upd_conn_def)
  have u: "sp_suite (v_next_tx (y_conn u)) \<in> set (x_suites E)" "sp_suite (v_next_rx (y_conn u)) = sp_suite (v_next_tx (y_conn u))"
    "tls_version E TLS_VERSION_TLS_1_2 u \<Longrightarrow> y_digest u = su_handshake (sp_suite (v_next_tx (y_conn u)))"
    "y_server_random u = sh_random h" "v_extended_master_secret (y_conn u) = sh_ems h" "y_bound u = None"
    using select_cipher_state(2,3) [OF sel] by (auto simp: u_def hello_state_def upd_conn_def tls_add_handshake_def tls_version_def hello_kept_def split: if_splits)
  note head = server_hello_rest [OF reneg(5,3,4) sel u_def]
  show ?thesis
  proof (cases "sh_session_id h \<noteq> [] \<and> sh_session_id h = y_session_id u")
    case True
    obtain tx rx where keys: "tls_generate_keys E (tls_resume_secret E u) = Some (OK, upd_conn (\<lambda>v. v\<lparr>v_next_tx := tx, v_next_rx := rx\<rparr>) (tls_resume_secret E u))"
      and tx: "sp_suite tx = sp_suite (v_next_tx (y_conn u))" "sp_suite rx = sp_suite (v_next_tx (y_conn u))"
      by (rule generate_keys_returns [OF E, of "tls_resume_secret E u"]) (use u tls_version_cong [of "tls_resume_secret E u" u E] in simp_all)
    define w where "w = upd_conn (\<lambda>v. v\<lparr>v_next_tx := tx, v_next_rx := rx\<rparr>) (tls_resume_secret E u)"
    obtain r s' where ren: "check_reneg msg (sh_reneg h) w = (r, s')" by fastforce
    obtain b where s': "s' = upd_conn (v_secure_renegotiation_update (\<lambda>_. b)) w" using check_reneg_safe(2) [OF reneg(1) ren] by auto
    have "hello_accepted E msg s s'" if "r = OK" "sh_ems h = z_ems (y_session u)"
      using that s' tx u ver reneg check_reneg_safe(3) [OF reneg(1) ren] True resume_secret_bound [of E u]
      by (auto simp: hello_accepted_def w_def upd_conn_def)
    then show ?thesis
      using True head keys ren check_reneg_safe(1) [OF reneg(1) ren] by (auto simp: w_def upd_conn_def)
  next
    case False
    define w where "w = (if sh_session_id h \<noteq> [] \<and> length (sh_session_id h) \<le> 32 then u\<lparr>y_session_id := sh_session_id h\<rparr> else u)"
    obtain r s' where ren: "check_reneg msg (sh_reneg h) w = (r, s')" by fastforce
    obtain b where s': "s' = upd_conn (v_secure_renegotiation_update (\<lambda>_. b)) w" using check_reneg_safe(2) [OF reneg(1) ren] by auto
    have "hello_accepted E msg s s'" if "r = OK"
      using that s' u ver reneg check_reneg_safe(3) [OF reneg(1) ren] by (auto simp: hello_accepted_def w_def upd_conn_def split: if_splits)
    then show ?thesis
      using False head ren check_reneg_safe(1) [OF reneg(1) ren] by (auto simp: w_def Let_def)
  qed
qed

section \<open>The binding of the key schedule\<close>

text \<open>The operations on the key schedule. \<open>bind\<close> is what the two key exchanges do once the server has proved its identity, with whatever
  certificate it has.\<close>

inductive hs_step :: "'c hs_env \<Rightarrow> 'c tls_hs \<Rightarrow> 'c tls_hs \<Rightarrow> bool" for E where
  ephemeral: "hs_step E s (snd (tls_generate_ephemeral_master E s))"
| client_hello: "hs_step E s (snd (tls_send_client_hello E s))"
| server_hello: "tls_new_server_hello E msg s = Some (r, s') \<Longrightarrow> hs_step E s s'"
| agree: "hs_step E s (snd (tls_agree_ephemeral E partner strip s))"
| bind: "hs_step E s (tls_set_binding cert s)"
| master: "tls_generate_master_secret E s = Some s' \<Longrightarrow> hs_step E s s'"
| keys: "tls_generate_keys E s = Some (r, s') \<Longrightarrow> hs_step E s s'"
| ticket: "hs_step E s (snd (tls_new_session_ticket E msg s))"
| client_finished: "tls_send_finished E s = Some (r, s') \<Longrightarrow> hs_step E s s'"
| server_finished: "tls_new_finished E msg s = Some (r, s') \<Longrightarrow> hs_step E s s'"
| clear: "hs_step E s (tls_clear_digest E s)"

text \<open>A binding needs a shared secret, and the session keeps only certificates that were valid.\<close>

definition schedule_inv :: "'c hs_env \<Rightarrow> 'c tls_hs \<Rightarrow> bool" where
  "schedule_inv E s \<longleftrightarrow> (y_bound s \<noteq> None \<longrightarrow> y_keyed s) \<and> (\<forall>cert. z_cert (y_session s) = Some cert \<longrightarrow> x_valid E cert)"

lemma schedule_inv_cong:
  "y_bound s' = y_bound s \<Longrightarrow> y_keyed s' = y_keyed s \<Longrightarrow> z_cert (y_session s') = z_cert (y_session s) \<Longrightarrow> schedule_inv E s \<Longrightarrow> schedule_inv E s'"
  by (simp add: schedule_inv_def)

lemma upd_conn_frame [simp]:
  "y_bound (upd_conn f s) = y_bound s" "y_keyed (upd_conn f s) = y_keyed s" "y_session (upd_conn f s) = y_session s"
  by (simp_all add: upd_conn_def)

lemma split_keys_frame: "\<exists>f. snd (split_keys block s) = upd_conn f s"
  by (simp add: split_keys_def Let_def split_beta) blast

lemma check_reneg_frame: "\<exists>f. snd (check_reneg msg reneg s) = upd_conn f s"
proof -
  have "upd_conn id s = s" by (simp add: upd_conn_def)
  then show ?thesis by (auto simp: check_reneg_def split: option.split) metis+
qed

lemma generate_keys_inv: "tls_generate_keys E s = Some (r, s') \<Longrightarrow> schedule_inv E s \<Longrightarrow> schedule_inv E s'"
  using split_keys_frame [of _ s] by (auto simp: tls_generate_keys_def Let_def bind_eq_Some_conv intro: schedule_inv_cong) (metis schedule_inv_cong snd_conv upd_conn_frame)

lemma check_reneg_inv: "schedule_inv E s \<Longrightarrow> schedule_inv E (snd (check_reneg msg reneg s))"
  using check_reneg_frame [of msg reneg s] by (auto intro: schedule_inv_cong)

lemma set_binding_inv: "schedule_inv E s \<Longrightarrow> schedule_inv E (tls_set_binding cert s)"
  by (simp add: schedule_inv_def tls_set_binding_def tls_clear_binding_def Let_def)

lemma resume_secret_inv: "schedule_inv E s \<Longrightarrow> schedule_inv E (tls_resume_secret E s)"
  by (simp add: schedule_inv_def tls_resume_secret_def tls_set_binding_def tls_clear_binding_def Let_def)

lemma select_cipher_inv:
  assumes "schedule_inv E s"
  shows "schedule_inv E (snd (tls_select_cipher E code s))"
proof (cases "tls_find_cipher_suite E code")
  case (Some suite)
  define digest where "digest = (if tls_version E TLS_VERSION_TLS_1_2 s then su_handshake suite else x_md5_sha1 E)"
  obtain q t where dig: "tls_set_digest E digest s = (q, t)" by fastforce
  have t: "schedule_inv E t" using set_digest_state(2,4) [OF dig] assms by (simp add: schedule_inv_def hello_kept_def)
  show ?thesis
    unfolding tls_select_cipher_def Some option.case digest_def [symmetric] dig
    by (rule then_ok_state) (use t in \<open>auto simp: Let_def split_beta intro: schedule_inv_cong\<close>)
qed (simp add: tls_select_cipher_def assms)

lemma server_hello_inv:
  assumes "tls_new_server_hello E msg s = Some (r, s')" "schedule_inv E s"
  shows "schedule_inv E s'"
proof (cases "parse_hello msg")
  case (Inl e)
  then show ?thesis using assms by (simp add: tls_new_server_hello_def)
next
  case (Inr h)
  obtain q t where sel: "tls_select_cipher E (sh_cipher_suite h) (upd_conn (v_version_update (\<lambda>_. sh_version h)) s) = (q, t)" by fastforce
  have "schedule_inv E (upd_conn (v_version_update (\<lambda>_. sh_version h)) s)" using assms(2) by (simp add: schedule_inv_def)
  from select_cipher_inv [OF this, of "sh_cipher_suite h"] have t: "schedule_inv E t" by (simp add: sel)
  show ?thesis
  proof (cases "q = OK \<and> x_min_version E \<le> sh_version h \<and> sh_version h \<le> v_version (y_conn s)")
    case False
    then have "s' = s \<or> s' = t" using assms(1) Inr sel by (auto simp: tls_new_server_hello_def not_less Let_def split: if_splits)
    then show ?thesis using assms(2) t by blast
  next
    case True
    define u where "u = hello_state E h t"
    have u: "schedule_inv E u" "schedule_inv E (u\<lparr>y_session_id := id\<rparr>)" for id
      using t by (simp_all add: u_def hello_state_def schedule_inv_def)
    have keys: "schedule_inv E w" if "tls_generate_keys E (tls_resume_secret E u) = Some (p, w)" for p w
      using generate_keys_inv [OF that] resume_secret_inv [OF u(1)] by simp
    have reneg: "schedule_inv E w'" if "check_reneg msg (sh_reneg h) w = (p, w')" "schedule_inv E w" for p w w'
      using check_reneg_inv [OF that(2), of msg "sh_reneg h"] that(1) by simp
    show ?thesis
    proof (cases "sh_session_id h \<noteq> [] \<and> sh_session_id h = y_session_id u")
      case resumed: True
      then obtain p w where "tls_generate_keys E (tls_resume_secret E u) = Some (p, w)" "s' = w \<or> (\<exists>p'. check_reneg msg (sh_reneg h) w = (p', s'))"
        using assms(1) server_hello_rest [OF Inr _ _ _ u_def, of s] True sel
        by (auto simp: bind_eq_Some_conv split: if_splits)
      then show ?thesis using keys reneg by metis
    next
      case False
      then obtain p w where "check_reneg msg (sh_reneg h) w = (p, s')" "w = u \<or> (\<exists>id. w = u\<lparr>y_session_id := id\<rparr>)"
        using assms(1) server_hello_rest [OF Inr _ _ _ u_def, of s] True sel
        by (auto simp: Let_def split: if_splits)
      then show ?thesis using reneg u by metis
    qed
  qed
qed

lemma record_session_inv: "schedule_inv E s \<Longrightarrow> schedule_inv E (record_session E s)"
  by (auto simp: schedule_inv_def record_session_def tls_generate_resumption_master_def Let_def split: option.splits)

lemma new_finished_inv: "tls_new_finished E msg s = Some (r, s') \<Longrightarrow> schedule_inv E s \<Longrightarrow> schedule_inv E s'"
proof -
  assume fin: "tls_new_finished E msg s = Some (r, s')" and inv: "schedule_inv E s"
  have "schedule_inv E (upd_conn f (s\<lparr>y_verify_server := verify\<rparr>))" "schedule_inv E (s\<lparr>y_verify_server := verify\<rparr>)" for f verify
    using inv by (simp_all add: schedule_inv_def)
  moreover have "schedule_inv E (upd_conn f s) \<longleftrightarrow> schedule_inv E s" for f s by (simp add: schedule_inv_def)
  ultimately show "schedule_inv E s'"
    using fin inv record_session_inv [of E] by (auto simp: tls_new_finished_def Let_def bind_eq_Some_conv split: if_splits)
qed

lemma hs_step_inv: "hs_step E s s' \<Longrightarrow> schedule_inv E s \<Longrightarrow> schedule_inv E s'"
proof (induction rule: hs_step.induct)
  case (ephemeral s)
  then show ?case by (auto simp: tls_generate_ephemeral_master_def Let_def split_beta intro: schedule_inv_cong)
next
  case (client_hello s)
  then show ?case by (auto simp: tls_send_client_hello_def split_beta intro: schedule_inv_cong)
next
  case (agree s partner strip)
  then show ?case by (auto simp: tls_agree_ephemeral_def Let_def split_beta schedule_inv_def tls_clear_binding_def)
next
  case (master s s')
  then show ?case by (auto simp: tls_generate_master_secret_def bind_eq_Some_conv intro: schedule_inv_cong)
next
  case (ticket s msg)
  then show ?case by (auto simp: tls_new_session_ticket_def Let_def schedule_inv_def)
next
  case (client_finished s r s')
  then show ?case by (auto simp: tls_send_finished_def bind_eq_Some_conv Let_def split_beta schedule_inv_def split: if_splits option.splits)
next
  case (clear s)
  then show ?case by (simp add: tls_clear_digest_def tls_clear_binding_def schedule_inv_def Let_def)
qed (auto intro: server_hello_inv set_binding_inv generate_keys_inv new_finished_inv)

interpretation schedule: invariant_machine "hs_step E" "schedule_inv E" for E
  by unfold_locales (rule hs_step_inv)

section \<open>Properties\<close>

text \<open>A client with the suite of the record layer and a session that can be resumed.\<close>

definition demo_session :: tls_session where
  "demo_session = \<lparr>z_name = [104], z_cert = Some [9], z_id = [7, 7], z_ticket = [], z_secret = [3], z_ems = False\<rparr>"

definition demo_hs :: "byte tls_hs" where
  "demo_hs = \<lparr>y_conn = demo_tls12\<lparr>v_client_random := replicate 32 1\<rparr>, y_digest = demo_digest,
     y_group = \<lparr>gr_name = ''x'', gr_privsize = 1, gr_pubsize = 1, gr_sharedsize = 1, gr_share = (\<lambda>x. (OK, x)), gr_agree = (\<lambda>x y. (OK, x))\<rparr>,
     y_keyed = True, y_bound = Some [9], y_kdf = [3], y_server_random = replicate 32 2, y_verify_client = replicate 12 0,
     y_verify_server = replicate 12 0, y_session_id = [7, 7], y_new_ticket = [], y_session = demo_session\<rparr>"

definition demo_hs_env :: "byte hs_env" where
  "demo_hs_env = \<lparr>x_tls = demo_tls12_env, x_rbg = (\<lambda>_ n. (OK, replicate n 5)), x_hkdf_extract = (\<lambda>salt key. key), x_min_version = 0x0303,
     x_max_version = 0x0303, x_null_digest = demo_digest\<lparr>dg_size := 0\<rparr>, x_md5 = demo_digest, x_sha1 = demo_digest, x_md5_sha1 = demo_digest,
     x_suites = [demo_suite], x_sig_hash_codes = [0x0401], x_group_codes = [], x_valid = (\<lambda>cert. cert = [9])\<rparr>"

lemma demo_hash_ok: "hash_ok demo_digest" "hmac_pads demo_digest"
  by (simp_all add: hash_ok_def demo_digest_def hmac_pads_def resize_def)

lemma demo_hs_ok: "prf_ok demo_hs_env demo_hs" "suites_ok demo_hs_env" "accepts_keys demo_suite"
  using demo_hash_ok by (simp_all add: prf_ok_def suites_ok_def accepts_keys_def demo_hs_env_def demo_hs_def demo_suite_def)

text \<open>C37: Generating the keys of a TLS 1.2 connection always returns. With a cipher that accepts keys of its length it succeeds, and the pending
  cipher specifications hold, in this order, the MAC secrets, keys and fixed initialisation vectors of the client and of the server
  cut from the pseudo-random function of ``key expansion'', the server random and the client random: the key block of the
  specification, in both versions of the function.\<close>

theorem key_block_exact:
  assumes "prf_ok E s" "sp_suite (v_next_rx (y_conn s)) = sp_suite (v_next_tx (y_conn s))" "accepts_keys (sp_suite (v_next_tx (y_conn s)))"
  shows "\<exists>s'. tls_generate_keys E s = Some (OK, s') \<and> keys_set (key_block E s) (y_conn s) (y_conn s')"
  by (rule generate_keys_set [OF assms]) (auto simp: upd_conn_def)

lemma key_block_exact_witness:
  "prf_ok demo_hs_env demo_hs \<and> length (key_block demo_hs_env demo_hs) = 12 \<and>
   (\<exists>s'. tls_generate_keys demo_hs_env demo_hs = Some (OK, s') \<and> keys_set (key_block demo_hs_env demo_hs) (y_conn demo_hs) (y_conn s'))"
proof -
  have "sp_suite (v_next_rx (y_conn demo_hs)) = sp_suite (v_next_tx (y_conn demo_hs))" "accepts_keys (sp_suite (v_next_tx (y_conn demo_hs)))"
    "key_block_len demo_hs = 12"
    using demo_hs_ok by (simp_all add: demo_hs_def demo_tls12_def demo_spec_def key_block_len_def demo_suite_def)
  then show ?thesis
    using key_block_exact [of demo_hs_env demo_hs] demo_hs_ok by (simp add: key_block_def)
qed

text \<open>C38: Every Server Hello gets an answer and none makes the client read outside the message, whatever its bytes are. When it is accepted, the
  version lies between the lowest supported one and the one offered before, both pending cipher specifications have one of the offered suites,
  a secure renegotiation carries the verification data of both sides, and the key schedule is bound to a server only by
  resumption: with the certificate and the non-empty secret of the session, under its own session ID and the same way of making the master secret.\<close>

theorem server_hello_answered:
  assumes "suites_ok E"
  shows "\<exists>r s'. tls_new_server_hello E msg s = Some (r, s') \<and> r \<noteq> Fault \<and> (r = OK \<longrightarrow> hello_accepted E msg s s')"
proof (cases "\<exists>h. parse_hello msg = Inr h \<and> x_min_version E \<le> sh_version h \<and> sh_version h \<le> v_version (y_conn s)")
  case False
  then show ?thesis using parse_hello_safe [of msg] by (auto simp: tls_new_server_hello_def not_le [symmetric])
next
  case True
  then obtain h where h: "parse_hello msg = Inr h" "x_min_version E \<le> sh_version h" "sh_version h \<le> v_version (y_conn s)" by auto
  obtain r t where sel: "tls_select_cipher E (sh_cipher_suite h) (upd_conn (v_version_update (\<lambda>_. sh_version h)) s) = (r, t)" by fastforce
  show ?thesis
  proof (cases "r = OK")
    case True
    then show ?thesis using hello_selected [OF assms _ _ h(2,3,1)] parse_hello_safe [of msg] sel h by auto
  next
    case False
    then have "tls_new_server_hello E msg s = Some (r, t)" using h sel by (simp add: tls_new_server_hello_def not_less [symmetric] Let_def)
    then show ?thesis using select_cipher_state(1) [OF sel] False by simp
  qed
qed

text \<open>An empty session ID is never a resumption: the accepted hello leaves the schedule without a binding.\<close>

definition demo_hello :: bytes where
  "demo_hello = [3, 3] @ replicate 32 2 @ [0] @ [0xc0, 0x27, 0]"

lemma server_hello_answered_witness:
  "suites_ok demo_hs_env \<and> fst (the (tls_new_server_hello demo_hs_env demo_hello demo_hs)) = OK \<and>
   hello_accepted demo_hs_env demo_hello demo_hs (snd (the (tls_new_server_hello demo_hs_env demo_hello demo_hs)))"
proof -
  have fields: "hello_field 34 1 demo_hello = Some 0" "hello_field 0 2 demo_hello = Some 0x0303" "hello_field 35 2 demo_hello = Some 0xc027"
    "length demo_hello = 38" "get_at 2 32 demo_hello = replicate 32 2" "get_at 35 0 demo_hello = []"
    by (simp_all add: hello_field_def get_at_def demo_hello_def of_be_def)
  have "parse_hello demo_hello = Inr \<lparr>sh_version = 0x0303, sh_random = replicate 32 2, sh_session_id = [], sh_cipher_suite = 0xc027, sh_reneg = None, sh_ems = False\<rparr>"
    using fields by (simp add: parse_hello_def hello_ext_block_def)
  then have "fst (the (tls_new_server_hello demo_hs_env demo_hello demo_hs)) = OK"
    by (simp add: tls_new_server_hello_def check_reneg_def tls_select_cipher_def tls_set_digest_def tls_set_cipher_def tls_find_cipher_suite_def
      tls_clear_digest_def tls_clear_binding_def hs_alloc_def upd_conn_def v_tick_def tls_add_handshake_def demo_hs_env_def demo_hs_def demo_tls12_env_def demo_tls12_def
      demo_suite_def Let_def)
  then show ?thesis using server_hello_answered [OF demo_hs_ok(2), of demo_hello demo_hs] demo_hs_ok by auto
qed

text \<open>C39: Whatever messages a TLS 1.2 server sends and in whatever order, the key schedule is bound to a server only while it holds a shared secret, and the
  session keeps only certificates that have been validated. The client never sends its Finished message unless the
  schedule holds a shared secret bound to a validated certificate.\<close>

theorem schedule_bound:
  assumes "(hs_step E)\<^sup>*\<^sup>* s s'" "schedule_inv E s"
  shows "schedule_inv E s' \<and> (\<forall>t. tls_send_finished E s' = Some (OK, t) \<longrightarrow> y_keyed s' \<and> (\<exists>cert. y_bound s' = Some cert \<and> x_valid E cert))"
proof -
  have inv: "schedule_inv E s'" using schedule.reach_inv [OF assms] .
  then show ?thesis by (auto simp: tls_send_finished_def schedule_inv_def split: option.splits if_splits)
qed

text \<open>Agreement on a secret, then the binding to the certificate.\<close>

lemma schedule_bound_witness:
  "let s = demo_hs\<lparr>y_bound := None, y_keyed := False\<rparr>; t = snd (tls_agree_ephemeral demo_hs_env [5] False s); u = tls_set_binding (Some [9]) t in
   schedule_inv demo_hs_env s \<and> (hs_step demo_hs_env)\<^sup>*\<^sup>* s u \<and> schedule_inv demo_hs_env u \<and> y_bound u = Some [9]"
proof -
  define s where "s = demo_hs\<lparr>y_bound := None, y_keyed := False\<rparr>"
  define t where "t = snd (tls_agree_ephemeral demo_hs_env [5] False s)"
  define u where "u = tls_set_binding (Some [9]) t"
  have "hs_step demo_hs_env s t" "hs_step demo_hs_env t u" unfolding t_def u_def by (rule hs_step.agree, rule hs_step.bind)
  then have reach: "(hs_step demo_hs_env)\<^sup>*\<^sup>* s u" by (meson r_into_rtranclp rtranclp.rtrancl_into_rtrancl)
  have inv: "schedule_inv demo_hs_env s" by (simp add: s_def schedule_inv_def demo_hs_def demo_session_def demo_hs_env_def)
  have "y_keyed t"
    by (simp add: t_def s_def tls_agree_ephemeral_def hs_alloc_def demo_hs_env_def demo_tls12_env_def demo_hs_def tls_clear_binding_def Let_def)
  then have "y_bound u = Some [9]" by (simp add: u_def tls_set_binding_def tls_clear_binding_def Let_def)
  then show ?thesis
    using schedule_bound [OF reach inv] reach inv unfolding Let_def s_def [symmetric] t_def [symmetric] u_def [symmetric] by blast
qed

text \<open>C40: The session that an accepted server Finished records can be resumed: a later connection of the session that selects the same version and digest
  gets, from the stored secret alone, the key derivation keys of the recorded connection, holds a shared secret and is bound to the
  validated certificate. The 48 bytes kept of the keys are the master secret, in both layouts.\<close>

theorem session_resumed:
  assumes pads: "hmac_pads (y_digest s)" "hmac_pads (x_md5 E)" "hmac_pads (x_sha1 E)" and ok: "prf_ok E s"
    and master: "tls_generate_master_secret E s = Some m" and sched: "schedule_of t = schedule_of m"
    and fin: "tls_new_finished E msg t = Some (OK, t')" and id: "y_session_id t \<noteq> [] \<or> y_new_ticket t \<noteq> []"
    and valid: "y_bound t = Some cert" "x_valid E cert"
    and later: "y_session u = y_session t'" "y_digest u = y_digest t" "v_version (y_conn u) = v_version (y_conn t)"
  shows "y_kdf (tls_resume_secret E u) = y_kdf t \<and> y_keyed (tls_resume_secret E u) \<and> y_bound (tls_resume_secret E u) = Some cert"
proof -
  obtain secret where m: "m = tls_set_kdf_master E secret s" and len: "length secret = 48"
    by (rule master_secret_set [OF ok]) (use master in simp)
  obtain w where w: "y_session t' = y_session (record_session E w)" "schedule_of w = schedule_of t" "y_bound w = y_bound t"
    "y_session_id w = y_session_id t" "y_new_ticket w = y_new_ticket t"
    using new_finished_ok(5) [OF fin] by auto
  have rec: "z_secret (y_session t') = secret" "z_cert (y_session t') = Some cert"
    using record_session_valid [of w cert E] resumption_secret [OF pads len, of w] w id valid sched m by auto
  have "secret \<noteq> []" using len by auto
  then show ?thesis
    using resume_secret_state [of u secret s E] rec later sched by (auto simp: m schedule_of_def)
qed

text \<open>A full handshake whose session is resumed by a fresh connection.\<close>

lemma session_resumed_witness:
  "\<exists>m t'. tls_generate_master_secret demo_hs_env demo_hs = Some m \<and>
    tls_new_finished demo_hs_env (prf_ref demo_hs_env m (str_bytes ''server finished'' @ tls_verify_handshake m) 12) m = Some (OK, t') \<and>
    y_kdf (tls_resume_secret demo_hs_env (demo_hs\<lparr>y_session := y_session t'\<rparr>)) = y_kdf m \<and>
    y_bound (tls_resume_secret demo_hs_env (demo_hs\<lparr>y_session := y_session t'\<rparr>)) = Some [9]"
proof -
  obtain secret where master: "tls_generate_master_secret demo_hs_env demo_hs = Some (tls_set_kdf_master demo_hs_env secret demo_hs)"
    using master_secret_set [OF demo_hs_ok(1)] by metis
  define m where "m = tls_set_kdf_master demo_hs_env secret demo_hs"
  have ok: "prf_ok demo_hs_env m"
    using demo_hs_ok(1) tls_version_cong [of m demo_hs demo_hs_env] by (simp add: prf_ok_def m_def)
  obtain t' where fin: "tls_new_finished demo_hs_env (prf_ref demo_hs_env m (str_bytes ''server finished'' @ tls_verify_handshake m) 12) m = Some (OK, t')"
  proof -
    have m: "y_keyed m" "y_bound m = Some [9]" "dg_size (y_digest m) \<noteq> 0" by (simp_all add: m_def demo_hs_def demo_digest_def)
    show thesis
      by (rule that) (use m ok in \<open>simp add: tls_new_finished_def tls_prf_label_ref Let_def\<close>)
  qed
  have "y_kdf (tls_resume_secret demo_hs_env (demo_hs\<lparr>y_session := y_session t'\<rparr>)) = y_kdf m \<and>
      y_keyed (tls_resume_secret demo_hs_env (demo_hs\<lparr>y_session := y_session t'\<rparr>)) \<and>
      y_bound (tls_resume_secret demo_hs_env (demo_hs\<lparr>y_session := y_session t'\<rparr>)) = Some [9]"
    by (rule session_resumed [OF _ _ _ demo_hs_ok(1) master refl, of _ t', folded m_def])
      (use fin demo_hash_ok in \<open>simp_all add: m_def demo_hs_def demo_hs_env_def\<close>)
  then show ?thesis using master fin m_def by blast
qed

end
