(* ===== verification/Spec2Isabelle.thy ===== *)
theory Spec2Isabelle
  imports Nvme_Props Nvme_Send Nvme_Auth_Props Nvme_Block_Props Nvme_Query Nvme_Uri_Props
    Tls13_Data Nvo_Props Nbct Tofu Devicekey Realtek_Props Realtek_Legacy Realtek_Phy Smbios_Props
    Pci_Realtek Snponly Tls12_Keys_Props
begin

text \<open>
  Verification of the kurrent firmware, an iPXE derivative for diskless machines that boot from NVMe over
  TCP. The code is under \<^verbatim>\<open>src/reference/src\<close>; file names below are relative to it.

  \<^bold>\<open>The program.\<close> A boot script opens a root path \<^verbatim>\<open>nvmetcp://host/nqn?...\<close>. The NVMe/TCP driver
  (\<^verbatim>\<open>net/tcp/nvmetcp.c\<close>) opens two connections (administration and I/O), optionally through TLS 1.3 with a
  pre-shared key (\<^verbatim>\<open>net/tls13.c\<close>, built on the primitives at the start of \<^verbatim>\<open>net/tls.c\<close>; the rest of that file is
  TLS 1.2, which carries downloads over HTTPS), optionally
  authenticates with DH-HMAC-CHAP (\<^verbatim>\<open>net/tcp/nvmetcp_auth.c\<close>), identifies the namespace and serves block
  reads and writes. The credentials of a session are handed to the operating system in an ACPI table
  (\<^verbatim>\<open>drivers/block/nbct.c\<close>). Device identity and server trust are kept in a block of options
  (\<^verbatim>\<open>core/nvo.c\<close>) that an EFI variable stores (\<^verbatim>\<open>interface/efi/efi_nvs.c\<close>); \<^verbatim>\<open>net/tofu.c\<close> pins the first
  server certificate there, and \<^verbatim>\<open>hci/commands/devicekey_cmd.c\<close> has the commands on the device key.
  The PCI bus (\<^verbatim>\<open>drivers/bus/pci.c\<close>) finds the network card, which \<^verbatim>\<open>drivers/net/realtek.c\<close> drives, or the
  firmware's own driver is used through EFI (\<^verbatim>\<open>drivers/net/efi/snponly.c\<close>); the boot script reads the machine's identity and
  memory through \<^verbatim>\<open>interface/smbios/smbios_settings.c\<close>.

  \<^bold>\<open>Conventions.\<close> A C function is one definition of the same name; a loop or a marked part of a long
  function may be a definition of its own that the function's definition calls. Functions return a
  status \<open>rc\<close>: \<open>OK\<close>, \<open>Err e\<close>, or \<open>Fault\<close> for an access outside an object. State is passed explicitly as a
  record per C structure; records of the environment (\<open>nv_env\<close>, \<open>tls_env\<close>, \<open>nvo_env\<close>, \<open>efi_runtime\<close>,
  \<open>settings_env\<close>, \<open>key_env\<close>, \<open>rtl_env\<close>, \<open>smbios_env\<close>, \<open>pci_env\<close>,
  \<open>snp_env\<close>, \<open>tls12_env\<close>, \<open>hs_env\<close>) stand for code that is not in this repository
  (sockets, allocation, random bits, cryptography, DHCP options, settings, EFI services, the network device
  and its DMA, the SMBIOS table), often with a counter so that answers can change over time. Library code
  that calls the driver back is a tree of such calls (\<open>mii_prog\<close>, \<open>spi_prog\<close>), which the model runs. What is assumed of them is a predicate (\<open>env_ok\<close>, \<open>tls_env_ok\<close>, \<open>aead_ok\<close>, \<open>nvs_ok\<close>,
  \<open>key_env_ok\<close>, \<open>rtl_env_ok\<close>, \<open>smbios_ok\<close>, \<open>suite_ok\<close>, \<open>suite_inverse\<close>) or a locale (\<open>uefi_variables\<close>, \<open>settings_laws\<close>), and each theorem that needs such an
  assumption is applied to a concrete instance after it. Components of a state whose description says so
  (\<open>tx_log\<close>, \<open>events\<close>, \<open>tl_wire\<close>, \<open>tl_plain\<close>, \<open>tl_sealed\<close>, \<open>rn_net\<close>, \<open>rn_regs\<close>,
  \<open>v_wire\<close>, \<open>v_plain\<close>) are histories that the code does not keep.

  \<^bold>\<open>Theories.\<close>

  \<^item> \<open>Fw_Prelude\<close>: bytes, words, status codes, buffers, integer encodings; the contracts \<open>byte_codec\<close>,
    \<open>byte_stream\<close> and \<open>invariant_machine\<close>.
  \<^item> \<open>Nvme_Wire\<close> (\<^verbatim>\<open>include/ipxe/nvmetcp.h\<close>): packed structures with encoders and decoders.
  \<^item> \<open>Nvme_Session\<close>, \<open>Nvme_Auth\<close>, \<open>Nvme_Uri\<close>, \<open>Nvme_Rx\<close> (\<^verbatim>\<open>net/tcp/nvmetcp.c\<close>, \<^verbatim>\<open>net/tcp/nvmetcp_auth.c\<close>):
    transmission, authentication, opening, and the receive path with the block interface and the
    process.
  \<^item> \<open>Nvme_Inv\<close>, \<open>Nvme_Stream\<close>, \<open>Nvme_Machine\<close>, \<open>Nvme_Run\<close>: the session invariant and its
    preservation, independence of segmentation, the state machine of a session and its reachable states,
    the set-up run.
  \<^item> \<open>Nvme_Props\<close>, \<open>Nvme_Send\<close>, \<open>Nvme_Auth_Props\<close>, \<open>Nvme_Block_Props\<close>, \<open>Nvme_Query\<close>, \<open>Nvme_Uri_Props\<close>:
    the theorems about the driver: memory safety of the receive path up to the two named overflows,
    segmentation independence, framing and TLS use in every reachable state, completion of the set-up,
    the authentication gate and the response, block commands, the query parser, and the behaviours in
    which the code departs from its intent.
  \<^item> \<open>Tls13_Crypto\<close>, \<open>Tls13_Crypto_Props\<close> (\<^verbatim>\<open>net/tls.c\<close> lines 60 to 895): key schedule, ClientHello,
    ServerHello, record protection; their layout and round trips.
  \<^item> \<open>Tls13_Conn\<close> (\<^verbatim>\<open>net/tls13.c\<close>): the connection. \<open>Tls13_Conn_Inv\<close> has its invariants, each an
    interpretation of the contract \<open>conn_machine\<close>; \<open>Tls13_Conn_Props\<close>, \<open>Tls13_Flow\<close> and \<open>Tls13_Data\<close> have
    safety, nonce uniqueness, confidentiality of the wire, completion of the handshake, the data round
    trip, the two bypasses of the pre-shared key and the limit of the identity.
  \<^item> \<open>Tls12_Record\<close> (\<^verbatim>\<open>net/tls.c\<close> from line 1060): the record layer of TLS 1.2. \<open>Tls12_Props\<close>: records built in the buffer of
    the plaintext are those of a reference. \<open>Tls12_Receive\<close>: the receive loop returns, records in any
    fragmentation are accepted and their data is delivered, the round trip between two connections, and the
    record without payload that makes the receiver use a null pointer.
  \<^item> \<open>Tls12_Keys\<close> (\<^verbatim>\<open>net/tls.c\<close> lines 1263 to 2152 and 2815 to 3971): the key schedule of TLS 1.2 and the messages that
    drive it; \<open>tls_hs\<close> is the connection of the record layer with the key schedule and its session. \<open>Tls12_Keys_Props\<close>: the key block is
    that of the specification, every Server Hello is answered from inside the message, the binding to a server
    follows the shared secret (\<open>schedule\<close>, an interpretation of \<open>invariant_machine\<close>), and a recorded session resumes with its keys.
  \<^item> \<open>Nvo\<close>, \<open>Efi_Nvs\<close>, \<open>Nvo_Props\<close> (\<^verbatim>\<open>core/nvo.c\<close>, \<^verbatim>\<open>interface/efi/efi_nvs.c\<close>): the options block on the
    contract \<open>block_device\<close>, which EFI variables satisfy; persistence over a restart, detection of
    corruption, the one-byte variable.
  \<^item> \<open>Nbct\<close> (\<^verbatim>\<open>drivers/block/nbct.c\<close> and the reader in \<^verbatim>\<open>initramfs-nbft/nbft-connect\<close>): the table is read as
    it was written.
  \<^item> \<open>Settings\<close>: the interface of the settings core. \<open>Tofu\<close> (\<^verbatim>\<open>net/tofu.c\<close>, \<^verbatim>\<open>tls_validator_done\<close> of
    \<^verbatim>\<open>net/tls.c\<close>): at most one untrusted certificate is ever accepted; the lock-out by a partial failure.
    \<open>Devicekey\<close> (\<^verbatim>\<open>hci/commands/devicekey_cmd.c\<close>): key generation and when it ends, signing, clearing.
  \<^item> \<open>Realtek_Tables\<close>, \<open>Realtek_Regs\<close>, \<open>Realtek\<close> (\<^verbatim>\<open>drivers/net/realtek.c\<close>, \<^verbatim>\<open>drivers/net/realtek.h\<close>): the
    chip and PHY tables; the device state, the register interfaces, the start-up programs and detection;
    the rings, the data path, the EEPROM, probing and removal. The device acts on the shared memory between
    any two accesses of the driver. \<open>Realtek_Hw\<close> has the common contract of register programs, \<open>Realtek_Inv\<close>
    the ring invariants.
  \<^item> \<open>Realtek_Props\<close>: the rings stay well formed in every reachable state and refine a pair of queues.
    \<open>Realtek_Life\<close>: from probe to removal all accesses stay in the mapped window, and all that is acquired
    is released. \<open>Realtek_Legacy\<close>: the receive buffer of the RTL8139. \<open>Realtek_Phy\<close>: what the PHY and
    EPHY programs write.
  \<^item> \<open>Smbios\<close>, \<open>Smbios_Props\<close> (\<^verbatim>\<open>interface/smbios/smbios_settings.c\<close>): the settings over the SMBIOS table;
    what a fetch by tag returns, and the sum of the installed memory.
  \<^item> \<open>Pci\<close>, \<open>Pci_Props\<close>, \<open>Pci_Scan\<close> (\<^verbatim>\<open>drivers/bus/pci.c\<close>): base address registers and their sizing, the scan and
    its completeness, removal when memory runs out. \<open>Pci_Realtek\<close>: the Realtek driver on that bus, with its
    table of cards; every card is bound.
  \<^item> \<open>Snponly\<close> (\<^verbatim>\<open>drivers/net/efi/snponly.c\<close>): which EFI handles the drivers for the boot device accept.
  \<^item> This theory: which names can be booted over TLS, from the driver to the ClientHello.

  \<^bold>\<open>Loops.\<close> There is no fuel. Receive loops are functions with a termination proof (the bytes left, or the
    bytes buffered), and so are the loops over a ring (its free or used descriptors) and the scan of the
    PCI bus (the addresses left); waiting loops count down as in the code. The key generation loop, the walk over the memory devices, the
    walk up the EFI handles and the legacy receive loop, which the environment can keep running for ever, are
    partial functions; for the first the exact condition of termination is proved, for the second and the
    third that they end on every finite table. The receive loop of TLS 1.2 is a partial function too, proved
    to return (\<open>receive_returns\<close>): a round that takes no byte is followed by one that does. So is the loop of the
    pseudo-random function, which returns for every digest with an output (\<open>p_hash_loop_eq\<close>) and for no other (\<open>p_hash_null\<close>).

  \<^bold>\<open>Not modelled.\<close> The messages of TLS 1.2 in \<^verbatim>\<open>net/tls.c\<close> that carry certificates, key exchange parameters and signatures, the
  transmit process and the set-up of a session, except for the hook modelled in \<open>Tofu\<close>: this is upstream code over certificate and public key
  libraries outside the repository. What these messages do to the key schedule, agreement on a secret and the binding to a certificate,
  is modelled. \<^verbatim>\<open>config/\<close> holds compile-time options, \<^verbatim>\<open>include/ipxe/errfile.h\<close> constants of error numbers. Of the
  Realtek driver the register dump is left out. Console output, debug messages, reference counting and the freeing of
  memory are left out everywhere.
\<close>

section \<open>The NVMe/TCP driver over TLS\<close>

text \<open>What the driver hands to the TLS connection when its root path asks for TLS with a key.\<close>

lemma open_socket_tls:
  assumes "0 < length psk" "length psk \<le> 64" "tls_psk s = Some (hex_text psk)" "nvmetcp_use_tls s" "e_open E (clk s) k = OK"
  shows "if length (psk_identity s) < 512
    then \<exists>s'. nvmetcp_open_socket E k ph s = (OK, s') \<and> Connected k (Some (psk, psk_identity s)) \<in> set (events s')
    else nvmetcp_open_socket E k ph s = (Err EINVAL, s)"
proof (cases "length (psk_identity s) < 512")
  case True
  have "nvmetcp_tls_params s = Inr (psk, psk_identity s)"
    using tls_params_roundtrip [OF assms(1-3) True] by (simp add: psk_identity_def)
  then show ?thesis using True assms(4,5)
    by (cases k) (auto simp: nvmetcp_open_socket_def nvmetcp_tx_resume_def Let_def)
next
  case False
  then have "nvmetcp_tls_params s = Inl (Err EINVAL)"
    using assms(1-3) by (simp add: nvmetcp_tls_params_def Let_def hex_decode_text)
  then show ?thesis using False assms(4) by (simp add: nvmetcp_open_socket_def)
qed

text \<open>C25: Which subsystems can be booted over TLS. The driver passes the decoded key and the identity made of the
  host NQN and the subsystem NQN to the TLS connection. The ClientHello is sent only when the two names have
  at most 345 characters together. With 346 to 349 the ClientHello overruns its buffer, with 350 to 501 the
  connection fails at once, and above that the driver refuses to open it. Names of up to 223 characters each
  are valid, so pairs of valid names fail in each of these ways but the last.\<close>

theorem tls_boot_nqn_limit:
  assumes "tls_generous T" "0 < length psk" "length psk \<le> 64" "tls_psk s = Some (hex_text psk)" "nvmetcp_use_tls s"
    "e_open E (clk s) k = OK" "names = length (cstr (host_nqn s)) + length (cstr (subsystem_nqn s))"
  shows "if names \<le> 501
    then (\<exists>s'. nvmetcp_open_socket E k ph s = (OK, s') \<and> Connected k (Some (psk, psk_identity s)) \<in> set (events s')) \<and>
      (if names \<le> 345
       then \<exists>c. add_tls13_psk T n psk (psk_identity s) = (OK, c) \<and> tl_phase c = PSK_SERVER_FLIGHT \<and> length (tl_wire c) = 1
       else if names \<le> 349 then fst (add_tls13_psk T n psk (psk_identity s)) = Fault
       else \<exists>c. add_tls13_psk T n psk (psk_identity s) = (OK, c) \<and> tl_phase c = PSK_FAILED \<and> tl_wire c = [])
    else nvmetcp_open_socket E k ph s = (Err EINVAL, s)"
proof -
  have l: "length (psk_identity s) = names + 10" by (simp add: psk_identity_def assms(7))
  show ?thesis using open_socket_tls [OF assms(2-6), of ph] identity_limit [OF assms(1), of "psk_identity s" n psk]
    by (simp add: l split: if_splits)
qed

theorem tls_boot_nqn_limit_witness:
  "let s = zero_session\<lparr>tls_psk := Some (hex_text [0xde, 0xad]), tls_trsvcid := Some ''4420'', target_port := 4420,
     host_nqn := Some (replicate 173 CHR ''h''), subsystem_nqn := Some (replicate 174 CHR ''s'')\<rparr> in
   fst (nvmetcp_open_socket sample_env Admin PHASE_ICREQ s) = OK \<and>
   fst (add_tls13_psk toy_env 100 [0xde, 0xad] (psk_identity s)) = Fault"
proof -
  let ?s = "zero_session\<lparr>tls_psk := Some (hex_text [0xde, 0xad]), tls_trsvcid := Some ''4420'', target_port := 4420,
     host_nqn := Some (replicate 173 CHR ''h''), subsystem_nqn := Some (replicate 174 CHR ''s'')\<rparr>"
  have "parse_port 0 ''4420'' = Some 4420" by code_simp
  then have "nvmetcp_use_tls ?s" by (simp add: nvmetcp_use_tls_def del: parse_port.simps)
  from tls_boot_nqn_limit [OF toy_generous _ _ _ this, of "[0xde, 0xad]" sample_env Admin 347 PHASE_ICREQ 100] show ?thesis
    by (auto simp: sample_env_def cstr_def Let_def)
qed

end
